(* ===== verification/Prelude.thy ===== *)
theory Prelude
  imports Complex_Main "HOL-Library.Word" "HOL-Library.Finite_Map" "HOL-Library.List_Lexorder"
    "HOL-Library.Char_ord"
begin

text \<open>
  Shared vocabulary of the development.  Go maps are finite maps (\<open>fmap\<close>), so
  equality of states is decidable and every definition evaluates; Go errors are the
  left summand of \<open>'e + 'a\<close>; instants are nanoseconds since Go's zero time, so
  \<open>time.Time.IsZero\<close> is comparison with 0; unsigned 64-bit counters are words.
  The locale \<open>component\<close> is the contract every stateful component of the program
  meets: an invariant that holds initially and is kept by each operation.
\<close>

named_theorems guard_defs "definitions of the guards and validity checks"
named_theorems clone_simps "a defensive copy is the value it copies"

type_synonym time = int
type_synonym duration = int
type_synonym byte = char
type_synonym u64 = "64 word"

abbreviation second :: duration where "second \<equiv> 1000000000"
abbreviation minute :: duration where "minute \<equiv> 60 * second"
abbreviation hour :: duration where "hour \<equiv> 60 * minute"

text \<open>\<open>go_len m\<close> is \<open>len(m)\<close>; \<open>go_has m k\<close> is the second value of \<open>m[k]\<close>.\<close>

definition go_len :: "('k, 'v) fmap \<Rightarrow> nat" where
  "go_len m = fcard (fmdom m)"

definition go_has :: "('k, 'v) fmap \<Rightarrow> 'k \<Rightarrow> bool" where
  "go_has m k = (fmlookup m k \<noteq> None)"

definition go_keys :: "('k::linorder, 'v) fmap \<Rightarrow> 'k list" where
  "go_keys m = sorted_list_of_fset (fmdom m)"

definition go_get :: "'v \<Rightarrow> ('k, 'v) fmap \<Rightarrow> 'k \<Rightarrow> 'v" where
  "go_get zero m k = (case fmlookup m k of None \<Rightarrow> zero | Some v \<Rightarrow> v)"

lemma fmupd_same: "fmlookup m k = Some v \<Longrightarrow> fmupd k v m = m"
  by (rule fmap_ext) auto

lemma go_has_upd [simp]: "go_has (fmupd a v m) k \<longleftrightarrow> k = a \<or> go_has m k"
  by (simp add: go_has_def)

lemma go_has_drop [simp]: "go_has (fmdrop a m) k \<longleftrightarrow> k \<noteq> a \<and> go_has m k"
  by (simp add: go_has_def)

lemma go_has_empty [simp]: "\<not> go_has fmempty k"
  by (simp add: go_has_def)

lemma go_len_empty [simp]: "go_len fmempty = 0"
  by (simp add: go_len_def)

lemma go_len_upd_new: "\<not> go_has m k \<Longrightarrow> go_len (fmupd k v m) = Suc (go_len m)"
  by (simp add: go_len_def go_has_def fcard_finsert_disjoint fmdom_notI)

lemma go_len_upd_old: "go_has m k \<Longrightarrow> go_len (fmupd k v m) = go_len m"
  by (auto simp add: go_len_def go_has_def finsert_absorb fmdomI)

lemma go_len_pos: "go_has m k \<Longrightarrow> 0 < go_len m"
proof -
  assume "go_has m k"
  then have "k |\<in>| fmdom m" by (auto simp: go_has_def fmdomI)
  then have "fcard (fmdom m) \<noteq> 0" by (metis fcard_0_eq fempty_iff)
  then show ?thesis unfolding go_len_def neq0_conv .
qed

lemma go_len_drop_le: "go_len (fmdrop k m) \<le> go_len m"
  by (auto simp add: go_len_def intro!: fcard_mono)

lemma go_len_drop: "go_has m k \<Longrightarrow> go_len (fmdrop k m) = go_len m - 1"
  by (auto simp add: go_len_def go_has_def fmdomI)

lemma go_len_filter_le: "go_len (fmfilter P m) \<le> go_len m"
  by (auto simp add: go_len_def intro!: fcard_mono)

lemma go_keys_set [simp]: "set (go_keys m) = {k. go_has m k}"
proof -
  have "set (go_keys m) = fset (fmdom m)"
    by (simp add: go_keys_def)
  also have "\<dots> = {k. go_has m k}"
    by (auto simp: go_has_def fmlookup_dom_iff)
  finally show ?thesis .
qed

lemma go_keys_distinct [simp]: "distinct (go_keys m)"
  by (simp add: go_keys_def sorted_list_of_fset.rep_eq)

lemma go_keys_sorted [simp]: "sorted (go_keys m)"
  by (simp add: go_keys_def sorted_list_of_fset.rep_eq)

lemma go_get_upd [simp]: "go_get z (fmupd a v m) k = (if k = a then v else go_get z m k)"
  by (simp add: go_get_def)

text \<open>
  \<open>fm_keep P m\<close> is the map left by the loop \<open>for k, v := range m { if !P { delete(m, k) } }\<close>.
  Go may visit the entries in any order; each is decided on its own, so the order does
  not matter and the result is a filter.
\<close>

definition fm_keep :: "('k \<Rightarrow> 'v \<Rightarrow> bool) \<Rightarrow> ('k, 'v) fmap \<Rightarrow> ('k, 'v) fmap" where
  "fm_keep P m = fmfilter (\<lambda>k. case fmlookup m k of None \<Rightarrow> False | Some v \<Rightarrow> P k v) m"

lemma fm_keep_lookup [simp]:
  "fmlookup (fm_keep P m) k =
     (case fmlookup m k of None \<Rightarrow> None | Some v \<Rightarrow> if P k v then Some v else None)"
  by (auto simp: fm_keep_def split: option.splits)

lemma fm_keep_has: "go_has (fm_keep P m) k \<longleftrightarrow> (\<exists>v. fmlookup m k = Some v \<and> P k v)"
  by (auto simp: go_has_def split: option.splits)

lemma fm_keep_len_le: "go_len (fm_keep P m) \<le> go_len m"
  by (simp add: fm_keep_def go_len_filter_le)

lemma fm_keep_all: "(\<And>k v. fmlookup m k = Some v \<Longrightarrow> P k v) \<Longrightarrow> fm_keep P m = m"
  by (rule fmap_ext) (auto split: option.splits)

lemma fm_keep_upd_new:
  "\<not> go_has m k \<Longrightarrow> fm_keep P (fmupd k v m) = (if P k v then fmupd k v (fm_keep P m) else fm_keep P m)"
  by (rule fmap_ext) (auto simp: go_has_def split: option.splits)

lemma fm_keep_drop: "fm_keep P (fmdrop k m) = fmdrop k (fm_keep P m)"
  by (rule fmap_ext) (auto split: option.splits)

text \<open>Go's \<open>append(xs[:i], xs[i+1:]...)\<close>, at the first element that satisfies a test.\<close>

fun remove_first :: "('a \<Rightarrow> bool) \<Rightarrow> 'a list \<Rightarrow> 'a list" where
  "remove_first P [] = []"
| "remove_first P (x # xs) = (if P x then xs else x # remove_first P xs)"

lemma remove_first_subset: "set (remove_first P xs) \<subseteq> set xs"
  by (induction xs) auto

lemma remove_first_none: "\<forall>x\<in>set xs. \<not> P x \<Longrightarrow> remove_first P xs = xs"
  by (induction xs) auto

lemma remove_first_length:
  "\<exists>x\<in>set xs. P x \<Longrightarrow> length (remove_first P xs) = length xs - 1"
proof (induction xs)
  case (Cons x xs)
  then show ?case by (cases "P x"; cases xs) auto
qed simp

lemma remove_first_distinct_map:
  "distinct (map f xs) \<Longrightarrow> distinct (map f (remove_first P xs))"
  using remove_first_subset [of P] by (induction xs) fastforce+

lemma remove_first_filter:
  "distinct (map f xs) \<Longrightarrow> remove_first (\<lambda>x. f x = k) xs = filter (\<lambda>x. f x \<noteq> k) xs"
proof (induction xs)
  case (Cons x xs)
  have "f x = k \<Longrightarrow> filter (\<lambda>y. f y \<noteq> k) xs = xs"
    using Cons.prems by (auto simp: filter_id_conv image_iff)
  with Cons show ?case by auto
qed simp

lemma find_SomeD: "find P xs = Some x \<Longrightarrow> x \<in> set xs \<and> P x"
  by (metis (no_types, lifting) find_Some_iff nth_mem)

lemma find_NoneD: "find P xs = None \<Longrightarrow> x \<in> set xs \<Longrightarrow> \<not> P x"
  by (auto simp: find_None_iff)

lemma find_unique:
  "distinct (map f xs) \<Longrightarrow> x \<in> set xs \<Longrightarrow> find (\<lambda>y. f y = f x) xs = Some x"
  by (induction xs) (auto simp: image_iff)

subsection \<open>The contract of a stateful component\<close>

text \<open>
  \<open>init\<close> is the state its constructor builds, \<open>step\<close> runs one operation under the
  component's lock and \<open>inv\<close> is what every operation relies on.  The facts below hold
  for every history of operations; each component interprets the locale on its own
  constructor and operations.
\<close>

locale component =
  fixes init :: 's
    and step :: "'s \<Rightarrow> 'e \<Rightarrow> 's"
    and inv :: "'s \<Rightarrow> bool"
  assumes init_inv: "inv init"
    and step_inv: "inv s \<Longrightarrow> inv (step s e)"
begin

lemma run_inv_from: "inv s \<Longrightarrow> inv (foldl step s es)"
  by (induction es arbitrary: s) (auto intro: step_inv)

lemma run_inv: "inv (foldl step init es)"
  by (rule run_inv_from) (rule init_inv)

lemma run_ranking:
  assumes up: "\<And>s e. inv s \<Longrightarrow> (r s :: 'o::preorder) \<le> r (step s e)" and s: "inv s"
  shows "r s \<le> r (foldl step s es)"
  using s
proof (induction es arbitrary: s)
  case (Cons e es)
  have "r s \<le> r (step s e)" by (rule up) (rule Cons.prems)
  also have "\<dots> \<le> r (foldl step (step s e) es)" by (rule Cons.IH) (rule step_inv, rule Cons.prems)
  finally show ?case by simp
qed simp

end

end
