(* ===== verification/GoText.thy ===== *)
theory GoText
  imports Prelude
begin

text \<open>
  The string operations of the Go standard library that the program uses, on byte
  strings (a Go string is a byte sequence): \<open>strings.TrimSpace\<close>, \<open>unicode.IsSpace\<close> and
  \<open>unicode.IsControl\<close> through their UTF-8 encodings, \<open>strconv.Itoa\<close>,
  \<open>encoding/hex\<close>, \<open>url.PathEscape\<close>, \<open>strings.ToUpper\<close> and \<open>ToLower\<close> on ASCII,
  and \<open>utf8.RuneCountInString\<close>.  The facts are the injectivity results the canonical
  keys rest on.
\<close>

definition byte_val :: "byte \<Rightarrow> nat" where
  "byte_val c = of_char c"

lemma byte_val_lt [simp]: "byte_val c < 256"
  by (simp add: byte_val_def)

lemma byte_val_char_of: "n < 256 \<Longrightarrow> byte_val (char_of n) = n"
  by (simp add: byte_val_def take_bit_nat_eq_self)

lemma byte_val_inject: "byte_val a = byte_val b \<Longrightarrow> a = b"
  by (simp add: byte_val_def)

lemma char_of_inj: "\<lbrakk>m < 256; n < (256::nat)\<rbrakk> \<Longrightarrow> char_of m = (char_of n :: char) \<longleftrightarrow> m = n"
  using byte_val_char_of [of m] byte_val_char_of [of n] by auto

subsection \<open>White space and control characters\<close>

text \<open>UTF-8 encodings of the white-space code points of \<open>unicode.IsSpace\<close>.\<close>

definition bytes_of :: "nat list \<Rightarrow> string" where
  "bytes_of ns = map char_of ns"

definition space_encodings :: "string list" where
  "space_encodings =
     map bytes_of ([[9], [10], [11], [12], [13], [32], [194, 133], [194, 160],
       [225, 154, 128], [226, 128, 168], [226, 128, 169], [226, 128, 175],
       [226, 129, 159], [227, 128, 128]] @ map (\<lambda>b. [226, 128, b]) [128..<139])"

text \<open>UTF-8 encodings of the control characters U+0000..U+001F and U+007F..U+009F.\<close>

definition control_encodings :: "string list" where
  "control_encodings =
     map bytes_of (map (\<lambda>b. [b]) ([0..<32] @ [127]) @ map (\<lambda>b. [194, b]) [128..<160])"

fun is_prefix :: "string \<Rightarrow> string \<Rightarrow> bool" where
  "is_prefix [] ys = True"
| "is_prefix (x # xs) [] = False"
| "is_prefix (x # xs) (y # ys) = (x = y \<and> is_prefix xs ys)"

fun contains_token :: "string list \<Rightarrow> string \<Rightarrow> bool" where
  "contains_token toks [] = False"
| "contains_token toks (c # cs) =
     (list_ex (\<lambda>t. is_prefix t (c # cs)) toks \<or> contains_token toks cs)"

text \<open>The bound of the recursion is the length: every encoding is non-empty.\<close>

fun trim_left_upto :: "nat \<Rightarrow> string list \<Rightarrow> string \<Rightarrow> string" where
  "trim_left_upto 0 toks s = s"
| "trim_left_upto (Suc n) toks s =
     (case find (\<lambda>t. t \<noteq> [] \<and> is_prefix t s) toks of
        None \<Rightarrow> s | Some t \<Rightarrow> trim_left_upto n toks (drop (length t) s))"

definition trim_space :: "string \<Rightarrow> string" where
  "trim_space s =
     (let l = trim_left_upto (length s) space_encodings s
      in rev (trim_left_upto (length l) (map rev space_encodings) (rev l)))"

definition has_space_or_control :: "string \<Rightarrow> bool" where
  "has_space_or_control s = contains_token (space_encodings @ control_encodings) s"

definition blank :: "string \<Rightarrow> bool" where
  "blank s = (trim_space s = [])"

lemma is_prefix_append: "is_prefix xs ys \<longleftrightarrow> (\<exists>zs. ys = xs @ zs)"
  by (induction xs ys rule: is_prefix.induct) auto

lemma trim_left_upto_suffix: "\<exists>ys. s = ys @ trim_left_upto n toks s"
proof (induction n arbitrary: s)
  case (Suc n)
  show ?case
  proof (cases "find (\<lambda>t. t \<noteq> [] \<and> is_prefix t s) toks")
    case (Some t)
    obtain ys where "drop (length t) s = ys @ trim_left_upto n toks (drop (length t) s)"
      using Suc by blast
    then have "s = (take (length t) s @ ys) @ trim_left_upto n toks (drop (length t) s)"
      by (metis append.assoc append_take_drop_id)
    moreover have "trim_left_upto (Suc n) toks s = trim_left_upto n toks (drop (length t) s)"
      using Some by simp
    ultimately show ?thesis by (metis (no_types))
  qed simp
qed simp

lemma trim_left_upto_nospace:
  "\<lbrakk>s = c # cs; \<forall>t\<in>set toks. t \<noteq> [] \<longrightarrow> hd t \<noteq> c\<rbrakk> \<Longrightarrow> trim_left_upto n toks s = s"
proof (cases n)
  case (Suc m)
  assume a: "s = c # cs" "\<forall>t\<in>set toks. t \<noteq> [] \<longrightarrow> hd t \<noteq> c"
  have "find (\<lambda>t. t \<noteq> [] \<and> is_prefix t s) toks = None"
    using a by (fastforce simp: find_None_iff is_prefix_append Cons_eq_append_conv)
  with Suc show ?thesis by simp
qed simp

lemma trim_space_length: "length (trim_space s) \<le> length s"
proof -
  let ?l = "trim_left_upto (length s) space_encodings s"
  have "length ?l \<le> length s"
    using trim_left_upto_suffix [of s "length s" space_encodings] by (metis le_add2 length_append)
  moreover have "length (trim_left_upto (length ?l) (map rev space_encodings) (rev ?l)) \<le> length ?l"
    using trim_left_upto_suffix [of "rev ?l" "length ?l" "map rev space_encodings"]
    by (metis le_add2 length_append length_rev)
  ultimately show ?thesis by (simp add: trim_space_def Let_def)
qed

text \<open>The first bytes of the encodings of white space.\<close>

lemma space_encodings_hd:
  "t \<in> set space_encodings \<Longrightarrow> t \<noteq> [] \<and> hd t \<in> set (bytes_of [9, 10, 11, 12, 13, 32, 194, 225, 226, 227])"
  by (auto simp: space_encodings_def bytes_of_def)

lemma trim_left_nonempty:
  assumes "s = c # cs" and "c \<notin> set (bytes_of [9, 10, 11, 12, 13, 32, 194, 225, 226, 227])"
  shows "trim_left_upto n space_encodings s = s"
  by (rule trim_left_upto_nospace [OF assms(1)]) (use assms(2) space_encodings_hd in metis)

text \<open>
  A string that starts with a visible ASCII character is not blank: white space is
  stripped from the right, and no encoding of white space ends in that character.
\<close>

lemma trim_right_keeps:
  assumes "\<forall>t\<in>set toks. c \<notin> set t"
  shows "\<exists>ys. trim_left_upto n toks (xs @ [c]) = ys @ [c]"
proof (induction n arbitrary: xs)
  case (Suc n)
  show ?case
  proof (cases "find (\<lambda>t. t \<noteq> [] \<and> is_prefix t (xs @ [c])) toks")
    case (Some t)
    then have t: "t \<in> set toks" "is_prefix t (xs @ [c])"
      by (auto dest: find_SomeD)
    then obtain zs where z: "xs @ [c] = t @ zs" by (auto simp: is_prefix_append)
    have "zs \<noteq> []" using z t(1) assms by (metis append_Nil2 in_set_conv_decomp)
    then obtain us where "zs = us @ [c]"
      using z by (metis append_butlast_last_id last_appendR snoc_eq_iff_butlast)
    with z Some Suc show ?thesis by auto
  qed auto
qed auto

lemma not_blank_visible:
  assumes "\<forall>t\<in>set space_encodings. c \<notin> set t"
  shows "\<not> blank (c # cs)"
proof -
  have l: "trim_left_upto n space_encodings (c # cs) = c # cs" for n
    by (rule trim_left_upto_nospace [OF refl])
       (metis assms list.set_sel(1))
  have "\<forall>t\<in>set (map rev space_encodings). c \<notin> set t"
    using assms by auto
  then obtain ys where
    "trim_left_upto (length (c # cs)) (map rev space_encodings) (rev cs @ [c]) = ys @ [c]"
    using trim_right_keeps by blast
  then show ?thesis by (simp add: blank_def trim_space_def l Let_def)
qed

lemma not_blank_h: "\<not> blank (CHR ''h'' # cs)"
  by (rule not_blank_visible) code_simp

lemma blank_Nil [simp]: "blank []"
  by (simp add: blank_def trim_space_def)

subsection \<open>Decimal and hexadecimal text\<close>

fun digit_char :: "nat \<Rightarrow> char" where
  "digit_char d = char_of (48 + d)"

fun dec_digits :: "nat \<Rightarrow> string" where
  "dec_digits n = (if n < 10 then [digit_char n] else dec_digits (n div 10) @ [digit_char (n mod 10)])"

declare dec_digits.simps [simp del]

definition itoa :: "int \<Rightarrow> string" where
  "itoa i = (if i < 0 then CHR ''-'' # dec_digits (nat (- i)) else dec_digits (nat i))"

fun dec_value :: "string \<Rightarrow> nat" where
  "dec_value s = foldl (\<lambda>v c. 10 * v + (byte_val c - 48)) 0 s"

lemma dec_value_digits: "dec_value (dec_digits n) = n"
proof (induction n rule: dec_digits.induct)
  case (1 n)
  show ?case
  proof (cases "n < 10")
    case True
    then show ?thesis by (simp add: dec_digits.simps [of n] byte_val_char_of)
  next
    case False
    then show ?thesis using "1"
      by (simp add: dec_digits.simps [of n] byte_val_char_of)
  qed
qed

lemma dec_digits_inject: "dec_digits m = dec_digits n \<Longrightarrow> m = n"
  by (metis dec_value_digits)

lemma dec_digits_hd: "dec_digits n \<noteq> [] \<and> (\<forall>c\<in>set (dec_digits n). 48 \<le> byte_val c \<and> byte_val c < 58)"
proof (induction n rule: dec_digits.induct)
  case (1 n)
  then show ?case
    by (cases "n < 10") (auto simp: dec_digits.simps [of n] byte_val_char_of)
qed

lemma minus_not_digit: "CHR ''-'' \<notin> set (dec_digits n)"
  using dec_digits_hd [of n] by (auto simp: byte_val_def)

lemma itoa_inject: "itoa i = itoa j \<Longrightarrow> i = j"
proof -
  assume eq: "itoa i = itoa j"
  have neg: "\<And>m n xs. CHR ''-'' # xs \<noteq> dec_digits n"
    using minus_not_digit by (metis list.set_intros(1))
  show ?thesis
  proof (cases "i < 0"; cases "j < 0")
    assume "i < 0" "j < 0"
    with eq have "nat (- i) = nat (- j)" by (auto simp: itoa_def dest: dec_digits_inject)
    with \<open>i < 0\<close> \<open>j < 0\<close> show ?thesis by simp
  next
    assume "\<not> i < 0" "\<not> j < 0"
    with eq have "nat i = nat j" by (auto simp: itoa_def dest: dec_digits_inject)
    with \<open>\<not> i < 0\<close> \<open>\<not> j < 0\<close> show ?thesis by simp
  qed (use eq neg in \<open>auto simp: itoa_def dest: sym\<close>)
qed

definition hex_char :: "nat \<Rightarrow> char" where
  "hex_char d = (if d < 10 then char_of (48 + d) else char_of (87 + d))"

definition upper_hex_char :: "nat \<Rightarrow> char" where
  "upper_hex_char d = (if d < 10 then char_of (48 + d) else char_of (55 + d))"

definition hex_encode :: "byte list \<Rightarrow> string" where
  "hex_encode bs = concat (map (\<lambda>b. [hex_char (byte_val b div 16), hex_char (byte_val b mod 16)]) bs)"

lemma hex_char_inject: "\<lbrakk>hex_char a = hex_char b; a < 16; b < 16\<rbrakk> \<Longrightarrow> a = b"
  by (auto simp: hex_char_def char_of_inj split: if_splits)

lemma upper_hex_char_inject: "\<lbrakk>upper_hex_char a = upper_hex_char b; a < 16; b < 16\<rbrakk> \<Longrightarrow> a = b"
  by (auto simp: upper_hex_char_def char_of_inj split: if_splits)

lemma nibbles_inject: "\<lbrakk>byte_val a div 16 = byte_val b div 16; byte_val a mod 16 = byte_val b mod 16\<rbrakk> \<Longrightarrow> a = b"
  by (rule byte_val_inject) (metis div_mult_mod_eq)

lemma nibble_lt: "byte_val a div 16 < 16" "byte_val a mod 16 < 16"
  using byte_val_lt [of a] by (simp_all add: less_mult_imp_div_less)

lemma hex_encode_inject: "hex_encode xs = hex_encode ys \<Longrightarrow> xs = ys"
proof (induction xs arbitrary: ys)
  case Nil
  then show ?case by (cases ys) (auto simp: hex_encode_def)
next
  case (Cons x xs)
  then obtain y ys' where y: "ys = y # ys'"
    by (cases ys) (auto simp: hex_encode_def)
  with Cons.prems have "x = y"
    by (auto simp: hex_encode_def intro!: nibbles_inject dest!: hex_char_inject simp: nibble_lt)
  moreover from Cons y have "xs = ys'" by (auto simp: hex_encode_def)
  ultimately show ?case using y by simp
qed

lemma hex_encode_length: "length (hex_encode xs) = 2 * length xs"
  by (induction xs) (auto simp: hex_encode_def)

subsection \<open>Path escaping\<close>

definition path_unreserved :: "char \<Rightarrow> bool" where
  "path_unreserved c =
     (let n = byte_val c in
      (48 \<le> n \<and> n \<le> 57) \<or> (65 \<le> n \<and> n \<le> 90) \<or> (97 \<le> n \<and> n \<le> 122)
      \<or> c \<in> set ''-_.~$&+:=@'')"

definition escape_char :: "char \<Rightarrow> string" where
  "escape_char c =
     (if path_unreserved c then [c]
      else [CHR ''%'', upper_hex_char (byte_val c div 16), upper_hex_char (byte_val c mod 16)])"

definition path_escape :: "string \<Rightarrow> string" where
  "path_escape s = concat (map escape_char s)"

lemma slash_not_hex: "d < 16 \<Longrightarrow> upper_hex_char d \<noteq> CHR ''/''"
proof
  assume d: "d < 16" and "upper_hex_char d = CHR ''/''"
  then have "byte_val (upper_hex_char d) = 47" by (simp add: byte_val_def)
  with d show False by (auto simp: upper_hex_char_def byte_val_char_of split: if_splits)
qed

lemma slash_not_unreserved: "\<not> path_unreserved CHR ''/''" "\<not> path_unreserved CHR ''%''"
  by (simp_all add: path_unreserved_def byte_val_def)

lemma path_escape_no_slash: "CHR ''/'' \<notin> set (path_escape s)"
proof -
  have "CHR ''/'' \<notin> set (escape_char c)" for c
    using slash_not_unreserved(1) slash_not_hex [OF nibble_lt(1)] slash_not_hex [OF nibble_lt(2)]
    by (force simp: escape_char_def split: if_splits)
  then show ?thesis by (auto simp: path_escape_def)
qed

lemma escape_char_prefix_free:
  assumes "escape_char a @ xs = escape_char b @ ys"
  shows "a = b \<and> xs = ys"
proof (cases "path_unreserved a"; cases "path_unreserved b")
  assume "\<not> path_unreserved a" "\<not> path_unreserved b"
  with assms show ?thesis
    by (auto simp: escape_char_def nibble_lt intro!: nibbles_inject dest!: upper_hex_char_inject)
qed (use assms slash_not_unreserved(2) in \<open>auto simp: escape_char_def\<close>)

lemma path_escape_inject: "path_escape s = path_escape t \<longleftrightarrow> s = t"
proof
  show "path_escape s = path_escape t \<Longrightarrow> s = t"
  proof (induction s arbitrary: t)
    case Nil
    then show ?case by (cases t) (auto simp: path_escape_def escape_char_def split: if_splits)
  next
    case (Cons a s)
    then obtain b t' where t: "t = b # t'"
      by (cases t) (auto simp: path_escape_def escape_char_def split: if_splits)
    with Cons.prems have "escape_char a @ path_escape s = escape_char b @ path_escape t'"
      by (simp add: path_escape_def)
    then have "a = b" "path_escape s = path_escape t'" by (auto dest: escape_char_prefix_free)
    with Cons.IH t show ?case by simp
  qed
qed simp

lemma split_at_slash:
  assumes "CHR ''/'' \<notin> set a" "CHR ''/'' \<notin> set b"
  shows "a @ CHR ''/'' # x = b @ CHR ''/'' # y \<longleftrightarrow> a = b \<and> x = y"
  using assms
proof (induction a arbitrary: b)
  case Nil
  then show ?case by (cases b) auto
next
  case (Cons c a)
  then show ?case by (cases b) auto
qed

lemma segment_inject:
  "path_escape a @ CHR ''/'' # x = path_escape b @ CHR ''/'' # y \<longleftrightarrow> a = b \<and> x = y"
  by (simp add: split_at_slash path_escape_no_slash path_escape_inject)

subsection \<open>Case and rune counts\<close>

definition to_upper_char :: "char \<Rightarrow> char" where
  "to_upper_char c = (if 97 \<le> byte_val c \<and> byte_val c \<le> 122 then char_of (byte_val c - 32) else c)"

definition to_lower_char :: "char \<Rightarrow> char" where
  "to_lower_char c = (if 65 \<le> byte_val c \<and> byte_val c \<le> 90 then char_of (byte_val c + 32) else c)"

definition to_upper :: "string \<Rightarrow> string" where
  "to_upper s = map to_upper_char s"

definition to_lower :: "string \<Rightarrow> string" where
  "to_lower s = map to_lower_char s"

lemma to_upper_idem [simp]: "to_upper (to_upper s) = to_upper s"
proof -
  have "to_upper_char (to_upper_char c) = to_upper_char c" for c
    by (auto simp: to_upper_char_def byte_val_char_of)
  then show ?thesis by (simp add: to_upper_def)
qed

lemma length_to_upper [simp]: "length (to_upper s) = length s"
  by (simp add: to_upper_def)

text \<open>
  \<open>rune_size\<close> is the number of bytes \<open>utf8.DecodeRuneInString\<close> consumes from a
  non-empty string: 1 for ASCII and for every invalid sequence.
\<close>

definition cont_byte :: "nat \<Rightarrow> bool" where
  "cont_byte n = (128 \<le> n \<and> n \<le> 191)"

definition rune_size :: "string \<Rightarrow> nat" where
  "rune_size s =
     (case map byte_val (take 4 s) of
        a # b # r \<Rightarrow>
          if 194 \<le> a \<and> a \<le> 223 then (if cont_byte b then 2 else 1)
          else if 224 \<le> a \<and> a \<le> 239 then
            (case r of c # _ \<Rightarrow>
               if (if a = 224 then 160 \<le> b \<and> b \<le> 191 else if a = 237 then 128 \<le> b \<and> b \<le> 159
                   else cont_byte b) \<and> cont_byte c then 3 else 1
             | [] \<Rightarrow> 1)
          else if 240 \<le> a \<and> a \<le> 244 then
            (case r of [c, d] \<Rightarrow>
               if (if a = 240 then 144 \<le> b \<and> b \<le> 191 else if a = 244 then 128 \<le> b \<and> b \<le> 143
                   else cont_byte b) \<and> cont_byte c \<and> cont_byte d then 4 else 1
             | _ \<Rightarrow> 1)
          else 1
      | _ \<Rightarrow> 1)"

lemma rune_size_pos: "0 < rune_size s"
  by (auto simp: rune_size_def split: list.splits)

function rune_count :: "string \<Rightarrow> nat" where
  "rune_count s = (if s = [] then 0 else Suc (rune_count (drop (rune_size s) s)))"
  by pat_completeness auto
termination
  by (relation "measure length") (auto simp: rune_size_pos)

declare rune_count.simps [simp del]

lemma rune_count_le: "rune_count s \<le> length s"
proof (induction s rule: rune_count.induct)
  case (1 s)
  show ?case
  proof (cases "s = []")
    case False
    have "rune_count (drop (rune_size s) s) \<le> length s - rune_size s"
      using "1" False by simp
    moreover have "0 < rune_size s" "0 < length s" using False by (simp_all add: rune_size_pos)
    ultimately have "Suc (rune_count (drop (rune_size s) s)) \<le> length s" by linarith
    then show ?thesis using False by (subst rune_count.simps) simp
  qed (simp add: rune_count.simps)
qed

text \<open>\<open>utf8.ValidString\<close>: a byte that is not ASCII and starts no encoding is invalid.\<close>

function valid_utf8 :: "string \<Rightarrow> bool" where
  "valid_utf8 s =
     (if s = [] then True
      else if rune_size s = 1 \<and> 128 \<le> byte_val (hd s) then False
      else valid_utf8 (drop (rune_size s) s))"
  by pat_completeness auto
termination
  by (relation "measure length") (auto simp: rune_size_pos)

declare valid_utf8.simps [simp del]

subsection \<open>Trimming is idempotent\<close>

lemma trim_left_upto_done:
  assumes "find (\<lambda>t. t \<noteq> [] \<and> is_prefix t s) toks = None"
  shows "trim_left_upto n toks s = s"
  using assms by (cases n) simp_all

lemma trim_left_upto_complete:
  "length s \<le> n \<Longrightarrow> find (\<lambda>t. t \<noteq> [] \<and> is_prefix t (trim_left_upto n toks s)) toks = None"
proof (induction n arbitrary: s)
  case 0
  then show ?case by (auto simp: find_None_iff is_prefix_append)
next
  case (Suc n)
  show ?case
  proof (cases "find (\<lambda>t. t \<noteq> [] \<and> is_prefix t s) toks")
    case (Some t)
    then have "t \<noteq> []" "is_prefix t s" by (auto dest: find_SomeD)
    then have "length (drop (length t) s) \<le> n"
      using Suc.prems by (cases t) (auto simp: is_prefix_append)
    from Suc.IH [OF this] Some show ?thesis by simp
  qed simp
qed

lemma no_token_prefix:
  assumes "find (\<lambda>t. t \<noteq> [] \<and> is_prefix t (a @ b)) toks = None"
  shows "find (\<lambda>t. t \<noteq> [] \<and> is_prefix t a) toks = None"
  using assms by (auto simp: find_None_iff is_prefix_append)

lemma trim_space_idem [simp]: "trim_space (trim_space s) = trim_space s"
proof -
  let ?sp = "space_encodings" and ?rsp = "map rev space_encodings"
  let ?l = "trim_left_upto (length s) ?sp s"
  let ?r = "trim_left_upto (length ?l) ?rsp (rev ?l)"
  have t: "trim_space s = rev ?r" by (simp add: trim_space_def Let_def)
  obtain ys where "rev ?l = ys @ ?r" using trim_left_upto_suffix by blast
  then have l: "?l = rev ?r @ rev ys" by (metis rev_append rev_rev_ident)
  have "find (\<lambda>t. t \<noteq> [] \<and> is_prefix t (rev ?r @ rev ys)) ?sp = None"
    using trim_left_upto_complete [of s "length s" ?sp] unfolding l [symmetric] by simp
  from trim_left_upto_done [OF no_token_prefix [OF this]]
  have left: "trim_left_upto n ?sp (rev ?r) = rev ?r" for n .
  have "find (\<lambda>t. t \<noteq> [] \<and> is_prefix t ?r) ?rsp = None"
    by (rule trim_left_upto_complete) simp
  from trim_left_upto_done [OF this] have right: "trim_left_upto n ?rsp ?r = ?r" for n .
  show ?thesis unfolding t by (simp add: trim_space_def Let_def left right)
qed

subsection \<open>Visible text\<close>

definition visible :: "char \<Rightarrow> bool" where
  "visible c = (33 \<le> byte_val c \<and> byte_val c \<le> 126)"

lemma token_heads: "t \<in> set (space_encodings @ control_encodings) \<Longrightarrow> t \<noteq> [] \<and> \<not> visible (hd t)"
proof -
  have b: "n \<in> {33..126} \<longleftrightarrow> visible (char_of n)" if "n < 256" for n :: nat
    using that by (simp add: visible_def byte_val_char_of)
  assume "t \<in> set (space_encodings @ control_encodings)"
  then obtain n ns where "t = bytes_of (n # ns)" "n < 33 \<or> (126 < n \<and> n < 256)"
    by (auto simp: space_encodings_def control_encodings_def)
  then show ?thesis using b [of n] by (auto simp: bytes_of_def)
qed

lemma visible_no_token:
  "\<lbrakk>\<forall>c\<in>set s. visible c; \<forall>t\<in>set toks. t \<noteq> [] \<and> \<not> visible (hd t)\<rbrakk> \<Longrightarrow> \<not> contains_token toks s"
proof (induction s)
  case (Cons c s)
  have "\<not> is_prefix t (c # s)" if "t \<in> set toks" for t
    using Cons.prems that by (cases t) auto
  with Cons show ?case by (auto simp: list_ex_iff)
qed simp

lemma visible_plain: "list_all visible s \<Longrightarrow> \<not> has_space_or_control s"
  unfolding has_space_or_control_def using visible_no_token token_heads by (metis list_all_iff)

lemma visible_letters: "list_all visible ''abcdefghijklmnopqrstuvwxyzABCDEFGHIJKLMNOPQRSTUVWXYZ0123456789-_./:%@''"
  by (simp add: visible_def byte_val_def)

lemma visible_letter: "c \<in> set ''abcdefghijklmnopqrstuvwxyzABCDEFGHIJKLMNOPQRSTUVWXYZ0123456789-_./:%@'' \<Longrightarrow> visible c"
  using visible_letters unfolding list_all_iff by blast

lemma token_lasts: "t \<in> set (map rev space_encodings) \<Longrightarrow> t \<noteq> [] \<and> \<not> visible (hd t)"
proof -
  let ?codes = "[[9], [10], [11], [12], [13], [32], [194, 133], [194, 160],
       [225, 154, 128], [226, 128, 168], [226, 128, 169], [226, 128, 175],
       [226, 129, 159], [227, 128, 128]] @ map (\<lambda>b. [226, 128, b]) [128..<139] :: nat list list"
  have all: "\<forall>ns\<in>set ?codes. ns \<noteq> [] \<and> (last ns < 33 \<or> 126 < last ns \<and> last ns < 256)" by auto
  assume "t \<in> set (map rev space_encodings)"
  then obtain ns where "ns \<in> set ?codes" and t: "t = rev (bytes_of ns)"
    unfolding space_encodings_def set_map by blast
  with all have ns: "ns \<noteq> []" "last ns < 33 \<or> 126 < last ns \<and> last ns < 256" by blast+
  then have "hd t = char_of (last ns)" "t \<noteq> []" using t by (simp_all add: bytes_of_def hd_rev last_map)
  moreover have "\<not> visible (char_of (last ns))" using ns(2) by (auto simp: visible_def byte_val_char_of)
  ultimately show ?thesis by simp
qed

lemma trim_visible:
  assumes "\<forall>t\<in>set toks. t \<noteq> [] \<and> \<not> visible (hd t)" and "s = [] \<or> visible (hd s)"
  shows "trim_left_upto n toks s = s"
proof (cases s)
  case Nil
  have "find (\<lambda>t. t \<noteq> [] \<and> is_prefix t []) toks = None" by (auto simp: find_None_iff is_prefix_append)
  with Nil show ?thesis by (cases n) simp_all
next
  case (Cons c cs)
  with assms show ?thesis by (intro trim_left_upto_nospace) auto
qed

lemma trim_space_edges: "s = [] \<or> visible (hd s) \<and> visible (last s) \<Longrightarrow> trim_space s = s"
proof -
  assume v: "s = [] \<or> visible (hd s) \<and> visible (last s)"
  have "trim_left_upto n space_encodings s = s" for n
    by (rule trim_visible) (use token_heads v in auto)
  moreover have "trim_left_upto n (map rev space_encodings) (rev s) = rev s" for n
    by (rule trim_visible) (use token_lasts v in \<open>auto simp: hd_rev\<close>)
  ultimately show ?thesis by (simp add: trim_space_def)
qed

lemma trim_space_visible: "list_all visible s \<Longrightarrow> trim_space s = s"
  by (rule trim_space_edges) (auto simp: list_all_iff)

end
