(* ===== verification/Json.thy ===== *)
theory Json
  imports GoText
begin

text \<open>
  \<open>json.Valid\<close> of the Go standard library, as the push-down scanner of
  \<open>encoding/json\<close>: one state per step function, a stack of parse states and the
  nesting bound.  The program uses it to accept metadata values, runtime results and
  request payloads.  The facts say what acceptance gives the callers: a bounded scanner
  that never runs off its stack, and that white space around a value does not matter.
\<close>

datatype jparse = PObjectKey | PObjectValue | PArrayValue

datatype jstate = BeginValue | BeginValueOrEmpty | BeginStringOrEmpty | BeginString
  | EndValue | EndTop | InString | InStringEsc | InStringEscU nat
  | NumNeg | NumInt | NumZero | NumDot | NumDot0 | NumE | NumESign | NumE0 | InLiteral string

definition max_nesting_depth :: nat where
  "max_nesting_depth = 10000"

definition json_space :: "char \<Rightarrow> bool" where
  "json_space c = (c \<in> set (bytes_of [32, 9, 13, 10]))"

definition is_digit :: "char \<Rightarrow> bool" where
  "is_digit c = (48 \<le> byte_val c \<and> byte_val c \<le> 57)"

definition is_hex_digit :: "char \<Rightarrow> bool" where
  "is_hex_digit c = (is_digit c \<or> (65 \<le> byte_val c \<and> byte_val c \<le> 70) \<or> (97 \<le> byte_val c \<and> byte_val c \<le> 102))"

type_synonym jconf = "jstate \<times> jparse list"

definition push_parse :: "jstate \<Rightarrow> jparse \<Rightarrow> jparse list \<Rightarrow> jconf option" where
  "push_parse st p stack = (if length stack < max_nesting_depth then Some (st, p # stack) else None)"

definition pop_parse :: "jparse list \<Rightarrow> jconf option" where
  "pop_parse stack = (case stack of [] \<Rightarrow> None | _ # r \<Rightarrow> Some (if r = [] then EndTop else EndValue, r))"

definition end_value :: "jparse list \<Rightarrow> char \<Rightarrow> jconf option" where
  "end_value stack c =
     (if json_space c then Some (if stack = [] then EndTop else EndValue, stack)
      else case stack of
        [] \<Rightarrow> None
      | PObjectKey # r \<Rightarrow> if c = CHR '':'' then Some (BeginValue, PObjectValue # r) else None
      | PObjectValue # r \<Rightarrow>
          if c = CHR '','' then Some (BeginString, PObjectKey # r)
          else if c = CHR ''}'' then pop_parse stack else None
      | PArrayValue # r \<Rightarrow>
          if c = CHR '','' then Some (BeginValue, stack)
          else if c = CHR '']'' then pop_parse stack else None)"

definition begin_value :: "jparse list \<Rightarrow> char \<Rightarrow> jconf option" where
  "begin_value stack c =
     (if json_space c then Some (BeginValue, stack)
      else if c = CHR ''{'' then push_parse BeginStringOrEmpty PObjectKey stack
      else if c = CHR ''['' then push_parse BeginValueOrEmpty PArrayValue stack
      else if c = CHR 0x22 then Some (InString, stack)
      else if c = CHR ''-'' then Some (NumNeg, stack)
      else if c = CHR ''0'' then Some (NumZero, stack)
      else if c = CHR ''t'' then Some (InLiteral ''rue'', stack)
      else if c = CHR ''f'' then Some (InLiteral ''alse'', stack)
      else if c = CHR ''n'' then Some (InLiteral ''ull'', stack)
      else if is_digit c then Some (NumInt, stack) else None)"

definition begin_string :: "jparse list \<Rightarrow> char \<Rightarrow> jconf option" where
  "begin_string stack c =
     (if json_space c then Some (BeginString, stack)
      else if c = CHR 0x22 then Some (InString, stack) else None)"

definition num_zero :: "jparse list \<Rightarrow> char \<Rightarrow> jconf option" where
  "num_zero stack c =
     (if c = CHR ''.'' then Some (NumDot, stack)
      else if c = CHR ''e'' \<or> c = CHR ''E'' then Some (NumE, stack) else end_value stack c)"

fun json_step :: "jconf \<Rightarrow> char \<Rightarrow> jconf option" where
  "json_step (BeginValue, st) c = begin_value st c"
| "json_step (BeginValueOrEmpty, st) c =
     (if json_space c then Some (BeginValueOrEmpty, st)
      else if c = CHR '']'' then end_value st c else begin_value st c)"
| "json_step (BeginStringOrEmpty, st) c =
     (if json_space c then Some (BeginStringOrEmpty, st)
      else if c = CHR ''}'' then end_value (PObjectValue # tl st) c else begin_string st c)"
| "json_step (BeginString, st) c = begin_string st c"
| "json_step (EndValue, st) c = end_value st c"
| "json_step (EndTop, st) c = (if json_space c then Some (EndTop, st) else None)"
| "json_step (InString, st) c =
     (if c = CHR 0x22 then Some (EndValue, st)
      else if c = CHR 0x5C then Some (InStringEsc, st)
      else if byte_val c < 32 then None else Some (InString, st))"
| "json_step (InStringEsc, st) c =
     (if c \<in> {CHR ''b'', CHR ''f'', CHR ''n'', CHR ''r'', CHR ''t'', CHR 0x5C, CHR ''/'', CHR 0x22}
      then Some (InString, st)
      else if c = CHR ''u'' then Some (InStringEscU 3, st) else None)"
| "json_step (InStringEscU n, st) c =
     (if is_hex_digit c
      then Some (case n of 0 \<Rightarrow> InString | Suc m \<Rightarrow> InStringEscU m, st) else None)"
| "json_step (NumNeg, st) c =
     (if c = CHR ''0'' then Some (NumZero, st) else if is_digit c then Some (NumInt, st) else None)"
| "json_step (NumInt, st) c = (if is_digit c then Some (NumInt, st) else num_zero st c)"
| "json_step (NumZero, st) c = num_zero st c"
| "json_step (NumDot, st) c = (if is_digit c then Some (NumDot0, st) else None)"
| "json_step (NumDot0, st) c =
     (if is_digit c then Some (NumDot0, st)
      else if c = CHR ''e'' \<or> c = CHR ''E'' then Some (NumE, st) else end_value st c)"
| "json_step (NumE, st) c =
     (if c = CHR ''+'' \<or> c = CHR ''-'' then Some (NumESign, st)
      else if is_digit c then Some (NumE0, st) else None)"
| "json_step (NumESign, st) c = (if is_digit c then Some (NumE0, st) else None)"
| "json_step (NumE0, st) c = (if is_digit c then Some (NumE0, st) else end_value st c)"
| "json_step (InLiteral [], st) c = None"
| "json_step (InLiteral (l # ls), st) c =
     (if c = l then Some (if ls = [] then EndValue else InLiteral ls, st) else None)"

fun json_run :: "jconf \<Rightarrow> string \<Rightarrow> jconf option" where
  "json_run q [] = Some q"
| "json_run q (c # cs) = (case json_step q c of None \<Rightarrow> None | Some q' \<Rightarrow> json_run q' cs)"

text \<open>At the end of the input the scanner is fed one blank: a number may end there.\<close>

definition json_valid :: "string \<Rightarrow> bool" where
  "json_valid s =
     (case json_run (BeginValue, []) (s @ '' '') of Some (EndTop, _) \<Rightarrow> True | _ \<Rightarrow> False)"

definition json_object :: "string \<Rightarrow> bool" where
  "json_object s = (json_valid s \<and> (case dropWhile json_space s of [] \<Rightarrow> False | c # _ \<Rightarrow> c = CHR ''{''))"

lemma json_run_append:
  "json_run q (xs @ ys) = (case json_run q xs of None \<Rightarrow> None | Some q' \<Rightarrow> json_run q' ys)"
  by (induction xs arbitrary: q) (auto split: option.splits)

lemma json_step_depth:
  assumes "json_step (st, stack) c = Some (st', stack')" and "length stack \<le> max_nesting_depth"
    and "st = BeginStringOrEmpty \<longrightarrow> stack \<noteq> []"
  shows "length stack' \<le> max_nesting_depth \<and> (st' = BeginStringOrEmpty \<longrightarrow> stack' \<noteq> [])"
proof -
  note defs = end_value_def begin_value_def begin_string_def num_zero_def push_parse_def pop_parse_def
  show ?thesis
    using assms
    by (cases "((st, stack), c)" rule: json_step.cases)
       (auto simp: defs max_nesting_depth_def split: if_splits list.splits jparse.splits nat.splits)
qed

lemma json_run_depth:
  "\<lbrakk>json_run (st, stack) s = Some (st', stack'); length stack \<le> max_nesting_depth;
    st = BeginStringOrEmpty \<longrightarrow> stack \<noteq> []\<rbrakk> \<Longrightarrow> length stack' \<le> max_nesting_depth"
proof (induction s arbitrary: st stack)
  case (Cons c cs)
  obtain st1 stack1 where s: "json_step (st, stack) c = Some (st1, stack1)"
    and r: "json_run (st1, stack1) cs = Some (st', stack')"
    using Cons.prems(1) by (auto split: option.splits)
  from json_step_depth [OF s Cons.prems(2,3)] show ?case using Cons.IH [OF r] by blast
qed simp

lemma json_valid_Nil: "\<not> json_valid []"
  by code_simp

lemma json_run_leading_space:
  "\<forall>c\<in>set ws. json_space c \<Longrightarrow> json_run (BeginValue, []) (ws @ s) = json_run (BeginValue, []) s"
  by (induction ws) (auto simp: begin_value_def)

lemma json_valid_leading_space:
  "\<forall>c\<in>set ws. json_space c \<Longrightarrow> json_valid (ws @ s) = json_valid s"
  by (simp add: json_valid_def json_run_leading_space)

lemma json_object_valid: "json_object s \<Longrightarrow> json_valid s"
  by (simp add: json_object_def)

end
