(* ===== verification/Projection.thy ===== *)
theory Projection
  imports Json
begin

text \<open>
  The canonical browser state (\<open>pkg/state/projection.go\<close>): the stable keys, the
  entity structs, the projection that maps keys to entities, the operations on it with
  their validation, and the envelopes sent to browsers.  A pointer field is an option.
  \<open>Operation.Kind\<close> is a Go string: the sixteen declared constants are constructors and
  any other string is \<open>OtherKind\<close>.
\<close>

subsection \<open>Stable keys\<close>

text \<open>Each key type is a distinct named string; the type parameter records which.\<close>

datatype host_tag = HostTag
datatype session_tag = SessionTag
datatype window_tag = WindowTag
datatype pane_tag = PaneTag
datatype tool_event_tag = ToolEventTag
datatype activity_tag = ActivityTag
datatype 'a key = Key (key_string: string)

type_synonym HostKey = "host_tag key"
type_synonym SessionKey = "session_tag key"
type_synonym WindowKey = "window_tag key"
type_synonym PaneKey = "pane_tag key"
type_synonym ToolEventKey = "tool_event_tag key"
type_synonym ActivityKey = "activity_tag key"

instantiation key :: (type) linorder
begin

definition less_eq_key :: "'a key \<Rightarrow> 'a key \<Rightarrow> bool" where
  "less_eq_key a b = (key_string a \<le> key_string b)"

definition less_key :: "'a key \<Rightarrow> 'a key \<Rightarrow> bool" where
  "less_key a b = (key_string a < key_string b)"

instance
  by standard (auto simp: less_eq_key_def less_key_def key.expand)

end

definition keyPart :: "string \<Rightarrow> string" where
  "keyPart value = path_escape value"

definition NewHostKey :: "string \<Rightarrow> HostKey" where
  "NewHostKey hostID = Key (''host/'' @ keyPart hostID)"

definition NewSessionKey :: "string \<Rightarrow> string \<Rightarrow> SessionKey" where
  "NewSessionKey hostID sessionName =
     Key (key_string (NewHostKey hostID) @ ''/session/'' @ keyPart sessionName)"

definition NewWindowKey :: "string \<Rightarrow> string \<Rightarrow> string \<Rightarrow> WindowKey" where
  "NewWindowKey hostID sessionName windowID =
     Key (key_string (NewSessionKey hostID sessionName) @ ''/window/'' @ keyPart windowID)"

definition NewPaneKey :: "string \<Rightarrow> string \<Rightarrow> string \<Rightarrow> string \<Rightarrow> PaneKey" where
  "NewPaneKey hostID sessionName windowID paneID =
     Key (key_string (NewWindowKey hostID sessionName windowID) @ ''/pane/'' @ keyPart paneID)"

lemma NewHostKey_inject [simp]: "NewHostKey a = NewHostKey b \<longleftrightarrow> a = b"
  by (simp add: NewHostKey_def keyPart_def path_escape_inject)

lemma NewSessionKey_inject [simp]:
  "NewSessionKey a s = NewSessionKey b t \<longleftrightarrow> a = b \<and> s = t"
  by (simp add: NewSessionKey_def NewHostKey_def keyPart_def segment_inject path_escape_inject)

lemma NewWindowKey_inject [simp]:
  "NewWindowKey a s w = NewWindowKey b t v \<longleftrightarrow> a = b \<and> s = t \<and> w = v"
  by (auto simp add: NewWindowKey_def NewSessionKey_def NewHostKey_def keyPart_def segment_inject
      path_escape_inject)

lemma NewPaneKey_inject [simp]:
  "NewPaneKey a s w p = NewPaneKey b t v q \<longleftrightarrow> a = b \<and> s = t \<and> w = v \<and> p = q"
  by (auto simp add: NewPaneKey_def NewWindowKey_def NewSessionKey_def NewHostKey_def keyPart_def
      segment_inject path_escape_inject)

lemma new_keys_not_blank:
  "\<not> blank (key_string (NewHostKey h))" "\<not> blank (key_string (NewSessionKey h s))"
  "\<not> blank (key_string (NewWindowKey h s w))" "\<not> blank (key_string (NewPaneKey h s w p))"
  by (simp_all add: NewHostKey_def NewSessionKey_def NewWindowKey_def NewPaneKey_def not_blank_h)

subsection \<open>Values of type any\<close>

text \<open>
  The dynamic values the coordinator copies, one constructor per case of
  \<open>cloneJSONValue\<close>; \<open>None\<close> is a nil map or slice, which \<open>reflect.DeepEqual\<close> tells
  apart from an empty one.  Floats are finite.
\<close>

datatype gval = GNil | GBool bool | GInt int | GFloat rat | GString string
  | GMap "(string, gval) fmap option"
  | GSlice "gval list option"
  | GStrings "string list option"
  | GInts "int list option"
  | GBytes "byte list option"
  | GOther string

subsection \<open>Entities\<close>

record Host =
  h_key :: HostKey
  h_id :: string
  h_display_name :: string
  h_online :: bool
  h_local :: bool
  h_version :: string
  h_last_seen :: time

record Session =
  s_key :: SessionKey
  s_host_key :: HostKey
  s_host_id :: string
  s_name :: string
  s_tmux_id :: string
  s_attached :: bool
  s_created :: time
  s_last_activity :: time

record Window =
  w_key :: WindowKey
  w_session_key :: SessionKey
  w_tmux_id :: string
  w_name :: string
  w_index :: int
  w_active :: bool
  w_layout :: string

record Pane =
  p_key :: PaneKey
  p_window_key :: WindowKey
  p_tmux_id :: string
  p_index :: int
  p_active :: bool
  p_width :: int
  p_height :: int
  p_current_command :: string
  p_pid :: int

record ToolEvent =
  te_key :: ToolEventKey
  te_host_id :: string
  te_session :: string
  te_window :: string
  te_pane :: string
  te_tool :: string
  te_status :: string
  te_message :: string
  te_timestamp :: time
  te_auto_detected :: bool

record Activity =
  a_key :: ActivityKey
  a_host_id :: string
  a_session :: string
  a_window :: string
  a_pane :: string
  a_timestamp :: time
  a_data :: gval

record Health =
  he_host_key :: HostKey
  he_last_state_sync :: time
  he_facts :: "(string, gval) fmap option"

record projection =
  Hosts :: "(HostKey, Host) fmap"
  Sessions :: "(SessionKey, Session) fmap"
  Windows :: "(WindowKey, Window) fmap"
  Panes :: "(PaneKey, Pane) fmap"
  ToolEvents :: "(ToolEventKey, ToolEvent) fmap"
  Activities :: "(ActivityKey, Activity) fmap"
  Healths :: "(HostKey, Health) fmap"
  Metadata :: "(string, string) fmap"

definition NewProjection :: projection where
  "NewProjection = \<lparr>Hosts = fmempty, Sessions = fmempty, Windows = fmempty, Panes = fmempty,
     ToolEvents = fmempty, Activities = fmempty, Healths = fmempty, Metadata = fmempty\<rparr>"

subsection \<open>Operations\<close>

datatype operation_kind =
    UpsertHost | RemoveHost | UpsertSession | RemoveSession | UpsertWindow | RemoveWindow
  | UpsertPane | RemovePane | UpsertToolEvent | RemoveToolEvent | UpsertActivity | RemoveActivity
  | UpsertHealth | RemoveHealth | SetMetadata | RemoveMetadata | OtherKind string

record operation =
  op_kind :: operation_kind
  op_key :: string
  op_host :: "Host option"
  op_session :: "Session option"
  op_window :: "Window option"
  op_pane :: "Pane option"
  op_tool_event :: "ToolEvent option"
  op_activity :: "Activity option"
  op_health :: "Health option"
  op_metadata :: string

text \<open>The composite literal \<open>Operation{Kind: k}\<close>: every other field is zero.\<close>

definition operation_of :: "operation_kind \<Rightarrow> operation" where
  "operation_of k = \<lparr>op_kind = k, op_key = [], op_host = None, op_session = None,
     op_window = None, op_pane = None, op_tool_event = None, op_activity = None,
     op_health = None, op_metadata = []\<rparr>"

datatype op_error = RequiresTypedValue operation_kind | MustNotCarryKey operation_kind
  | RequiresStableKey operation_kind | MetadataRequired | MetadataNotJSON
  | UnknownOperation operation_kind | UnsupportedOperation operation_kind | NilDereference

text \<open>\<open>upsert_value op\<close> is \<open>upsertValue[op.Kind]\<close>: whether the typed value is present.\<close>

definition upsert_value :: "operation \<Rightarrow> bool option" where
  "upsert_value op = (case op_kind op of
       UpsertHost \<Rightarrow> Some (op_host op \<noteq> None)
     | UpsertSession \<Rightarrow> Some (op_session op \<noteq> None)
     | UpsertWindow \<Rightarrow> Some (op_window op \<noteq> None)
     | UpsertPane \<Rightarrow> Some (op_pane op \<noteq> None)
     | UpsertToolEvent \<Rightarrow> Some (op_tool_event op \<noteq> None)
     | UpsertActivity \<Rightarrow> Some (op_activity op \<noteq> None)
     | UpsertHealth \<Rightarrow> Some (op_health op \<noteq> None)
     | _ \<Rightarrow> None)"

definition operation_validate :: "operation \<Rightarrow> op_error option" where
  "operation_validate op =
     (case upsert_value op of
        Some present \<Rightarrow>
          if \<not> present then Some (RequiresTypedValue (op_kind op))
          else if op_key op \<noteq> [] then Some (MustNotCarryKey (op_kind op))
          else None
      | None \<Rightarrow>
          (case op_kind op of
             SetMetadata \<Rightarrow>
               if blank (op_key op) \<or> op_metadata op = [] then Some MetadataRequired
               else if \<not> json_valid (op_metadata op) then Some MetadataNotJSON
               else None
           | OtherKind k \<Rightarrow> Some (UnknownOperation (OtherKind k))
           | _ \<Rightarrow> if blank (op_key op) then Some (RequiresStableKey (op_kind op)) else None))"

lemma operation_validate_upsert:
  "operation_validate (operation_of UpsertHost\<lparr>op_host := Some h\<rparr>) = None"
  "operation_validate (operation_of UpsertSession\<lparr>op_session := Some s\<rparr>) = None"
  "operation_validate (operation_of UpsertWindow\<lparr>op_window := Some w\<rparr>) = None"
  "operation_validate (operation_of UpsertPane\<lparr>op_pane := Some p\<rparr>) = None"
  "operation_validate (operation_of UpsertToolEvent\<lparr>op_tool_event := Some t\<rparr>) = None"
  "operation_validate (operation_of UpsertActivity\<lparr>op_activity := Some a\<rparr>) = None"
  "operation_validate (operation_of UpsertHealth\<lparr>op_health := Some u\<rparr>) = None"
  by (simp_all add: operation_validate_def upsert_value_def operation_of_def)

definition remove_kinds :: "operation_kind set" where
  "remove_kinds = {RemoveHost, RemoveSession, RemoveWindow, RemovePane, RemoveToolEvent,
     RemoveActivity, RemoveHealth, RemoveMetadata}"

lemma operation_validate_remove:
  "k \<in> remove_kinds \<Longrightarrow> \<not> blank key \<Longrightarrow> operation_validate (operation_of k\<lparr>op_key := key\<rparr>) = None"
  by (auto simp: remove_kinds_def operation_validate_def upsert_value_def operation_of_def)

subsection \<open>Envelopes\<close>

definition SchemaVersion :: int where "SchemaVersion = 1"

datatype envelope_type = TypeSnapshot | TypeDelta | TypeResyncRequired | TypeReloadRequired | OtherType string

record snapshot_envelope =
  sn_type :: envelope_type
  sn_schema :: int
  sn_instance :: string
  sn_revision :: u64
  sn_state :: projection

record delta_envelope =
  de_type :: envelope_type
  de_schema :: int
  de_instance :: string
  de_base_revision :: u64
  de_revision :: u64
  de_operations :: "operation list"

record outcome_envelope =
  oe_type :: envelope_type
  oe_schema :: int
  oe_instance :: string
  oe_revision :: u64
  oe_reason :: string

datatype envelope_error = WrongType envelope_type | UnsupportedSchema int | InstanceRequired
  | RevisionMustAdvance | NoOperations | BadOperation nat op_error

definition validateEnvelopeIdentity :: "int \<Rightarrow> string \<Rightarrow> envelope_error option" where
  "validateEnvelopeIdentity schema inst =
     (if schema \<noteq> SchemaVersion then Some (UnsupportedSchema schema)
      else if blank inst then Some InstanceRequired else None)"

definition snapshot_validate :: "snapshot_envelope \<Rightarrow> envelope_error option" where
  "snapshot_validate e =
     (if sn_type e \<noteq> TypeSnapshot then Some (WrongType (sn_type e))
      else validateEnvelopeIdentity (sn_schema e) (sn_instance e))"

fun first_bad_operation :: "nat \<Rightarrow> operation list \<Rightarrow> (nat \<times> op_error) option" where
  "first_bad_operation i [] = None"
| "first_bad_operation i (op # ops) =
     (case operation_validate op of Some e \<Rightarrow> Some (i, e) | None \<Rightarrow> first_bad_operation (Suc i) ops)"

definition delta_validate :: "delta_envelope \<Rightarrow> envelope_error option" where
  "delta_validate e =
     (if de_type e \<noteq> TypeDelta then Some (WrongType (de_type e))
      else case validateEnvelopeIdentity (de_schema e) (de_instance e) of
        Some err \<Rightarrow> Some err
      | None \<Rightarrow>
          if de_revision e \<le> de_base_revision e then Some RevisionMustAdvance
          else if de_operations e = [] then Some NoOperations
          else case first_bad_operation 0 (de_operations e) of
            Some (i, err) \<Rightarrow> Some (BadOperation i err)
          | None \<Rightarrow> None)"

lemma first_bad_operation_None:
  "first_bad_operation i ops = None \<longleftrightarrow> (\<forall>op\<in>set ops. operation_validate op = None)"
  by (induction ops arbitrary: i) (auto split: option.splits)

text \<open>
  The canonical keys identify what they name: two host, session, window or pane keys
  are equal exactly when all the names they were built from are equal, whatever
  characters (slashes included) the names contain.
\<close>

theorem canonical_keys_identify:
  "(NewHostKey h = NewHostKey h') = (h = h') \<and>
   (NewSessionKey h s = NewSessionKey h' s') = (h = h' \<and> s = s') \<and>
   (NewWindowKey h s w = NewWindowKey h' s' w') = (h = h' \<and> s = s' \<and> w = w') \<and>
   (NewPaneKey h s w p = NewPaneKey h' s' w' p') = (h = h' \<and> s = s' \<and> w = w' \<and> p = p')"
  by simp

end
