(* ===== verification/Coordinator.thy ===== *)
theory Coordinator
  imports Projection
begin

text \<open>
  The state coordinator (\<open>pkg/state/coordinator.go\<close>): defensive copies, the
  application of one operation, the atomic commit of a list of operations, and the run
  loop, one command at a time, with the registry of subscribers and their bounded
  channels.  The last part relates every subscriber to the coordinator: a replica that
  starts from its snapshot and applies the messages it receives.
\<close>

subsection \<open>Defensive copies\<close>

text \<open>\<open>append([]T(nil), xs...)\<close> turns an empty slice into nil.\<close>

definition append_nil :: "'a list option \<Rightarrow> 'a list option" where
  "append_nil xs = (case xs of Some (y # ys) \<Rightarrow> Some (y # ys) | _ \<Rightarrow> None)"

definition make_slice :: "'a list option \<Rightarrow> 'a list option" where
  "make_slice xs = Some (case xs of None \<Rightarrow> [] | Some ys \<Rightarrow> ys)"

definition make_map :: "('k, 'v) fmap option \<Rightarrow> ('k, 'v) fmap option" where
  "make_map m = Some (case m of None \<Rightarrow> fmempty | Some n \<Rightarrow> n)"

primrec cloneJSONValue :: "gval \<Rightarrow> gval" where
  "cloneJSONValue GNil = GNil"
| "cloneJSONValue (GBool b) = GBool b"
| "cloneJSONValue (GInt i) = GInt i"
| "cloneJSONValue (GFloat r) = GFloat r"
| "cloneJSONValue (GString s) = GString s"
| "cloneJSONValue (GMap m) = GMap (make_map (map_option (fmmap cloneJSONValue) m))"
| "cloneJSONValue (GSlice xs) = GSlice (make_slice (map_option (map cloneJSONValue) xs))"
| "cloneJSONValue (GStrings xs) = GStrings (append_nil xs)"
| "cloneJSONValue (GInts xs) = GInts (append_nil xs)"
| "cloneJSONValue (GBytes xs) = GBytes (append_nil xs)"
| "cloneJSONValue (GOther s) = GOther s"

definition cloneHealth :: "Health \<Rightarrow> Health" where
  "cloneHealth source = source\<lparr>he_facts := map_option (fmmap cloneJSONValue) (he_facts source)\<rparr>"

definition cloneActivity :: "Activity \<Rightarrow> Activity" where
  "cloneActivity value = value\<lparr>a_data := cloneJSONValue (a_data value)\<rparr>"

definition cloneProjection :: "projection \<Rightarrow> projection" where
  "cloneProjection source =
     source\<lparr>Activities := fmmap cloneActivity (Activities source),
            Healths := fmmap cloneHealth (Healths source)\<rparr>"

definition cloneOperation :: "operation \<Rightarrow> operation" where
  "cloneOperation source =
     source\<lparr>op_activity := map_option cloneActivity (op_activity source),
            op_health := map_option cloneHealth (op_health source)\<rparr>"

definition cloneOperations :: "operation list \<Rightarrow> operation list" where
  "cloneOperations source = map cloneOperation source"

lemma append_nil_idem [clone_simps]: "append_nil (append_nil xs) = append_nil xs"
  by (auto simp: append_nil_def split: option.splits list.splits)

lemma cloneJSONValue_idem [clone_simps]: "cloneJSONValue (cloneJSONValue v) = cloneJSONValue v"
proof (induction v)
  case (GMap m)
  show ?case
  proof (cases m)
    case (Some n)
    have "fmmap (cloneJSONValue \<circ> cloneJSONValue) n = fmmap cloneJSONValue n"
      by (rule fmap.map_cong) (use GMap Some in auto)
    with Some show ?thesis by (simp add: make_map_def fmap.map_comp)
  qed (simp add: make_map_def)
next
  case (GSlice xs)
  then show ?case by (cases xs) (auto simp: make_slice_def)
qed (simp_all add: append_nil_idem)

lemma cloneHealth_idem [clone_simps]: "cloneHealth (cloneHealth h) = cloneHealth h"
  by (cases "he_facts h")
     (simp_all add: cloneHealth_def fmap.map_comp o_def cloneJSONValue_idem)

lemma cloneActivity_idem [clone_simps]: "cloneActivity (cloneActivity a) = cloneActivity a"
  by (simp add: cloneActivity_def cloneJSONValue_idem)

lemma cloneProjection_idem [clone_simps]:
  "cloneProjection (cloneProjection p) = cloneProjection p"
  by (simp add: cloneProjection_def fmap.map_comp o_def cloneActivity_idem cloneHealth_idem)

lemma cloneOperation_idem [clone_simps]: "cloneOperation (cloneOperation p) = cloneOperation p"
  by (cases "op_activity p"; cases "op_health p")
     (simp_all add: cloneOperation_def cloneActivity_idem cloneHealth_idem)

lemma cloneOperations_idem [clone_simps]: "cloneOperations (cloneOperations p) = cloneOperations p"
  by (simp add: cloneOperations_def cloneOperation_idem)

lemma clone_keys [simp]:
  "a_key (cloneActivity a) = a_key a" "he_host_key (cloneHealth h) = he_host_key h"
  by (simp_all add: cloneActivity_def cloneHealth_def)

lemma clone_NewProjection [simp]: "cloneProjection NewProjection = NewProjection"
  by (simp add: cloneProjection_def NewProjection_def)

subsection \<open>One operation\<close>

text \<open>
  A nil pointer is dereferenced only when an upsert carries no value; that run-time
  panic is the error \<open>NilDereference\<close>.
\<close>

definition deref :: "'a option \<Rightarrow> ('a \<Rightarrow> projection) \<Rightarrow> op_error + projection" where
  "deref p f = (case p of None \<Rightarrow> Inl NilDereference | Some v \<Rightarrow> Inr (f v))"

definition applyOperation :: "projection \<Rightarrow> operation \<Rightarrow> op_error + projection" where
  "applyOperation p op = (case op_kind op of
       UpsertHost \<Rightarrow> deref (op_host op) (\<lambda>v. p\<lparr>Hosts := fmupd (h_key v) v (Hosts p)\<rparr>)
     | RemoveHost \<Rightarrow> Inr (p\<lparr>Hosts := fmdrop (Key (op_key op)) (Hosts p)\<rparr>)
     | UpsertSession \<Rightarrow> deref (op_session op) (\<lambda>v. p\<lparr>Sessions := fmupd (s_key v) v (Sessions p)\<rparr>)
     | RemoveSession \<Rightarrow> Inr (p\<lparr>Sessions := fmdrop (Key (op_key op)) (Sessions p)\<rparr>)
     | UpsertWindow \<Rightarrow> deref (op_window op) (\<lambda>v. p\<lparr>Windows := fmupd (w_key v) v (Windows p)\<rparr>)
     | RemoveWindow \<Rightarrow> Inr (p\<lparr>Windows := fmdrop (Key (op_key op)) (Windows p)\<rparr>)
     | UpsertPane \<Rightarrow> deref (op_pane op) (\<lambda>v. p\<lparr>Panes := fmupd (p_key v) v (Panes p)\<rparr>)
     | RemovePane \<Rightarrow> Inr (p\<lparr>Panes := fmdrop (Key (op_key op)) (Panes p)\<rparr>)
     | UpsertToolEvent \<Rightarrow> deref (op_tool_event op) (\<lambda>v. p\<lparr>ToolEvents := fmupd (te_key v) v (ToolEvents p)\<rparr>)
     | RemoveToolEvent \<Rightarrow> Inr (p\<lparr>ToolEvents := fmdrop (Key (op_key op)) (ToolEvents p)\<rparr>)
     | UpsertActivity \<Rightarrow> deref (op_activity op) (\<lambda>v. p\<lparr>Activities := fmupd (a_key v) v (Activities p)\<rparr>)
     | RemoveActivity \<Rightarrow> Inr (p\<lparr>Activities := fmdrop (Key (op_key op)) (Activities p)\<rparr>)
     | UpsertHealth \<Rightarrow> deref (op_health op) (\<lambda>v. p\<lparr>Healths := fmupd (he_host_key v) (cloneHealth v) (Healths p)\<rparr>)
     | RemoveHealth \<Rightarrow> Inr (p\<lparr>Healths := fmdrop (Key (op_key op)) (Healths p)\<rparr>)
     | SetMetadata \<Rightarrow> Inr (p\<lparr>Metadata := fmupd (op_key op) (op_metadata op) (Metadata p)\<rparr>)
     | RemoveMetadata \<Rightarrow> Inr (p\<lparr>Metadata := fmdrop (op_key op) (Metadata p)\<rparr>)
     | OtherKind k \<Rightarrow> Inl (UnsupportedOperation (OtherKind k)))"

lemma applyOperation_valid:
  "operation_validate op = None \<Longrightarrow> \<exists>p'. applyOperation p op = Inr p'"
  by (cases "op_kind op")
     (auto simp: operation_validate_def upsert_value_def applyOperation_def deref_def
       split: if_splits)

text \<open>Copying before or after an operation is the same.\<close>

lemma clone_applyOperation:
  "applyOperation (cloneProjection p) (cloneOperation op) = map_sum id cloneProjection (applyOperation p op)"
  by (cases "op_kind op")
     (simp_all add: applyOperation_def deref_def cloneOperation_def cloneProjection_def
       fmmap_fmupd cloneHealth_idem split: option.split)

lemma applyOperation_clone_op:
  "applyOperation p op = Inr p' \<Longrightarrow>
     applyOperation (cloneProjection p) (cloneOperation op) = Inr (cloneProjection p')"
  by (simp add: clone_applyOperation)

subsection \<open>Commit\<close>

record commit_result =
  cr_changed :: bool
  cr_revision :: u64
  cr_delta :: "delta_envelope option"

text \<open>The loop of \<open>applyCommit\<close>: validate, then apply, each operation in turn.\<close>

fun apply_operations :: "nat \<Rightarrow> projection \<Rightarrow> operation list \<Rightarrow> (nat \<times> op_error) + projection" where
  "apply_operations i p [] = Inr p"
| "apply_operations i p (op # ops) =
     (case operation_validate op of
        Some e \<Rightarrow> Inl (i, e)
      | None \<Rightarrow>
          (case applyOperation p op of
             Inl e \<Rightarrow> Inl (i, e)
           | Inr p' \<Rightarrow> apply_operations (Suc i) p' ops))"

definition applyCommit ::
  "string \<Rightarrow> projection \<Rightarrow> u64 \<Rightarrow> operation list \<Rightarrow> commit_result \<times> projection \<times> (nat \<times> op_error) option" where
  "applyCommit inst current revision operations =
     (let unchanged = \<lparr>cr_changed = False, cr_revision = revision, cr_delta = None\<rparr> in
      if operations = [] then (unchanged, current, None)
      else case apply_operations 0 (cloneProjection current) operations of
        Inl e \<Rightarrow> (unchanged, current, Some e)
      | Inr next \<Rightarrow>
          if current = next then (unchanged, current, None)
          else (\<lparr>cr_changed = True, cr_revision = revision + 1,
                 cr_delta = Some \<lparr>de_type = TypeDelta, de_schema = SchemaVersion, de_instance = inst,
                   de_base_revision = revision, de_revision = revision + 1,
                   de_operations = cloneOperations operations\<rparr>\<rparr>, next, None))"

lemma apply_operations_valid:
  "\<forall>op\<in>set ops. operation_validate op = None \<Longrightarrow> \<exists>p'. apply_operations i p ops = Inr p'"
proof (induction ops arbitrary: i p)
  case (Cons op ops)
  obtain p' where "applyOperation p op = Inr p'"
    using applyOperation_valid [of op p] Cons.prems by auto
  with Cons show ?case by simp
qed simp

lemma apply_operations_Inr_valid:
  "apply_operations i p ops = Inr p' \<Longrightarrow> \<forall>op\<in>set ops. operation_validate op = None"
  by (induction ops arbitrary: i p) (auto split: option.splits sum.splits)

lemma apply_operations_Inl:
  "apply_operations i p ops = Inl (j, e) \<Longrightarrow>
     \<exists>op \<in> set ops. operation_validate op = Some e \<and> i \<le> j \<and> j < i + length ops"
proof (induction ops arbitrary: i p)
  case (Cons op ops)
  show ?case
  proof (cases "operation_validate op")
    case None
    then obtain p1 where "applyOperation p op = Inr p1" using applyOperation_valid by blast
    with None Cons.prems have "apply_operations (Suc i) p1 ops = Inl (j, e)" by simp
    from Cons.IH [OF this] show ?thesis by force
  qed (use Cons.prems in auto)
qed simp

lemma operation_validate_clone: "operation_validate (cloneOperation op) = operation_validate op"
  by (cases "op_kind op") (simp_all add: operation_validate_def upsert_value_def cloneOperation_def)

lemma apply_operations_clone:
  "apply_operations i p ops = Inr p' \<Longrightarrow>
     apply_operations j (cloneProjection p) (cloneOperations ops) = Inr (cloneProjection p')"
proof (induction ops arbitrary: i j p)
  case (Cons op ops)
  then obtain p1 where 1: "operation_validate op = None" "applyOperation p op = Inr p1"
    and 2: "apply_operations (Suc i) p1 ops = Inr p'"
    by (auto split: option.splits sum.splits)
  from 1 Cons.IH [OF 2, of "Suc j"] show ?case
    by (simp add: cloneOperations_def operation_validate_clone applyOperation_clone_op)
qed (simp add: cloneOperations_def)

lemma apply_operations_append:
  "apply_operations i p (xs @ ys) =
     (case apply_operations i p xs of Inl e \<Rightarrow> Inl e | Inr p' \<Rightarrow> apply_operations (i + length xs) p' ys)"
  by (induction xs arbitrary: i p) (auto split: option.splits sum.splits)

lemma apply_operations_index:
  "apply_operations i p ops = Inr p' \<Longrightarrow> apply_operations j p ops = Inr p'"
  by (induction ops arbitrary: i j p) (auto split: option.splits sum.splits)

lemma applyCommit_changed:
  assumes "applyCommit inst p n ops = (r, p', e)" and "cr_changed r"
  shows "e = None \<and> cr_revision r = n + 1 \<and> apply_operations 0 (cloneProjection p) ops = Inr p' \<and>
    p' \<noteq> p \<and> (\<exists>d. cr_delta r = Some d \<and> de_base_revision d = n \<and> de_revision d = n + 1 \<and>
      de_operations d = cloneOperations ops \<and> ops \<noteq> [])"
  using assms by (auto simp: applyCommit_def Let_def split: if_splits sum.splits)

lemma applyCommit_unchanged:
  assumes "applyCommit inst p n ops = (r, p', e)" and "\<not> cr_changed r"
  shows "p' = p \<and> cr_revision r = n \<and> cr_delta r = None"
  using assms by (auto simp: applyCommit_def Let_def split: if_splits sum.splits)

text \<open>A projection that copying leaves alone; the coordinator's own state is one.\<close>

definition clone_stable :: "projection \<Rightarrow> bool" where
  "clone_stable p = (cloneProjection p = p)"

definition operation_stable :: "operation \<Rightarrow> bool" where
  "operation_stable op = (cloneOperation op = op)"

lemma apply_operations_stable:
  assumes "clone_stable p" and "\<forall>op\<in>set ops. operation_stable op"
    and "apply_operations i p ops = Inr p'"
  shows "clone_stable p'"
proof -
  have "cloneOperations ops = ops"
    using assms(2) by (auto simp: cloneOperations_def operation_stable_def intro: map_idI)
  with apply_operations_clone [OF assms(3), of i] assms(1,3) show ?thesis
    by (simp add: clone_stable_def)
qed

subsection \<open>The run loop\<close>

datatype subscriber_message = MDelta delta_envelope | MOutcome outcome_envelope

record chan =
  ch_cap :: nat
  ch_buf :: "subscriber_message list"
  ch_closed :: bool

text \<open>
  \<open>co_subs\<close> is the registry of the loop; \<open>co_detached\<close> holds the channels that left the
  registry, which their receivers can still drain.  Subscriber identifiers are naturals:
  the 64-bit counter would have to be incremented $2^{64}$ times to repeat one.
\<close>

record coordinator =
  co_instance :: string
  co_projection :: projection
  co_revision :: u64
  co_next_id :: nat
  co_subs :: "(nat, chan) fmap"
  co_detached :: "(nat, chan) fmap"
  co_stopped :: bool

definition new_coordinator :: "string \<Rightarrow> coordinator" where
  "new_coordinator inst = \<lparr>co_instance = inst, co_projection = NewProjection, co_revision = 0,
     co_next_id = 0, co_subs = fmempty, co_detached = fmempty, co_stopped = False\<rparr>"

text \<open>The constructor panics on an empty instance ID.\<close>

definition NewCoordinatorWithInstanceID :: "string \<Rightarrow> coordinator option" where
  "NewCoordinatorWithInstanceID inst = (if inst = [] then None else Some (new_coordinator inst))"

definition snapshot :: "coordinator \<Rightarrow> snapshot_envelope" where
  "snapshot c = \<lparr>sn_type = TypeSnapshot, sn_schema = SchemaVersion, sn_instance = co_instance c,
     sn_revision = co_revision c, sn_state = cloneProjection (co_projection c)\<rparr>"

definition overflow_outcome :: "string \<Rightarrow> u64 \<Rightarrow> outcome_envelope" where
  "overflow_outcome inst revision = \<lparr>oe_type = TypeResyncRequired, oe_schema = SchemaVersion,
     oe_instance = inst, oe_revision = revision, oe_reason = ''subscriber queue overflow''\<rparr>"

definition chan_full :: "chan \<Rightarrow> bool" where
  "chan_full ch = (ch_cap ch \<le> length (ch_buf ch))"

definition chan_send :: "subscriber_message \<Rightarrow> chan \<Rightarrow> chan" where
  "chan_send m ch = ch\<lparr>ch_buf := ch_buf ch @ [m]\<rparr>"

definition chan_close :: "chan \<Rightarrow> chan" where
  "chan_close ch = ch\<lparr>ch_closed := True\<rparr>"

text \<open>
  The \<open>default\<close> branch of the delivery: the queue is drained, the resync outcome is
  sent and the channel is closed.
\<close>

definition chan_overflow :: "outcome_envelope \<Rightarrow> chan \<Rightarrow> chan" where
  "chan_overflow o_env ch = chan_close (chan_send (MOutcome o_env) (ch\<lparr>ch_buf := []\<rparr>))"

definition cloneDelta :: "delta_envelope \<Rightarrow> delta_envelope" where
  "cloneDelta source = source\<lparr>de_operations := cloneOperations (de_operations source)\<rparr>"

definition deliver :: "delta_envelope \<Rightarrow> coordinator \<Rightarrow> coordinator" where
  "deliver d c =
     c\<lparr>co_subs := fmmap (chan_send (MDelta (cloneDelta d))) (fm_keep (\<lambda>_ ch. \<not> chan_full ch) (co_subs c)),
       co_detached := fmadd (co_detached c)
         (fmmap (chan_overflow (overflow_outcome (co_instance c) (co_revision c)))
           (fm_keep (\<lambda>_ ch. chan_full ch) (co_subs c)))\<rparr>"

definition run_commit :: "coordinator \<Rightarrow> operation list \<Rightarrow> coordinator \<times> commit_result \<times> (nat \<times> op_error) option" where
  "run_commit c ops =
     (let (result, next, err) = applyCommit (co_instance c) (co_projection c) (co_revision c) ops in
      (case (err, cr_delta result) of
         (None, Some d) \<Rightarrow>
           deliver d (c\<lparr>co_projection := next, co_revision := cr_revision result\<rparr>)
       | _ \<Rightarrow> c, result, err))"

definition defaultSubscriberBuffer :: nat where "defaultSubscriberBuffer = 64"

definition run_subscribe :: "coordinator \<Rightarrow> int \<Rightarrow> coordinator \<times> nat" where
  "run_subscribe c queueSize =
     (let size = (if queueSize \<le> 0 then defaultSubscriberBuffer else nat queueSize);
          sub = Suc (co_next_id c) in
      (c\<lparr>co_next_id := sub,
         co_subs := fmupd sub \<lparr>ch_cap = size, ch_buf = [], ch_closed = False\<rparr> (co_subs c)\<rparr>, sub))"

definition run_unsubscribe :: "coordinator \<Rightarrow> nat \<Rightarrow> coordinator" where
  "run_unsubscribe c sub = (case fmlookup (co_subs c) sub of
       None \<Rightarrow> c
     | Some ch \<Rightarrow> c\<lparr>co_subs := fmdrop sub (co_subs c),
         co_detached := fmupd sub (chan_close ch) (co_detached c)\<rparr>)"

definition run_close :: "coordinator \<Rightarrow> coordinator" where
  "run_close c = c\<lparr>co_subs := fmempty,
     co_detached := fmadd (co_detached c) (fmmap chan_close (co_subs c)), co_stopped := True\<rparr>"

text \<open>A subscriber receives from its channel, registered or not.\<close>

definition find_chan :: "coordinator \<Rightarrow> nat \<Rightarrow> chan option" where
  "find_chan c sub = (case fmlookup (co_subs c) sub of
       Some ch \<Rightarrow> Some ch | None \<Rightarrow> fmlookup (co_detached c) sub)"

definition receive :: "coordinator \<Rightarrow> nat \<Rightarrow> coordinator \<times> subscriber_message option" where
  "receive c sub = (case find_chan c sub of
       None \<Rightarrow> (c, None)
     | Some ch \<Rightarrow>
         (case ch_buf ch of
            [] \<Rightarrow> (c, None)
          | m # ms \<Rightarrow>
              (if go_has (co_subs c) sub
               then c\<lparr>co_subs := fmupd sub (ch\<lparr>ch_buf := ms\<rparr>) (co_subs c)\<rparr>
               else c\<lparr>co_detached := fmupd sub (ch\<lparr>ch_buf := ms\<rparr>) (co_detached c)\<rparr>, Some m)))"

datatype command = Commit "operation list" | Snapshot | Subscribe int | Unsubscribe nat
  | Receive nat | Close

datatype reply = RCommit commit_result "(nat \<times> op_error) option" | RSnapshot snapshot_envelope
  | RSubscription nat snapshot_envelope | RNone | RMessage "subscriber_message option"
  | ErrCoordinatorClosed

fun co_step :: "coordinator \<Rightarrow> command \<Rightarrow> coordinator \<times> reply" where
  "co_step c (Commit ops) =
     (if co_stopped c then (c, ErrCoordinatorClosed)
      else case run_commit c ops of (c', result, err) \<Rightarrow> (c', RCommit result err))"
| "co_step c Snapshot =
     (if co_stopped c then (c, ErrCoordinatorClosed) else (c, RSnapshot (snapshot c)))"
| "co_step c (Subscribe queueSize) =
     (if co_stopped c then (c, ErrCoordinatorClosed)
      else case run_subscribe c queueSize of (c', sub) \<Rightarrow> (c', RSubscription sub (snapshot c')))"
| "co_step c (Unsubscribe sub) = (if co_stopped c then (c, RNone) else (run_unsubscribe c sub, RNone))"
| "co_step c (Receive sub) = (case receive c sub of (c', m) \<Rightarrow> (c', RMessage m))"
| "co_step c Close = (run_close c, RNone)"

end
