(* ===== verification/Replica.thy ===== *)
theory Replica
  imports Coordinator
begin

text \<open>
  What the run loop of \<open>pkg/state/coordinator.go\<close> guarantees: the invariant of its
  registry, the effect of a commit, and the refinement that matters to a browser.  A
  replica is the abstract client: it starts from the snapshot it was given, applies the
  deltas it receives in order, and asks for a resync when told to or when a delta does
  not continue its revision.
\<close>

subsection \<open>Invariant of the registry\<close>

definition open_chan :: "nat \<Rightarrow> nat \<Rightarrow> chan \<Rightarrow> bool" where
  "open_chan n sub ch =
     (0 < sub \<and> sub \<le> n \<and> 0 < ch_cap ch \<and> \<not> ch_closed ch \<and> length (ch_buf ch) \<le> ch_cap ch)"

definition closed_chan :: "nat \<Rightarrow> nat \<Rightarrow> chan \<Rightarrow> bool" where
  "closed_chan n sub ch =
     (0 < sub \<and> sub \<le> n \<and> 0 < ch_cap ch \<and> ch_closed ch \<and> length (ch_buf ch) \<le> ch_cap ch)"

definition co_inv :: "coordinator \<Rightarrow> bool" where
  "co_inv c =
     ((\<forall>sub ch. fmlookup (co_subs c) sub = Some ch \<longrightarrow> open_chan (co_next_id c) sub ch) \<and>
      (\<forall>sub ch. fmlookup (co_detached c) sub = Some ch \<longrightarrow> closed_chan (co_next_id c) sub ch) \<and>
      (\<forall>sub. go_has (co_subs c) sub \<longrightarrow> \<not> go_has (co_detached c) sub) \<and>
      (co_stopped c \<longrightarrow> co_subs c = fmempty))"

lemma lookup_fmadd:
  "fmlookup (fmadd m n) k = (case fmlookup n k of Some v \<Rightarrow> Some v | None \<Rightarrow> fmlookup m k)"
  by (auto simp: fmlookup_dom_iff split: option.splits)

lemma lookup_deliver_subs:
  "fmlookup (co_subs (deliver d c)) sub =
     (case fmlookup (co_subs c) sub of None \<Rightarrow> None
      | Some ch \<Rightarrow> if chan_full ch then None else Some (chan_send (MDelta (cloneDelta d)) ch))"
  by (auto simp: deliver_def split: option.splits)

lemma lookup_deliver_detached:
  "fmlookup (co_detached (deliver d c)) sub =
     (case fmlookup (co_subs c) sub of
        Some ch \<Rightarrow> if chan_full ch
          then Some (chan_overflow (overflow_outcome (co_instance c) (co_revision c)) ch)
          else fmlookup (co_detached c) sub
      | None \<Rightarrow> fmlookup (co_detached c) sub)"
  by (auto simp: deliver_def lookup_fmadd split: option.splits)

lemma deliver_fields [simp]:
  "co_projection (deliver d c) = co_projection c" "co_revision (deliver d c) = co_revision c"
  "co_next_id (deliver d c) = co_next_id c" "co_stopped (deliver d c) = co_stopped c"
  "co_instance (deliver d c) = co_instance c"
  by (simp_all add: deliver_def)

lemma open_chan_send:
  "open_chan n sub ch \<Longrightarrow> \<not> chan_full ch \<Longrightarrow> open_chan n sub (chan_send m ch)"
  by (simp add: open_chan_def chan_full_def chan_send_def)

lemma open_chan_overflow: "open_chan n sub ch \<Longrightarrow> closed_chan n sub (chan_overflow o_env ch)"
  by (simp add: open_chan_def closed_chan_def chan_overflow_def chan_close_def chan_send_def)

lemma open_chan_close: "open_chan n sub ch \<Longrightarrow> closed_chan n sub (chan_close ch)"
  by (simp add: open_chan_def closed_chan_def chan_close_def)

lemma chan_receive:
  "open_chan n sub ch \<Longrightarrow> ch_buf ch = m # ms \<Longrightarrow> open_chan n sub (ch\<lparr>ch_buf := ms\<rparr>)"
  "closed_chan n sub ch \<Longrightarrow> ch_buf ch = m # ms \<Longrightarrow> closed_chan n sub (ch\<lparr>ch_buf := ms\<rparr>)"
  by (simp_all add: open_chan_def closed_chan_def)

lemma deliver_inv:
  assumes "co_inv c"
  shows "co_inv (deliver d c)"
proof -
  note l = lookup_deliver_subs lookup_deliver_detached
  have "open_chan (co_next_id c) sub ch'" if "fmlookup (co_subs (deliver d c)) sub = Some ch'" for sub ch'
    using that assms by (auto simp: l co_inv_def intro: open_chan_send split: option.splits if_splits)
  moreover have "closed_chan (co_next_id c) sub ch'"
    if "fmlookup (co_detached (deliver d c)) sub = Some ch'" for sub ch'
    using that assms by (auto simp: l co_inv_def intro: open_chan_overflow split: option.splits if_splits)
  moreover have "\<not> go_has (co_detached (deliver d c)) sub" if "go_has (co_subs (deliver d c)) sub" for sub
    using that assms by (auto simp: l co_inv_def go_has_def split: option.splits if_splits)
  moreover have "co_subs (deliver d c) = fmempty" if "co_stopped c"
    using that assms by (auto simp: l co_inv_def intro!: fmap_ext)
  ultimately show ?thesis by (simp add: co_inv_def)
qed

lemma run_commit_inv: "co_inv c \<Longrightarrow> co_inv (fst (run_commit c ops))"
proof -
  assume "co_inv c"
  then have "co_inv (c\<lparr>co_projection := p, co_revision := r\<rparr>)" for p r
    by (simp add: co_inv_def)
  with \<open>co_inv c\<close> show ?thesis
    by (auto simp: run_commit_def Let_def intro!: deliver_inv split: prod.splits option.splits)
qed

lemma run_subscribe_inv: "co_inv c \<Longrightarrow> \<not> co_stopped c \<Longrightarrow> co_inv (fst (run_subscribe c q))"
  by (fastforce simp: co_inv_def run_subscribe_def Let_def open_chan_def closed_chan_def
      defaultSubscriberBuffer_def go_has_def)

lemma run_unsubscribe_inv: "co_inv c \<Longrightarrow> co_inv (run_unsubscribe c sub)"
  by (auto simp: co_inv_def run_unsubscribe_def go_has_def intro: open_chan_close split: option.splits)

lemma run_close_inv: "co_inv c \<Longrightarrow> co_inv (run_close c)"
  by (auto simp: co_inv_def run_close_def lookup_fmadd intro: open_chan_close split: option.splits)

lemma receive_inv: "co_inv c \<Longrightarrow> co_inv (fst (receive c sub))"
  by (auto simp: co_inv_def receive_def find_chan_def go_has_def intro: chan_receive
      split: option.splits list.splits)

lemma co_step_inv: "co_inv c \<Longrightarrow> co_inv (fst (co_step c e))"
  using run_commit_inv [of c] run_subscribe_inv [of c] receive_inv [of c]
  by (cases e) (auto intro: run_unsubscribe_inv run_close_inv split: prod.splits, (metis fst_conv)+)

interpretation co: component "new_coordinator inst" "\<lambda>c e. fst (co_step c e)" co_inv for inst
  by unfold_locales (simp add: new_coordinator_def co_inv_def, rule co_step_inv)

subsection \<open>Replicas\<close>

record replica =
  rp_state :: projection
  rp_revision :: u64
  rp_resync :: bool

definition replica_of :: "snapshot_envelope \<Rightarrow> replica" where
  "replica_of sn = \<lparr>rp_state = sn_state sn, rp_revision = sn_revision sn, rp_resync = False\<rparr>"

fun replica_apply :: "replica \<Rightarrow> subscriber_message \<Rightarrow> replica" where
  "replica_apply rp (MOutcome _) = rp\<lparr>rp_resync := True\<rparr>"
| "replica_apply rp (MDelta d) =
     (if rp_resync rp \<or> de_base_revision d \<noteq> rp_revision rp then rp\<lparr>rp_resync := True\<rparr>
      else case apply_operations 0 (rp_state rp) (de_operations d) of
        Inl _ \<Rightarrow> rp\<lparr>rp_resync := True\<rparr>
      | Inr p \<Rightarrow> \<lparr>rp_state = p, rp_revision = de_revision d, rp_resync = False\<rparr>)"

type_synonym system = "coordinator \<times> (nat, replica) fmap"

fun sys_step :: "system \<Rightarrow> command \<Rightarrow> system" where
  "sys_step (c, rs) cmd =
     (case co_step c cmd of
        (c', RSubscription sub sn) \<Rightarrow> (c', fmupd sub (replica_of sn) rs)
      | (c', RMessage (Some m)) \<Rightarrow>
          (case cmd of
             Receive sub \<Rightarrow>
               (case fmlookup rs sub of
                  None \<Rightarrow> (c', rs) | Some rp \<Rightarrow> (c', fmupd sub (replica_apply rp m) rs))
           | _ \<Rightarrow> (c', rs))
      | (c', _) \<Rightarrow> (c', rs))"

definition sys_init :: "string \<Rightarrow> system" where
  "sys_init inst = (new_coordinator inst, fmempty)"

definition catches_up :: "coordinator \<Rightarrow> chan \<Rightarrow> replica \<Rightarrow> bool" where
  "catches_up c ch rp = (foldl replica_apply rp (ch_buf ch) = replica_of (snapshot c))"

definition sys_inv :: "system \<Rightarrow> bool" where
  "sys_inv s = (case s of (c, rs) \<Rightarrow> co_inv c \<and>
     (\<forall>sub ch. fmlookup (co_subs c) sub = Some ch \<longrightarrow>
        (\<exists>rp. fmlookup rs sub = Some rp \<and> catches_up c ch rp)))"

text \<open>A delta carries a replica of the old state to a replica of the new one.\<close>

lemma replica_apply_commit:
  assumes "applyCommit (co_instance c) (co_projection c) (co_revision c) ops = (r, nxt, None)"
    and "cr_delta r = Some d"
  shows "replica_apply (replica_of (snapshot c)) (MDelta (cloneDelta d)) =
    replica_of (snapshot (deliver d (c\<lparr>co_projection := nxt, co_revision := cr_revision r\<rparr>)))"
proof -
  have "cr_changed r" using applyCommit_unchanged [OF assms(1)] assms(2) by auto
  note f = applyCommit_changed [OF assms(1) this]
  from f assms(2) have d: "de_base_revision d = co_revision c" "de_revision d = co_revision c + 1"
    "de_operations d = cloneOperations ops" "cr_revision r = co_revision c + 1"
    and a: "apply_operations 0 (cloneProjection (co_projection c)) ops = Inr nxt" by auto
  from apply_operations_clone [OF a, of 0] have
    "apply_operations 0 (cloneProjection (co_projection c)) (cloneOperations ops) = Inr (cloneProjection nxt)"
    by (simp add: cloneProjection_idem)
  with d show ?thesis
    by (simp add: replica_of_def snapshot_def cloneDelta_def cloneOperations_idem)
qed

lemma run_commit_catches_up:
  assumes inv: "sys_inv (c, rs)" and r: "run_commit c ops = (c', res, err)"
  shows "sys_inv (c', rs)"
proof -
  obtain r0 nxt e where ac:
    "applyCommit (co_instance c) (co_projection c) (co_revision c) ops = (r0, nxt, e)"
    by (metis prod_cases3)
  have ci: "co_inv c'" using run_commit_inv [of c ops] inv r by (simp add: sys_inv_def)
  show ?thesis
  proof (cases "e = None \<and> cr_delta r0 \<noteq> None")
    case False
    then have "c' = c" using r ac by (auto simp: run_commit_def Let_def split: option.splits)
    with inv show ?thesis by simp
  next
    case True
    then obtain d where d: "e = None" "cr_delta r0 = Some d" by auto
    let ?c1 = "c\<lparr>co_projection := nxt, co_revision := cr_revision r0\<rparr>"
    have c': "c' = deliver d ?c1" using r ac d by (auto simp: run_commit_def Let_def)
    have step: "replica_apply (replica_of (snapshot c)) (MDelta (cloneDelta d)) = replica_of (snapshot c')"
      using replica_apply_commit [of c ops r0 nxt d] ac d c' by simp
    have "\<exists>rp. fmlookup rs sub = Some rp \<and> catches_up c' ch' rp"
      if l: "fmlookup (co_subs c') sub = Some ch'" for sub ch'
    proof -
      obtain ch where ch: "fmlookup (co_subs c) sub = Some ch" "ch' = chan_send (MDelta (cloneDelta d)) ch"
        using l by (auto simp: c' lookup_deliver_subs split: option.splits if_splits)
      with inv obtain rp where "fmlookup rs sub = Some rp" "catches_up c ch rp"
        by (auto simp: sys_inv_def)
      moreover have "ch_buf ch' = ch_buf ch @ [MDelta (cloneDelta d)]"
        by (simp add: ch(2) chan_send_def)
      moreover from calculation(2,3)
      have "foldl replica_apply rp (ch_buf ch') = replica_of (snapshot c')"
        by (simp only: catches_up_def foldl_append foldl_Cons foldl_Nil step)
      ultimately show ?thesis unfolding catches_up_def by blast
    qed
    with ci show ?thesis by (simp add: sys_inv_def)
  qed
qed

lemma snapshot_cong:
  "\<lbrakk>co_projection c' = co_projection c; co_revision c' = co_revision c; co_instance c' = co_instance c\<rbrakk>
     \<Longrightarrow> snapshot c' = snapshot c"
  by (simp add: snapshot_def)

lemma catches_up_cong: "snapshot c' = snapshot c \<Longrightarrow> catches_up c' ch rp = catches_up c ch rp"
  by (simp add: catches_up_def)

lemma run_subscribe_catches_up:
  assumes inv: "sys_inv (c, rs)" and st: "\<not> co_stopped c" and r: "run_subscribe c q = (c', sub)"
  shows "sys_inv (c', fmupd sub (replica_of (snapshot c')) rs)"
proof -
  have ci: "co_inv c'" using run_subscribe_inv [of c q] inv st r by (simp add: sys_inv_def)
  have sn: "snapshot c' = snapshot c"
    by (rule snapshot_cong) (use r in \<open>auto simp: run_subscribe_def Let_def\<close>)
  from inv r ci show ?thesis
    by (auto simp: sys_inv_def run_subscribe_def Let_def catches_up_cong [OF sn])
       (auto simp: catches_up_def snapshot_def)
qed

lemma receive_catches_up:
  assumes inv: "sys_inv (c, rs)" and r: "receive c sub = (c', Some m)"
  shows "sys_inv (c', case fmlookup rs sub of None \<Rightarrow> rs | Some rp \<Rightarrow> fmupd sub (replica_apply rp m) rs)"
proof -
  have ci: "co_inv c'" using receive_inv [of c sub] inv r by (simp add: sys_inv_def)
  have sn: "snapshot c' = snapshot c"
    by (rule snapshot_cong) (use r in \<open>auto simp: receive_def split: option.splits list.splits if_splits\<close>)
  have old: "\<exists>rp. fmlookup rs k = Some rp \<and> catches_up c ch rp"
    if "fmlookup (co_subs c) k = Some ch" for k ch
    using inv that by (simp add: sys_inv_def)
  show ?thesis
  proof (cases "fmlookup (co_subs c) sub")
    case None
    then have subs: "co_subs c' = co_subs c"
      using r by (auto simp: receive_def go_has_def split: option.splits list.splits if_splits)
    have "k \<noteq> sub" if "fmlookup (co_subs c) k = Some ch" for k ch using that None by auto
    with old ci subs show ?thesis
      by (fastforce simp: sys_inv_def catches_up_cong [OF sn] split: option.splits)
  next
    case (Some ch)
    then obtain ms where ms: "ch_buf ch = m # ms" "co_subs c' = fmupd sub (ch\<lparr>ch_buf := ms\<rparr>) (co_subs c)"
      using r by (auto simp: receive_def find_chan_def go_has_def split: list.splits)
    from old [OF Some] obtain rp where rp: "fmlookup rs sub = Some rp" "catches_up c ch rp" by blast
    then have "catches_up c (ch\<lparr>ch_buf := ms\<rparr>) (replica_apply rp m)"
      using ms by (simp add: catches_up_def)
    with old rp ms ci show ?thesis
      by (auto simp: sys_inv_def catches_up_cong [OF sn])
  qed
qed

lemma shrink_catches_up:
  assumes "sys_inv (c, rs)" and "co_inv c'" and "snapshot c' = snapshot c"
    and "\<And>k ch. fmlookup (co_subs c') k = Some ch \<Longrightarrow> fmlookup (co_subs c) k = Some ch"
  shows "sys_inv (c', rs)"
  using assms by (fastforce simp: sys_inv_def catches_up_cong [OF assms(3)])

lemma sys_step_inv:
  assumes "sys_inv s"
  shows "sys_inv (sys_step s cmd)"
proof -
  obtain c rs where s: "s = (c, rs)" by (cases s)
  have ci: "co_inv c" using assms s by (simp add: sys_inv_def)
  show ?thesis
  proof (cases cmd)
    case (Commit ops)
    then show ?thesis using assms s by (auto split: prod.splits intro: run_commit_catches_up)
  next
    case (Subscribe q)
    then show ?thesis using assms s by (auto split: prod.splits intro: run_subscribe_catches_up)
  next
    case (Unsubscribe sub)
    have "sys_inv (run_unsubscribe c sub, rs)"
      by (rule shrink_catches_up [of c])
         (use assms s run_unsubscribe_inv [OF ci, of sub] in
           \<open>auto simp: run_unsubscribe_def snapshot_def split: option.splits if_splits\<close>)
    with Unsubscribe assms s show ?thesis by simp
  next
    case (Receive sub)
    then show ?thesis
      using assms s receive_catches_up [of c rs sub]
        shrink_catches_up [of c rs "fst (receive c sub)"] receive_inv [OF ci, of sub]
      by (auto simp: receive_def split: prod.splits option.splits list.splits if_splits)
  next
    case Close
    have "sys_inv (run_close c, rs)"
      by (rule shrink_catches_up [of c])
         (use assms s run_close_inv [OF ci] in \<open>auto simp: run_close_def snapshot_def\<close>)
    with Close s show ?thesis by simp
  qed (use assms s in auto)
qed

interpretation sys: component "sys_init inst" sys_step sys_inv for inst
  by unfold_locales
     (simp add: sys_init_def sys_inv_def new_coordinator_def co_inv_def, rule sys_step_inv)

text \<open>
  C1. Replicas refine the coordinator.  After any history of commits, subscriptions,
  cancellations and receptions, a subscriber that is still registered holds a replica
  that needs no resync, and applying the messages waiting in its channel to that replica
  gives exactly the coordinator's current snapshot, state and revision.
\<close>

theorem replica_refines_coordinator:
  assumes "foldl sys_step (sys_init inst) history = (c, rs)"
    and "fmlookup (co_subs c) sub = Some ch"
  shows "\<exists>rp. fmlookup rs sub = Some rp \<and> foldl replica_apply rp (ch_buf ch) = replica_of (snapshot c)"
  using sys.run_inv [of inst history] assms by (simp add: sys_inv_def catches_up_def)

definition demo_host :: "string \<Rightarrow> Host" where
  "demo_host name = \<lparr>h_key = NewHostKey name, h_id = name, h_display_name = name, h_online = True,
     h_local = False, h_version = ''v1.0.0'', h_last_seen = 0\<rparr>"

definition demo_history :: "command list" where
  "demo_history = [Subscribe 2, Commit [operation_of UpsertHost\<lparr>op_host := Some (demo_host ''a'')\<rparr>],
     Receive 1, Commit [operation_of UpsertHost\<lparr>op_host := Some (demo_host ''b'')\<rparr>]]"

lemma demo_history_chan:
  "case fmlookup (co_subs (fst (foldl sys_step (sys_init ''i'') demo_history))) 1 of
     None \<Rightarrow> False | Some ch \<Rightarrow> length (ch_buf ch) = 1"
  by code_simp

theorem replica_refines_coordinator_witness:
  "\<exists>c rs ch rp. foldl sys_step (sys_init ''i'') demo_history = (c, rs) \<and>
     fmlookup (co_subs c) 1 = Some ch \<and> length (ch_buf ch) = 1 \<and> fmlookup rs 1 = Some rp \<and>
     foldl replica_apply rp (ch_buf ch) = replica_of (snapshot c)"
proof -
  obtain c rs where s: "foldl sys_step (sys_init ''i'') demo_history = (c, rs)" by fastforce
  with demo_history_chan obtain ch where ch: "fmlookup (co_subs c) 1 = Some ch" "length (ch_buf ch) = 1"
    by (auto split: option.splits)
  from replica_refines_coordinator [OF s ch(1)] s ch show ?thesis by blast
qed

subsection \<open>Commits\<close>

lemma run_commit_cases:
  assumes "clone_stable (co_projection c)" and "run_commit c ops = (c', result, err)"
  shows "case apply_operations 0 (co_projection c) ops of
      Inl e \<Rightarrow> err = Some e \<and> c' = c
    | Inr p \<Rightarrow> err = None \<and> co_projection c' = p \<and>
        (if p = co_projection c then c' = c else co_revision c' = co_revision c + 1)"
proof (cases "ops = []")
  case False
  with assms show ?thesis
    by (cases "apply_operations 0 (co_projection c) ops")
       (auto simp: run_commit_def applyCommit_def Let_def clone_stable_def split: if_splits)
qed (use assms in \<open>simp add: run_commit_def applyCommit_def Let_def\<close>)

text \<open>
  C11. A commit is atomic.  It fails exactly when some operation is invalid, and then
  nothing changes; otherwise the projection becomes the result of all the operations in
  order, and the revision advances by one if that differs from the old projection and
  stays if not.
\<close>

theorem commit_atomic:
  assumes "clone_stable (co_projection c)" and "run_commit c ops = (c', result, err)"
  shows "((err \<noteq> None) = (\<exists>op\<in>set ops. operation_validate op \<noteq> None)) \<and>
    (err \<noteq> None \<longrightarrow> c' = c) \<and>
    (err = None \<longrightarrow> apply_operations 0 (co_projection c) ops = Inr (co_projection c') \<and>
       co_revision c' = co_revision c + (if co_projection c' = co_projection c then 0 else 1))"
proof (cases "apply_operations 0 (co_projection c) ops")
  case (Inl e)
  obtain j err' where e: "e = (j, err')" by (cases e)
  from apply_operations_Inl [OF Inl [unfolded e]] have "\<exists>op\<in>set ops. operation_validate op \<noteq> None"
    by auto
  with run_commit_cases [OF assms] Inl show ?thesis by simp
next
  case (Inr p)
  from apply_operations_Inr_valid [OF Inr] have "\<not> (\<exists>op\<in>set ops. operation_validate op \<noteq> None)"
    by simp
  with run_commit_cases [OF assms] Inr show ?thesis by (simp split: if_splits)
qed

theorem commit_atomic_witness:
  "clone_stable (co_projection (new_coordinator ''i'')) \<and>
   (\<exists>c' r. run_commit (new_coordinator ''i'') [operation_of UpsertHost\<lparr>op_host := Some (demo_host ''a'')\<rparr>]
       = (c', r, None) \<and>
     apply_operations 0 NewProjection [operation_of UpsertHost\<lparr>op_host := Some (demo_host ''a'')\<rparr>]
       = Inr (co_projection c'))"
proof -
  let ?ops = "[operation_of UpsertHost\<lparr>op_host := Some (demo_host ''a'')\<rparr>]"
  have st: "clone_stable (co_projection (new_coordinator ''i''))"
    by (simp add: clone_stable_def new_coordinator_def)
  obtain c' r e where r: "run_commit (new_coordinator ''i'') ?ops = (c', r, e)" by (metis prod_cases3)
  from commit_atomic [OF st r] have "e = None"
    by (cases e) (auto simp: operation_validate_upsert)
  with commit_atomic [OF st r] r st show ?thesis by (auto simp: new_coordinator_def)
qed

text \<open>
  C12. No subscriber is dropped silently.  When a commit changes the projection, every
  registered subscriber either gets the delta at the end of its channel and stays
  registered, or its channel was full: then it leaves the registry and its channel is
  closed and holds exactly one message, the resync outcome.
\<close>

theorem commit_delivers_or_resyncs:
  assumes "run_commit c ops = (c', result, None)" and "cr_delta result = Some d"
    and "fmlookup (co_subs c) sub = Some ch"
  shows "(\<not> chan_full ch \<and> fmlookup (co_subs c') sub = Some (chan_send (MDelta (cloneDelta d)) ch)) \<or>
    (chan_full ch \<and> fmlookup (co_subs c') sub = None \<and>
     (\<exists>ch'. fmlookup (co_detached c') sub = Some ch' \<and> ch_closed ch' \<and>
        ch_buf ch' = [MOutcome (overflow_outcome (co_instance c') (co_revision c'))]))"
proof -
  obtain nxt where c': "c' = deliver d (c\<lparr>co_projection := nxt, co_revision := cr_revision result\<rparr>)"
    using assms(1,2) by (auto simp: run_commit_def Let_def split: prod.splits option.splits)
  with assms(3) show ?thesis
    by (auto simp: lookup_deliver_subs lookup_deliver_detached chan_overflow_def chan_send_def
        chan_close_def)
qed

theorem commit_delivers_or_resyncs_witness:
  "\<exists>c' r d ch'. run_commit (fst (foldl sys_step (sys_init ''i'')
         [Subscribe 1, Commit [operation_of UpsertHost\<lparr>op_host := Some (demo_host ''a'')\<rparr>]]))
       [operation_of UpsertHost\<lparr>op_host := Some (demo_host ''b'')\<rparr>] = (c', r, None) \<and>
     cr_delta r = Some d \<and> fmlookup (co_subs c') 1 = None \<and> fmlookup (co_detached c') 1 = Some ch' \<and>
     length (ch_buf ch') = 1"
proof -
  let ?c = "fst (foldl sys_step (sys_init ''i'')
    [Subscribe 1, Commit [operation_of UpsertHost\<lparr>op_host := Some (demo_host ''a'')\<rparr>]])"
  let ?ops = "[operation_of UpsertHost\<lparr>op_host := Some (demo_host ''b'')\<rparr>]"
  have "case fmlookup (co_subs ?c) 1 of None \<Rightarrow> False | Some ch \<Rightarrow> chan_full ch" by code_simp
  then obtain ch where ch: "fmlookup (co_subs ?c) 1 = Some ch" "chan_full ch" by (auto split: option.splits)
  have "case run_commit ?c ?ops of (_, r, e) \<Rightarrow> e = None \<and> cr_delta r \<noteq> None" by code_simp
  then obtain c' r d where r: "run_commit ?c ?ops = (c', r, None)" "cr_delta r = Some d"
    by (auto split: prod.splits)
  from commit_delivers_or_resyncs [OF r ch(1)] r ch(2) show ?thesis by auto
qed

subsection \<open>The drain of a full channel\<close>

text \<open>
  \<open>for len(sub.ch) > 0 { <-sub.ch }\<close> runs while the subscriber may receive from the
  same channel.  The loop is two steps, the test of the length and the receive; the
  coordinator is the only sender, so no step refills the queue.
\<close>

datatype drain_pc = DrainTest | DrainReceive | DrainDone

type_synonym drain_state = "drain_pc \<times> nat"

inductive drain_step :: "drain_state \<Rightarrow> drain_state \<Rightarrow> bool" where
  drain_more: "0 < n \<Longrightarrow> drain_step (DrainTest, n) (DrainReceive, n)"
| drain_done: "drain_step (DrainTest, 0) (DrainDone, 0)"
| drain_receive: "drain_step (DrainReceive, Suc n) (DrainTest, n)"
| subscriber_receive: "drain_step (pc, Suc n) (pc, n)"

inductive_cases drain_stuckE: "drain_step (DrainReceive, 0) s"

text \<open>
  The drain can hang the coordinator: from every non-empty queue there is an
  interleaving in which the subscriber takes the last message between the test and the
  receive, and then no step of either side is possible.
\<close>

theorem drain_may_block:
  "drain_step\<^sup>*\<^sup>* (DrainTest, Suc n) (DrainReceive, 0) \<and> (\<forall>s. \<not> drain_step (DrainReceive, 0) s)"
proof
  have "drain_step\<^sup>*\<^sup>* (DrainReceive, m) (DrainReceive, 0)" for m
    by (induction m) (auto intro: converse_rtranclp_into_rtranclp subscriber_receive)
  moreover have "drain_step (DrainTest, Suc n) (DrainReceive, Suc n)" by (rule drain_more) simp
  ultimately show "drain_step\<^sup>*\<^sup>* (DrainTest, Suc n) (DrainReceive, 0)"
    by (blast intro: converse_rtranclp_into_rtranclp)
  show "\<forall>s. \<not> drain_step (DrainReceive, 0) s" by (blast elim: drain_stuckE)
qed

end
