(* ===== verification/GoStrings.thy ===== *)
theory GoStrings
  imports GoText
begin

text \<open>
  More of Go's string library: \<open>strings.Split\<close> and \<open>SplitN\<close> on one character,
  \<open>strings.Fields\<close>, \<open>Contains\<close>, \<open>HasSuffix\<close>, \<open>TrimRight\<close>, \<open>strings.Join\<close>, \<open>strconv.Atoi\<close>
  with its 64-bit range, and \<open>filepath.Base\<close>; with the round trips of \<open>Join\<close> and \<open>Split\<close>
  and of \<open>Itoa\<close> and \<open>Atoi\<close>.
\<close>

subsection \<open>Splitting and joining\<close>

definition newline :: char where "newline = char_of (10::nat)"

fun split_char :: "char \<Rightarrow> string \<Rightarrow> string list" where
  "split_char c [] = [[]]"
| "split_char c (x # xs) =
     (if x = c then [] # split_char c xs
      else case split_char c xs of [] \<Rightarrow> [[x]] | w # ws \<Rightarrow> (x # w) # ws)"

fun join_with :: "string \<Rightarrow> string list \<Rightarrow> string" where
  "join_with sep [] = []"
| "join_with sep [w] = w"
| "join_with sep (w # v # ws) = w @ sep @ join_with sep (v # ws)"

lemma split_char_nonempty [simp]: "split_char c s \<noteq> []"
  by (induction s) (auto split: list.splits)

lemma split_char_word: "c \<notin> set w \<Longrightarrow> split_char c w = [w]"
  by (induction w) auto

lemma split_char_append:
  "c \<notin> set w \<Longrightarrow> split_char c (w @ c # s) = w # split_char c s"
  by (induction w) auto

lemma split_join: "ws \<noteq> [] \<Longrightarrow> \<forall>w\<in>set ws. c \<notin> set w \<Longrightarrow> split_char c (join_with [c] ws) = ws"
  by (induction "[c]" ws rule: join_with.induct) (auto simp: split_char_word split_char_append)

lemma join_split: "join_with [c] (split_char c s) = s"
proof (induction s)
  case (Cons x s)
  obtain w ws where w: "split_char c s = w # ws" by (cases "split_char c s") auto
  with Cons show ?case by (cases ws) auto
qed simp

lemma split_char_no_sep: "w \<in> set (split_char c s) \<Longrightarrow> c \<notin> set w"
  by (induction s arbitrary: w) (auto split: list.splits if_splits)

text \<open>\<open>strings.SplitN(s, c, n)\<close> for \<open>n > 0\<close>: the last piece keeps the rest.\<close>

definition split_n :: "nat \<Rightarrow> char \<Rightarrow> string \<Rightarrow> string list" where
  "split_n n c s =
     (let ws = split_char c s in
      if length ws \<le> n then ws else take (n - 1) ws @ [join_with [c] (drop (n - 1) ws)])"

subsection \<open>Search\<close>

fun contains_sub :: "string \<Rightarrow> string \<Rightarrow> bool" where
  "contains_sub sub [] = (sub = [])"
| "contains_sub sub (c # cs) = (is_prefix sub (c # cs) \<or> contains_sub sub cs)"

lemma contains_sub_iff: "contains_sub sub s \<longleftrightarrow> (\<exists>a b. s = a @ sub @ b)"
proof (induction s)
  case (Cons c cs)
  show ?case
  proof
    assume "contains_sub sub (c # cs)"
    then consider "is_prefix sub (c # cs)" | "contains_sub sub cs" by auto
    then show "\<exists>a b. c # cs = a @ sub @ b"
    proof cases
      case 1 then show ?thesis by (metis append_Nil is_prefix_append)
    next
      case 2 with Cons show ?thesis by (metis append_Cons)
    qed
  next
    assume "\<exists>a b. c # cs = a @ sub @ b"
    then obtain a b where ab: "c # cs = a @ sub @ b" by blast
    show "contains_sub sub (c # cs)"
    proof (cases a)
      case Nil
      with ab have "is_prefix sub (c # cs)" by (auto simp: is_prefix_append)
      then show ?thesis by simp
    next
      case (Cons x xs) with ab Cons.IH show ?thesis by auto
    qed
  qed
qed simp

definition has_suffix :: "string \<Rightarrow> string \<Rightarrow> bool" where
  "has_suffix s suf = is_prefix (rev suf) (rev s)"

lemma has_suffix_iff: "has_suffix s suf \<longleftrightarrow> (\<exists>a. s = a @ suf)"
  by (auto simp: has_suffix_def is_prefix_append) (metis rev_append rev_rev_ident)

definition trim_right_chars :: "char list \<Rightarrow> string \<Rightarrow> string" where
  "trim_right_chars cs s = rev (dropWhile (\<lambda>c. c \<in> set cs) (rev s))"

definition trim_prefix :: "string \<Rightarrow> string \<Rightarrow> string" where
  "trim_prefix pre s = (if is_prefix pre s then drop (length pre) s else s)"

subsection \<open>Fields\<close>

text \<open>
  \<open>space_len s\<close> is the length of the white space \<open>s\<close> starts with, 0 if none; the second
  argument of \<open>fields_from\<close> is the field being read.
\<close>

definition space_len :: "string \<Rightarrow> nat" where
  "space_len s = (case find (\<lambda>t. is_prefix t s) space_encodings of None \<Rightarrow> 0 | Some t \<Rightarrow> length t)"

function fields_from :: "string \<Rightarrow> string \<Rightarrow> string list" where
  "fields_from acc [] = (if acc = [] then [] else [acc])"
| "fields_from acc (c # cs) =
     (if space_len (c # cs) = 0 then fields_from (acc @ [c]) cs
      else (if acc = [] then [] else [acc]) @ fields_from [] (drop (space_len (c # cs)) (c # cs)))"
  by pat_completeness auto
termination by (relation "measure (\<lambda>(_, s). length s)") auto

definition fields :: "string \<Rightarrow> string list" where
  "fields s = fields_from [] s"

lemma space_len_visible:
  assumes "c \<notin> set (bytes_of [9, 10, 11, 12, 13, 32, 194, 225, 226, 227])"
  shows "space_len (c # cs) = 0"
proof -
  have "\<not> is_prefix t (c # cs)" if "t \<in> set space_encodings" for t
    using space_encodings_hd [OF that] assms by (cases t) auto
  then have "find (\<lambda>t. is_prefix t (c # cs)) space_encodings = None" by (simp add: find_None_iff)
  then show ?thesis by (simp add: space_len_def)
qed

lemma space_len_blank [simp]: "space_len (CHR '' '' # cs) = 1"
proof -
  have *: "[CHR '' ''] \<in> set space_encodings" by code_simp
  have u: "t = [CHR '' '']" if "t \<in> set space_encodings" "is_prefix t (CHR '' '' # cs)" for t
  proof -
    have "\<forall>t\<in>set space_encodings. hd t = CHR '' '' \<longrightarrow> t = [CHR '' '']" by code_simp
    moreover from space_encodings_hd [OF that(1)] obtain x xs where "t = x # xs" by (metis neq_Nil_conv)
    with that(2) have "hd t = CHR '' ''" by simp
    ultimately show ?thesis using that by blast
  qed
  have "is_prefix [CHR '' ''] (CHR '' '' # cs)" by simp
  with * have "find (\<lambda>t. is_prefix t (CHR '' '' # cs)) space_encodings \<noteq> None"
    using find_NoneD by metis
  then obtain t where t: "find (\<lambda>t. is_prefix t (CHR '' '' # cs)) space_encodings = Some t" by blast
  from find_SomeD [OF this] u have "t = [CHR '' '']" by blast
  with t show ?thesis by (simp add: space_len_def)
qed

lemma fields_from_word:
  assumes "\<forall>c\<in>set w. c \<notin> set (bytes_of [9, 10, 11, 12, 13, 32, 194, 225, 226, 227])"
  shows "fields_from acc (w @ s) = fields_from (acc @ w) s"
  using assms by (induction w arbitrary: acc) (simp_all add: space_len_visible)

lemma fields_join:
  assumes "\<forall>w\<in>set ws. w \<noteq> [] \<and> (\<forall>c\<in>set w. c \<notin> set (bytes_of [9, 10, 11, 12, 13, 32, 194, 225, 226, 227]))"
  shows "fields (join_with '' '' ws) = ws"
proof -
  have f: "fields_from w (CHR '' '' # s) = w # fields_from [] s" if "w \<noteq> []" for w s
    using that by simp
  have w: "fields_from [] w = [w]" if "w \<in> set ws" for w
    using fields_from_word [of w "[]" "[]"] assms that by simp
  have "\<forall>w\<in>set ws. w \<noteq> [] \<and> (\<forall>c\<in>set w. c \<notin> set (bytes_of [9, 10, 11, 12, 13, 32, 194, 225, 226, 227])) \<Longrightarrow>
    fields_from [] (join_with '' '' ws) = ws"
  proof (induction "'' ''" ws rule: join_with.induct)
    case (2 w)
    then show ?case using fields_from_word [of w "[]" "[]"] by simp
  next
    case (3 w v ws)
    then have "fields_from [] (w @ CHR '' '' # join_with '' '' (v # ws)) =
      fields_from w (CHR '' '' # join_with '' '' (v # ws))"
      using fields_from_word [of w "[]"] by simp
    with 3 f [of w "join_with '' '' (v # ws)"] show ?case by simp
  qed simp
  with assms show ?thesis by (simp add: fields_def)
qed

subsection \<open>Atoi\<close>

text \<open>
  \<open>strconv.Atoi\<close> on a 64-bit platform: the value and whether there was no error.  A syntax
  error gives 0, an overflow the nearest bound.
\<close>

definition is_dec :: "char \<Rightarrow> bool" where
  "is_dec c = (48 \<le> byte_val c \<and> byte_val c \<le> 57)"

definition atoi :: "string \<Rightarrow> int \<times> bool" where
  "atoi s =
     (let neg = (s \<noteq> [] \<and> hd s = CHR ''-'');
          d = (if s \<noteq> [] \<and> (hd s = CHR ''-'' \<or> hd s = CHR ''+'') then tl s else s)
      in if d = [] \<or> \<not> list_all is_dec d then (0, False)
         else let v = int (dec_value d) in
           if neg then (if v > 2 ^ 63 then (- (2 ^ 63), False) else (- v, True))
           else if v \<ge> 2 ^ 63 then (2 ^ 63 - 1, False) else (v, True))"

lemma dec_digits_is_dec: "list_all is_dec (dec_digits n)"
  using dec_digits_hd [of n] by (auto simp: list_all_iff is_dec_def)

lemma is_dec_sign: "\<not> is_dec CHR ''-''" "\<not> is_dec CHR ''+''"
  by (simp_all add: is_dec_def byte_val_def)

lemma atoi_itoa:
  assumes "- (2 ^ 63) \<le> i" and "i < 2 ^ 63"
  shows "atoi (itoa i) = (i, True)"
proof -
  have ne: "dec_digits n \<noteq> []" for n using dec_digits_hd [of n] by simp
  have hd: "hd (dec_digits n) \<noteq> CHR ''-'' \<and> hd (dec_digits n) \<noteq> CHR ''+''" for n
  proof -
    have "is_dec (hd (dec_digits n))" using dec_digits_is_dec [of n] ne [of n] by (cases "dec_digits n") auto
    then show ?thesis using is_dec_sign by auto
  qed
  show ?thesis
    using assms by (auto simp: atoi_def itoa_def Let_def ne hd dec_digits_is_dec dec_value_digits simp del: dec_value.simps)
qed

lemma itoa_visible: "itoa i \<noteq> [] \<and> (\<forall>c\<in>set (itoa i). c \<notin> set (bytes_of [9, 10, 11, 12, 13, 32, 194, 225, 226, 227]))"
proof -
  have "byte_val c \<in> {9, 10, 11, 12, 13, 32, 194, 225, 226, 227}"
    if "c \<in> set (bytes_of [9, 10, 11, 12, 13, 32, 194, 225, 226, 227])" for c
    using that by (auto simp: bytes_of_def byte_val_char_of)
  moreover have "byte_val CHR ''-'' = 45" by (simp add: byte_val_def)
  ultimately have "c \<notin> set (bytes_of [9, 10, 11, 12, 13, 32, 194, 225, 226, 227])" if "is_dec c \<or> c = CHR ''-''" for c
    using that by (fastforce simp: is_dec_def)
  moreover have "\<forall>c\<in>set (itoa i). is_dec c \<or> c = CHR ''-''"
    using dec_digits_is_dec by (auto simp: itoa_def list_all_iff)
  moreover have "itoa i \<noteq> []" using dec_digits_hd by (simp add: itoa_def)
  ultimately show ?thesis by blast
qed

subsection \<open>Paths\<close>

definition filepath_base :: "string \<Rightarrow> string" where
  "filepath_base p =
     (if p = [] then ''.''
      else let q = trim_right_chars ''/'' p in
        if q = [] then ''/'' else last (split_char CHR ''/'' q))"

subsection \<open>Lines\<close>

text \<open>
  \<open>bufio.Scanner\<close>: the lines, without a final carriage return, up to one that does not fit
  its buffer, which is an error.
\<close>

definition scanLimit :: nat where "scanLimit = 64 * 1024"

fun scan_from :: "string list \<Rightarrow> string list \<times> bool" where
  "scan_from [] = ([], True)"
| "scan_from [l] = (if l = [] then ([], True) else if length l \<ge> scanLimit then ([], False) else ([l], True))"
| "scan_from (l # ls) = (if length l \<ge> scanLimit then ([], False) else (case scan_from ls of (rest, ok) \<Rightarrow> (l # rest, ok)))"

definition drop_cr :: "string \<Rightarrow> string" where
  "drop_cr l = (if l \<noteq> [] \<and> last l = char_of (13 :: nat) then butlast l else l)"

definition scan_lines :: "string \<Rightarrow> string list \<times> bool" where
  "scan_lines s = (case scan_from (split_char newline s) of (ls, ok) \<Rightarrow> (map drop_cr ls, ok))"

lemma scan_from_lines: "\<lbrakk>\<forall>l\<in>set ls. length l < scanLimit; ls \<noteq> []\<rbrakk> \<Longrightarrow> scan_from (ls @ [[]]) = (ls, True)"
proof (induction ls)
  case (Cons l ls)
  then show ?case by (cases ls) auto
qed simp

lemma drop_cr_id: "char_of (13 :: nat) \<notin> set l \<Longrightarrow> drop_cr l = l"
  unfolding drop_cr_def by (metis last_in_set)

lemma join_snoc: "ls \<noteq> [] \<Longrightarrow> join_with sep (ls @ [w]) = join_with sep ls @ sep @ w"
  by (induction sep ls rule: join_with.induct) auto

lemma scan_from_ok: "\<lbrakk>snd (scan_from ws); ws \<noteq> []\<rbrakk> \<Longrightarrow> fst (scan_from ws) = (if last ws = [] then butlast ws else ws)"
  by (induction ws rule: scan_from.induct) (auto split: prod.splits if_splits)

lemma split_char_sub: "l \<in> set (split_char c s) \<Longrightarrow> set l \<subseteq> set s"
proof (induction s arbitrary: l)
  case (Cons x s)
  obtain w ws where w: "split_char c s = w # ws" by (cases "split_char c s") auto
  have sub: "set v \<subseteq> set s" if "v \<in> set (w # ws)" for v using Cons.IH [of v] that w by simp
  from Cons.prems w consider "l = []" | "l = x # w" | "l \<in> set (w # ws)" by (auto split: if_splits)
  then show ?case
  proof cases
    case 2 with sub [of w] show ?thesis by auto
  next
    case 3 with sub [of l] show ?thesis by auto
  qed simp
qed simp

lemma split_char_snoc: "split_char c (s @ [c]) = split_char c s @ [[]]"
  by (induction s) (auto split: list.splits)

lemma last_split_char: "\<lbrakk>s \<noteq> []; last s \<noteq> c\<rbrakk> \<Longrightarrow> last (split_char c s) \<noteq> []"
  by (induction s) (auto split: list.splits if_splits)

text \<open>Reading back lines that were joined, each ended by a newline.\<close>

lemma scan_joined:
  assumes "ls \<noteq> []" and "\<forall>l\<in>set ls. length l < scanLimit \<and> newline \<notin> set l \<and> char_of (13 :: nat) \<notin> set l"
  shows "scan_lines (join_with [newline] ls @ [newline]) = (ls, True)"
proof -
  have "split_char newline (join_with [newline] (ls @ [[]])) = ls @ [[]]"
    using assms(2) by (intro split_join) auto
  then have "split_char newline (join_with [newline] ls @ [newline]) = ls @ [[]]"
    using join_snoc [OF assms(1), of "[newline]" "[]"] by simp
  moreover have "map drop_cr ls = ls" using assms(2) by (simp add: map_idI drop_cr_id)
  ultimately show ?thesis using scan_from_lines [of ls] assms by (simp add: scan_lines_def)
qed

end
