(* ===== verification/BrowserStream.thy ===== *)
theory BrowserStream
  imports Replica GoStrings
begin

text \<open>
  The state stream of a browser (\<open>pkg/ws/hub.go\<close>, \<open>handleCanonicalEvents\<close>) over the
  coordinator: the schema it asks for, its subscription, the frames written to its web
  socket, and what the page that reads them shows.  A failed write stands for an error of
  the JSON encoder or of the connection; the read loop and its deadlines are the event
  \<open>PeerGone\<close>.
\<close>

subsection \<open>The schema of the page\<close>

datatype schema_error = SchemaMissing | SchemaInvalid string

definition requestedSchema :: "string \<Rightarrow> schema_error + int" where
  "requestedSchema raw =
     (if raw = [] then Inl SchemaMissing
      else case atoi raw of (version, ok) \<Rightarrow> if \<not> ok \<or> version \<le> 0 then Inl (SchemaInvalid raw) else Inr version)"

text \<open>\<open>quote\<close> is the verb \<open>%q\<close>.\<close>

definition schema_reason :: "(string \<Rightarrow> string) \<Rightarrow> schema_error + int \<Rightarrow> string" where
  "schema_reason quote schema =
     (case schema of
        Inl SchemaMissing \<Rightarrow> ''state schema query parameter is required''
      | Inl (SchemaInvalid raw) \<Rightarrow> ''invalid state schema '' @ quote raw
      | Inr _ \<Rightarrow> ''loaded frontend state schema is incompatible; reload required'')"

definition SupportsSchema :: "int \<Rightarrow> bool" where
  "SupportsSchema version = (version = SchemaVersion)"

subsection \<open>One browser\<close>

datatype frame = FSnapshot snapshot_envelope | FDelta delta_envelope | FOutcome outcome_envelope
  | FPing | FPolicyClose string

text \<open>\<open>br_over\<close>: the handler has returned and the connection is closed.\<close>

record browser =
  br_frames :: "frame list"
  br_over :: bool

definition write_frame :: "bool \<Rightarrow> frame \<Rightarrow> browser \<Rightarrow> browser" where
  "write_frame ok f b = (if ok then b\<lparr>br_frames := br_frames b @ [f]\<rparr> else b)"

definition browser_return :: "browser \<Rightarrow> browser" where
  "browser_return b = b\<lparr>br_over := True\<rparr>"

text \<open>A page with another schema, or none, is told to reload; errors of the writes are ignored.\<close>

definition refuse_schema :: "(string \<Rightarrow> string) \<Rightarrow> bool \<Rightarrow> bool \<Rightarrow> schema_error + int \<Rightarrow> coordinator \<Rightarrow> browser" where
  "refuse_schema quote ok1 ok2 schema c =
     (let reason = schema_reason quote schema;
          outcome = \<lparr>oe_type = TypeReloadRequired, oe_schema = SchemaVersion, oe_instance = co_instance c,
            oe_revision = 0, oe_reason = reason\<rparr>
      in browser_return (write_frame ok2 (FPolicyClose reason)
           (write_frame ok1 (FOutcome outcome) \<lparr>br_frames = [], br_over = False\<rparr>)))"

definition schema_accepted :: "schema_error + int \<Rightarrow> bool" where
  "schema_accepted schema = (case schema of Inl _ \<Rightarrow> False | Inr version \<Rightarrow> SupportsSchema version)"

definition stateQueueSize :: int where "stateQueueSize = 64"

text \<open>
  The handler up to its loop: the browser, and its subscription when there is one.
  When the write of the snapshot fails it returns, and the deferred \<open>Cancel\<close> unsubscribes.
\<close>

definition stream_open :: "(string \<Rightarrow> string) \<Rightarrow> bool \<Rightarrow> bool \<Rightarrow> string \<Rightarrow> coordinator
    \<Rightarrow> coordinator \<times> nat option \<times> browser" where
  "stream_open quote ok1 ok2 raw c =
     (let schema = requestedSchema raw in
      if \<not> schema_accepted schema then (c, None, refuse_schema quote ok1 ok2 schema c)
      else case co_step c (Subscribe stateQueueSize) of
        (c1, RSubscription sub sn) \<Rightarrow>
          if ok1 then (c1, Some sub, \<lparr>br_frames = [FSnapshot sn], br_over = False\<rparr>)
          else (fst (co_step c1 (Unsubscribe sub)), Some sub, \<lparr>br_frames = [], br_over = True\<rparr>)
      | (c1, _) \<Rightarrow> (c1, None, \<lparr>br_frames = [], br_over = True\<rparr>))"

text \<open>What wakes the loop: the request's context, the read loop, the ping ticker, the subscription.\<close>

datatype wakeup = RequestDone | PeerGone | PingTick bool | Message bool

definition stream_return :: "nat \<Rightarrow> coordinator \<Rightarrow> browser \<Rightarrow> coordinator \<times> browser" where
  "stream_return sub c b = (fst (co_step c (Unsubscribe sub)), browser_return b)"

text \<open>
  One turn of the loop.  Receiving from an empty channel waits, or reports that the channel
  is closed.
\<close>

definition stream_turn :: "nat \<Rightarrow> wakeup \<Rightarrow> coordinator \<Rightarrow> browser \<Rightarrow> coordinator \<times> browser" where
  "stream_turn sub e c b =
     (if br_over b then (c, b)
      else case e of
        RequestDone \<Rightarrow> stream_return sub c b
      | PeerGone \<Rightarrow> stream_return sub c b
      | PingTick ok \<Rightarrow> if ok then (c, write_frame True FPing b) else stream_return sub c b
      | Message ok \<Rightarrow>
          (case find_chan c sub of
             None \<Rightarrow> (c, b)
           | Some ch \<Rightarrow>
               (case (ch_buf ch, receive c sub) of
                  ([], _) \<Rightarrow> if ch_closed ch then stream_return sub c b else (c, b)
                | (MOutcome oe # _, (c1, _)) \<Rightarrow> stream_return sub c1 (write_frame ok (FOutcome oe) b)
                | (MDelta d # _, (c1, _)) \<Rightarrow>
                    if ok then (c1, write_frame True (FDelta d) b) else stream_return sub c1 b)))"

subsection \<open>All browsers\<close>

text \<open>
  The coordinator with the browsers, each under a number of its own and with the identifier of
  its subscription, when it has one.  The other users of the coordinator commit and close.
\<close>

record stream_state =
  ss_co :: coordinator
  ss_browsers :: "(nat, nat option \<times> browser) fmap"
  ss_next :: nat

datatype stream_event = CommitOps "operation list" | CloseCoordinator
  | Connect "string \<Rightarrow> string" bool bool string | Turn nat wakeup

fun stream_step :: "stream_state \<Rightarrow> stream_event \<Rightarrow> stream_state" where
  "stream_step s (CommitOps ops) = s\<lparr>ss_co := fst (co_step (ss_co s) (Commit ops))\<rparr>"
| "stream_step s CloseCoordinator = s\<lparr>ss_co := fst (co_step (ss_co s) Close)\<rparr>"
| "stream_step s (Connect quote ok1 ok2 raw) =
     (case stream_open quote ok1 ok2 raw (ss_co s) of
        (c, sub, b) \<Rightarrow> s\<lparr>ss_co := c, ss_browsers := fmupd (ss_next s) (sub, b) (ss_browsers s), ss_next := Suc (ss_next s)\<rparr>)"
| "stream_step s (Turn i e) =
     (case fmlookup (ss_browsers s) i of
        Some (Some sub, b) \<Rightarrow>
          (case stream_turn sub e (ss_co s) b of
             (c, b') \<Rightarrow> s\<lparr>ss_co := c, ss_browsers := fmupd i (Some sub, b') (ss_browsers s)\<rparr>)
      | _ \<Rightarrow> s)"

definition stream_init :: "string \<Rightarrow> stream_state" where
  "stream_init inst = \<lparr>ss_co = new_coordinator inst, ss_browsers = fmempty, ss_next = 0\<rparr>"

subsection \<open>The page\<close>

text \<open>
  The page folds the frames into a replica.  \<open>typed_stream\<close> is the type of a stream: every
  delta continues the state shown, an outcome comes last.
\<close>

fun page_from :: "replica \<Rightarrow> frame list \<Rightarrow> replica" where
  "page_from rp [] = rp"
| "page_from rp (FDelta d # fs) = page_from (replica_apply rp (MDelta d)) fs"
| "page_from rp (FSnapshot sn # fs) = page_from (replica_of sn) fs"
| "page_from rp (f # fs) = page_from rp fs"

fun typed_from :: "replica \<Rightarrow> frame list \<Rightarrow> bool" where
  "typed_from rp [] = True"
| "typed_from rp (FPing # fs) = typed_from rp fs"
| "typed_from rp (FDelta d # fs) =
     (\<not> rp_resync (replica_apply rp (MDelta d)) \<and> typed_from (replica_apply rp (MDelta d)) fs)"
| "typed_from rp (FOutcome oe # fs) = (oe_type oe = TypeResyncRequired \<and> fs = [])"
| "typed_from rp (_ # fs) = False"

fun typed_stream :: "frame list \<Rightarrow> bool" where
  "typed_stream [] = True"
| "typed_stream (FSnapshot sn # fs) = typed_from (replica_of sn) fs"
| "typed_stream (FOutcome oe # fs) =
     (oe_type oe = TypeReloadRequired \<and> (fs = [] \<or> fs = [FPolicyClose (oe_reason oe)]))"
| "typed_stream [FPolicyClose _] = True"
| "typed_stream _ = False"

text \<open>What the page shows after a snapshot.\<close>

definition page :: "frame list \<Rightarrow> replica option" where
  "page fs = (case fs of FSnapshot sn # rest \<Rightarrow> Some (page_from (replica_of sn) rest) | _ \<Rightarrow> None)"

subsection \<open>What a stream holds at every moment\<close>

text \<open>The messages a channel may hold for a page: deltas that continue it, and at most one outcome, at the end.\<close>

fun flows :: "replica \<Rightarrow> subscriber_message list \<Rightarrow> bool" where
  "flows rp [] = True"
| "flows rp (MDelta d # ms) =
     (\<not> rp_resync (replica_apply rp (MDelta d)) \<and> flows (replica_apply rp (MDelta d)) ms)"
| "flows rp (MOutcome oe # ms) = (oe_type oe = TypeResyncRequired \<and> ms = [])"

fun streaming :: "frame \<Rightarrow> bool" where
  "streaming (FDelta _) = True"
| "streaming FPing = True"
| "streaming _ = False"

lemma resync_sticky: "rp_resync rp \<Longrightarrow> rp_resync (foldl replica_apply rp ms)"
proof (induction ms arbitrary: rp)
  case (Cons m ms)
  then show ?case by (cases m) simp_all
qed simp

lemma caught_up_flows: "\<not> rp_resync (foldl replica_apply rp ms) \<Longrightarrow> flows rp ms"
proof (induction ms arbitrary: rp)
  case (Cons m ms)
  then have n: "\<not> rp_resync (replica_apply rp m)" using resync_sticky [of "replica_apply rp m" ms] by auto
  from Cons.prems have "flows (replica_apply rp m) ms" by (intro Cons.IH) simp
  with n show ?case by (cases m) simp_all
qed simp

lemma typed_append: "\<lbrakk>typed_from rp fs; list_all streaming fs\<rbrakk> \<Longrightarrow> typed_from rp (fs @ gs) = typed_from (page_from rp fs) gs"
  by (induction rp fs rule: typed_from.induct) auto

lemma page_append: "page_from rp (fs @ gs) = page_from (page_from rp fs) gs"
  by (induction rp fs rule: page_from.induct) auto

text \<open>A browser whose handler runs, with its channel; \<open>rs\<close> has the replicas of the registered subscribers.\<close>

definition live_at :: "coordinator \<Rightarrow> (nat, replica) fmap \<Rightarrow> nat \<Rightarrow> browser \<Rightarrow> bool" where
  "live_at c rs sub b =
     (\<exists>sn rest. br_frames b = FSnapshot sn # rest \<and> list_all streaming rest \<and> typed_from (replica_of sn) rest \<and>
        (case fmlookup (co_subs c) sub of
           Some ch \<Rightarrow> fmlookup rs sub = Some (page_from (replica_of sn) rest)
         | None \<Rightarrow> (\<exists>ch. fmlookup (co_detached c) sub = Some ch \<and> flows (page_from (replica_of sn) rest) (ch_buf ch))))"

definition stream_ok :: "stream_state \<Rightarrow> bool" where
  "stream_ok s =
     (\<exists>rs. sys_inv (ss_co s, rs) \<and>
        (\<forall>i sub b. fmlookup (ss_browsers s) i = Some (Some sub, b) \<and> \<not> br_over b \<longrightarrow> live_at (ss_co s) rs sub b) \<and>
        (\<forall>i j sub b b'. fmlookup (ss_browsers s) i = Some (Some sub, b) \<and> \<not> br_over b \<and>
           fmlookup (ss_browsers s) j = Some (Some sub, b') \<and> \<not> br_over b' \<longrightarrow> i = j) \<and>
        (\<forall>i o1 b. fmlookup (ss_browsers s) i = Some (o1, b) \<longrightarrow> typed_stream (br_frames b)))"

lemma live_cong:
  assumes "live_at c rs sub b" and "fmlookup (co_subs c') sub = fmlookup (co_subs c) sub"
    and "fmlookup (co_detached c') sub = fmlookup (co_detached c) sub" and "fmlookup rs' sub = fmlookup rs sub"
  shows "live_at c' rs' sub b"
  using assms unfolding live_at_def by (simp cong: option.case_cong)

lemma live_typed: "live_at c rs sub b \<Longrightarrow> typed_stream (br_frames b)"
  by (auto simp: live_at_def)

lemma live_flows:
  assumes "sys_inv (c, rs)" and "live_at c rs sub b"
  shows "\<exists>sn rest ch. br_frames b = FSnapshot sn # rest \<and> list_all streaming rest \<and> typed_from (replica_of sn) rest \<and>
    find_chan c sub = Some ch \<and> flows (page_from (replica_of sn) rest) (ch_buf ch) \<and>
    (go_has (co_subs c) sub \<longrightarrow> fmlookup rs sub = Some (page_from (replica_of sn) rest))"
proof -
  from assms(2) obtain sn rest where l: "br_frames b = FSnapshot sn # rest" "list_all streaming rest" "typed_from (replica_of sn) rest"
      "case fmlookup (co_subs c) sub of Some ch \<Rightarrow> fmlookup rs sub = Some (page_from (replica_of sn) rest)
       | None \<Rightarrow> (\<exists>ch. fmlookup (co_detached c) sub = Some ch \<and> flows (page_from (replica_of sn) rest) (ch_buf ch))"
    unfolding live_at_def by blast
  show ?thesis
  proof (cases "fmlookup (co_subs c) sub")
    case None
    with l(4) obtain ch where "fmlookup (co_detached c) sub = Some ch" "flows (page_from (replica_of sn) rest) (ch_buf ch)" by auto
    with None l(1-3) show ?thesis by (simp add: find_chan_def go_has_def)
  next
    case (Some ch)
    with assms(1) l(4) have "catches_up c ch (page_from (replica_of sn) rest)" by (fastforce simp: sys_inv_def)
    then have "flows (page_from (replica_of sn) rest) (ch_buf ch)"
      by (intro caught_up_flows) (simp add: catches_up_def replica_of_def)
    with l Some show ?thesis by (auto simp: find_chan_def)
  qed
qed

lemma live_ping: "live_at c rs sub b \<Longrightarrow> live_at c rs sub (write_frame True FPing b)"
proof -
  assume "live_at c rs sub b"
  then obtain sn rest where "br_frames b = FSnapshot sn # rest" "list_all streaming rest" "typed_from (replica_of sn) rest"
      "case fmlookup (co_subs c) sub of Some ch \<Rightarrow> fmlookup rs sub = Some (page_from (replica_of sn) rest)
       | None \<Rightarrow> (\<exists>ch. fmlookup (co_detached c) sub = Some ch \<and> flows (page_from (replica_of sn) rest) (ch_buf ch))"
    unfolding live_at_def by blast
  then show ?thesis
    unfolding live_at_def
    by (intro exI [of _ sn] exI [of _ "rest @ [FPing]"]) (simp add: write_frame_def typed_append page_append cong: option.case_cong)
qed

text \<open>The steps of the coordinator that are not of this browser.\<close>

lemma live_commit:
  assumes "sys_inv (c, rs)" and l: "live_at c rs sub b"
  shows "live_at (fst (co_step c (Commit ops))) rs sub b"
proof -
  obtain c' res err where r: "run_commit c ops = (c', res, err)" by (metis prod_cases3)
  have "live_at c' rs sub b"
  proof (cases "c' = c")
    case False
    then obtain d c1 where c': "c' = deliver d c1" and c1: "co_subs c1 = co_subs c" "co_detached c1 = co_detached c"
      using r by (auto simp: run_commit_def Let_def split: prod.splits option.splits)
    from l show ?thesis
      by (auto simp: live_at_def c' c1 lookup_deliver_subs lookup_deliver_detached chan_overflow_def chan_send_def
          chan_close_def overflow_outcome_def split: option.splits)
  qed (use l in simp)
  with l r show ?thesis by simp
qed

lemma live_close:
  assumes inv: "sys_inv (c, rs)" and l: "live_at c rs sub b"
  shows "live_at (fst (co_step c Close)) rs sub b"
proof -
  from live_flows [OF inv l] show ?thesis
    by (auto simp: live_at_def run_close_def lookup_fmadd find_chan_def chan_close_def split: option.splits)
qed

lemma live_other:
  "\<lbrakk>live_at c rs sub b; sub \<noteq> k\<rbrakk> \<Longrightarrow> live_at (fst (co_step c (Unsubscribe k))) rs sub b"
  by (erule live_cong) (auto simp: run_unsubscribe_def split: option.splits)

lemma live_receive_other:
  "\<lbrakk>live_at c rs sub b; sub \<noteq> k; fmlookup rs' sub = fmlookup rs sub\<rbrakk> \<Longrightarrow> live_at (fst (receive c k)) rs' sub b"
  by (erule live_cong) (auto simp: receive_def split: option.splits list.splits)

lemma live_bound:
  assumes "sys_inv (c, rs)" and "live_at c rs sub b"
  shows "sub \<le> co_next_id c"
  using live_flows [OF assms] assms(1)
  by (auto simp: find_chan_def sys_inv_def co_inv_def open_chan_def closed_chan_def split: option.splits)

lemma live_subscribe:
  assumes "sys_inv (c, rs)" and "live_at c rs sub b" and "run_subscribe c q = (c', k)"
  shows "live_at c' (fmupd k v rs) sub b"
  using assms(2)
  by (rule live_cong) (use live_bound [OF assms(1,2)] assms(3) in \<open>auto simp: run_subscribe_def Let_def\<close>)

lemma sys_unsubscribe: "sys_inv (c, rs) \<Longrightarrow> sys_inv (fst (co_step c (Unsubscribe k)), rs)"
  using sys_step_inv [of "(c, rs)" "Unsubscribe k"] by (simp split: if_splits)

subsection \<open>One turn\<close>

definition turn_ok :: "coordinator \<Rightarrow> (nat, replica) fmap \<Rightarrow> nat \<Rightarrow> coordinator \<Rightarrow> browser \<Rightarrow> bool" where
  "turn_ok c rs sub c' b' =
     (typed_stream (br_frames b') \<and>
      (\<exists>rs'. sys_inv (c', rs') \<and> (\<not> br_over b' \<longrightarrow> live_at c' rs' sub b') \<and>
         (\<forall>k b2. k \<noteq> sub \<and> live_at c rs k b2 \<longrightarrow> live_at c' rs' k b2)))"

lemma turn_okI:
  assumes "typed_stream (br_frames b')" and "sys_inv (c', rs')" and "\<not> br_over b' \<Longrightarrow> live_at c' rs' sub b'"
    and "\<And>k b2. \<lbrakk>k \<noteq> sub; live_at c rs k b2\<rbrakk> \<Longrightarrow> live_at c' rs' k b2"
  shows "turn_ok c rs sub c' b'"
  using assms unfolding turn_ok_def by blast

lemma return_ok:
  assumes "sys_inv (c1, rs1)" and "typed_stream (br_frames b)"
    and "\<And>k b2. \<lbrakk>k \<noteq> sub; live_at c rs k b2\<rbrakk> \<Longrightarrow> live_at c1 rs1 k b2"
  shows "case stream_return sub c1 b of (c', b') \<Rightarrow> turn_ok c rs sub c' b'"
  unfolding stream_return_def prod.case
  by (rule turn_okI [OF _ sys_unsubscribe [OF assms(1)]])
     (use assms(2,3) live_other in \<open>auto simp: browser_return_def\<close>)

lemma message_ok:
  assumes inv: "sys_inv (c, rs)" and l: "live_at c rs sub b"
    and ch: "find_chan c sub = Some ch" "ch_buf ch = m # ms"
  shows "\<exists>rs'. sys_inv (fst (receive c sub), rs') \<and>
    (\<forall>d. m = MDelta d \<longrightarrow> live_at (fst (receive c sub)) rs' sub (write_frame True (FDelta d) b)) \<and>
    (\<forall>oe ok. m = MOutcome oe \<longrightarrow> typed_stream (br_frames (write_frame ok (FOutcome oe) b))) \<and>
    (\<forall>k b2. k \<noteq> sub \<and> live_at c rs k b2 \<longrightarrow> live_at (fst (receive c sub)) rs' k b2)"
proof -
  from live_flows [OF inv l] ch obtain sn rest where f: "br_frames b = FSnapshot sn # rest" "list_all streaming rest"
      "typed_from (replica_of sn) rest" "flows (page_from (replica_of sn) rest) (m # ms)"
      "go_has (co_subs c) sub \<longrightarrow> fmlookup rs sub = Some (page_from (replica_of sn) rest)" by auto
  let ?rs = "case fmlookup rs sub of None \<Rightarrow> rs | Some rp \<Rightarrow> fmupd sub (replica_apply rp m) rs"
  obtain c1 where r: "receive c sub = (c1, Some m)" using ch by (simp add: receive_def)
  have c1: "if go_has (co_subs c) sub then fmlookup (co_subs c1) sub = Some (ch\<lparr>ch_buf := ms\<rparr>)
      else fmlookup (co_subs c1) sub = None \<and> fmlookup (co_detached c1) sub = Some (ch\<lparr>ch_buf := ms\<rparr>)"
    using r ch by (auto simp: receive_def go_has_def)
  have d: "live_at c1 ?rs sub (write_frame True (FDelta d) b)" if "m = MDelta d" for d
    using f c1 that unfolding live_at_def
    by (auto simp: write_frame_def typed_append page_append go_has_def split: option.splits if_splits)
  have o1: "typed_stream (br_frames (write_frame ok (FOutcome oe) b))" if "m = MOutcome oe" for oe ok
    using f that by (auto simp: write_frame_def typed_append)
  have k: "live_at c1 ?rs k b2" if "k \<noteq> sub" "live_at c rs k b2" for k b2
    using live_receive_other [OF that(2,1), of ?rs] that(1) r by (simp split: option.splits)
  from receive_catches_up [OF inv r] have "sys_inv (c1, ?rs)" .
  with d o1 k show ?thesis unfolding r fst_conv by (intro exI [of _ ?rs]) blast
qed

lemma stream_turn_ok:
  assumes inv: "sys_inv (c, rs)" and l: "live_at c rs sub b" and over: "\<not> br_over b"
  shows "case stream_turn sub e c b of (c', b') \<Rightarrow> turn_ok c rs sub c' b'"
proof -
  note typed = live_typed [OF l]
  have ret: "case stream_return sub c b of (c', b') \<Rightarrow> turn_ok c rs sub c' b'" by (rule return_ok [OF inv typed])
  have same: "turn_ok c rs sub c b" by (rule turn_okI [OF typed inv]) (use l in auto)
  show ?thesis
  proof (cases e)
    case (PingTick ok)
    have "turn_ok c rs sub c (write_frame True FPing b)"
      by (rule turn_okI [OF live_typed [OF live_ping [OF l]] inv live_ping [OF l]])
    with PingTick over ret show ?thesis by (simp add: stream_turn_def)
  next
    case (Message ok)
    from live_flows [OF inv l] obtain ch where ch: "find_chan c sub = Some ch" by blast
    show ?thesis
    proof (cases "ch_buf ch")
      case Nil
      with Message over ch ret same show ?thesis by (simp add: stream_turn_def)
    next
      case (Cons m ms)
      from message_ok [OF inv l ch Cons] obtain rs' where r: "sys_inv (fst (receive c sub), rs')"
        "\<And>d. m = MDelta d \<Longrightarrow> live_at (fst (receive c sub)) rs' sub (write_frame True (FDelta d) b)"
        "\<And>oe ok. m = MOutcome oe \<Longrightarrow> typed_stream (br_frames (write_frame ok (FOutcome oe) b))"
        "\<And>k b2. \<lbrakk>k \<noteq> sub; live_at c rs k b2\<rbrakk> \<Longrightarrow> live_at (fst (receive c sub)) rs' k b2" by blast
      have "case stream_return sub (fst (receive c sub)) b1 of (c', b') \<Rightarrow> turn_ok c rs sub c' b'"
        if "typed_stream (br_frames b1)" for b1 by (rule return_ok [OF r(1) that r(4)])
      moreover have "turn_ok c rs sub (fst (receive c sub)) (write_frame True (FDelta d) b)" if "m = MDelta d" for d
        by (rule turn_okI [OF live_typed [OF r(2) [OF that]] r(1)]) (use r(2) [OF that] r(4) in auto)
      ultimately show ?thesis
        using Message over ch Cons typed r(3)
        by (cases m) (simp_all add: stream_turn_def case_prod_unfold)
    qed
  qed (use over ret in \<open>simp_all add: stream_turn_def\<close>)
qed

subsection \<open>All turns\<close>

lemma stream_okI:
  assumes "sys_inv (ss_co s, rs)"
    and "\<And>i sub b. \<lbrakk>fmlookup (ss_browsers s) i = Some (Some sub, b); \<not> br_over b\<rbrakk> \<Longrightarrow> live_at (ss_co s) rs sub b"
    and "\<And>i j sub b b'. \<lbrakk>fmlookup (ss_browsers s) i = Some (Some sub, b); \<not> br_over b;
           fmlookup (ss_browsers s) j = Some (Some sub, b'); \<not> br_over b'\<rbrakk> \<Longrightarrow> i = j"
    and "\<And>i o1 b. fmlookup (ss_browsers s) i = Some (o1, b) \<Longrightarrow> typed_stream (br_frames b)"
  shows "stream_ok s"
  unfolding stream_ok_def by (rule exI [of _ rs]) (use assms in blast)

lemma stream_okE:
  assumes "stream_ok s"
  obtains rs where "sys_inv (ss_co s, rs)"
    and "\<And>i sub b. \<lbrakk>fmlookup (ss_browsers s) i = Some (Some sub, b); \<not> br_over b\<rbrakk> \<Longrightarrow> live_at (ss_co s) rs sub b"
    and "\<And>i j sub b b'. \<lbrakk>fmlookup (ss_browsers s) i = Some (Some sub, b); \<not> br_over b;
           fmlookup (ss_browsers s) j = Some (Some sub, b'); \<not> br_over b'\<rbrakk> \<Longrightarrow> i = j"
    and "\<And>i o1 b. fmlookup (ss_browsers s) i = Some (o1, b) \<Longrightarrow> typed_stream (br_frames b)"
proof -
  from assms obtain rs where r: "sys_inv (ss_co s, rs) \<and>
      (\<forall>i sub b. fmlookup (ss_browsers s) i = Some (Some sub, b) \<and> \<not> br_over b \<longrightarrow> live_at (ss_co s) rs sub b) \<and>
      (\<forall>i j sub b b'. fmlookup (ss_browsers s) i = Some (Some sub, b) \<and> \<not> br_over b \<and>
         fmlookup (ss_browsers s) j = Some (Some sub, b') \<and> \<not> br_over b' \<longrightarrow> i = j) \<and>
      (\<forall>i o1 b. fmlookup (ss_browsers s) i = Some (o1, b) \<longrightarrow> typed_stream (br_frames b))"
    unfolding stream_ok_def by (elim exE)
  show thesis by (rule that [of rs]) (use r in blast)+
qed

lemma refused_typed: "typed_stream (br_frames (refuse_schema quote ok1 ok2 schema c)) \<and> br_over (refuse_schema quote ok1 ok2 schema c)"
  by (simp add: refuse_schema_def write_frame_def browser_return_def Let_def)

lemma stream_open_ok:
  assumes inv: "sys_inv (c, rs)" and r: "stream_open quote ok1 ok2 raw c = (c', o1, b)"
  shows "typed_stream (br_frames b) \<and>
    (\<exists>rs'. sys_inv (c', rs') \<and>
      (\<forall>sub. o1 = Some sub \<and> \<not> br_over b \<longrightarrow> live_at c' rs' sub b \<and> co_next_id c < sub) \<and>
      (\<forall>k b2. live_at c rs k b2 \<longrightarrow> live_at c' rs' k b2))"
proof (cases "schema_accepted (requestedSchema raw) \<and> \<not> co_stopped c")
  case False
  with r have "c' = c" "br_over b" "typed_stream (br_frames b)"
    using refused_typed [of quote ok1 ok2 "requestedSchema raw" c] by (auto simp: stream_open_def Let_def split: if_splits)
  with inv show ?thesis by (intro conjI exI [of _ rs]) auto
next
  case True
  obtain c1 sub where s: "run_subscribe c stateQueueSize = (c1, sub)" by fastforce
  let ?sn = "snapshot c1" and ?rs = "fmupd sub (replica_of (snapshot c1)) rs"
  have i1: "sys_inv (c1, ?rs)" by (rule run_subscribe_catches_up [OF inv _ s]) (use True in simp)
  have reg: "go_has (co_subs c1) sub" "sub = Suc (co_next_id c)" using s by (auto simp: run_subscribe_def Let_def)
  then have l: "live_at c1 ?rs sub \<lparr>br_frames = [FSnapshot ?sn], br_over = False\<rparr>"
    by (auto simp: live_at_def go_has_def split: option.splits)
  have old: "live_at c1 ?rs k b2" if "live_at c rs k b2" for k b2 by (rule live_subscribe [OF inv that s])
  show ?thesis
  proof (cases ok1)
    case True
    with \<open>schema_accepted _ \<and> _\<close> r s have "c' = c1" "o1 = Some sub" "b = \<lparr>br_frames = [FSnapshot ?sn], br_over = False\<rparr>"
      by (auto simp: stream_open_def)
    with i1 l old reg(2) show ?thesis by auto
  next
    case False
    with \<open>schema_accepted _ \<and> _\<close> r s have "c' = fst (co_step c1 (Unsubscribe sub))" "br_over b" "br_frames b = []"
      by (auto simp: stream_open_def)
    moreover have "live_at (fst (co_step c1 (Unsubscribe sub))) ?rs k b2" if "live_at c rs k b2" for k b2
      by (rule live_other [OF old [OF that]]) (use live_bound [OF inv that] reg(2) in simp)
    ultimately show ?thesis using sys_unsubscribe [OF i1, of sub] by (intro conjI exI [of _ ?rs]) auto
  qed
qed

lemma sys_commit: "sys_inv (c, rs) \<Longrightarrow> sys_inv (fst (co_step c (Commit ops)), rs)"
  using sys_step_inv [of "(c, rs)" "Commit ops"] by (auto split: prod.splits)

lemma sys_close: "sys_inv (c, rs) \<Longrightarrow> sys_inv (fst (co_step c Close), rs)"
  using sys_step_inv [of "(c, rs)" Close] by simp

lemma stream_step_inv: "stream_ok s \<Longrightarrow> stream_ok (stream_step s e)"
proof -
  assume "stream_ok s"
  then obtain rs where inv: "sys_inv (ss_co s, rs)"
    and live: "\<And>i sub b. \<lbrakk>fmlookup (ss_browsers s) i = Some (Some sub, b); \<not> br_over b\<rbrakk> \<Longrightarrow> live_at (ss_co s) rs sub b"
    and one: "\<And>i j sub b b'. \<lbrakk>fmlookup (ss_browsers s) i = Some (Some sub, b); \<not> br_over b;
           fmlookup (ss_browsers s) j = Some (Some sub, b'); \<not> br_over b'\<rbrakk> \<Longrightarrow> i = j"
    and typed: "\<And>i o1 b. fmlookup (ss_browsers s) i = Some (o1, b) \<Longrightarrow> typed_stream (br_frames b)"
    by (rule stream_okE) blast
  show ?thesis
  proof (cases e)
    case (CommitOps ops)
    show ?thesis unfolding CommitOps
      by (rule stream_okI [where rs = rs]) (use sys_commit [OF inv] live_commit [OF inv live] one typed in auto)
  next
    case CloseCoordinator
    show ?thesis unfolding CloseCoordinator
      by (rule stream_okI [where rs = rs]) (use sys_close [OF inv] live_close [OF inv live] one typed in auto)
  next
    case (Connect quote ok1 ok2 raw)
    obtain c' o1 b where r: "stream_open quote ok1 ok2 raw (ss_co s) = (c', o1, b)" by (metis prod_cases3)
    from stream_open_ok [OF inv r] obtain rs' where n: "typed_stream (br_frames b)" "sys_inv (c', rs')"
      "\<And>sub. \<lbrakk>o1 = Some sub; \<not> br_over b\<rbrakk> \<Longrightarrow> live_at c' rs' sub b \<and> co_next_id (ss_co s) < sub"
      "\<And>k b2. live_at (ss_co s) rs k b2 \<Longrightarrow> live_at c' rs' k b2" by blast
    have new: False if "fmlookup (ss_browsers s) i = Some (o1, b')" "\<not> br_over b'" "o1 = Some sub" "\<not> br_over b" for i b' sub
      using live_bound [OF inv live] n(3) that by fastforce
    let ?new = "s\<lparr>ss_co := c', ss_browsers := fmupd (ss_next s) (o1, b) (ss_browsers s), ss_next := Suc (ss_next s)\<rparr>"
    have e: "stream_step s e = s\<lparr>ss_co := c', ss_browsers := fmupd (ss_next s) (o1, b) (ss_browsers s), ss_next := Suc (ss_next s)\<rparr>"
      by (simp add: Connect r)
    show ?thesis unfolding e
    proof (rule stream_okI [where rs = rs'])
      fix i k b1
      assume "fmlookup (ss_browsers (?new)) i = Some (Some k, b1)" "\<not> br_over b1"
      then show "live_at (ss_co ?new) rs' k b1" using n(3) n(4) live by (cases "i = ss_next s") auto
    next
      fix i1 i2 k b1 b2
      assume "fmlookup (ss_browsers ?new) i1 = Some (Some k, b1)" "\<not> br_over b1"
        "fmlookup (ss_browsers ?new) i2 = Some (Some k, b2)" "\<not> br_over b2"
      then show "i1 = i2" using one new by (cases "i1 = ss_next s"; cases "i2 = ss_next s") auto
    qed (use n typed in \<open>auto split: if_splits\<close>)
  next
    case (Turn i w)
    show ?thesis
    proof (cases "\<exists>sub b. fmlookup (ss_browsers s) i = Some (Some sub, b) \<and> \<not> br_over b")
      case True
      then obtain sub b where b: "fmlookup (ss_browsers s) i = Some (Some sub, b)" "\<not> br_over b" by blast
      obtain c' b' where t: "stream_turn sub w (ss_co s) b = (c', b')" by fastforce
      from stream_turn_ok [OF inv live [OF b] b(2), of w] t have "turn_ok (ss_co s) rs sub c' b'" by simp
      then obtain rs' where n: "typed_stream (br_frames b')" "sys_inv (c', rs')" "\<not> br_over b' \<Longrightarrow> live_at c' rs' sub b'"
        "\<And>k b2. \<lbrakk>k \<noteq> sub; live_at (ss_co s) rs k b2\<rbrakk> \<Longrightarrow> live_at c' rs' k b2" unfolding turn_ok_def by blast
      have e: "stream_step s e = s\<lparr>ss_co := c', ss_browsers := fmupd i (Some sub, b') (ss_browsers s)\<rparr>"
        by (simp add: Turn b t)
      have other: "k \<noteq> sub" if "fmlookup (ss_browsers s) j = Some (Some k, b2)" "\<not> br_over b2" "j \<noteq> i" for j k b2
        using one [OF that(1,2), of i b] b that(3) by auto
      show ?thesis unfolding e
      proof (rule stream_okI [where rs = rs'])
        fix j k b2
        assume "fmlookup (ss_browsers (s\<lparr>ss_co := c', ss_browsers := fmupd i (Some sub, b') (ss_browsers s)\<rparr>)) j = Some (Some k, b2)"
          and "\<not> br_over b2"
        then show "live_at (ss_co (s\<lparr>ss_co := c', ss_browsers := fmupd i (Some sub, b') (ss_browsers s)\<rparr>)) rs' k b2"
          using n(3) n(4) [OF other live] by (cases "j = i") auto
      next
        fix j1 j2 k b1 b2
        assume "fmlookup (ss_browsers (s\<lparr>ss_co := c', ss_browsers := fmupd i (Some sub, b') (ss_browsers s)\<rparr>)) j1 = Some (Some k, b1)"
          "\<not> br_over b1"
          "fmlookup (ss_browsers (s\<lparr>ss_co := c', ss_browsers := fmupd i (Some sub, b') (ss_browsers s)\<rparr>)) j2 = Some (Some k, b2)"
          "\<not> br_over b2"
        then show "j1 = j2" using one other by (cases "j1 = i"; cases "j2 = i") auto
      qed (use n typed in \<open>auto split: if_splits\<close>)
    next
      case False
      have "stream_step s e = s"
      proof (cases "fmlookup (ss_browsers s) i")
        case (Some p)
        show ?thesis
        proof (cases "fst p")
          case (Some sub)
          with \<open>fmlookup (ss_browsers s) i = Some p\<close> False have "fmlookup (ss_browsers s) i = Some (Some sub, snd p)" "br_over (snd p)"
            by (metis prod.collapse)+
          then show ?thesis by (cases s) (simp add: Turn stream_turn_def fmupd_same)
        qed (use Some in \<open>cases p, simp add: Turn\<close>)
      qed (simp add: Turn)
      with \<open>stream_ok s\<close> show ?thesis by simp
    qed
  qed
qed

interpretation streams: component "stream_init inst" stream_step stream_ok for inst
proof unfold_locales
  show "stream_ok (stream_init inst)"
    by (rule stream_okI [where rs = fmempty])
       (use sys.init_inv [of inst] in \<open>simp_all add: stream_init_def sys_init_def\<close>)
qed (rule stream_step_inv)

text \<open>
  C10. Every browser gets a well-formed stream.  Whatever the order of commits, connections,
  pings, slow readers, failed writes and disconnections, the frames written to a browser are a
  snapshot, then deltas each of which applies to the state shown before it and pings, and at
  most one outcome, at the end; a page with another schema gets only the order to reload.
  While a browser is connected and registered, the page that folds its frames and what waits
  in its queue is exactly the coordinator's snapshot.
\<close>

theorem browser_streams_typed:
  assumes "foldl stream_step (stream_init inst) events = s" and "fmlookup (ss_browsers s) i = Some (o1, b)"
  shows "typed_stream (br_frames b) \<and>
    (case o1 of None \<Rightarrow> True | Some sub \<Rightarrow> br_over b \<or>
       (case fmlookup (co_subs (ss_co s)) sub of None \<Rightarrow> True
        | Some ch \<Rightarrow> map_option (\<lambda>rp. foldl replica_apply rp (ch_buf ch)) (page (br_frames b)) =
            Some (replica_of (snapshot (ss_co s)))))"
proof -
  from streams.run_inv [of inst events] assms(1) obtain rs where inv: "sys_inv (ss_co s, rs)"
    and live: "\<And>i sub b. \<lbrakk>fmlookup (ss_browsers s) i = Some (Some sub, b); \<not> br_over b\<rbrakk> \<Longrightarrow> live_at (ss_co s) rs sub b"
    and typed: "\<And>i o1 b. fmlookup (ss_browsers s) i = Some (o1, b) \<Longrightarrow> typed_stream (br_frames b)"
    by (auto elim!: stream_okE)
  have "map_option (\<lambda>rp. foldl replica_apply rp (ch_buf ch)) (page (br_frames b)) = Some (replica_of (snapshot (ss_co s)))"
    if "o1 = Some sub" "\<not> br_over b" "fmlookup (co_subs (ss_co s)) sub = Some ch" for sub ch
  proof -
    from live [of i sub b] that assms(2) obtain sn rest where "br_frames b = FSnapshot sn # rest"
      "fmlookup rs sub = Some (page_from (replica_of sn) rest)" by (auto simp: live_at_def)
    moreover from inv that(3) obtain rp where "fmlookup rs sub = Some rp" "catches_up (ss_co s) ch rp" by (auto simp: sys_inv_def)
    ultimately show ?thesis by (simp add: page_def catches_up_def)
  qed
  with typed [OF assms(2)] show ?thesis by (auto split: option.splits)
qed

definition demo_stream :: "stream_event list" where
  "demo_stream = [CommitOps [operation_of UpsertHost\<lparr>op_host := Some (demo_host ''a'')\<rparr>], Turn 0 (Message True),
     Turn 0 (PingTick True)]"

definition demo_subscribed :: coordinator where
  "demo_subscribed = fst (run_subscribe (new_coordinator ''i'') 64)"

definition demo_connected :: stream_state where
  "demo_connected = \<lparr>ss_co = demo_subscribed,
     ss_browsers = fmupd 0 (Some 1, \<lparr>br_frames = [FSnapshot (snapshot demo_subscribed)], br_over = False\<rparr>) fmempty,
     ss_next = 1\<rparr>"

definition demo_shown :: stream_state where
  "demo_shown = foldl stream_step demo_connected demo_stream"

lemma demo_shown_browser:
  "case fmlookup (ss_browsers demo_shown) 0 of
     Some (Some sub, b) \<Rightarrow> sub = 1 \<and> length (br_frames b) = 3 \<and> \<not> br_over b | _ \<Rightarrow> False"
  and demo_shown_queue: "case fmlookup (co_subs (ss_co demo_shown)) 1 of None \<Rightarrow> False | Some ch \<Rightarrow> ch_buf ch = []"
  by code_simp+

lemma demo_connects: "stream_step (stream_init ''i'') (Connect (\<lambda>s. s) True True ''1'') = demo_connected"
proof -
  have "requestedSchema ''1'' = Inr 1" by (simp add: requestedSchema_def atoi_def is_dec_def byte_val_def)
  then show ?thesis
    by (simp add: stream_open_def schema_accepted_def SupportsSchema_def SchemaVersion_def stream_init_def
        stateQueueSize_def run_subscribe_def Let_def new_coordinator_def demo_connected_def demo_subscribed_def)
qed

lemma some_slot: "(case x of Some (Some k, b) \<Rightarrow> P k b | _ \<Rightarrow> False) \<Longrightarrow> \<exists>k b. x = Some (Some k, b) \<and> P k b"
  by (auto split: option.splits prod.splits)

theorem browser_streams_typed_witness:
  "\<exists>s b. foldl stream_step (stream_init ''i'') (Connect (\<lambda>s. s) True True ''1'' # demo_stream) = s \<and>
     fmlookup (ss_browsers s) 0 = Some (Some 1, b) \<and> length (br_frames b) = 3 \<and> typed_stream (br_frames b) \<and>
     page (br_frames b) = Some (replica_of (snapshot (ss_co s)))"
proof -
  have s: "foldl stream_step (stream_init ''i'') (Connect (\<lambda>s. s) True True ''1'' # demo_stream) = demo_shown"
    by (simp only: foldl_Cons demo_connects demo_shown_def)
  from some_slot [OF demo_shown_browser] obtain b where b: "fmlookup (ss_browsers demo_shown) 0 = Some (Some 1, b)"
    "length (br_frames b) = 3" "\<not> br_over b" by blast
  from demo_shown_queue obtain ch where ch: "fmlookup (co_subs (ss_co demo_shown)) 1 = Some ch" "ch_buf ch = []"
    by (auto split: option.splits)
  from browser_streams_typed [OF s b(1)] b ch s show ?thesis by (auto simp: map_option_case split: option.splits)
qed

end
