(* ===== verification/Projector.thy ===== *)
theory Projector
  imports Replica
begin

text \<open>
  From producers to the canonical state (\<open>pkg/state/projector.go\<close>): the tmux structs
  (\<open>pkg/tmux/types.go\<close>), the complete projection of a list of hosts, the difference of
  two maps as operations, and \<open>ReplaceHosts\<close>.  The locale \<open>entity_map\<close> is the
  interface between the difference algorithm and the operations of the coordinator: one
  map of the projection with its remove and upsert operation.
\<close>

subsection \<open>Producer values\<close>

record TPane =
  tp_id :: string
  tp_window_id :: string
  tp_session_id :: string
  tp_index :: int
  tp_active :: bool
  tp_width :: int
  tp_height :: int
  tp_current_command :: string
  tp_pid :: int

record TWindow =
  tw_id :: string
  tw_session_id :: string
  tw_name :: string
  tw_index :: int
  tw_active :: bool
  tw_layout :: string
  tw_panes :: "TPane option list"

record TSession =
  ts_id :: string
  ts_name :: string
  ts_host :: string
  ts_host_name :: string
  ts_host_online :: bool
  ts_windows :: "TWindow option list"
  ts_created :: time
  ts_attached :: bool
  ts_last_activity :: time

record HostSnapshot =
  hs_id :: string
  hs_display_name :: string
  hs_online :: bool
  hs_local :: bool
  hs_version :: string
  hs_sessions :: "TSession option list"

subsection \<open>The complete projection of a list of hosts\<close>

definition project_pane :: "string \<Rightarrow> string \<Rightarrow> string \<Rightarrow> projection \<Rightarrow> TPane option \<Rightarrow> projection" where
  "project_pane hid sname wid p pane = (case pane of
       None \<Rightarrow> p
     | Some t \<Rightarrow>
         if tp_id t = [] then p
         else let k = NewPaneKey hid sname wid (tp_id t) in
           p\<lparr>Panes := fmupd k
             \<lparr>p_key = k, p_window_key = NewWindowKey hid sname wid, p_tmux_id = tp_id t,
              p_index = tp_index t, p_active = tp_active t, p_width = tp_width t,
              p_height = tp_height t, p_current_command = tp_current_command t,
              p_pid = tp_pid t\<rparr> (Panes p)\<rparr>)"

definition project_window :: "string \<Rightarrow> string \<Rightarrow> projection \<Rightarrow> TWindow option \<Rightarrow> projection" where
  "project_window hid sname p win = (case win of
       None \<Rightarrow> p
     | Some w \<Rightarrow>
         if tw_id w = [] then p
         else let k = NewWindowKey hid sname (tw_id w) in
           foldl (project_pane hid sname (tw_id w))
             (p\<lparr>Windows := fmupd k
               \<lparr>w_key = k, w_session_key = NewSessionKey hid sname, w_tmux_id = tw_id w,
                w_name = tw_name w, w_index = tw_index w, w_active = tw_active w,
                w_layout = tw_layout w\<rparr> (Windows p)\<rparr>) (tw_panes w))"

definition project_session :: "string \<Rightarrow> projection \<Rightarrow> TSession option \<Rightarrow> projection" where
  "project_session hid p sess = (case sess of
       None \<Rightarrow> p
     | Some s \<Rightarrow>
         if ts_name s = [] then p
         else let k = NewSessionKey hid (ts_name s) in
           foldl (project_window hid (ts_name s))
             (p\<lparr>Sessions := fmupd k
               \<lparr>s_key = k, s_host_key = NewHostKey hid, s_host_id = hid, s_name = ts_name s,
                s_tmux_id = ts_id s, s_attached = ts_attached s, s_created = ts_created s,
                s_last_activity = ts_last_activity s\<rparr> (Sessions p)\<rparr>) (ts_windows s))"

definition project_host :: "projection \<Rightarrow> HostSnapshot \<Rightarrow> projection" where
  "project_host p source =
     (let k = NewHostKey (hs_id source) in
      foldl (project_session (hs_id source))
        (p\<lparr>Hosts := fmupd k
          \<lparr>h_key = k, h_id = hs_id source, h_display_name = hs_display_name source,
           h_online = hs_online source, h_local = hs_local source, h_version = hs_version source,
           h_last_seen = 0\<rparr> (Hosts p)\<rparr>) (hs_sessions source))"

datatype reconcile_error = HostIDRequired

fun project_hosts :: "projection \<Rightarrow> HostSnapshot list \<Rightarrow> reconcile_error + projection" where
  "project_hosts p [] = Inr p"
| "project_hosts p (source # rest) =
     (if hs_id source = [] then Inl HostIDRequired else project_hosts (project_host p source) rest)"

subsection \<open>The difference of two maps\<close>

definition appendMapDiff ::
  "operation list \<Rightarrow> ('t key, 'v) fmap \<Rightarrow> ('t key, 'v) fmap \<Rightarrow> ('t key \<Rightarrow> operation) \<Rightarrow>
   ('v \<Rightarrow> operation) \<Rightarrow> operation list" where
  "appendMapDiff ops current nxt remove upsert =
     ops @ map remove (filter (\<lambda>k. \<not> go_has nxt k) (go_keys current))
     @ concat (map (\<lambda>k. case fmlookup nxt k of
         None \<Rightarrow> []
       | Some v \<Rightarrow> if fmlookup current k = Some v then [] else [upsert v]) (go_keys nxt))"

definition remove_op :: "operation_kind \<Rightarrow> 't key \<Rightarrow> operation" where
  "remove_op kind k = operation_of kind\<lparr>op_key := key_string k\<rparr>"

definition ReconcileHosts :: "projection \<Rightarrow> HostSnapshot list \<Rightarrow> reconcile_error + operation list" where
  "ReconcileHosts current hosts =
     (case project_hosts NewProjection hosts of
        Inl e \<Rightarrow> Inl e
      | Inr nxt \<Rightarrow>
          (let operations = appendMapDiff [] (Panes current) (Panes nxt) (remove_op RemovePane)
                 (\<lambda>v. operation_of UpsertPane\<lparr>op_pane := Some v\<rparr>);
               operations = appendMapDiff operations (Windows current) (Windows nxt) (remove_op RemoveWindow)
                 (\<lambda>v. operation_of UpsertWindow\<lparr>op_window := Some v\<rparr>);
               operations = appendMapDiff operations (Sessions current) (Sessions nxt) (remove_op RemoveSession)
                 (\<lambda>v. operation_of UpsertSession\<lparr>op_session := Some v\<rparr>);
               operations = appendMapDiff operations (Hosts current) (Hosts nxt) (remove_op RemoveHost)
                 (\<lambda>v. operation_of UpsertHost\<lparr>op_host := Some v\<rparr>)
           in Inr operations))"

text \<open>\<open>ReplaceHosts\<close> takes a snapshot, reconciles and commits; nothing else commits between.\<close>

definition ReplaceHosts ::
  "coordinator \<Rightarrow> HostSnapshot list \<Rightarrow> coordinator \<times> (reconcile_error + commit_result \<times> (nat \<times> op_error) option)" where
  "ReplaceHosts c hosts =
     (case ReconcileHosts (sn_state (snapshot c)) hosts of
        Inl e \<Rightarrow> (c, Inl e)
      | Inr operations \<Rightarrow> (case run_commit c operations of (c', r, err) \<Rightarrow> (c', Inr (r, err))))"

subsection \<open>The interface of one entity map\<close>

locale entity_map =
  fixes get :: "projection \<Rightarrow> ('t key, 'v) fmap"
    and put :: "('t key, 'v) fmap \<Rightarrow> projection \<Rightarrow> projection"
    and remove :: "'t key \<Rightarrow> operation"
    and upsert :: "'v \<Rightarrow> operation"
    and key_of :: "'v \<Rightarrow> 't key"
  assumes validate_remove: "\<not> blank (key_string k) \<Longrightarrow> operation_validate (remove k) = None"
    and apply_remove: "applyOperation p (remove k) = Inr (put (fmdrop k (get p)) p)"
    and validate_upsert: "operation_validate (upsert v) = None"
    and apply_upsert: "applyOperation p (upsert v) = Inr (put (fmupd (key_of v) v (get p)) p)"
    and get_put: "get (put m p) = m"
    and put_put: "put m (put n p) = put m p"
    and put_get: "put (get p) p = p"
begin

lemma removes:
  "\<forall>k\<in>set ks. \<not> blank (key_string k) \<Longrightarrow>
     apply_operations i p (map remove ks) = Inr (put (foldl (\<lambda>m k. fmdrop k m) (get p) ks) p)"
proof (induction ks arbitrary: i p)
  case (Cons k ks)
  then show ?case by (simp add: validate_remove apply_remove get_put put_put)
qed (simp add: put_get)

lemma upserts:
  "apply_operations i p (map upsert vs) = Inr (put (foldl (\<lambda>m v. fmupd (key_of v) v m) (get p) vs) p)"
proof (induction vs arbitrary: i p)
  case (Cons v vs)
  then show ?case by (simp add: validate_upsert apply_upsert get_put put_put)
qed (simp add: put_get)

lemma lookup_removes:
  "fmlookup (foldl (\<lambda>m k. fmdrop k m) m ks) k = (if k \<in> set ks then None else fmlookup m k)"
  by (induction ks arbitrary: m) auto

lemma lookup_upserts:
  assumes "\<forall>v\<in>set vs. fmlookup nxt (key_of v) = Some v"
  shows "fmlookup (foldl (\<lambda>m v. fmupd (key_of v) v m) m vs) k =
    (if k \<in> key_of ` set vs then fmlookup nxt k else fmlookup m k)"
  using assms
proof (induction vs arbitrary: m)
  case (Cons v vs)
  have v: "fmlookup nxt (key_of v) = Some v" using Cons.prems by simp
  have "fmlookup (foldl (\<lambda>m v. fmupd (key_of v) v m) (fmupd (key_of v) v m) vs) k =
    (if k \<in> key_of ` set vs then fmlookup nxt k else fmlookup (fmupd (key_of v) v m) k)"
    by (rule Cons.IH) (use Cons.prems in simp)
  then show ?case by (cases "k = key_of v") (simp_all add: v)
qed simp

lemma upserts_concat:
  "concat (map (\<lambda>k. case fmlookup nxt k of None \<Rightarrow> []
      | Some v \<Rightarrow> if fmlookup cur k = Some v then [] else [upsert v]) ks) =
   map upsert (concat (map (\<lambda>k. case fmlookup nxt k of None \<Rightarrow> []
      | Some v \<Rightarrow> if fmlookup cur k = Some v then [] else [v]) ks))"
  by (induction ks) (auto split: option.splits)

text \<open>The values that are upserted: those of \<open>nxt\<close> that the current map does not hold.\<close>

lemma changed_values:
  fixes nxt cur :: "('t key, 'v) fmap"
  assumes own: "\<And>k v. fmlookup nxt k = Some v \<Longrightarrow> key_of v = k"
  obtains vs where
    "concat (map (\<lambda>k. case fmlookup nxt k of None \<Rightarrow> []
        | Some v \<Rightarrow> if fmlookup cur k = Some v then [] else [upsert v]) (go_keys nxt)) = map upsert vs"
    and "\<And>v. v \<in> set vs \<Longrightarrow> fmlookup nxt (key_of v) = Some v"
    and "\<And>k. k \<in> key_of ` set vs \<longleftrightarrow> fmlookup nxt k \<noteq> None \<and> fmlookup nxt k \<noteq> fmlookup cur k"
proof -
  let ?vs = "concat (map (\<lambda>k. case fmlookup nxt k of None \<Rightarrow> []
      | Some v \<Rightarrow> if fmlookup cur k = Some v then [] else [v]) (go_keys nxt))"
  have vs: "v \<in> set ?vs \<longleftrightarrow> fmlookup nxt (key_of v) = Some v \<and> fmlookup cur (key_of v) \<noteq> Some v" for v
  proof
    assume "v \<in> set ?vs"
    then obtain k where k: "fmlookup nxt k = Some v" "fmlookup cur k \<noteq> Some v"
      by (auto simp: go_has_def split: option.splits if_splits)
    with own [OF k(1)] show "fmlookup nxt (key_of v) = Some v \<and> fmlookup cur (key_of v) \<noteq> Some v"
      by simp
  next
    assume a: "fmlookup nxt (key_of v) = Some v \<and> fmlookup cur (key_of v) \<noteq> Some v"
    then have "key_of v \<in> set (go_keys nxt)" by (simp add: go_has_def)
    moreover have "v \<in> set (case fmlookup nxt (key_of v) of None \<Rightarrow> []
        | Some u \<Rightarrow> if fmlookup cur (key_of v) = Some u then [] else [u])"
      using a by simp
    ultimately show "v \<in> set ?vs" unfolding set_concat set_map by blast
  qed
  obtain ws where ws: "ws = ?vs" by blast
  note mem = vs [folded ws]
  have "k \<in> key_of ` set ws \<longleftrightarrow> fmlookup nxt k \<noteq> None \<and> fmlookup nxt k \<noteq> fmlookup cur k" for k
  proof
    assume "k \<in> key_of ` set ws"
    then show "fmlookup nxt k \<noteq> None \<and> fmlookup nxt k \<noteq> fmlookup cur k" using mem by auto
  next
    assume a: "fmlookup nxt k \<noteq> None \<and> fmlookup nxt k \<noteq> fmlookup cur k"
    then obtain y where y: "fmlookup nxt k = Some y" by blast
    with a own [OF y] have "y \<in> set ws" by (simp add: mem)
    then have "key_of y \<in> key_of ` set ws" by (rule imageI)
    with own [OF y] show "k \<in> key_of ` set ws" by simp
  qed
  moreover have "v \<in> set ws \<Longrightarrow> fmlookup nxt (key_of v) = Some v" for v using mem by simp
  ultimately show ?thesis using that [of ws] ws upserts_concat by metis
qed

text \<open>Applying the difference from the current map to \<open>nxt\<close> installs \<open>nxt\<close>.\<close>

lemma diff_installs:
  assumes keys: "\<And>k. go_has (get p) k \<Longrightarrow> \<not> blank (key_string k)"
    and own: "\<And>k v. fmlookup nxt k = Some v \<Longrightarrow> key_of v = k"
  shows "apply_operations i p (appendMapDiff [] (get p) nxt remove upsert) = Inr (put nxt p)"
proof -
  let ?rem = "filter (\<lambda>k. \<not> go_has nxt k) (go_keys (get p))"
  let ?m1 = "foldl (\<lambda>m k. fmdrop k m) (get p) ?rem"
  obtain vs where
    up: "concat (map (\<lambda>k. case fmlookup nxt k of None \<Rightarrow> []
        | Some v \<Rightarrow> if fmlookup (get p) k = Some v then [] else [upsert v]) (go_keys nxt)) = map upsert vs"
    and vs: "\<And>v. v \<in> set vs \<Longrightarrow> fmlookup nxt (key_of v) = Some v"
    and k: "\<And>k. k \<in> key_of ` set vs \<longleftrightarrow> fmlookup nxt k \<noteq> None \<and> fmlookup nxt k \<noteq> fmlookup (get p) k"
    using changed_values [OF own, where cur = "get p"] by blast
  have "foldl (\<lambda>m v. fmupd (key_of v) v m) ?m1 vs = nxt"
  proof (rule fmap_ext)
    fix k'
    have "fmlookup (foldl (\<lambda>m v. fmupd (key_of v) v m) ?m1 vs) k' =
      (if k' \<in> key_of ` set vs then fmlookup nxt k' else fmlookup ?m1 k')"
      by (rule lookup_upserts) (use vs in simp)
    with k [of k'] show "fmlookup (foldl (\<lambda>m v. fmupd (key_of v) v m) ?m1 vs) k' = fmlookup nxt k'"
      by (auto simp: lookup_removes go_has_def)
  qed
  moreover have "apply_operations i p (map remove ?rem) = Inr (put ?m1 p)"
    by (rule removes) (use keys in auto)
  ultimately show ?thesis
    by (simp add: appendMapDiff_def up apply_operations_append upserts get_put put_put)
qed

lemma diff_same: "appendMapDiff [] m m remove upsert = []"
proof -
  have "filter (\<lambda>k. \<not> go_has m k) (go_keys m) = []" by (simp add: filter_empty_conv)
  moreover have "(case fmlookup m k of None \<Rightarrow> []
      | Some v \<Rightarrow> if fmlookup m k = Some v then [] else [upsert v]) = []" for k
    by (cases "fmlookup m k") auto
  ultimately show ?thesis by (simp add: appendMapDiff_def)
qed

end

lemma appendMapDiff_ops:
  "appendMapDiff ops cur nxt remove upsert = ops @ appendMapDiff [] cur nxt remove upsert"
  by (simp add: appendMapDiff_def)

lemma validate_remove_op:
  "k \<in> remove_kinds \<Longrightarrow> \<not> blank (key_string key) \<Longrightarrow> operation_validate (remove_op k key) = None"
  by (simp add: remove_op_def operation_validate_remove)

lemma apply_entity_remove:
  "applyOperation p (remove_op RemovePane k1) = Inr (p\<lparr>Panes := fmdrop k1 (Panes p)\<rparr>)"
  "applyOperation p (remove_op RemoveWindow k2) = Inr (p\<lparr>Windows := fmdrop k2 (Windows p)\<rparr>)"
  "applyOperation p (remove_op RemoveSession k3) = Inr (p\<lparr>Sessions := fmdrop k3 (Sessions p)\<rparr>)"
  "applyOperation p (remove_op RemoveHost k4) = Inr (p\<lparr>Hosts := fmdrop k4 (Hosts p)\<rparr>)"
  "applyOperation p (remove_op RemoveActivity k5) = Inr (p\<lparr>Activities := fmdrop k5 (Activities p)\<rparr>)"
  "applyOperation p (remove_op RemoveToolEvent k6) = Inr (p\<lparr>ToolEvents := fmdrop k6 (ToolEvents p)\<rparr>)"
  by (simp_all add: applyOperation_def remove_op_def operation_of_def)

lemma apply_entity_upsert:
  "applyOperation p (operation_of UpsertPane\<lparr>op_pane := Some v1\<rparr>) = Inr (p\<lparr>Panes := fmupd (p_key v1) v1 (Panes p)\<rparr>)"
  "applyOperation p (operation_of UpsertWindow\<lparr>op_window := Some v2\<rparr>) = Inr (p\<lparr>Windows := fmupd (w_key v2) v2 (Windows p)\<rparr>)"
  "applyOperation p (operation_of UpsertSession\<lparr>op_session := Some v3\<rparr>) = Inr (p\<lparr>Sessions := fmupd (s_key v3) v3 (Sessions p)\<rparr>)"
  "applyOperation p (operation_of UpsertHost\<lparr>op_host := Some v4\<rparr>) = Inr (p\<lparr>Hosts := fmupd (h_key v4) v4 (Hosts p)\<rparr>)"
  "applyOperation p (operation_of UpsertActivity\<lparr>op_activity := Some v5\<rparr>) = Inr (p\<lparr>Activities := fmupd (a_key v5) v5 (Activities p)\<rparr>)"
  "applyOperation p (operation_of UpsertToolEvent\<lparr>op_tool_event := Some v6\<rparr>) = Inr (p\<lparr>ToolEvents := fmupd (te_key v6) v6 (ToolEvents p)\<rparr>)"
  by (simp_all add: applyOperation_def operation_of_def deref_def)

lemmas entity_laws = validate_remove_op remove_kinds_def operation_validate_upsert
  apply_entity_remove apply_entity_upsert

interpretation panes: entity_map Panes "\<lambda>m p. p\<lparr>Panes := m\<rparr>" "remove_op RemovePane"
  "\<lambda>v. operation_of UpsertPane\<lparr>op_pane := Some v\<rparr>" p_key
  by unfold_locales (simp_all add: entity_laws)

interpretation windows: entity_map Windows "\<lambda>m p. p\<lparr>Windows := m\<rparr>" "remove_op RemoveWindow"
  "\<lambda>v. operation_of UpsertWindow\<lparr>op_window := Some v\<rparr>" w_key
  by unfold_locales (simp_all add: entity_laws)

interpretation sessions: entity_map Sessions "\<lambda>m p. p\<lparr>Sessions := m\<rparr>" "remove_op RemoveSession"
  "\<lambda>v. operation_of UpsertSession\<lparr>op_session := Some v\<rparr>" s_key
  by unfold_locales (simp_all add: entity_laws)

interpretation hosts: entity_map Hosts "\<lambda>m p. p\<lparr>Hosts := m\<rparr>" "remove_op RemoveHost"
  "\<lambda>v. operation_of UpsertHost\<lparr>op_host := Some v\<rparr>" h_key
  by unfold_locales (simp_all add: entity_laws)

subsection \<open>Well-formed projections\<close>

text \<open>
  \<open>linked p\<close>: every entity is stored under its own key, which is not blank, and every
  session, window and pane refers to a host, session or window that is present.
\<close>

definition own_keys :: "('v \<Rightarrow> 't key) \<Rightarrow> ('t key, 'v) fmap \<Rightarrow> bool" where
  "own_keys key_of m = (\<forall>k v. fmlookup m k = Some v \<longrightarrow> key_of v = k \<and> \<not> blank (key_string k))"

definition linked :: "projection \<Rightarrow> bool" where
  "linked p =
     (own_keys h_key (Hosts p) \<and> own_keys s_key (Sessions p) \<and> own_keys w_key (Windows p) \<and>
      own_keys p_key (Panes p) \<and>
      (\<forall>k s. fmlookup (Sessions p) k = Some s \<longrightarrow> go_has (Hosts p) (s_host_key s)) \<and>
      (\<forall>k w. fmlookup (Windows p) k = Some w \<longrightarrow> go_has (Sessions p) (w_session_key w)) \<and>
      (\<forall>k q. fmlookup (Panes p) k = Some q \<longrightarrow> go_has (Windows p) (p_window_key q)))"

lemma own_keys_upd:
  "own_keys f m \<Longrightarrow> f v = k \<Longrightarrow> \<not> blank (key_string k) \<Longrightarrow> own_keys f (fmupd k v m)"
  by (auto simp: own_keys_def)

lemma own_keys_empty [simp]: "own_keys f fmempty"
  by (simp add: own_keys_def)

lemma linked_New [simp]: "linked NewProjection"
  by (simp add: linked_def NewProjection_def)

lemma foldl_preserves:
  "(\<And>a x. P a \<Longrightarrow> P (f a x)) \<Longrightarrow> P a \<Longrightarrow> P (foldl f a xs)"
  by (induction xs arbitrary: a) auto

lemma project_pane_linked:
  "linked p \<and> go_has (Windows p) (NewWindowKey h s w) \<Longrightarrow>
   linked (project_pane h s w p t) \<and> go_has (Windows (project_pane h s w p t)) (NewWindowKey h s w)"
  by (auto simp: project_pane_def Let_def linked_def new_keys_not_blank intro!: own_keys_upd
      split: option.splits)

lemma project_pane_sessions [simp]:
  "Sessions (project_pane h s w p t) = Sessions p" "Hosts (project_pane h s w p t) = Hosts p"
  by (auto simp: project_pane_def Let_def split: option.splits)

lemma project_window_linked:
  assumes "linked p \<and> go_has (Sessions p) (NewSessionKey h s)"
  shows "linked (project_window h s p w) \<and> go_has (Sessions (project_window h s p w)) (NewSessionKey h s)"
proof (cases w)
  case (Some t)
  let ?p1 = "p\<lparr>Windows := fmupd (NewWindowKey h s (tw_id t))
    \<lparr>w_key = NewWindowKey h s (tw_id t), w_session_key = NewSessionKey h s, w_tmux_id = tw_id t,
     w_name = tw_name t, w_index = tw_index t, w_active = tw_active t, w_layout = tw_layout t\<rparr> (Windows p)\<rparr>"
  let ?inv = "\<lambda>q. (linked q \<and> go_has (Windows q) (NewWindowKey h s (tw_id t))) \<and> go_has (Sessions q) (NewSessionKey h s)"
  have "?inv ?p1"
    using assms by (auto simp: linked_def new_keys_not_blank intro!: own_keys_upd)
  then have "?inv (foldl (project_pane h s (tw_id t)) ?p1 (tw_panes t))"
    by (rule foldl_preserves [rotated]) (use project_pane_linked in auto)
  with Some assms show ?thesis by (simp add: project_window_def Let_def)
qed (use assms in \<open>simp add: project_window_def\<close>)

lemma foldl_field: "(\<And>a x. g (f a x) = g a) \<Longrightarrow> g (foldl f a xs) = g a"
  by (induction xs arbitrary: a) auto

lemma project_window_hosts [simp]: "Hosts (project_window h s p w) = Hosts p"
  by (auto simp: project_window_def Let_def foldl_field [where g = Hosts] split: option.splits)

lemma project_session_linked:
  assumes "linked p \<and> go_has (Hosts p) (NewHostKey h)"
  shows "linked (project_session h p s) \<and> go_has (Hosts (project_session h p s)) (NewHostKey h)"
proof (cases s)
  case (Some t)
  let ?p1 = "p\<lparr>Sessions := fmupd (NewSessionKey h (ts_name t))
    \<lparr>s_key = NewSessionKey h (ts_name t), s_host_key = NewHostKey h, s_host_id = h, s_name = ts_name t,
     s_tmux_id = ts_id t, s_attached = ts_attached t, s_created = ts_created t,
     s_last_activity = ts_last_activity t\<rparr> (Sessions p)\<rparr>"
  let ?inv = "\<lambda>q. (linked q \<and> go_has (Sessions q) (NewSessionKey h (ts_name t))) \<and> go_has (Hosts q) (NewHostKey h)"
  have "?inv ?p1"
    using assms by (auto simp: linked_def new_keys_not_blank intro!: own_keys_upd)
  then have "?inv (foldl (project_window h (ts_name t)) ?p1 (ts_windows t))"
    by (rule foldl_preserves [rotated]) (use project_window_linked in auto)
  with Some assms show ?thesis by (simp add: project_session_def Let_def)
qed (use assms in \<open>simp add: project_session_def\<close>)

lemma project_host_linked: "linked p \<Longrightarrow> linked (project_host p source)"
proof -
  assume l: "linked p"
  let ?h = "hs_id source"
  let ?p1 = "p\<lparr>Hosts := fmupd (NewHostKey ?h)
    \<lparr>h_key = NewHostKey ?h, h_id = ?h, h_display_name = hs_display_name source,
     h_online = hs_online source, h_local = hs_local source, h_version = hs_version source,
     h_last_seen = 0\<rparr> (Hosts p)\<rparr>"
  let ?inv = "\<lambda>q. linked q \<and> go_has (Hosts q) (NewHostKey ?h)"
  have "?inv ?p1" using l by (auto simp: linked_def new_keys_not_blank intro!: own_keys_upd)
  then have "?inv (foldl (project_session ?h) ?p1 (hs_sessions source))"
    by (rule foldl_preserves [rotated]) (use project_session_linked in auto)
  then show ?thesis by (simp add: project_host_def Let_def)
qed

lemma project_hosts_linked: "project_hosts p hosts = Inr q \<Longrightarrow> linked p \<Longrightarrow> linked q"
  by (induction p hosts rule: project_hosts.induct) (auto simp: project_host_linked split: if_splits)

subsection \<open>Reconciliation\<close>

definition install :: "projection \<Rightarrow> projection \<Rightarrow> projection" where
  "install p q = p\<lparr>Panes := Panes q, Windows := Windows q, Sessions := Sessions q, Hosts := Hosts q\<rparr>"

lemma linked_install [simp]: "linked (install p q) = linked q"
  by (simp add: linked_def install_def)

lemma clone_entity_fields [simp]:
  "Hosts (cloneProjection p) = Hosts p" "Sessions (cloneProjection p) = Sessions p"
  "Windows (cloneProjection p) = Windows p" "Panes (cloneProjection p) = Panes p"
  by (simp_all add: cloneProjection_def)

lemma ReconcileHosts_installs:
  assumes r: "ReconcileHosts p hosts = Inr ops" and q: "project_hosts NewProjection hosts = Inr q"
    and l: "linked p"
  shows "apply_operations 0 p ops = Inr (install p q)"
proof -
  have lq: "linked q" using project_hosts_linked [OF q] by simp
  have own: "fmlookup m k = Some v \<Longrightarrow> own_keys f m \<Longrightarrow> f v = k"
    and nb: "go_has m k \<Longrightarrow> own_keys f m \<Longrightarrow> \<not> blank (key_string k)" for m f k v
    by (auto simp: own_keys_def go_has_def)
  let ?p1 = "p\<lparr>Panes := Panes q\<rparr>"
  let ?p2 = "?p1\<lparr>Windows := Windows q\<rparr>"
  let ?p3 = "?p2\<lparr>Sessions := Sessions q\<rparr>"
  note lk = l [unfolded linked_def] lq [unfolded linked_def]
  have 1: "\<And>i. apply_operations i p (appendMapDiff [] (Panes p) (Panes q) (remove_op RemovePane)
      (\<lambda>v. operation_of UpsertPane\<lparr>op_pane := Some v\<rparr>)) = Inr ?p1"
    by (rule panes.diff_installs) (use lk own [of "Panes q" _ _ p_key] nb [of "Panes p" _ p_key] in auto)
  have 2: "\<And>i. apply_operations i ?p1 (appendMapDiff [] (Windows p) (Windows q) (remove_op RemoveWindow)
      (\<lambda>v. operation_of UpsertWindow\<lparr>op_window := Some v\<rparr>)) = Inr ?p2"
    using windows.diff_installs [of ?p1 "Windows q"] lk own [of "Windows q" _ _ w_key] nb [of "Windows p" _ w_key]
    by auto
  have 3: "\<And>i. apply_operations i ?p2 (appendMapDiff [] (Sessions p) (Sessions q) (remove_op RemoveSession)
      (\<lambda>v. operation_of UpsertSession\<lparr>op_session := Some v\<rparr>)) = Inr ?p3"
    using sessions.diff_installs [of ?p2 "Sessions q"] lk own [of "Sessions q" _ _ s_key] nb [of "Sessions p" _ s_key]
    by auto
  have 4: "\<And>i. apply_operations i ?p3 (appendMapDiff [] (Hosts p) (Hosts q) (remove_op RemoveHost)
      (\<lambda>v. operation_of UpsertHost\<lparr>op_host := Some v\<rparr>)) = Inr (install p q)"
    using hosts.diff_installs [of ?p3 "Hosts q"] lk own [of "Hosts q" _ _ h_key] nb [of "Hosts p" _ h_key]
    by (auto simp: install_def)
  have "ops = appendMapDiff [] (Panes p) (Panes q) (remove_op RemovePane) (\<lambda>v. operation_of UpsertPane\<lparr>op_pane := Some v\<rparr>)
    @ appendMapDiff [] (Windows p) (Windows q) (remove_op RemoveWindow) (\<lambda>v. operation_of UpsertWindow\<lparr>op_window := Some v\<rparr>)
    @ appendMapDiff [] (Sessions p) (Sessions q) (remove_op RemoveSession) (\<lambda>v. operation_of UpsertSession\<lparr>op_session := Some v\<rparr>)
    @ appendMapDiff [] (Hosts p) (Hosts q) (remove_op RemoveHost) (\<lambda>v. operation_of UpsertHost\<lparr>op_host := Some v\<rparr>)"
    using r q by (auto simp add: ReconcileHosts_def Let_def appendMapDiff_def)
  with 1 2 3 4 show ?thesis by (simp add: apply_operations_append)
qed

lemma ReconcileHosts_error: "ReconcileHosts p hosts = Inl e \<longleftrightarrow> project_hosts NewProjection hosts = Inl e"
  by (auto simp: ReconcileHosts_def Let_def split: sum.splits)

lemma project_hosts_error:
  "(\<exists>e. project_hosts p hosts = Inl e) \<longleftrightarrow> (\<exists>h\<in>set hosts. hs_id h = [])"
  by (induction hosts arbitrary: p) auto

lemma project_hosts_deterministic:
  "\<forall>h\<in>set hosts. hs_id h \<noteq> [] \<Longrightarrow> \<exists>q. project_hosts p hosts = Inr q"
  using project_hosts_error [of p hosts] by (cases "project_hosts p hosts") auto

lemma ReconcileHosts_ok:
  "\<forall>h\<in>set hosts. hs_id h \<noteq> [] \<Longrightarrow> \<exists>q ops. project_hosts NewProjection hosts = Inr q \<and>
     ReconcileHosts p hosts = Inr ops"
  using project_hosts_deterministic [of hosts NewProjection]
  by (auto simp: ReconcileHosts_def Let_def)

lemma cloneProjection_install: "cloneProjection (install p q) = install (cloneProjection p) q"
  by (simp add: install_def cloneProjection_def)

lemma install_install [simp]: "install (install p q) q = install p q"
  by (simp add: install_def)

lemma ReconcileHosts_installed:
  assumes "project_hosts NewProjection hosts = Inr q"
  shows "ReconcileHosts (install p q) hosts = Inr []"
  using assms
  by (simp add: ReconcileHosts_def Let_def install_def panes.diff_same windows.diff_same
      sessions.diff_same hosts.diff_same)

lemma run_commit_nil:
  "co_projection (fst (run_commit c [])) = co_projection c \<and> co_revision (fst (run_commit c [])) = co_revision c \<and>
   fst (run_commit c []) = c"
  by (simp add: run_commit_def applyCommit_def Let_def)


subsection \<open>What ReplaceHosts leaves in the coordinator\<close>

lemma ReplaceHosts_state:
  assumes "clone_stable (co_projection c)" and "linked (co_projection c)"
    and q: "project_hosts NewProjection hosts = Inr q"
  shows "co_projection (fst (ReplaceHosts c hosts)) = install (co_projection c) q"
proof -
  have p: "sn_state (snapshot c) = co_projection c"
    using assms(1) by (simp add: snapshot_def clone_stable_def)
  obtain ops where r: "ReconcileHosts (co_projection c) hosts = Inr ops"
    using q by (auto simp: ReconcileHosts_def Let_def)
  obtain c' res err where run: "run_commit c ops = (c', res, err)" by (metis prod_cases3)
  from run_commit_cases [OF assms(1) run] ReconcileHosts_installs [OF r q assms(2)]
  have "co_projection c' = install (co_projection c) q" by simp
  with p r run show ?thesis by (simp add: ReplaceHosts_def)
qed

lemma ReplaceHosts_installed:
  assumes "clone_stable (co_projection c)" and "project_hosts NewProjection hosts = Inr q"
    and "co_projection c = install p q"
  shows "fst (ReplaceHosts c hosts) = c"
  using assms ReconcileHosts_installed [OF assms(2), of p]
  by (simp add: ReplaceHosts_def snapshot_def clone_stable_def run_commit_def applyCommit_def Let_def)

lemma install_stable: "clone_stable p \<Longrightarrow> clone_stable (install p q)"
  by (simp add: clone_stable_def cloneProjection_install)

definition fm_keys :: "('k, 'v) fmap \<Rightarrow> 'k set" where
  "fm_keys m = {k. go_has m k}"

lemma fm_keys_simps [simp]: "fm_keys fmempty = {}" "fm_keys (fmupd k v m) = insert k (fm_keys m)"
  by (auto simp: fm_keys_def)

lemma foldl_keys:
  "(\<And>p x. x \<in> set xs \<Longrightarrow> g (f p x) = g p \<union> K x) \<Longrightarrow> g (foldl f p xs) = g p \<union> (\<Union>x\<in>set xs. K x)"
proof (induction xs arbitrary: p)
  case (Cons x xs)
  have "g (foldl f (f p x) xs) = g (f p x) \<union> (\<Union>x\<in>set xs. K x)"
    by (rule Cons.IH) (simp add: Cons.prems)
  with Cons.prems [of x p] show ?case by auto
qed simp

definition named :: "'a option \<Rightarrow> ('a \<Rightarrow> string) \<Rightarrow> ('a \<Rightarrow> 'b set) \<Rightarrow> 'b set" where
  "named x name K = (case x of None \<Rightarrow> {} | Some t \<Rightarrow> if name t = [] then {} else K t)"

lemma in_named: "k \<in> named x name K \<longleftrightarrow> (\<exists>t. x = Some t \<and> name t \<noteq> [] \<and> k \<in> K t)"
  by (auto simp: named_def split: option.splits)

lemma pane_keys:
  "fm_keys (Panes (project_pane h s w p x)) =
     fm_keys (Panes p) \<union> named x tp_id (\<lambda>t. {NewPaneKey h s w (tp_id t)})"
  "Windows (project_pane h s w p x) = Windows p"
  by (auto simp: project_pane_def Let_def named_def split: option.splits)

lemma window_keys:
  "fm_keys (Panes (project_window h s p x)) = fm_keys (Panes p) \<union>
     named x tw_id (\<lambda>w. \<Union>y\<in>set (tw_panes w). named y tp_id (\<lambda>t. {NewPaneKey h s (tw_id w) (tp_id t)}))"
  "fm_keys (Windows (project_window h s p x)) = fm_keys (Windows p) \<union> named x tw_id (\<lambda>w. {NewWindowKey h s (tw_id w)})"
  "Sessions (project_window h s p x) = Sessions p"
proof -
  show "fm_keys (Panes (project_window h s p x)) = fm_keys (Panes p) \<union>
     named x tw_id (\<lambda>w. \<Union>y\<in>set (tw_panes w). named y tp_id (\<lambda>t. {NewPaneKey h s (tw_id w) (tp_id t)}))"
    by (cases x) (simp_all add: project_window_def named_def Let_def pane_keys(1) [unfolded named_def]
        foldl_keys [where g = "\<lambda>p. fm_keys (Panes p)"
          and K = "\<lambda>x. case x of None \<Rightarrow> {} | Some t \<Rightarrow> if tp_id t = [] then {} else {NewPaneKey h s (tw_id w) (tp_id t)}" for w])
qed (auto simp: project_window_def Let_def named_def foldl_field [where g = Windows]
    foldl_field [where g = Sessions] pane_keys split: option.splits)

abbreviation panes_of where
  "panes_of h s w \<equiv> \<Union>y\<in>set (tw_panes w). named y tp_id (\<lambda>t. {NewPaneKey h s (tw_id w) (tp_id t)})"

lemma session_keys:
  "fm_keys (Panes (project_session h p x)) = fm_keys (Panes p) \<union>
     named x ts_name (\<lambda>s. \<Union>w\<in>set (ts_windows s). named w tw_id (\<lambda>w. panes_of h (ts_name s) w))"
  "fm_keys (Windows (project_session h p x)) = fm_keys (Windows p) \<union>
     named x ts_name (\<lambda>s. \<Union>w\<in>set (ts_windows s). named w tw_id (\<lambda>w. {NewWindowKey h (ts_name s) (tw_id w)}))"
  "fm_keys (Sessions (project_session h p x)) = fm_keys (Sessions p) \<union> named x ts_name (\<lambda>s. {NewSessionKey h (ts_name s)})"
  "Hosts (project_session h p x) = Hosts p"
proof -
  have f: "fm_keys (Panes (foldl (project_window h s) p ws)) = fm_keys (Panes p) \<union>
      (\<Union>w\<in>set ws. named w tw_id (\<lambda>w. panes_of h s w))"
    "fm_keys (Windows (foldl (project_window h s) p ws)) = fm_keys (Windows p) \<union>
      (\<Union>w\<in>set ws. named w tw_id (\<lambda>w. {NewWindowKey h s (tw_id w)}))" for s p ws
    by (rule foldl_keys, rule window_keys)+
  show "fm_keys (Panes (project_session h p x)) = fm_keys (Panes p) \<union>
     named x ts_name (\<lambda>s. \<Union>w\<in>set (ts_windows s). named w tw_id (\<lambda>w. panes_of h (ts_name s) w))"
    by (cases x) (simp_all add: project_session_def named_def [of x] named_def [of None] Let_def f named_def [of "Some s" for s])
  show "fm_keys (Windows (project_session h p x)) = fm_keys (Windows p) \<union>
     named x ts_name (\<lambda>s. \<Union>w\<in>set (ts_windows s). named w tw_id (\<lambda>w. {NewWindowKey h (ts_name s) (tw_id w)}))"
    by (cases x) (simp_all add: project_session_def named_def [of x] named_def [of None] Let_def f named_def [of "Some s" for s])
qed (auto simp: project_session_def Let_def named_def foldl_field [where g = Sessions]
    foldl_field [where g = Hosts] window_keys split: option.splits)

lemma host_keys:
  "fm_keys (Panes (project_host p h)) = fm_keys (Panes p) \<union>
     (\<Union>s\<in>set (hs_sessions h). named s ts_name (\<lambda>s. \<Union>w\<in>set (ts_windows s).
        named w tw_id (\<lambda>w. panes_of (hs_id h) (ts_name s) w)))"
  "fm_keys (Windows (project_host p h)) = fm_keys (Windows p) \<union>
     (\<Union>s\<in>set (hs_sessions h). named s ts_name (\<lambda>s. \<Union>w\<in>set (ts_windows s).
        named w tw_id (\<lambda>w. {NewWindowKey (hs_id h) (ts_name s) (tw_id w)})))"
  "fm_keys (Sessions (project_host p h)) = fm_keys (Sessions p) \<union>
     (\<Union>s\<in>set (hs_sessions h). named s ts_name (\<lambda>s. {NewSessionKey (hs_id h) (ts_name s)}))"
  "fm_keys (Hosts (project_host p h)) = insert (NewHostKey (hs_id h)) (fm_keys (Hosts p))"
proof -
  have f: "fm_keys (Panes (foldl (project_session i) p ss)) = fm_keys (Panes p) \<union>
     (\<Union>s\<in>set ss. named s ts_name (\<lambda>s. \<Union>w\<in>set (ts_windows s).
        named w tw_id (\<lambda>w. panes_of i (ts_name s) w)))"
    "fm_keys (Windows (foldl (project_session i) p ss)) = fm_keys (Windows p) \<union>
     (\<Union>s\<in>set ss. named s ts_name (\<lambda>s. \<Union>w\<in>set (ts_windows s).
        named w tw_id (\<lambda>w. {NewWindowKey i (ts_name s) (tw_id w)})))"
    "fm_keys (Sessions (foldl (project_session i) p ss)) = fm_keys (Sessions p) \<union>
     (\<Union>s\<in>set ss. named s ts_name (\<lambda>s. {NewSessionKey i (ts_name s)}))" for i p ss
    by (rule foldl_keys, rule session_keys)+
  show "fm_keys (Panes (project_host p h)) = fm_keys (Panes p) \<union>
     (\<Union>s\<in>set (hs_sessions h). named s ts_name (\<lambda>s. \<Union>w\<in>set (ts_windows s).
        named w tw_id (\<lambda>w. panes_of (hs_id h) (ts_name s) w)))"
    "fm_keys (Windows (project_host p h)) = fm_keys (Windows p) \<union>
     (\<Union>s\<in>set (hs_sessions h). named s ts_name (\<lambda>s. \<Union>w\<in>set (ts_windows s).
        named w tw_id (\<lambda>w. {NewWindowKey (hs_id h) (ts_name s) (tw_id w)})))"
    "fm_keys (Sessions (project_host p h)) = fm_keys (Sessions p) \<union>
     (\<Union>s\<in>set (hs_sessions h). named s ts_name (\<lambda>s. {NewSessionKey (hs_id h) (ts_name s)}))"
    by (simp_all add: project_host_def Let_def f)
  show "fm_keys (Hosts (project_host p h)) = insert (NewHostKey (hs_id h)) (fm_keys (Hosts p))"
    by (simp add: project_host_def Let_def foldl_field [where g = Hosts] session_keys)
qed

lemma project_hosts_foldl: "project_hosts p hs = Inr q \<Longrightarrow> q = foldl project_host p hs"
  by (induction p hs rule: project_hosts.induct) (auto split: if_splits)

lemma project_hosts_keys:
  assumes "project_hosts NewProjection hosts = Inr q"
  shows "fm_keys (Hosts q) = (\<lambda>h. NewHostKey (hs_id h)) ` set hosts"
    and "k \<in> fm_keys (Sessions q) \<longleftrightarrow> (\<exists>h\<in>set hosts. \<exists>s. Some s \<in> set (hs_sessions h) \<and> ts_name s \<noteq> [] \<and>
       k = NewSessionKey (hs_id h) (ts_name s))"
    and "kp \<in> fm_keys (Panes q) \<longleftrightarrow> (\<exists>h\<in>set hosts. \<exists>s w t. Some s \<in> set (hs_sessions h) \<and> ts_name s \<noteq> [] \<and>
       Some w \<in> set (ts_windows s) \<and> tw_id w \<noteq> [] \<and> Some t \<in> set (tw_panes w) \<and> tp_id t \<noteq> [] \<and>
       kp = NewPaneKey (hs_id h) (ts_name s) (tw_id w) (tp_id t))"
proof -
  have q: "q = foldl project_host NewProjection hosts" by (rule project_hosts_foldl) (rule assms)
  have e: "fm_keys (Hosts NewProjection) = {}" "fm_keys (Sessions NewProjection) = {}"
    "fm_keys (Panes NewProjection) = {}" by (simp_all add: NewProjection_def)
  have "fm_keys (Hosts q) = fm_keys (Hosts NewProjection) \<union> (\<Union>h\<in>set hosts. {NewHostKey (hs_id h)})"
    unfolding q by (rule foldl_keys) (simp add: host_keys)
  with e show "fm_keys (Hosts q) = (\<lambda>h. NewHostKey (hs_id h)) ` set hosts" by auto
  have "fm_keys (Sessions q) = fm_keys (Sessions NewProjection) \<union> (\<Union>h\<in>set hosts.
     (\<Union>s\<in>set (hs_sessions h). named s ts_name (\<lambda>s. {NewSessionKey (hs_id h) (ts_name s)})))"
    unfolding q by (rule foldl_keys) (rule host_keys)
  with e show "k \<in> fm_keys (Sessions q) \<longleftrightarrow> (\<exists>h\<in>set hosts. \<exists>s. Some s \<in> set (hs_sessions h) \<and> ts_name s \<noteq> [] \<and>
       k = NewSessionKey (hs_id h) (ts_name s))"
    by (auto simp: in_named)
  have "fm_keys (Panes q) = fm_keys (Panes NewProjection) \<union> (\<Union>h\<in>set hosts.
     (\<Union>s\<in>set (hs_sessions h). named s ts_name (\<lambda>s. \<Union>w\<in>set (ts_windows s).
        named w tw_id (\<lambda>w. panes_of (hs_id h) (ts_name s) w))))"
    unfolding q by (rule foldl_keys) (rule host_keys)
  with e show "kp \<in> fm_keys (Panes q) \<longleftrightarrow> (\<exists>h\<in>set hosts. \<exists>s w t. Some s \<in> set (hs_sessions h) \<and> ts_name s \<noteq> [] \<and>
       Some w \<in> set (ts_windows s) \<and> tw_id w \<noteq> [] \<and> Some t \<in> set (tw_panes w) \<and> tp_id t \<noteq> [] \<and>
       kp = NewPaneKey (hs_id h) (ts_name s) (tw_id w) (tp_id t))"
    by (fastforce simp: in_named)
qed


definition demo_snapshot :: "string \<Rightarrow> HostSnapshot" where
  "demo_snapshot h = \<lparr>hs_id = h, hs_display_name = h, hs_online = True, hs_local = False, hs_version = ''1'',
     hs_sessions = [None, Some \<lparr>ts_id = ''$1'', ts_name = ''main'', ts_host = h, ts_host_name = h,
       ts_host_online = True, ts_windows = [], ts_created = 0, ts_attached = True, ts_last_activity = 0\<rparr>]\<rparr>"


text \<open>
  \<open>ReplaceHosts\<close> fails exactly when some host has no identifier, and then the
  coordinator is untouched: no partial tree is ever committed.
\<close>

theorem replace_hosts_rejects:
  "if \<exists>h\<in>set hosts. hs_id h = []
   then ReplaceHosts c hosts = (c, Inl HostIDRequired)
   else \<exists>result err. snd (ReplaceHosts c hosts) = Inr (result, err)"
proof (cases "project_hosts NewProjection hosts")
  case (Inl e)
  then have "ReconcileHosts (sn_state (snapshot c)) hosts = Inl e" by (simp add: ReconcileHosts_error)
  moreover have "\<exists>h\<in>set hosts. hs_id h = []" using Inl project_hosts_error by blast
  ultimately show ?thesis by (cases e) (simp add: ReplaceHosts_def)
next
  case (Inr q)
  then obtain ops where "ReconcileHosts (sn_state (snapshot c)) hosts = Inr ops"
    by (auto simp: ReconcileHosts_def Let_def)
  moreover have "\<not> (\<exists>h\<in>set hosts. hs_id h = [])" using Inr project_hosts_error by (metis sum.distinct(1))
  ultimately show ?thesis by (auto simp: ReplaceHosts_def split: prod.splits)
qed

end
