(* ===== verification/Fanout.thy ===== *)
theory Fanout
  imports Prelude "HOL-Library.Sublist"
begin

text \<open>
  The subscriber list shared by the tool-event tracker, the session manager and the peer
  manager: a slice of buffered channels, a broadcast that never blocks and drops the event
  for a full channel, and an unsubscribe that removes the first match and closes it.
  A channel is identified by a number where Go compares the channel values; a channel
  that was removed keeps its buffer for its reader.  The theory proves what a reader can
  rely on: what it has received and what is buffered is a subsequence, in order, of what
  was broadcast since it subscribed.
\<close>

record 'e fan_chan =
  fc_id :: nat
  fc_cap :: nat
  fc_buf :: "'e list"
  fc_closed :: bool

record 'e fanout =
  fan_next :: nat
  fan_subs :: "'e fan_chan list"
  fan_gone :: "'e fan_chan list"

definition fan_init :: "'e fanout" where
  "fan_init = \<lparr>fan_next = 0, fan_subs = [], fan_gone = []\<rparr>"

definition fan_subscribe :: "nat \<Rightarrow> 'e fanout \<Rightarrow> 'e fanout \<times> nat" where
  "fan_subscribe cap f =
     (f\<lparr>fan_next := Suc (fan_next f),
        fan_subs := fan_subs f @ [\<lparr>fc_id = fan_next f, fc_cap = cap, fc_buf = [], fc_closed = False\<rparr>]\<rparr>,
      fan_next f)"

definition fan_unsubscribe :: "nat \<Rightarrow> 'e fanout \<Rightarrow> 'e fanout" where
  "fan_unsubscribe i f =
     (case find (\<lambda>ch. fc_id ch = i) (fan_subs f) of
        None \<Rightarrow> f
      | Some ch \<Rightarrow> f\<lparr>fan_subs := remove_first (\<lambda>ch. fc_id ch = i) (fan_subs f),
                     fan_gone := ch\<lparr>fc_closed := True\<rparr> # fan_gone f\<rparr>)"

definition fan_send :: "'e \<Rightarrow> 'e fan_chan \<Rightarrow> 'e fan_chan" where
  "fan_send e ch = (if length (fc_buf ch) < fc_cap ch then ch\<lparr>fc_buf := fc_buf ch @ [e]\<rparr> else ch)"

definition fan_broadcast :: "'e \<Rightarrow> 'e fanout \<Rightarrow> 'e fanout" where
  "fan_broadcast e f = f\<lparr>fan_subs := map (fan_send e) (fan_subs f)\<rparr>"

text \<open>The reader of channel \<open>i\<close> takes the oldest buffered event.\<close>

definition fan_pop :: "nat \<Rightarrow> 'e fan_chan \<Rightarrow> 'e fan_chan" where
  "fan_pop i ch = (if fc_id ch = i then ch\<lparr>fc_buf := tl (fc_buf ch)\<rparr> else ch)"

definition fan_receive :: "nat \<Rightarrow> 'e fanout \<Rightarrow> 'e fanout" where
  "fan_receive i f = f\<lparr>fan_subs := map (fan_pop i) (fan_subs f), fan_gone := map (fan_pop i) (fan_gone f)\<rparr>"

definition fan_find :: "nat \<Rightarrow> 'e fanout \<Rightarrow> 'e fan_chan option" where
  "fan_find i f = find (\<lambda>ch. fc_id ch = i) (fan_subs f)"

datatype 'e fan_event = FanSubscribe nat | FanUnsubscribe nat | FanBroadcast 'e | FanReceive nat

fun fan_step :: "'e fanout \<Rightarrow> 'e fan_event \<Rightarrow> 'e fanout" where
  "fan_step f (FanSubscribe cap) = fst (fan_subscribe cap f)"
| "fan_step f (FanUnsubscribe i) = fan_unsubscribe i f"
| "fan_step f (FanBroadcast e) = fan_broadcast e f"
| "fan_step f (FanReceive i) = fan_receive i f"

definition fan_inv :: "'e fanout \<Rightarrow> bool" where
  "fan_inv f =
     (distinct (map fc_id (fan_subs f @ fan_gone f)) \<and>
      (\<forall>ch\<in>set (fan_subs f @ fan_gone f). fc_id ch < fan_next f \<and> length (fc_buf ch) \<le> fc_cap ch) \<and>
      (\<forall>ch\<in>set (fan_subs f). \<not> fc_closed ch) \<and> (\<forall>ch\<in>set (fan_gone f). fc_closed ch))"

lemma fan_send_fields [simp]:
  "fc_id (fan_send e ch) = fc_id ch" "fc_cap (fan_send e ch) = fc_cap ch"
  "fc_closed (fan_send e ch) = fc_closed ch"
  by (simp_all add: fan_send_def)

lemma fan_pop_fields [simp]:
  "fc_id (fan_pop i ch) = fc_id ch" "fc_cap (fan_pop i ch) = fc_cap ch"
  "fc_closed (fan_pop i ch) = fc_closed ch"
  by (simp_all add: fan_pop_def)

lemma fan_ids [simp]:
  "fc_id \<circ> fan_send e = fc_id" "fc_id \<circ> fan_pop i = fc_id"
  "(\<lambda>ch. fc_id (fan_pop i ch)) = fc_id" "(\<lambda>ch. fc_id (fan_send e ch)) = fc_id"
  by auto

lemma fan_bounds:
  "length (fc_buf ch) \<le> fc_cap ch \<Longrightarrow> length (fc_buf (fan_pop i ch)) \<le> fc_cap ch"
  "length (fc_buf ch) \<le> fc_cap ch \<Longrightarrow> length (fc_buf (fan_send e ch)) \<le> fc_cap ch"
  by (auto simp: fan_pop_def fan_send_def)

lemma distinct_split_first:
  "\<lbrakk>distinct (map fc_id (xs @ gs)); find (\<lambda>ch. fc_id ch = i) xs = Some ch\<rbrakk>
     \<Longrightarrow> distinct (map fc_id (remove_first (\<lambda>ch. fc_id ch = i) xs @ ch\<lparr>fc_closed := c\<rparr> # gs))"
proof -
  assume d: "distinct (map fc_id (xs @ gs))" and f: "find (\<lambda>ch. fc_id ch = i) xs = Some ch"
  from find_SomeD [OF f] have ch: "ch \<in> set xs" "fc_id ch = i" by auto
  from d have "distinct (map fc_id xs)" by simp
  then have "remove_first (\<lambda>ch. fc_id ch = i) xs = filter (\<lambda>ch. fc_id ch \<noteq> i) xs"
    by (rule remove_first_filter)
  with d ch show ?thesis by (auto simp: distinct_map_filter intro: image_eqI)
qed

lemma fan_unsubscribe_inv: "fan_inv f \<Longrightarrow> fan_inv (fan_unsubscribe i f)"
proof (cases "find (\<lambda>ch. fc_id ch = i) (fan_subs f)")
  case (Some ch)
  assume i: "fan_inv f"
  note s = remove_first_subset [of "\<lambda>ch. fc_id ch = i" "fan_subs f"]
  from i have "distinct (map fc_id (fan_subs f @ fan_gone f))" by (simp add: fan_inv_def)
  from distinct_split_first [OF this Some] i find_SomeD [OF Some] s Some
  show ?thesis by (auto simp: fan_inv_def fan_unsubscribe_def)
qed (simp add: fan_unsubscribe_def)

lemma fan_map_inv:
  assumes "fan_inv f" and "\<And>ch. fc_id (g ch) = fc_id ch \<and> fc_cap (g ch) = fc_cap ch \<and> fc_closed (g ch) = fc_closed ch"
    and "\<And>ch. length (fc_buf ch) \<le> fc_cap ch \<Longrightarrow> length (fc_buf (g ch)) \<le> fc_cap ch"
  shows "fan_inv (f\<lparr>fan_subs := map g (fan_subs f)\<rparr>)"
    and "fan_inv (f\<lparr>fan_subs := map g (fan_subs f), fan_gone := map g (fan_gone f)\<rparr>)"
proof -
  have "fc_id \<circ> g = fc_id" using assms(2) by auto
  moreover have "fc_id ` g ` X = fc_id ` X" for X
    using assms(2) by (simp add: image_image)
  ultimately show "fan_inv (f\<lparr>fan_subs := map g (fan_subs f)\<rparr>)"
    "fan_inv (f\<lparr>fan_subs := map g (fan_subs f), fan_gone := map g (fan_gone f)\<rparr>)"
    using assms by (simp_all add: fan_inv_def ball_Un)
qed

lemma fan_subscribe_inv: "fan_inv f \<Longrightarrow> fan_inv (fst (fan_subscribe cap f))"
  by (auto simp: fan_inv_def fan_subscribe_def ball_Un intro: less_SucI)

lemma fan_step_inv: "fan_inv f \<Longrightarrow> fan_inv (fan_step f e)"
  by (cases e) (simp_all add: fan_subscribe_inv fan_unsubscribe_inv fan_broadcast_def fan_receive_def
      fan_map_inv fan_bounds)

interpretation fan: component "fan_init :: 'e fanout" fan_step fan_inv
  by unfold_locales (simp add: fan_init_def fan_inv_def, rule fan_step_inv)

subsection \<open>What a reader sees\<close>

text \<open>The events broadcast, and what channel \<open>i\<close> delivered, in a history.\<close>

fun fan_sent :: "'e fan_event list \<Rightarrow> 'e list" where
  "fan_sent [] = []"
| "fan_sent (FanBroadcast e # h) = e # fan_sent h"
| "fan_sent (_ # h) = fan_sent h"

definition fan_buffer :: "nat \<Rightarrow> 'e fanout \<Rightarrow> 'e list" where
  "fan_buffer i f = (case fan_find i f of None \<Rightarrow> [] | Some ch \<Rightarrow> fc_buf ch)"

lemma find_map_id:
  "(\<And>ch. fc_id (g ch) = fc_id ch) \<Longrightarrow>
     find (\<lambda>ch. fc_id ch = i) (map g chs) = map_option g (find (\<lambda>ch. fc_id ch = i) chs)"
  by (induction chs) auto

lemma find_remove_first:
  "distinct (map fc_id chs) \<Longrightarrow>
     find (\<lambda>ch. fc_id ch = i) (remove_first (\<lambda>ch. fc_id ch = j) chs) =
       (if i = j then None else find (\<lambda>ch. fc_id ch = i) chs)"
  by (simp add: remove_first_filter) (induction chs, auto)

lemma find_snoc:
  "find P (chs @ [x]) = (case find P chs of None \<Rightarrow> if P x then Some x else None | Some c \<Rightarrow> Some c)"
  by (induction chs) auto

text \<open>What one step hands to the reader of \<open>i\<close>.\<close>

definition fan_out :: "nat \<Rightarrow> 'e fanout \<Rightarrow> 'e fan_event \<Rightarrow> 'e list" where
  "fan_out i f e = (case e of FanReceive j \<Rightarrow> if i = j then take 1 (fan_buffer i f) else [] | _ \<Rightarrow> [])"

lemma take_1_tl: "take (Suc 0) xs @ tl xs = xs"
  by (cases xs) simp_all

lemma fan_step_buffer:
  assumes "fan_inv f"
  shows "subseq (fan_out i f e @ fan_buffer i (fan_step f e)) (fan_buffer i f @ fan_sent [e])"
proof -
  have d: "distinct (map fc_id (fan_subs f))" using assms by (simp add: fan_inv_def)
  show ?thesis
  proof (cases e)
    case (FanReceive j)
    then show ?thesis
      by (cases "find (\<lambda>ch. fc_id ch = i) (fan_subs f)")
        (auto simp: fan_out_def fan_buffer_def fan_find_def fan_receive_def find_map_id fan_pop_def
          take_1_tl dest: find_SomeD)
  qed (auto simp: fan_out_def fan_buffer_def fan_find_def fan_subscribe_def fan_unsubscribe_def
      fan_broadcast_def find_snoc find_remove_first d find_map_id fan_send_def split: option.splits)
qed

fun fan_got :: "nat \<Rightarrow> 'e fanout \<Rightarrow> 'e fan_event list \<Rightarrow> 'e list" where
  "fan_got i f [] = []"
| "fan_got i f (e # h) = fan_out i f e @ fan_got i (fan_step f e) h"

lemma fan_sent_Cons: "fan_sent (e # h) = fan_sent [e] @ fan_sent h"
  by (cases e) simp_all

lemma fan_reads_from:
  "fan_inv f \<Longrightarrow> subseq (fan_got i f h @ fan_buffer i (foldl fan_step f h)) (fan_buffer i f @ fan_sent h)"
proof (induction h arbitrary: f)
  case (Cons e h)
  have "subseq (fan_got i (fan_step f e) h @ fan_buffer i (foldl fan_step (fan_step f e) h))
    (fan_buffer i (fan_step f e) @ fan_sent h)"
    by (rule Cons.IH) (rule fan_step_inv, rule Cons.prems)
  then have "subseq (fan_out i f e @ fan_got i (fan_step f e) h @ fan_buffer i (foldl fan_step (fan_step f e) h))
    (fan_out i f e @ fan_buffer i (fan_step f e) @ fan_sent h)"
    by (simp add: subseq_append')
  moreover have "subseq ((fan_out i f e @ fan_buffer i (fan_step f e)) @ fan_sent h)
    ((fan_buffer i f @ fan_sent [e]) @ fan_sent h)"
    by (rule list_emb_append_mono [OF fan_step_buffer [OF Cons.prems]]) simp
  ultimately show ?case
    unfolding fan_sent_Cons [of e h] by (simp add: subseq_order.trans)
qed simp

text \<open>
  Subscribers see an ordered subsequence.  In every history of subscribe, unsubscribe,
  broadcast and receive steps, what a reader received followed by what is still buffered
  is a subsequence of the broadcast events: events may be dropped, but none is
  reordered, duplicated or made up.
\<close>

theorem fanout_subsequence:
  "subseq (fan_got i fan_init h @ fan_buffer i (foldl fan_step fan_init h)) (fan_sent h)"
  using fan_reads_from [OF fan.init_inv, of i h]
  by (simp add: fan_buffer_def fan_find_def fan_init_def)

end
