(* ===== verification/ToolTracker.thy ===== *)
theory ToolTracker
  imports Fanout GoText "HOL-Library.Product_Lexorder"
begin

text \<open>
  The tool-event service (\<open>pkg/toolevents\<close>): the tracker of the latest status per pane
  (\<open>tracker.go\<close>), the reconciler that clears events of dead agents (\<open>reconciler.go\<close>), the
  passive detector (\<open>detector.go\<close>) and the silence monitor (\<open>silence.go\<close>).  The results of
  tmux, the process table and the clock are arguments; logging is left out.  Where Go
  ranges over a map the model visits the keys in order, which fixes the order of the
  broadcasts only.
\<close>

subsection \<open>Events and panes\<close>

record Event =
  ev_tool :: string
  ev_status :: string
  ev_host :: string
  ev_host_name :: string
  ev_session :: string
  ev_window :: int
  ev_pane :: string
  ev_message :: string
  ev_timestamp :: time
  ev_auto_detected :: bool

definition ToolClaude :: string where "ToolClaude = ''claude''"
definition ToolCodex :: string where "ToolCodex = ''codex''"
definition ToolCopilot :: string where "ToolCopilot = ''copilot''"
definition ToolOpenCode :: string where "ToolOpenCode = ''opencode''"
definition StatusActive :: string where "StatusActive = ''active''"
definition StatusWaiting :: string where "StatusWaiting = ''waiting''"
definition StatusCompleted :: string where "StatusCompleted = ''completed''"
definition StatusError :: string where "StatusError = ''error''"

lemmas status_defs = StatusActive_def StatusWaiting_def StatusCompleted_def StatusError_def
lemmas tool_defs = ToolClaude_def ToolCodex_def ToolCopilot_def ToolOpenCode_def

datatype pane_ref = PaneRef (pr_host: string) (pr_session: string) (pr_window: int) (pr_pane: string)

definition pane_tuple :: "pane_ref \<Rightarrow> string \<times> string \<times> int \<times> string" where
  "pane_tuple k = (pr_host k, pr_session k, pr_window k, pr_pane k)"

instantiation pane_ref :: linorder
begin

definition less_eq_pane_ref :: "pane_ref \<Rightarrow> pane_ref \<Rightarrow> bool" where
  "less_eq_pane_ref a b = (pane_tuple a \<le> pane_tuple b)"

definition less_pane_ref :: "pane_ref \<Rightarrow> pane_ref \<Rightarrow> bool" where
  "less_pane_ref a b = (pane_tuple a < pane_tuple b)"

instance
proof
  fix a b c :: pane_ref
  show "a < b \<longleftrightarrow> a \<le> b \<and> \<not> b \<le> a" by (simp add: less_eq_pane_ref_def less_pane_ref_def less_le_not_le)
  show "a \<le> a" by (simp add: less_eq_pane_ref_def)
  show "a \<le> b \<Longrightarrow> b \<le> c \<Longrightarrow> a \<le> c" by (auto simp: less_eq_pane_ref_def intro: order_trans)
  show "a \<le> b \<Longrightarrow> b \<le> a \<Longrightarrow> a = b"
    by (cases a; cases b) (auto simp: less_eq_pane_ref_def pane_tuple_def dest: antisym)
  show "a \<le> b \<or> b \<le> a" by (simp add: less_eq_pane_ref_def linear)
qed

end

definition event_pane :: "Event \<Rightarrow> pane_ref" where
  "event_pane e = PaneRef (ev_host e) (ev_session e) (ev_window e) (ev_pane e)"

definition nativeWaitingTools :: "string \<Rightarrow> bool" where
  "nativeWaitingTools t = (t = ToolClaude \<or> t = ToolOpenCode)"

subsection \<open>The tracker\<close>

record tracker =
  tk_events :: "(pane_ref, Event) fmap"
  tk_lastActive :: "(pane_ref, Event) fmap"
  tk_subs :: "Event fanout"

definition NewTracker :: tracker where
  "NewTracker = \<lparr>tk_events = fmempty, tk_lastActive = fmempty, tk_subs = fan_init\<rparr>"

definition tracker_record :: "time \<Rightarrow> Event \<Rightarrow> tracker \<Rightarrow> tracker" where
  "tracker_record now evt t =
     (let evt = evt\<lparr>ev_timestamp := now\<rparr>;
          key = event_pane evt;
          events = (if ev_status evt = StatusCompleted \<or> ev_status evt = StatusActive
                    then fmdrop key (tk_events t) else fmupd key evt (tk_events t));
          lastActive = (if \<not> nativeWaitingTools (ev_tool evt) \<and> \<not> ev_auto_detected evt
                        then if ev_status evt = StatusActive then fmupd key evt (tk_lastActive t)
                             else fmdrop key (tk_lastActive t)
                        else tk_lastActive t)
      in t\<lparr>tk_events := events, tk_lastActive := lastActive, tk_subs := fan_broadcast evt (tk_subs t)\<rparr>)"

definition StaleTimeout :: duration where "StaleTimeout = 24 * hour"

definition map_values :: "('k::linorder, 'v) fmap \<Rightarrow> 'v list" where
  "map_values m = map (\<lambda>k. the (fmlookup m k)) (go_keys m)"

definition GetAll :: "time \<Rightarrow> tracker \<Rightarrow> tracker \<times> Event list" where
  "GetAll now t =
     (let events = fm_keep (\<lambda>_ e. \<not> now - ev_timestamp e > StaleTimeout) (tk_events t)
      in (t\<lparr>tk_events := events\<rparr>, map_values events))"

definition tracker_clear :: "string \<Rightarrow> string \<Rightarrow> int \<Rightarrow> string \<Rightarrow> tracker \<Rightarrow> tracker" where
  "tracker_clear host session window pane t =
     t\<lparr>tk_events := fmdrop (PaneRef host session window pane) (tk_events t)\<rparr>"

definition ClearAll :: "tracker \<Rightarrow> tracker" where
  "ClearAll t = t\<lparr>tk_events := fmempty\<rparr>"

definition GetForSession :: "string \<Rightarrow> tracker \<Rightarrow> Event list" where
  "GetForSession session t = map_values (fm_keep (\<lambda>k _. pr_session k = session) (tk_events t))"

definition tracker_subscribe :: "tracker \<Rightarrow> tracker \<times> nat" where
  "tracker_subscribe t = (case fan_subscribe 64 (tk_subs t) of (f, i) \<Rightarrow> (t\<lparr>tk_subs := f\<rparr>, i))"

definition tracker_unsubscribe :: "nat \<Rightarrow> tracker \<Rightarrow> tracker" where
  "tracker_unsubscribe i t = t\<lparr>tk_subs := fan_unsubscribe i (tk_subs t)\<rparr>"

definition waiting_event :: "Event \<Rightarrow> Event" where
  "waiting_event e = \<lparr>ev_tool = ev_tool e, ev_status = StatusWaiting, ev_host = ev_host e, ev_host_name = [],
     ev_session = ev_session e, ev_window = ev_window e, ev_pane = ev_pane e,
     ev_message = ''May need attention'', ev_timestamp = 0, ev_auto_detected = False\<rparr>"

definition promoteInactive :: "time \<Rightarrow> duration \<Rightarrow> time \<Rightarrow> tracker \<Rightarrow> tracker" where
  "promoteInactive now timeout stamp t =
     (let quiet = (\<lambda>e. now - ev_timestamp e > timeout);
          toPromote = map_values (fm_keep (\<lambda>_ e. quiet e) (tk_lastActive t));
          t = t\<lparr>tk_lastActive := fm_keep (\<lambda>_ e. \<not> quiet e) (tk_lastActive t)\<rparr>
      in foldl (\<lambda>t e. tracker_record stamp (waiting_event e) t) t toPromote)"

definition DefaultInactivityTimeout :: duration where "DefaultInactivityTimeout = 30 * second"

definition promoter_interval :: "duration \<Rightarrow> duration" where
  "promoter_interval timeout = (let i = timeout div 2 in if i < 5 * second then 5 * second else i)"

subsection \<open>What the tracker keeps\<close>

text \<open>
  Every tracked event sits under its own pane and needs attention (it is neither active
  nor completed); \<open>lastActive\<close> holds hook-reported activity of tools that never report
  waiting themselves.
\<close>

definition tracker_inv :: "tracker \<Rightarrow> bool" where
  "tracker_inv t =
     ((\<forall>k e. fmlookup (tk_events t) k = Some e \<longrightarrow>
         event_pane e = k \<and> ev_status e \<noteq> StatusActive \<and> ev_status e \<noteq> StatusCompleted) \<and>
      (\<forall>k e. fmlookup (tk_lastActive t) k = Some e \<longrightarrow>
         event_pane e = k \<and> ev_status e = StatusActive \<and> \<not> nativeWaitingTools (ev_tool e) \<and> \<not> ev_auto_detected e))"

lemma event_pane_stamp [simp]: "event_pane (e\<lparr>ev_timestamp := n\<rparr>) = event_pane e"
  by (simp add: event_pane_def)

lemma event_pane_waiting [simp]: "event_pane (waiting_event e) = event_pane e"
  by (simp add: event_pane_def waiting_event_def)

lemma tracker_record_inv: "tracker_inv t \<Longrightarrow> tracker_inv (tracker_record now e t)"
  by (auto simp: tracker_inv_def tracker_record_def Let_def split: if_splits)

lemma tracker_shrink_inv:
  assumes "tracker_inv t" and "tk_events t' = fm_keep P (tk_events t)" and "tk_lastActive t' = fm_keep Q (tk_lastActive t)"
  shows "tracker_inv t'"
  using assms by (auto simp: tracker_inv_def split: option.splits if_splits)

lemma map_values_set: "set (map_values m) = {v. \<exists>k. fmlookup m k = Some v}"
  by (force simp: map_values_def go_has_def image_iff)

lemma foldl_inv: "(\<And>a x. P a \<Longrightarrow> P (f a x)) \<Longrightarrow> P a \<Longrightarrow> P (foldl f a xs)"
  by (induction xs arbitrary: a) auto

lemma promoteInactive_inv: "tracker_inv t \<Longrightarrow> tracker_inv (promoteInactive now timeout stamp t)"
  unfolding promoteInactive_def Let_def
  by (rule foldl_inv [where P = tracker_inv], rule tracker_record_inv)
     (auto simp: tracker_inv_def split: option.splits if_splits)

datatype tracker_event = TRecord time Event | TGetAll time | TClear string string int string | TClearAll
  | TPromote time duration time | TSubscribe | TUnsubscribe nat

fun tracker_step :: "tracker \<Rightarrow> tracker_event \<Rightarrow> tracker" where
  "tracker_step t (TRecord now e) = tracker_record now e t"
| "tracker_step t (TGetAll now) = fst (GetAll now t)"
| "tracker_step t (TClear h s w p) = tracker_clear h s w p t"
| "tracker_step t TClearAll = ClearAll t"
| "tracker_step t (TPromote now timeout stamp) = promoteInactive now timeout stamp t"
| "tracker_step t TSubscribe = fst (tracker_subscribe t)"
| "tracker_step t (TUnsubscribe i) = tracker_unsubscribe i t"

lemma tracker_step_inv: "tracker_inv t \<Longrightarrow> tracker_inv (tracker_step t e)"
proof (cases e)
  case (TRecord now e) then show "tracker_inv t \<Longrightarrow> ?thesis" by (simp add: tracker_record_inv)
next
  case (TPromote now timeout stamp) then show "tracker_inv t \<Longrightarrow> ?thesis" by (simp add: promoteInactive_inv)
qed (auto simp: tracker_inv_def GetAll_def Let_def tracker_clear_def ClearAll_def tracker_subscribe_def
      tracker_unsubscribe_def split: option.splits if_splits prod.splits)

interpretation tracker: component NewTracker tracker_step tracker_inv
  by unfold_locales (simp add: tracker_inv_def NewTracker_def, rule tracker_step_inv)

lemma map_values_panes:
  assumes "\<And>k e. fmlookup m k = Some e \<Longrightarrow> event_pane e = k"
  shows "map event_pane (map_values m) = go_keys m"
  unfolding map_values_def map_map
  by (rule map_idI) (use assms in \<open>auto simp: go_has_def\<close>)


definition demo_event :: "string \<Rightarrow> string \<Rightarrow> string \<Rightarrow> Event" where
  "demo_event tool status host = \<lparr>ev_tool = tool, ev_status = status, ev_host = host, ev_host_name = [],
     ev_session = ''main'', ev_window = 1, ev_pane = ''%4'', ev_message = [], ev_timestamp = 0,
     ev_auto_detected = False\<rparr>"


subsection \<open>Promotion of quiet tools\<close>

lemma record_fold:
  assumes "distinct ks" and "\<And>k. k \<in> set ks \<Longrightarrow> event_pane (g k) = k \<and> ev_status (g k) = StatusWaiting"
  shows "fmlookup (tk_events (foldl (\<lambda>t e. tracker_record now e t) t (map g ks))) k =
      (if k \<in> set ks then Some ((g k)\<lparr>ev_timestamp := now\<rparr>) else fmlookup (tk_events t) k)"
    and "fmlookup (tk_lastActive (foldl (\<lambda>t e. tracker_record now e t) t (map g ks))) k =
      (if k \<in> set ks \<and> \<not> nativeWaitingTools (ev_tool (g k)) \<and> \<not> ev_auto_detected (g k) then None
       else fmlookup (tk_lastActive t) k)"
proof -
  have "fmlookup (tk_events (foldl (\<lambda>t e. tracker_record now e t) t (map g ks))) k =
      (if k \<in> set ks then Some ((g k)\<lparr>ev_timestamp := now\<rparr>) else fmlookup (tk_events t) k) \<and>
    fmlookup (tk_lastActive (foldl (\<lambda>t e. tracker_record now e t) t (map g ks))) k =
      (if k \<in> set ks \<and> \<not> nativeWaitingTools (ev_tool (g k)) \<and> \<not> ev_auto_detected (g k) then None
       else fmlookup (tk_lastActive t) k)"
    using assms
  proof (induction ks arbitrary: t)
    case (Cons a ks)
    have a: "event_pane (g a) = a" "ev_status (g a) = StatusWaiting" using Cons.prems(2) [of a] by auto
    from Cons.IH [of "tracker_record now (g a) t"] Cons.prems a show ?case
      by (auto simp: tracker_record_def Let_def status_defs)
  qed simp
  then show "fmlookup (tk_events (foldl (\<lambda>t e. tracker_record now e t) t (map g ks))) k =
      (if k \<in> set ks then Some ((g k)\<lparr>ev_timestamp := now\<rparr>) else fmlookup (tk_events t) k)"
    "fmlookup (tk_lastActive (foldl (\<lambda>t e. tracker_record now e t) t (map g ks))) k =
      (if k \<in> set ks \<and> \<not> nativeWaitingTools (ev_tool (g k)) \<and> \<not> ev_auto_detected (g k) then None
       else fmlookup (tk_lastActive t) k)" by auto
qed

text \<open>
  Promotion is exact.  In a reachable tracker, a pane whose hook-reported activity is
  older than the timeout gets a waiting event and leaves \<open>lastActive\<close> (so it is promoted
  once); every other pane keeps its event and its activity record.
\<close>

theorem promotion_exact:
  assumes "tracker_inv t" and "t' = promoteInactive now timeout stamp t"
  shows "fmlookup (tk_events t') k = (case fmlookup (tk_lastActive t) k of
      Some e \<Rightarrow> if now - ev_timestamp e > timeout then Some ((waiting_event e)\<lparr>ev_timestamp := stamp\<rparr>)
        else fmlookup (tk_events t) k
    | None \<Rightarrow> fmlookup (tk_events t) k) \<and>
    fmlookup (tk_lastActive t') k = (case fmlookup (tk_lastActive t) k of
      Some e \<Rightarrow> if now - ev_timestamp e > timeout then None else Some e | None \<Rightarrow> None)"
proof -
  let ?quiet = "\<lambda>e. now - ev_timestamp e > timeout"
  let ?m = "fm_keep (\<lambda>_ e. ?quiet e) (tk_lastActive t)"
  let ?g = "\<lambda>k. waiting_event (the (fmlookup ?m k))"
  let ?t = "t\<lparr>tk_lastActive := fm_keep (\<lambda>_ e. \<not> ?quiet e) (tk_lastActive t)\<rparr>"
  have t': "t' = foldl (\<lambda>t e. tracker_record stamp e t) ?t (map ?g (go_keys ?m))"
    by (simp add: assms(2) promoteInactive_def Let_def map_values_def foldl_map)
  have g: "event_pane (?g j) = j \<and> ev_status (?g j) = StatusWaiting" if "j \<in> set (go_keys ?m)" for j
    using that assms(1) by (auto simp: tracker_inv_def go_has_def waiting_event_def event_pane_def
        split: option.splits if_splits)
  have "fmlookup (tk_events t') k = (if k \<in> set (go_keys ?m) then Some ((?g k)\<lparr>ev_timestamp := stamp\<rparr>)
      else fmlookup (tk_events ?t) k)"
    unfolding t' by (rule record_fold(1)) (simp, rule g)
  moreover have "fmlookup (tk_lastActive t') k = (if k \<in> set (go_keys ?m) \<and> \<not> nativeWaitingTools (ev_tool (?g k)) \<and>
      \<not> ev_auto_detected (?g k) then None else fmlookup (tk_lastActive ?t) k)"
    unfolding t' by (rule record_fold(2)) (simp, rule g)
  ultimately show ?thesis by (auto simp: go_has_def split: option.splits)
qed

theorem promotion_exact_witness:
  "let t = tracker_record 0 (demo_event ''codex'' ''active'' ''h'') NewTracker;
       t' = promoteInactive (40 * second) DefaultInactivityTimeout 41 t
   in map_option ev_status (fmlookup (tk_events t') (event_pane (demo_event ''codex'' ''active'' ''h''))) = Some StatusWaiting"
proof -
  let ?e = "demo_event ''codex'' ''active'' ''h''"
  have inv: "tracker_inv (tracker_record 0 ?e NewTracker)"
    by (rule tracker_record_inv) (rule tracker.init_inv)
  have "fmlookup (tk_lastActive (tracker_record 0 ?e NewTracker)) (event_pane ?e) = Some (?e\<lparr>ev_timestamp := 0\<rparr>)"
    by (simp add: tracker_record_def Let_def demo_event_def status_defs nativeWaitingTools_def tool_defs event_pane_def)
  with promotion_exact [OF inv refl, of "40 * second" DefaultInactivityTimeout 41 "event_pane ?e"]
  show ?thesis by (simp add: Let_def DefaultInactivityTimeout_def demo_event_def waiting_event_def)
qed

end
