(* ===== verification/ToolWatch.thy ===== *)
theory ToolWatch
  imports ToolTracker
begin

text \<open>
  The three watchers of the tool tracker: the reconciler (\<open>reconciler.go\<close>), the passive
  agent detector (\<open>detector.go\<close>) and the silence monitor (\<open>silence.go\<close>).  Pane lookups,
  the process tree, \<open>capture-pane\<close> and the prompt recogniser are arguments.
\<close>

subsection \<open>Reconciler\<close>

record pane_state =
  ps_exists :: bool
  ps_command :: string
  ps_pid :: int

definition shells :: "string \<Rightarrow> bool" where
  "shells cmd = (cmd \<in> set [''zsh'', ''bash'', ''fish'', ''sh'', ''dash'', ''tcsh'', ''csh'', ''ksh'', ''pwsh''])"

definition cleared_event :: "Event \<Rightarrow> Event" where
  "cleared_event e = \<lparr>ev_tool = ev_tool e, ev_status = StatusCompleted, ev_host = [], ev_host_name = [],
     ev_session = ev_session e, ev_window = ev_window e, ev_pane = ev_pane e,
     ev_message = ''auto-cleared: agent no longer running'', ev_timestamp = 0, ev_auto_detected = False\<rparr>"

definition agent_gone :: "(string \<Rightarrow> pane_state) \<Rightarrow> string \<Rightarrow> bool" where
  "agent_gone lookup pane = (let ps = lookup pane in \<not> ps_exists ps \<or> shells (ps_command ps))"

definition reconcile_one :: "(string \<Rightarrow> pane_state) \<Rightarrow> time \<Rightarrow> tracker \<Rightarrow> Event \<Rightarrow> tracker" where
  "reconcile_one lookup stamp t e =
     (if ev_pane e = [] then t
      else if agent_gone lookup (ev_pane e) then tracker_record stamp (cleared_event e) t else t)"

definition reconcile :: "(string \<Rightarrow> pane_state) \<Rightarrow> time \<Rightarrow> time \<Rightarrow> tracker \<Rightarrow> tracker" where
  "reconcile lookup now stamp t =
     (case GetAll now t of (t, events) \<Rightarrow> foldl (reconcile_one lookup stamp) t events)"

definition cleared_pane :: "Event \<Rightarrow> pane_ref" where
  "cleared_pane e = PaneRef [] (ev_session e) (ev_window e) (ev_pane e)"

lemma reconcile_one_events:
  "fmlookup (tk_events (reconcile_one lookup stamp t e)) k =
     (if ev_pane e \<noteq> [] \<and> agent_gone lookup (ev_pane e) \<and> k = cleared_pane e then None
      else fmlookup (tk_events t) k)"
  by (auto simp: reconcile_one_def tracker_record_def Let_def cleared_event_def event_pane_def cleared_pane_def)

lemma reconcile_fold_events:
  "fmlookup (tk_events (foldl (reconcile_one lookup stamp) t es)) k =
     (if \<exists>e\<in>set es. ev_pane e \<noteq> [] \<and> agent_gone lookup (ev_pane e) \<and> k = cleared_pane e then None
      else fmlookup (tk_events t) k)"
  by (induction es arbitrary: t) (auto simp: reconcile_one_events)

text \<open>
  What the reconciler clears.  It removes exactly the fresh events of panes that are
  gone or back at a shell and that carry no host; an event stamped with a host is kept,
  whatever its pane does.
\<close>

theorem reconcile_exact:
  assumes "tracker_inv t" and "t' = reconcile lookup now stamp t"
  shows "fmlookup (tk_events t') k = (case fmlookup (tk_events t) k of
      None \<Rightarrow> None
    | Some e \<Rightarrow>
        if now - ev_timestamp e > StaleTimeout then None
        else if pr_host k = [] \<and> pr_pane k \<noteq> [] \<and> agent_gone lookup (pr_pane k) then None
        else Some e)"
proof -
  let ?m = "fm_keep (\<lambda>_ e. \<not> now - ev_timestamp e > StaleTimeout) (tk_events t)"
  have t': "t' = foldl (reconcile_one lookup stamp) (t\<lparr>tk_events := ?m\<rparr>) (map_values ?m)"
    by (simp add: assms(2) reconcile_def GetAll_def Let_def)
  have pane: "fmlookup (tk_events t) j = Some e \<Longrightarrow> event_pane e = j" for j e
    using assms(1) by (simp add: tracker_inv_def)
  show ?thesis
  proof (cases "fmlookup ?m k")
    case None
    then show ?thesis
      unfolding t' reconcile_fold_events by (auto split: option.splits if_splits)
  next
    case (Some e)
    then have k: "event_pane e = k" and e: "fmlookup (tk_events t) k = Some e"
      by (auto intro!: pane split: option.splits if_splits)
    have "(\<exists>x\<in>set (map_values ?m). ev_pane x \<noteq> [] \<and> agent_gone lookup (ev_pane x) \<and> k = cleared_pane x) \<longleftrightarrow>
      pr_host k = [] \<and> pr_pane k \<noteq> [] \<and> agent_gone lookup (pr_pane k)" (is "?l = ?r")
    proof
      assume ?r
      moreover have "k = cleared_pane e" using \<open>?r\<close> k by (auto simp: cleared_pane_def event_pane_def)
      moreover have "e \<in> set (map_values ?m)" using Some by (auto simp only: map_values_set)
      ultimately show ?l by (intro bexI [of _ e]) (auto simp: cleared_pane_def)
    qed (auto simp: cleared_pane_def)
    with Some e show ?thesis
      unfolding t' reconcile_fold_events by (auto split: if_splits)
  qed
qed

theorem reconcile_exact_witness:
  "let t = tracker_record 0 (demo_event ''claude'' ''waiting'' ''h'') NewTracker;
       t' = reconcile (\<lambda>_. \<lparr>ps_exists = False, ps_command = [], ps_pid = 0\<rparr>) 3 4 t
   in fmlookup (tk_events t') (event_pane (demo_event ''claude'' ''waiting'' ''h'')) \<noteq> None"
proof -
  let ?e = "demo_event ''claude'' ''waiting'' ''h''"
  have inv: "tracker_inv (tracker_record 0 ?e NewTracker)"
    by (rule tracker_record_inv) (rule tracker.init_inv)
  have "fmlookup (tk_events (tracker_record 0 ?e NewTracker)) (event_pane ?e) = Some (?e\<lparr>ev_timestamp := 0\<rparr>)"
    by (simp add: tracker_record_def Let_def demo_event_def status_defs)
  with reconcile_exact [OF inv refl, of "\<lambda>_. \<lparr>ps_exists = False, ps_command = [], ps_pid = 0\<rparr>" 3 4 "event_pane ?e"]
  show ?thesis by (simp add: Let_def StaleTimeout_def demo_event_def event_pane_def)
qed

subsection \<open>Detector\<close>

record pane_info =
  pi_pane_id :: string
  pi_session :: string
  pi_window :: int
  pi_pid :: int

record detector =
  dt_host_id :: string
  dt_host_name :: string
  dt_seen :: "(pane_ref, string) fmap"

definition NewDetector :: detector where
  "NewDetector = \<lparr>dt_host_id = [], dt_host_name = [], dt_seen = fmempty\<rparr>"

definition SetHost :: "string \<Rightarrow> string \<Rightarrow> detector \<Rightarrow> detector" where
  "SetHost hostID name d = d\<lparr>dt_host_id := hostID, dt_host_name := name\<rparr>"

definition DetectedPanes :: "detector \<Rightarrow> (string, string) fmap" where
  "DetectedPanes d = foldl (\<lambda>m k. if pr_pane k \<noteq> [] then fmupd (pr_pane k) (the (fmlookup (dt_seen d) k)) m else m)
     fmempty (go_keys (dt_seen d))"

definition detector_PaneInfo :: "string \<Rightarrow> detector \<Rightarrow> pane_info" where
  "detector_PaneInfo paneID d =
     (case find (\<lambda>k. pr_pane k = paneID) (go_keys (dt_seen d)) of
        None \<Rightarrow> \<lparr>pi_pane_id = [], pi_session = [], pi_window = 0, pi_pid = 0\<rparr>
      | Some k \<Rightarrow> \<lparr>pi_pane_id = pr_pane k, pi_session = pr_session k, pi_window = pr_window k, pi_pid = 0\<rparr>)"

definition detected_event :: "detector \<Rightarrow> pane_info \<Rightarrow> string \<Rightarrow> Event" where
  "detected_event d pane tool = \<lparr>ev_tool = tool, ev_status = StatusActive, ev_host = dt_host_id d,
     ev_host_name = dt_host_name d, ev_session = pi_session pane, ev_window = pi_window pane,
     ev_pane = pi_pane_id pane, ev_message = ''auto-detected'', ev_timestamp = 0, ev_auto_detected = True\<rparr>"

definition pane_key_of :: "pane_info \<Rightarrow> pane_ref" where
  "pane_key_of pane = PaneRef [] (pi_session pane) (pi_window pane) (pi_pane_id pane)"

text \<open>One round of the loop over the panes: the detector, the tracker and the panes still present.\<close>

definition detect_pane ::
  "(int \<Rightarrow> string option) \<Rightarrow> (pane_ref \<Rightarrow> bool) \<Rightarrow> time \<Rightarrow> detector \<times> tracker \<times> pane_ref list \<Rightarrow> pane_info \<Rightarrow>
   detector \<times> tracker \<times> pane_ref list" where
  "detect_pane probe tracked stamp s pane =
     (case s of (d, t, still) \<Rightarrow>
        if pi_pid pane = 0 \<or> pi_session pane = [] then s
        else let key = pane_key_of pane in
          if tracked key then s
          else case probe (pi_pid pane) of
            None \<Rightarrow> s
          | Some tool \<Rightarrow>
              let alreadySeen = go_has (dt_seen d) key;
                  d = d\<lparr>dt_seen := fmupd key tool (dt_seen d)\<rparr>;
                  still = key # still
              in if alreadySeen then (d, t, still)
                 else (d, tracker_record stamp (detected_event d pane tool) t, still))"

definition tracked_panes :: "tracker \<Rightarrow> Event list \<Rightarrow> pane_ref \<Rightarrow> bool" where
  "tracked_panes t events k = (k \<in> set (map event_pane events) \<or> go_has (tk_lastActive t) k)"

definition detect :: "pane_info list \<Rightarrow> (int \<Rightarrow> string option) \<Rightarrow> time \<Rightarrow> time \<Rightarrow> detector \<times> tracker \<Rightarrow> detector \<times> tracker" where
  "detect panes probe now stamp s =
     (case s of (d, t) \<Rightarrow>
        if panes = [] then s
        else case GetAll now t of (t, events) \<Rightarrow>
          (case foldl (detect_pane probe (tracked_panes t events) stamp) (d, t, []) panes of
             (d, t, still) \<Rightarrow> (d\<lparr>dt_seen := fm_keep (\<lambda>k _. k \<in> set still) (dt_seen d)\<rparr>, t)))"

lemma detect_pane_events:
  "detect_pane probe tracked stamp (d, t, still) pane = (d', t', still') \<Longrightarrow> dt_host_id d = [] \<Longrightarrow> tracked k \<Longrightarrow>
     fmlookup (tk_events t') k = fmlookup (tk_events t) k \<and> dt_host_id d' = []"
  by (auto simp: detect_pane_def Let_def tracker_record_def detected_event_def event_pane_def pane_key_of_def
      split: if_splits option.splits)

lemma detect_fold_events:
  "foldl (detect_pane probe tracked stamp) (d, t, still) panes = (d', t', still') \<Longrightarrow> dt_host_id d = [] \<Longrightarrow> tracked k \<Longrightarrow>
     fmlookup (tk_events t') k = fmlookup (tk_events t) k"
proof (induction panes arbitrary: d t still)
  case (Cons pane panes)
  obtain d1 t1 s1 where 1: "detect_pane probe tracked stamp (d, t, still) pane = (d1, t1, s1)" by (metis prod_cases3)
  from detect_pane_events [OF this Cons.prems(2,3)] Cons.IH [of d1 t1 s1] Cons.prems 1 show ?case by simp
qed simp

text \<open>
  A detector without a host identity leaves reported panes alone: a scan keeps every
  tracked event that \<open>GetAll\<close> did not prune, whatever processes it finds.
\<close>

theorem detect_keeps_reported:
  assumes "dt_host_id d = []" and "detect panes probe now stamp (d, t) = (d', t')"
    and "tracker_inv t" and "fmlookup (tk_events t) k = Some e" and "now - ev_timestamp e \<le> StaleTimeout"
  shows "fmlookup (tk_events t') k = Some e"
proof (cases "panes = []")
  case False
  let ?t = "fst (GetAll now t)" and ?es = "snd (GetAll now t)"
  obtain d1 t1 s1 where f: "foldl (detect_pane probe (tracked_panes ?t ?es) stamp) (d, ?t, []) panes = (d1, t1, s1)"
    by (metis prod_cases3)
  have keep: "fmlookup (tk_events ?t) k = Some e" using assms(4,5) by (simp add: GetAll_def Let_def)
  then have "e \<in> set ?es" by (auto simp: GetAll_def Let_def map_values_set)
  moreover have "event_pane e = k" using assms(3,4) by (simp add: tracker_inv_def)
  ultimately have "tracked_panes ?t ?es k" by (auto simp: tracked_panes_def)
  from detect_fold_events [OF f assms(1) this] keep assms(2) False f show ?thesis
    by (simp add: detect_def split: prod.splits)
qed (use assms in \<open>simp add: detect_def\<close>)

definition demo_pane :: pane_info where
  "demo_pane = \<lparr>pi_pane_id = ''%4'', pi_session = ''main'', pi_window = 1, pi_pid = 7\<rparr>"

theorem detect_keeps_reported_witness:
  "let t = tracker_record 0 (demo_event ''claude'' ''waiting'' []) NewTracker in
   fmlookup (tk_events (snd (detect [demo_pane] (\<lambda>_. Some ''claude'') 1 2 (NewDetector, t))))
     (event_pane (demo_event ''claude'' ''waiting'' [])) = Some (demo_event ''claude'' ''waiting'' [])"
proof -
  let ?e = "demo_event ''claude'' ''waiting'' []" let ?t = "tracker_record 0 ?e NewTracker"
  obtain d' t' where r: "detect [demo_pane] (\<lambda>_. Some ''claude'') 1 2 (NewDetector, ?t) = (d', t')"
    by (metis surj_pair)
  have "fmlookup (tk_events ?t) (event_pane ?e) = Some ?e"
    by (simp add: tracker_record_def Let_def demo_event_def status_defs)
  moreover have "tracker_inv ?t" by (rule tracker_record_inv) (rule tracker.init_inv)
  ultimately have "fmlookup (tk_events t') (event_pane ?e) = Some ?e"
    by (intro detect_keeps_reported [OF _ r]) (simp_all add: NewDetector_def demo_event_def StaleTimeout_def)
  with r show ?thesis by (simp add: Let_def)
qed

text \<open>
  With a host identity the guard misses.  The detector looks reported panes up
  without a host, while the events it and the hooks record carry one: the first scan
  that finds the agent of a pane erases that pane's pending event.
\<close>

theorem detect_erases_hosted:
  assumes "dt_host_id d \<noteq> []" and "\<not> go_has (dt_seen d) (pane_key_of pane)"
    and "pi_pid pane \<noteq> 0" and "pi_session pane \<noteq> []" and "probe (pi_pid pane) = Some tool"
    and "tracker_inv t" and "\<not> go_has (tk_events t) (pane_key_of pane)" and "\<not> go_has (tk_lastActive t) (pane_key_of pane)"
    and "detect [pane] probe now stamp (d, t) = (d', t')"
  shows "fmlookup (tk_events t') (PaneRef (dt_host_id d) (pi_session pane) (pi_window pane) (pi_pane_id pane)) = None"
proof -
  let ?t = "fst (GetAll now t)" and ?es = "snd (GetAll now t)"
  have "\<not> tracked_panes ?t ?es (pane_key_of pane)"
    using assms(6,7,8) by (auto simp: tracked_panes_def GetAll_def Let_def map_values_set go_has_def tracker_inv_def
        split: option.splits if_splits)
  with assms show ?thesis
    by (auto simp: detect_def detect_pane_def Let_def tracker_record_def detected_event_def event_pane_def
        status_defs split: prod.splits)
qed

theorem detect_erases_hosted_witness:
  "let t = tracker_record 0 (demo_event ''claude'' ''waiting'' ''h'') NewTracker in
   go_has (tk_events t) (PaneRef ''h'' ''main'' 1 ''%4'') \<and>
   fmlookup (tk_events (snd (detect [demo_pane] (\<lambda>_. Some ''claude'') 1 2 (SetHost ''h'' ''box'' NewDetector, t))))
     (PaneRef ''h'' ''main'' 1 ''%4'') = None"
proof -
  let ?e = "demo_event ''claude'' ''waiting'' ''h''" let ?t = "tracker_record 0 ?e NewTracker"
  obtain d' t' where r: "detect [demo_pane] (\<lambda>_. Some ''claude'') 1 2 (SetHost ''h'' ''box'' NewDetector, ?t) = (d', t')"
    by (metis surj_pair)
  have ev: "tk_events ?t = fmupd (PaneRef ''h'' ''main'' 1 ''%4'') ?e fmempty" "tk_lastActive ?t = fmempty"
    by (simp_all add: tracker_record_def Let_def demo_event_def status_defs NewTracker_def event_pane_def
        nativeWaitingTools_def tool_defs)
  have "tracker_inv ?t" by (rule tracker_record_inv) (rule tracker.init_inv)
  from detect_erases_hosted [OF _ _ _ _ _ this _ _ r] r ev show ?thesis
    by (simp add: Let_def SetHost_def NewDetector_def demo_pane_def pane_key_of_def)
qed

subsection \<open>Silence monitor\<close>

definition silenceThreshold :: duration where "silenceThreshold = 10 * second"
definition maxSilenceChecks :: nat where "maxSilenceChecks = 2"

record monitored_pane =
  mp_tool :: string
  mp_session :: string
  mp_window :: int
  mp_last_output :: time
  mp_prompted :: bool
  mp_silence_checks :: nat

record silence =
  sm_host_id :: string
  sm_host_name :: string
  sm_monitored :: "(string, monitored_pane) fmap"

definition NewSilenceMonitor :: silence where
  "NewSilenceMonitor = \<lparr>sm_host_id = [], sm_host_name = [], sm_monitored = fmempty\<rparr>"

definition silence_SetHost :: "string \<Rightarrow> string \<Rightarrow> silence \<Rightarrow> silence" where
  "silence_SetHost hostID name sm = sm\<lparr>sm_host_id := hostID, sm_host_name := name\<rparr>"

definition RecordOutput :: "time \<Rightarrow> string \<Rightarrow> silence \<Rightarrow> silence" where
  "RecordOutput now paneID sm =
     (case fmlookup (sm_monitored sm) paneID of
        None \<Rightarrow> sm
      | Some mp \<Rightarrow>
          let mp = mp\<lparr>mp_last_output := now\<rparr>;
              mp = (if mp_prompted mp \<or> mp_silence_checks mp > 0
                    then mp\<lparr>mp_prompted := False, mp_silence_checks := 0\<rparr> else mp)
          in sm\<lparr>sm_monitored := fmupd paneID mp (sm_monitored sm)\<rparr>)"

definition silence_sync :: "time \<Rightarrow> detector \<Rightarrow> silence \<Rightarrow> silence" where
  "silence_sync now d sm =
     (let detected = DetectedPanes d;
          add = (\<lambda>m paneID.
            if fmlookup detected paneID = Some ToolClaude then m
            else if go_has m paneID then m
            else let info = detector_PaneInfo paneID d in
              fmupd paneID \<lparr>mp_tool = the (fmlookup detected paneID), mp_session = pi_session info,
                mp_window = pi_window info, mp_last_output = now, mp_prompted = False, mp_silence_checks = 0\<rparr> m);
          monitored = foldl add (sm_monitored sm) (go_keys detected)
      in sm\<lparr>sm_monitored := fm_keep (\<lambda>paneID _. go_has detected paneID) monitored\<rparr>)"

definition silence_due :: "time \<Rightarrow> monitored_pane \<Rightarrow> bool" where
  "silence_due now mp =
     (\<not> (mp_prompted mp \<or> mp_silence_checks mp \<ge> maxSilenceChecks) \<and> now - mp_last_output mp \<ge> silenceThreshold)"

definition silence_targets :: "time \<Rightarrow> silence \<Rightarrow> string list" where
  "silence_targets now sm = go_keys (fm_keep (\<lambda>_ mp. silence_due now mp) (sm_monitored sm))"

definition count_checks :: "time \<Rightarrow> silence \<Rightarrow> silence" where
  "count_checks now sm = sm\<lparr>sm_monitored := fmmap (\<lambda>mp. if silence_due now mp
     then mp\<lparr>mp_silence_checks := Suc (mp_silence_checks mp)\<rparr> else mp) (sm_monitored sm)\<rparr>"

definition silence_event :: "silence \<Rightarrow> string \<Rightarrow> monitored_pane \<Rightarrow> string \<Rightarrow> Event" where
  "silence_event sm paneID mp message = \<lparr>ev_tool = mp_tool mp, ev_status = StatusWaiting, ev_host = sm_host_id sm,
     ev_host_name = sm_host_name sm, ev_session = mp_session mp, ev_window = mp_window mp, ev_pane = paneID,
     ev_message = message, ev_timestamp = 0, ev_auto_detected = True\<rparr>"

definition check_target ::
  "(string \<Rightarrow> string option) \<Rightarrow> (string \<Rightarrow> string option) \<Rightarrow> time \<Rightarrow> silence \<times> tracker \<Rightarrow> string \<Rightarrow> silence \<times> tracker" where
  "check_target capture prompt stamp s paneID =
     (case s of (sm, t) \<Rightarrow>
        (case fmlookup (sm_monitored sm) paneID of
           None \<Rightarrow> s
         | Some mp \<Rightarrow>
             (case capture paneID of
                None \<Rightarrow> s
              | Some content \<Rightarrow>
                  (case prompt content of
                     None \<Rightarrow> s
                   | Some message \<Rightarrow>
                       (sm\<lparr>sm_monitored := fmupd paneID (mp\<lparr>mp_prompted := True\<rparr>) (sm_monitored sm)\<rparr>,
                        tracker_record stamp (silence_event sm paneID mp message) t)))))"

definition checkSilentPanes ::
  "(string \<Rightarrow> string option) \<Rightarrow> (string \<Rightarrow> string option) \<Rightarrow> time \<Rightarrow> time \<Rightarrow> silence \<times> tracker \<Rightarrow> silence \<times> tracker" where
  "checkSilentPanes capture prompt now stamp s =
     (case s of (sm, t) \<Rightarrow> foldl (check_target capture prompt stamp) (count_checks now sm, t) (silence_targets now sm))"

text \<open>How many captures of a pane a sequence of check rounds makes.\<close>

fun captures :: "(string \<Rightarrow> string option) \<Rightarrow> string \<Rightarrow> (time \<times> (string \<Rightarrow> string option)) list \<Rightarrow> silence \<times> tracker \<Rightarrow> nat" where
  "captures prompt p [] s = 0"
| "captures prompt p ((now, capture) # rounds) s =
     (if p \<in> set (silence_targets now (fst s)) then 1 else 0) +
     captures prompt p rounds (checkSilentPanes capture prompt now now s)"

definition checks_left :: "string \<Rightarrow> silence \<Rightarrow> nat" where
  "checks_left p sm = (case fmlookup (sm_monitored sm) p of
     None \<Rightarrow> 0 | Some mp \<Rightarrow> if mp_prompted mp then 0 else maxSilenceChecks - mp_silence_checks mp)"

lemma check_target_left:
  "check_target capture prompt stamp s q = s' \<Longrightarrow> checks_left p (fst s') \<le> checks_left p (fst s)"
  by (cases s) (auto simp: check_target_def checks_left_def split: option.splits if_splits)

lemma check_fold_left:
  "checks_left p (fst (foldl (check_target capture prompt stamp) s qs)) \<le> checks_left p (fst s)"
proof (induction qs arbitrary: s)
  case (Cons q qs)
  have "checks_left p (fst (foldl (check_target capture prompt stamp) (check_target capture prompt stamp s q) qs))
      \<le> checks_left p (fst (check_target capture prompt stamp s q))" by (rule Cons.IH)
  also have "\<dots> \<le> checks_left p (fst s)" by (rule check_target_left) simp
  finally show ?case by simp
qed simp

lemma count_checks_left:
  "(if p \<in> set (silence_targets now sm) then 1 else 0) + checks_left p (count_checks now sm) \<le> checks_left p sm"
  by (auto simp: silence_targets_def fm_keep_has checks_left_def count_checks_def silence_due_def maxSilenceChecks_def
      split: option.splits)

text \<open>
  The silence monitor is bounded.  As long as a pane produces no output, all the
  check rounds together capture it at most \<open>maxSilenceChecks\<close> times, and not at all once a
  prompt was reported.
\<close>

theorem silence_checks_bounded:
  "captures prompt p rounds s \<le> checks_left p (fst s) \<and> checks_left p (fst s) \<le> maxSilenceChecks"
proof
  show "captures prompt p rounds s \<le> checks_left p (fst s)"
  proof (induction rounds arbitrary: s)
    case (Cons r rounds)
    obtain now capture where r: "r = (now, capture)" by (cases r)
    obtain sm t where s: "s = (sm, t)" by (cases s)
    have "captures prompt p rounds (checkSilentPanes capture prompt now now s)
        \<le> checks_left p (fst (checkSilentPanes capture prompt now now s))" by (rule Cons.IH)
    also have "\<dots> \<le> checks_left p (count_checks now sm)"
      unfolding s checkSilentPanes_def prod.case
      by (rule order_trans [OF check_fold_left]) simp
    finally show ?case using count_checks_left [of p now sm] by (simp add: r s)
  qed simp
  show "checks_left p (fst s) \<le> maxSilenceChecks"
    by (simp add: checks_left_def split: option.splits)
qed

end
