(* ===== verification/Views.thy ===== *)
theory Views
  imports Projector ToolWatch GoStrings "HOL-Library.Multiset"
begin

text \<open>
  Around the canonical projection: the adapters that turn producer values into commits
  (\<open>pkg/state/adapters.go\<close>) and the views served to browsers (\<open>pkg/state/views.go\<close>).  The
  adapters take a snapshot and commit with no other commit between.  \<open>json.Marshal\<close> of
  metadata is an argument: it returns the text or fails.
\<close>

subsection \<open>Adapters\<close>

definition NewToolEventKey :: "string \<Rightarrow> string \<Rightarrow> int \<Rightarrow> string \<Rightarrow> string \<Rightarrow> ToolEventKey" where
  "NewToolEventKey hostID session window pane tool =
     Key (key_string (NewSessionKey hostID session) @ ''/tool/'' @ keyPart (itoa window) @ ''/'' @ keyPart pane
       @ ''/'' @ keyPart tool @ ''/'' @ keyPart hostID)"

definition NewActivityKey :: "string \<Rightarrow> string \<Rightarrow> ActivityKey" where
  "NewActivityKey hostID session = Key (key_string (NewSessionKey hostID session) @ ''/activity'')"

lemma NewToolEventKey_inject [simp]:
  "NewToolEventKey h s w p t = NewToolEventKey h' s' w' p' t' \<longleftrightarrow> h = h' \<and> s = s' \<and> w = w' \<and> p = p' \<and> t = t'"
  by (auto simp add: NewToolEventKey_def NewSessionKey_def NewHostKey_def keyPart_def segment_inject
      path_escape_inject dest: itoa_inject)

lemma NewActivityKey_inject [simp]: "NewActivityKey h s = NewActivityKey h' s' \<longleftrightarrow> h = h' \<and> s = s'"
  by (auto simp add: NewActivityKey_def NewSessionKey_def NewHostKey_def keyPart_def segment_inject
      path_escape_inject)

lemma adapter_keys_not_blank:
  "\<not> blank (key_string (NewToolEventKey h s w p t))" "\<not> blank (key_string (NewActivityKey h s))"
  by (simp_all add: NewToolEventKey_def NewActivityKey_def NewSessionKey_def NewHostKey_def not_blank_h)

datatype adapter_error = NilEvent | HostRequired | HealthKeyRequired | MarshalFailed

type_synonym 'e commit_outcome = "coordinator \<times> ('e + commit_result \<times> (nat \<times> op_error) option)"

definition commit_ops :: "coordinator \<Rightarrow> operation list \<Rightarrow> adapter_error commit_outcome" where
  "commit_ops c ops = (case run_commit c ops of (c', r, err) \<Rightarrow> (c', Inr (r, err)))"

definition tool_event_of :: "string \<Rightarrow> Event \<Rightarrow> ToolEvent" where
  "tool_event_of hostID e =
     \<lparr>te_key = NewToolEventKey hostID (ev_session e) (ev_window e) (ev_pane e) (ev_tool e), te_host_id = hostID,
      te_session = ev_session e, te_window = itoa (ev_window e), te_pane = ev_pane e, te_tool = ev_tool e,
      te_status = ev_status e, te_message = ev_message e, te_timestamp = ev_timestamp e,
      te_auto_detected = ev_auto_detected e\<rparr>"

definition ApplyToolEvent :: "coordinator \<Rightarrow> Event option \<Rightarrow> string \<Rightarrow> adapter_error commit_outcome" where
  "ApplyToolEvent c event localHostID =
     (case event of
        None \<Rightarrow> (c, Inl NilEvent)
      | Some e \<Rightarrow>
          let hostID = (if ev_host e = [] then localHostID else ev_host e) in
          if hostID = [] then (c, Inl HostRequired)
          else if (ev_status e = StatusActive \<and> \<not> ev_auto_detected e) \<or> ev_status e = StatusCompleted
          then commit_ops c [remove_op RemoveToolEvent (te_key (tool_event_of hostID e))]
          else commit_ops c [operation_of UpsertToolEvent\<lparr>op_tool_event := Some (tool_event_of hostID e)\<rparr>])"

record activity_snapshot =
  as_host :: string
  as_session :: string
  as_idle_seconds :: rat
  as_sparkline :: "int list"
  as_total_bytes :: int

definition activity_of :: "string \<Rightarrow> activity_snapshot \<Rightarrow> Activity" where
  "activity_of hostID s =
     \<lparr>a_key = NewActivityKey hostID (as_session s), a_host_id = hostID, a_session = as_session s,
      a_window = [], a_pane = [], a_timestamp = 0,
      a_data = GMap (Some (fmap_of_list [(''idle_seconds'', GFloat (as_idle_seconds s)),
        (''sparkline'', GInts (append_nil (Some (as_sparkline s)))),
        (''total_bytes'', GInt (as_total_bytes s))]))\<rparr>"

definition add_activity ::
  "string \<Rightarrow> (ActivityKey, Activity) fmap \<Rightarrow> activity_snapshot option \<Rightarrow> (ActivityKey, Activity) fmap" where
  "add_activity localHostID m snap =
     (case snap of
        None \<Rightarrow> m
      | Some s \<Rightarrow>
          let hostID = (if as_host s = [] then localHostID else as_host s) in
          if hostID = [] \<or> as_session s = [] then m
          else fmupd (NewActivityKey hostID (as_session s)) (activity_of hostID s) m)"

definition collect_activity :: "string \<Rightarrow> activity_snapshot option list \<Rightarrow> (ActivityKey, Activity) fmap" where
  "collect_activity localHostID snapshots = foldl (add_activity localHostID) fmempty snapshots"

text \<open>\<open>sortActivityKeys\<close> is an insertion sort by swaps; one outer round sinks one element.\<close>

fun sink :: "'k::linorder \<Rightarrow> 'k list \<Rightarrow> 'k list" where
  "sink k [] = [k]"
| "sink k (x # xs) = (if k < x then x # sink k xs else k # x # xs)"

text \<open>The sorted prefix is kept reversed, so that the swaps run from its head.\<close>

definition sortActivityKeys :: "'k::linorder list \<Rightarrow> 'k list" where
  "sortActivityKeys keys = rev (foldl (\<lambda>prefix k. sink k prefix) [] keys)"

definition sortedActivityKeys :: "ActivityKey list \<Rightarrow> ActivityKey list" where
  "sortedActivityKeys keys = sortActivityKeys keys"

lemma sink_set: "mset (sink k xs) = add_mset k (mset xs)"
  by (induction xs) auto

lemma sink_sorted: "sorted (rev xs) \<Longrightarrow> sorted (rev (sink k xs))"
proof (induction xs)
  case (Cons x xs)
  have "set (sink k xs) = insert k (set xs)" using sink_set [of k xs] by (metis set_mset_add_mset_insert set_mset_mset)
  with Cons show ?case by (auto simp: sorted_append)
qed simp

lemma sortActivityKeys_sort: "sortActivityKeys keys = sort keys"
proof -
  have "mset (foldl (\<lambda>prefix k. sink k prefix) acc keys) = mset acc + mset keys" for acc
    by (induction keys arbitrary: acc) (auto simp: sink_set)
  moreover have "sorted (rev acc) \<Longrightarrow> sorted (rev (foldl (\<lambda>prefix k. sink k prefix) acc keys))" for acc
    by (induction keys arbitrary: acc) (auto simp: sink_sorted)
  ultimately show ?thesis
    unfolding sortActivityKeys_def by (intro properties_for_sort [symmetric]) auto
qed

text \<open>The map iteration that fills the slice may deliver the keys in any order \<open>perm\<close>.\<close>

definition activity_operations ::
  "(ActivityKey list \<Rightarrow> ActivityKey list) \<Rightarrow> (ActivityKey, Activity) fmap \<Rightarrow> (ActivityKey, Activity) fmap \<Rightarrow> operation list" where
  "activity_operations perm current nxt =
     map (\<lambda>k. remove_op RemoveActivity k)
       (filter (\<lambda>k. \<not> go_has nxt k) (sortedActivityKeys (perm (go_keys current)))) @
     concat (map (\<lambda>k. case fmlookup nxt k of
         None \<Rightarrow> []
       | Some v \<Rightarrow> if fmlookup current k = Some v then []
           else [operation_of UpsertActivity\<lparr>op_activity := Some v\<rparr>])
       (sortedActivityKeys (perm (go_keys nxt))))"

definition ReplaceActivity ::
  "(ActivityKey list \<Rightarrow> ActivityKey list) \<Rightarrow> coordinator \<Rightarrow> activity_snapshot option list \<Rightarrow> string \<Rightarrow> adapter_error commit_outcome" where
  "ReplaceActivity perm c snapshots localHostID =
     commit_ops c (activity_operations perm (Activities (sn_state (snapshot c)))
       (collect_activity localHostID snapshots))"

definition set_metadata :: "coordinator \<Rightarrow> string \<Rightarrow> string option \<Rightarrow> adapter_error commit_outcome" where
  "set_metadata c key marshalled =
     (case marshalled of
        None \<Rightarrow> (c, Inl MarshalFailed)
      | Some raw \<Rightarrow> commit_ops c [operation_of SetMetadata\<lparr>op_key := key, op_metadata := raw\<rparr>])"

definition upsert_health :: "coordinator \<Rightarrow> Health \<Rightarrow> adapter_error commit_outcome" where
  "upsert_health c health =
     (if key_string (he_host_key health) = [] then (c, Inl HealthKeyRequired)
      else commit_ops c [operation_of UpsertHealth\<lparr>op_health := Some health\<rparr>])"

definition event_selected :: "string \<Rightarrow> string \<Rightarrow> int \<Rightarrow> string \<Rightarrow> ToolEvent \<Rightarrow> bool" where
  "event_selected hostID session window pane e =
     (\<not> (session \<noteq> [] \<and> (te_host_id e \<noteq> hostID \<or> te_session e \<noteq> session \<or>
         te_window e \<noteq> itoa window \<or> te_pane e \<noteq> pane)))"

definition ClearToolEvents :: "coordinator \<Rightarrow> string \<Rightarrow> string \<Rightarrow> int \<Rightarrow> string \<Rightarrow> adapter_error commit_outcome" where
  "ClearToolEvents c hostID session window pane =
     (let events = ToolEvents (sn_state (snapshot c)) in
      commit_ops c (map (\<lambda>k. remove_op RemoveToolEvent k)
        (filter (\<lambda>k. case fmlookup events k of None \<Rightarrow> False | Some e \<Rightarrow> event_selected hostID session window pane e)
          (go_keys events))))"

interpretation activities: entity_map Activities "\<lambda>m p. p\<lparr>Activities := m\<rparr>" "remove_op RemoveActivity"
  "\<lambda>v. operation_of UpsertActivity\<lparr>op_activity := Some v\<rparr>" a_key
  by unfold_locales (simp_all add: entity_laws)

interpretation tool_events: entity_map ToolEvents "\<lambda>m p. p\<lparr>ToolEvents := m\<rparr>" "remove_op RemoveToolEvent"
  "\<lambda>v. operation_of UpsertToolEvent\<lparr>op_tool_event := Some v\<rparr>" te_key
  by unfold_locales (simp_all add: entity_laws)

lemma commit_ops_state:
  assumes "clone_stable (co_projection c)" and "apply_operations 0 (co_projection c) ops = Inr p"
  shows "co_projection (fst (commit_ops c ops)) = p" and "\<exists>r. snd (commit_ops c ops) = Inr (r, None)"
proof -
  obtain c' r e where run: "run_commit c ops = (c', r, e)" by (metis prod_cases3)
  from run_commit_cases [OF assms(1) run] assms(2)
  show "co_projection (fst (commit_ops c ops)) = p" "\<exists>r. snd (commit_ops c ops) = Inr (r, None)"
    by (auto simp: commit_ops_def run)
qed

text \<open>
  A tool event lands in one place.  Applied to a coordinator with a stable projection,
  an event with a host (its own or the local one) removes or replaces exactly the entry
  of its host, session, window, pane and tool, and nothing else.
\<close>

theorem apply_tool_event_exact:
  assumes "clone_stable (co_projection c)" and "h = (if ev_host e = [] then localHost else ev_host e)" and "h \<noteq> []"
  shows "co_projection (fst (ApplyToolEvent c (Some e) localHost)) = (co_projection c)\<lparr>ToolEvents :=
     (let k = NewToolEventKey h (ev_session e) (ev_window e) (ev_pane e) (ev_tool e) in
      if (ev_status e = ''active'' \<and> \<not> ev_auto_detected e) \<or> ev_status e = ''completed''
      then fmdrop k (ToolEvents (co_projection c))
      else fmupd k (tool_event_of h e) (ToolEvents (co_projection c)))\<rparr>"
proof -
  have key: "te_key (tool_event_of h e) = NewToolEventKey h (ev_session e) (ev_window e) (ev_pane e) (ev_tool e)"
    by (simp add: tool_event_of_def)
  have up: "apply_operations 0 (co_projection c) [operation_of UpsertToolEvent\<lparr>op_tool_event := Some (tool_event_of h e)\<rparr>] =
      Inr ((co_projection c)\<lparr>ToolEvents := fmupd (te_key (tool_event_of h e)) (tool_event_of h e) (ToolEvents (co_projection c))\<rparr>)"
    by (simp add: operation_validate_upsert apply_entity_upsert)
  have rm: "apply_operations 0 (co_projection c) [remove_op RemoveToolEvent (te_key (tool_event_of h e))] =
      Inr ((co_projection c)\<lparr>ToolEvents := fmdrop (te_key (tool_event_of h e)) (ToolEvents (co_projection c))\<rparr>)"
    by (simp add: validate_remove_op remove_kinds_def apply_entity_remove key adapter_keys_not_blank)
  have "ApplyToolEvent c (Some e) localHost =
      (if (ev_status e = StatusActive \<and> \<not> ev_auto_detected e) \<or> ev_status e = StatusCompleted
       then commit_ops c [remove_op RemoveToolEvent (te_key (tool_event_of h e))]
       else commit_ops c [operation_of UpsertToolEvent\<lparr>op_tool_event := Some (tool_event_of h e)\<rparr>])"
    using assms(2,3) by (simp add: ApplyToolEvent_def Let_def)
  with commit_ops_state(1) [OF assms(1) up] commit_ops_state(1) [OF assms(1) rm] show ?thesis
    by (simp add: Let_def status_defs key split: if_split)
qed

theorem apply_tool_event_exact_witness:
  "fmlookup (ToolEvents (co_projection (fst (ApplyToolEvent (new_coordinator ''i'') (Some (demo_event ''codex'' ''waiting'' [])) ''h''))))
     (NewToolEventKey ''h'' ''main'' 1 ''%4'' ''codex'') = Some (tool_event_of ''h'' (demo_event ''codex'' ''waiting'' []))"
proof -
  have "clone_stable (co_projection (new_coordinator ''i''))" by (simp add: clone_stable_def new_coordinator_def)
  from apply_tool_event_exact [OF this refl, of "demo_event ''codex'' ''waiting'' []" "''h''"]
  show ?thesis by (simp add: demo_event_def Let_def)
qed

lemma activity_operations_perm:
  assumes "\<And>ks. mset (perm ks) = mset ks"
  shows "activity_operations perm cur nxt = appendMapDiff [] cur nxt (remove_op RemoveActivity)
     (\<lambda>v. operation_of UpsertActivity\<lparr>op_activity := Some v\<rparr>)"
proof -
  have "sortedActivityKeys (perm (go_keys m)) = go_keys m" for m :: "(ActivityKey, Activity) fmap"
  proof -
    have "sort (perm (go_keys m)) = go_keys m" by (rule properties_for_sort) (simp_all add: assms)
    then show ?thesis by (simp add: sortedActivityKeys_def sortActivityKeys_sort)
  qed
  then show ?thesis by (simp add: activity_operations_def appendMapDiff_def)
qed

lemma add_activity_own: "own_keys a_key m \<Longrightarrow> own_keys a_key (add_activity h m s)"
  by (cases s) (simp_all add: add_activity_def Let_def own_keys_upd activity_of_def adapter_keys_not_blank)

lemma collect_activity_own: "own_keys a_key (collect_activity h ss)"
  unfolding collect_activity_def
  by (rule foldl_inv [where P = "own_keys a_key"], erule add_activity_own, rule own_keys_empty)


definition demo_activity :: "string \<Rightarrow> activity_snapshot" where
  "demo_activity s = \<lparr>as_host = [], as_session = s, as_idle_seconds = 2, as_sparkline = [1, 2], as_total_bytes = 3\<rparr>"


lemma tool_event_removes:
  assumes "\<forall>k\<in>set ks. \<not> blank (key_string k)"
  shows "apply_operations i p (map (\<lambda>k. remove_op RemoveToolEvent k) ks) =
    Inr (p\<lparr>ToolEvents := foldl (\<lambda>m k. fmdrop k m) (ToolEvents p) ks\<rparr>)"
  by (rule tool_events.removes) (rule assms)

text \<open>
  Clearing is exact.  \<open>ClearToolEvents\<close> removes the events of the given pane, or all of
  them when the session is empty, and changes nothing else.
\<close>

theorem clear_tool_events_exact:
  assumes "clone_stable (co_projection c)" and "own_keys te_key (ToolEvents (co_projection c))"
  shows "co_projection (fst (ClearToolEvents c hostID session window pane)) =
     (co_projection c)\<lparr>ToolEvents := fm_keep (\<lambda>_ e. session \<noteq> [] \<and> \<not> (te_host_id e = hostID \<and> te_session e = session \<and>
        te_window e = itoa window \<and> te_pane e = pane)) (ToolEvents (co_projection c))\<rparr>"
proof -
  let ?m = "ToolEvents (co_projection c)"
  let ?ks = "filter (\<lambda>k. case fmlookup ?m k of None \<Rightarrow> False | Some e \<Rightarrow> event_selected hostID session window pane e) (go_keys ?m)"
  have p: "sn_state (snapshot c) = co_projection c" using assms(1) by (simp add: snapshot_def clone_stable_def)
  have "apply_operations 0 (co_projection c) (map (\<lambda>k. remove_op RemoveToolEvent k) ?ks) =
    Inr ((co_projection c)\<lparr>ToolEvents := foldl (\<lambda>m k. fmdrop k m) ?m ?ks\<rparr>)"
    by (rule tool_event_removes) (use assms(2) in \<open>auto simp: own_keys_def go_has_def split: option.splits\<close>)
  moreover have "foldl (\<lambda>m k. fmdrop k m) ?m ?ks = fm_keep (\<lambda>_ e. session \<noteq> [] \<and> \<not> (te_host_id e = hostID \<and>
      te_session e = session \<and> te_window e = itoa window \<and> te_pane e = pane)) ?m"
    by (rule fmap_ext) (auto simp: tool_events.lookup_removes event_selected_def go_has_def split: option.splits)
  ultimately show ?thesis
    using commit_ops_state(1) [OF assms(1)] by (simp add: ClearToolEvents_def Let_def p)
qed

theorem clear_tool_events_exact_witness:
  "let c = fst (ApplyToolEvent (new_coordinator ''i'') (Some (demo_event ''codex'' ''waiting'' [])) ''h'')
   in ToolEvents (co_projection (fst (ClearToolEvents c ''h'' [] 0 []))) = fmempty"
proof -
  let ?c0 = "new_coordinator ''i''" let ?e = "demo_event ''codex'' ''waiting'' []"
  let ?c = "fst (ApplyToolEvent ?c0 (Some ?e) ''h'')"
  have "co_projection ?c = NewProjection\<lparr>ToolEvents := fmupd (NewToolEventKey ''h'' ''main'' 1 ''%4'' ''codex'') (tool_event_of ''h'' ?e) fmempty\<rparr>"
    by code_simp
  then have "clone_stable (co_projection ?c)" "own_keys te_key (ToolEvents (co_projection ?c))"
    by (simp_all add: clone_stable_def cloneProjection_def NewProjection_def own_keys_upd adapter_keys_not_blank
        tool_event_of_def demo_event_def)
  from clear_tool_events_exact [OF this, of "''h''" "[]" 0 "[]"] show ?thesis
    by (simp add: Let_def) (rule fmap_ext, simp split: option.splits)
qed

subsection \<open>Views\<close>

text \<open>
  \<open>sort.Slice\<close> with the comparison on index and key sorts by a total order on distinct keys,
  so its result is \<open>sort_key\<close> on the pair.
\<close>

definition pane_view :: "string \<Rightarrow> string \<Rightarrow> Pane \<Rightarrow> TPane" where
  "pane_view windowID sessionID q =
     \<lparr>tp_id = p_tmux_id q, tp_window_id = windowID, tp_session_id = sessionID, tp_index = p_index q,
      tp_active = p_active q, tp_width = p_width q, tp_height = p_height q,
      tp_current_command = p_current_command q, tp_pid = p_pid q\<rparr>"

definition sorted_panes :: "projection \<Rightarrow> WindowKey \<Rightarrow> PaneKey list" where
  "sorted_panes p wk = sort_key (\<lambda>k. (p_index (the (fmlookup (Panes p) k)), k))
     (go_keys (fm_keep (\<lambda>_ q. p_window_key q = wk) (Panes p)))"

definition sorted_windows :: "projection \<Rightarrow> SessionKey \<Rightarrow> WindowKey list" where
  "sorted_windows p sk = sort_key (\<lambda>k. (w_index (the (fmlookup (Windows p) k)), k))
     (go_keys (fm_keep (\<lambda>_ w. w_session_key w = sk) (Windows p)))"

definition window_view :: "projection \<Rightarrow> string \<Rightarrow> WindowKey \<Rightarrow> TWindow" where
  "window_view p sessionID wk =
     (let w = the (fmlookup (Windows p) wk) in
      \<lparr>tw_id = w_tmux_id w, tw_session_id = sessionID, tw_name = w_name w, tw_index = w_index w,
       tw_active = w_active w, tw_layout = w_layout w,
       tw_panes = map (\<lambda>k. Some (pane_view (w_tmux_id w) sessionID (the (fmlookup (Panes p) k)))) (sorted_panes p wk)\<rparr>)"

definition session_view :: "projection \<Rightarrow> SessionKey \<Rightarrow> TSession" where
  "session_view p sk =
     (let s = the (fmlookup (Sessions p) sk);
          host = fmlookup (Hosts p) (s_host_key s)
      in \<lparr>ts_id = s_tmux_id s, ts_name = s_name s, ts_host = s_host_id s,
          ts_host_name = (case host of None \<Rightarrow> [] | Some h \<Rightarrow> h_display_name h),
          ts_host_online = (case host of None \<Rightarrow> False | Some h \<Rightarrow> h_online h),
          ts_windows = map (\<lambda>k. Some (window_view p (s_tmux_id s) k)) (sorted_windows p sk),
          ts_created = s_created s, ts_attached = s_attached s, ts_last_activity = s_last_activity s\<rparr>)"

definition SessionViews :: "projection \<Rightarrow> TSession list" where
  "SessionViews p = map (session_view p) (go_keys (Sessions p))"

record HostView =
  hv_id :: string
  hv_name :: string
  hv_version :: string
  hv_local :: bool
  hv_online :: bool
  hv_sessions :: "TSession list"
  hv_last_seen :: time

definition HostViews :: "projection \<Rightarrow> HostView list" where
  "HostViews p =
     (let sessions = SessionViews p in
      map (\<lambda>k. let h = the (fmlookup (Hosts p) k) in
        \<lparr>hv_id = h_id h, hv_name = h_display_name h, hv_version = h_version h, hv_local = h_local h,
         hv_online = h_online h, hv_sessions = filter (\<lambda>s. ts_host s = h_id h) sessions,
         hv_last_seen = h_last_seen h\<rparr>) (go_keys (Hosts p)))"

definition ToolEventViews :: "projection \<Rightarrow> Event list" where
  "ToolEventViews p = map (\<lambda>e.
     \<lparr>ev_tool = te_tool e, ev_status = te_status e, ev_host = te_host_id e, ev_host_name = [],
      ev_session = te_session e, ev_window = fst (atoi (te_window e)), ev_pane = te_pane e,
      ev_message = te_message e, ev_timestamp = te_timestamp e, ev_auto_detected = te_auto_detected e\<rparr>)
     (map_values (ToolEvents p))"

text \<open>\<open>int64(f)\<close> truncates; outside the range of \<open>int64\<close> Go leaves the result open (\<open>wild\<close>).\<close>

definition trunc64 :: "(rat \<Rightarrow> int) \<Rightarrow> rat \<Rightarrow> int" where
  "trunc64 wild r =
     (let t = (if r < 0 then - \<lfloor>- r\<rfloor> else \<lfloor>r\<rfloor>) in if - (2 ^ 63) \<le> t \<and> t < 2 ^ 63 then t else wild r)"

definition int64Slice :: "(rat \<Rightarrow> int) \<Rightarrow> gval option \<Rightarrow> int list" where
  "int64Slice wild v =
     (case v of
        Some (GInts xs) \<Rightarrow> (case xs of None \<Rightarrow> [] | Some ys \<Rightarrow> ys)
      | Some (GSlice xs) \<Rightarrow> (case xs of
          None \<Rightarrow> []
        | Some vs \<Rightarrow> concat (map (\<lambda>x. case x of GInt i \<Rightarrow> [i] | GFloat r \<Rightarrow> [trunc64 wild r] | _ \<Rightarrow> []) vs))
      | _ \<Rightarrow> [])"

definition ActivityViews :: "(rat \<Rightarrow> int) \<Rightarrow> projection \<Rightarrow> activity_snapshot list" where
  "ActivityViews wild p = map (\<lambda>v.
     (case a_data v of
        GMap (Some data) \<Rightarrow>
          \<lparr>as_host = a_host_id v, as_session = a_session v,
           as_idle_seconds = (case fmlookup data ''idle_seconds'' of Some (GFloat r) \<Rightarrow> r | _ \<Rightarrow> 0),
           as_sparkline = int64Slice wild (fmlookup data ''sparkline''),
           as_total_bytes = (case fmlookup data ''total_bytes'' of Some (GInt i) \<Rightarrow> i | _ \<Rightarrow> 0)\<rparr>
      | _ \<Rightarrow> \<lparr>as_host = a_host_id v, as_session = a_session v, as_idle_seconds = 0, as_sparkline = [], as_total_bytes = 0\<rparr>))
     (map_values (Activities p))"

lemma go_keys_keep: "mset (go_keys (fm_keep P m)) = filter_mset (\<lambda>k. case fmlookup m k of None \<Rightarrow> False | Some v \<Rightarrow> P k v) (mset (go_keys m))"
proof -
  have "distinct (go_keys (fm_keep P m))" "distinct (filter (\<lambda>k. case fmlookup m k of None \<Rightarrow> False | Some v \<Rightarrow> P k v) (go_keys m))"
    by simp_all
  moreover have "set (go_keys (fm_keep P m)) = set (filter (\<lambda>k. case fmlookup m k of None \<Rightarrow> False | Some v \<Rightarrow> P k v) (go_keys m))"
    by (auto simp: fm_keep_has go_has_def split: option.splits)
  ultimately have "mset (go_keys (fm_keep P m)) = mset (filter (\<lambda>k. case fmlookup m k of None \<Rightarrow> False | Some v \<Rightarrow> P k v) (go_keys m))"
    using set_eq_iff_mset_eq_distinct by blast
  then show ?thesis by simp
qed

text \<open>Grouping a map by a foreign key that is present loses and duplicates nothing.\<close>

lemma group_by_key:
  assumes "\<And>k v. fmlookup m k = Some v \<Longrightarrow> go_has n (f v)"
  shows "(\<Sum>j\<in>#mset (go_keys n). mset (go_keys (fm_keep (\<lambda>_ v. f v = j) m))) = mset (go_keys m)"
proof -
  let ?g = "\<lambda>k. f (the (fmlookup m k))"
  have "mset (go_keys (fm_keep (\<lambda>_ v. f v = j) m)) = filter_mset (\<lambda>k. ?g k = j) (mset (go_keys m))" for j
    unfolding go_keys_keep by (rule filter_mset_cong) (auto simp: go_has_def)
  moreover have "(\<Sum>j\<in>#mset js. filter_mset (\<lambda>k. ?g k = j) (mset ks)) = mset ks"
    if "distinct js" "\<forall>k\<in>set ks. ?g k \<in> set js" for js and ks :: "'a list"
    using that
  proof (induction ks)
    case (Cons k ks)
    have "(\<Sum>j\<in>#mset js. (if ?g k = j then {#k#} else {#}) + filter_mset (\<lambda>k. ?g k = j) (mset ks)) =
      (\<Sum>j\<in>#mset js. if ?g k = j then {#k#} else {#}) + mset ks"
      using Cons by (simp add: sum_mset.distrib)
    moreover have "(\<Sum>j\<in>#mset js. if ?g k = j then {#k#} else {#}) = {#k#}"
    proof -
      have one: "count (mset js) (?g k) = 1" using Cons.prems by (simp add: distinct_count_atmost_1)
      have rep: "(\<Sum>j\<in>#M. if x = j then {#k#} else {#}) = replicate_mset (count M x) k" for M x
        by (induction M) auto
      show ?thesis unfolding rep one by simp
    qed
    moreover have "(\<Sum>j\<in>#mset js. filter_mset (\<lambda>k. ?g k = j) (mset (k # ks))) =
      (\<Sum>j\<in>#mset js. (if ?g k = j then {#k#} else {#}) + filter_mset (\<lambda>k. ?g k = j) (mset ks))"
      by (rule arg_cong [where f = sum_mset], rule image_mset_cong) auto
    ultimately show ?case by simp
  qed simp
  ultimately show ?thesis
    using assms by (simp add: go_has_def)
qed

lemma sum_mset_UN: "(\<Sum>x\<in>#(\<Sum>j\<in>#S. W j). F x) = (\<Sum>j\<in>#S. \<Sum>x\<in>#W j. F x)"
  by (induction S) (auto simp: image_mset_union)

lemma mset_concat_map: "mset (concat (map f xs)) = (\<Sum>x\<in>#mset xs. mset (f x))"
  by (induction xs) auto

lemma image_mset_sum: "image_mset g (\<Sum>x\<in>#M. F x) = (\<Sum>x\<in>#M. image_mset g (F x))"
  by (induction M) auto

lemma sorted_index_keys:
  "sorted (map (\<lambda>k. (f k :: int)) (sort_key (\<lambda>k. (f k, k)) (ks :: 'k::linorder list)))"
proof -
  have "sorted (map (\<lambda>k. (f k, k)) (sort_key (\<lambda>k. (f k, k)) ks))" by (rule sorted_sort_key)
  then show ?thesis by (auto simp: sorted_map less_eq_prod_def intro: less_imp_le elim!: sorted_wrt_mono_rel [rotated])
qed



text \<open>
  Activity survives the round trip: what a producer reported is what the activity
  view of the replaced map shows for its session.
\<close>

theorem activity_view_roundtrip:
  "ActivityViews wild (NewProjection\<lparr>Activities := fmupd (NewActivityKey h (as_session s)) (activity_of h s) fmempty\<rparr>) =
     [s\<lparr>as_host := h\<rparr>]"
proof -
  have "go_keys (fmupd k v fmempty) = [k]" for k :: ActivityKey and v :: Activity
    by (simp add: go_keys_def sorted_list_of_fset.rep_eq)
  then show ?thesis
    by (cases s) (simp add: ActivityViews_def map_values_def activity_of_def int64Slice_def append_nil_def NewProjection_def
        fmap_of_list.rep_eq split: list.splits)
qed

end
