(* ===== verification/TmuxClient.thy ===== *)
theory TmuxClient
  imports Views
begin

text \<open>
  The tmux client (\<open>pkg/tmux/client.go\<close>): the commands it builds and the parsers of their
  colon-separated output.  Running a command is the argument \<open>exec\<close>: the output, or the
  error text on the left.
\<close>

type_synonym tmux_exec = "string list \<Rightarrow> string + string"

definition time_Unix :: "int \<Rightarrow> time" where
  "time_Unix sec = (sec + 62135596800) * second"

definition colon :: char where "colon = CHR '':''"

text \<open>The rows of an output: trimmed, split into lines, empty and short ones skipped.\<close>

definition rows :: "nat \<Rightarrow> string \<Rightarrow> string list list" where
  "rows n out =
     filter (\<lambda>parts. \<not> length parts < n)
       (map (split_n n colon) (filter (\<lambda>line. line \<noteq> []) (split_char newline (trim_space out))))"

definition no_server :: "string \<Rightarrow> bool" where
  "no_server err = (contains_sub ''no server running'' err \<or> contains_sub ''no sessions'' err)"

definition session_of_parts :: "string list \<Rightarrow> TSession" where
  "session_of_parts parts =
     \<lparr>ts_id = parts ! 0, ts_name = parts ! 1, ts_host = [], ts_host_name = [], ts_host_online = False,
      ts_windows = [], ts_created = time_Unix (fst (atoi (parts ! 2))), ts_attached = (parts ! 3 \<noteq> ''0''),
      ts_last_activity = time_Unix (fst (atoi (parts ! 4)))\<rparr>"

definition ListSessions :: "tmux_exec \<Rightarrow> string + TSession list" where
  "ListSessions exec =
     (case exec [''list-sessions'', ''-F'', ''#{session_id}:#{session_name}:#{session_created}:#{session_attached}:#{session_activity}''] of
        Inl err \<Rightarrow> if no_server err then Inr [] else Inl err
      | Inr out \<Rightarrow> Inr (map session_of_parts (rows 5 out)))"

definition window_of_parts :: "string list \<Rightarrow> TWindow" where
  "window_of_parts parts =
     \<lparr>tw_id = parts ! 0, tw_session_id = parts ! 1, tw_name = parts ! 2, tw_index = fst (atoi (parts ! 3)),
      tw_active = (parts ! 4 = ''1''), tw_layout = parts ! 5, tw_panes = []\<rparr>"

definition ListWindows :: "tmux_exec \<Rightarrow> string \<Rightarrow> string + TWindow list" where
  "ListWindows exec sessionName =
     (case exec [''list-windows'', ''-t'', sessionName, ''-F'',
         ''#{window_id}:#{session_id}:#{window_name}:#{window_index}:#{window_active}:#{window_layout}''] of
        Inl err \<Rightarrow> Inl err
      | Inr out \<Rightarrow> Inr (map window_of_parts (rows 6 out)))"

definition pane_of_parts :: "string list \<Rightarrow> TPane" where
  "pane_of_parts parts =
     \<lparr>tp_id = parts ! 0, tp_window_id = parts ! 1, tp_session_id = parts ! 2, tp_index = fst (atoi (parts ! 3)),
      tp_active = (parts ! 4 = ''1''), tp_width = fst (atoi (parts ! 5)), tp_height = fst (atoi (parts ! 6)),
      tp_current_command = parts ! 7, tp_pid = fst (atoi (parts ! 8))\<rparr>"

definition pane_format :: string where
  "pane_format = ''#{pane_id}:#{window_id}:#{session_id}:#{pane_index}:#{pane_active}:#{pane_width}:#{pane_height}:#{pane_current_command}:#{pane_pid}''"

definition ListPanes :: "tmux_exec \<Rightarrow> string \<Rightarrow> string + TPane list" where
  "ListPanes exec target =
     (case exec [''list-panes'', ''-t'', target, ''-F'', pane_format] of
        Inl err \<Rightarrow> Inl err
      | Inr out \<Rightarrow> Inr (map pane_of_parts (rows 9 out)))"

record PaneDetailed =
  pd_id :: string
  pd_session :: string
  pd_window :: int
  pd_pid :: int

definition ListAllPanesDetailed :: "tmux_exec \<Rightarrow> string + PaneDetailed list" where
  "ListAllPanesDetailed exec =
     (case exec [''list-panes'', ''-a'', ''-F'', ''#{pane_id}:#{session_name}:#{window_index}:#{pane_pid}''] of
        Inl err \<Rightarrow> if no_server err then Inr [] else Inl err
      | Inr out \<Rightarrow> Inr (map (\<lambda>parts. \<lparr>pd_id = parts ! 0, pd_session = parts ! 1,
          pd_window = fst (atoi (parts ! 2)), pd_pid = fst (atoi (parts ! 3))\<rparr>) (rows 4 out)))"

definition ListAllPanes :: "tmux_exec \<Rightarrow> string + TPane list" where
  "ListAllPanes exec =
     (case exec [''list-panes'', ''-a'', ''-F'', pane_format] of
        Inl err \<Rightarrow> if no_server err then Inr [] else Inl err
      | Inr out \<Rightarrow> Inr (map pane_of_parts (rows 9 out)))"

definition HasSession :: "tmux_exec \<Rightarrow> string \<Rightarrow> bool" where
  "HasSession exec name = (case exec [''has-session'', ''-t'', name] of Inl _ \<Rightarrow> False | Inr _ \<Rightarrow> True)"

definition exec_error :: "string + string \<Rightarrow> string option" where
  "exec_error r = (case r of Inl e \<Rightarrow> Some e | Inr _ \<Rightarrow> None)"

definition SelectWindow :: "tmux_exec \<Rightarrow> string \<Rightarrow> string \<Rightarrow> string option" where
  "SelectWindow exec session index = exec_error (exec [''select-window'', ''-t'', session @ '':'' @ index])"

definition SelectPane :: "tmux_exec \<Rightarrow> string \<Rightarrow> string option" where
  "SelectPane exec target = exec_error (exec [''select-pane'', ''-t'', target])"

definition NewSession :: "tmux_exec \<Rightarrow> string \<Rightarrow> string option" where
  "NewSession exec name = exec_error (exec [''new-session'', ''-d'', ''-s'', name])"

datatype new_window_error = TmuxFailed string | BadWindowIndex string

definition NewWindow :: "tmux_exec \<Rightarrow> string \<Rightarrow> new_window_error + int" where
  "NewWindow exec sessionName =
     (case exec [''new-window'', ''-P'', ''-F'', ''#{window_index}'', ''-t'', sessionName] of
        Inl err \<Rightarrow> Inl (TmuxFailed err)
      | Inr out \<Rightarrow> (case atoi (trim_space out) of (i, ok) \<Rightarrow> if ok then Inr i else Inl (BadWindowIndex out)))"

definition RenameSession :: "tmux_exec \<Rightarrow> string \<Rightarrow> string \<Rightarrow> string option" where
  "RenameSession exec oldName newName = exec_error (exec [''rename-session'', ''-t'', oldName, newName])"

definition CapturePaneContent :: "tmux_exec \<Rightarrow> string \<Rightarrow> string + string" where
  "CapturePaneContent exec paneID = exec [''capture-pane'', ''-t'', paneID, ''-p'']"

definition SetMouse :: "tmux_exec \<Rightarrow> string \<Rightarrow> bool \<Rightarrow> string option" where
  "SetMouse exec sessionName on =
     exec_error (exec [''set-option'', ''-t'', sessionName, ''mouse'', if on then ''on'' else ''off''])"

subsection \<open>Reading back what tmux prints\<close>

definition plain :: "string \<Rightarrow> bool" where
  "plain s = (colon \<notin> set s \<and> newline \<notin> set s)"

text \<open>The line tmux prints for a pane, and the output of the command.\<close>

definition pane_line :: "TPane \<Rightarrow> string" where
  "pane_line q = join_with [colon]
     [tp_id q, tp_window_id q, tp_session_id q, itoa (tp_index q), if tp_active q then ''1'' else ''0'',
      itoa (tp_width q), itoa (tp_height q), tp_current_command q, itoa (tp_pid q)]"

definition pane_output :: "TPane list \<Rightarrow> string" where
  "pane_output qs = concat (map (\<lambda>q. pane_line q @ [newline]) qs)"

definition int64 :: "int \<Rightarrow> bool" where
  "int64 i = (- (2 ^ 63) \<le> i \<and> i < 2 ^ 63)"

definition plain_pane :: "TPane \<Rightarrow> bool" where
  "plain_pane q =
     (plain (tp_id q) \<and> plain (tp_window_id q) \<and> plain (tp_session_id q) \<and> plain (tp_current_command q) \<and>
      int64 (tp_index q) \<and> int64 (tp_width q) \<and> int64 (tp_height q) \<and> int64 (tp_pid q) \<and>
      is_prefix ''%'' (tp_id q))"

lemma itoa_chars: "c \<in> set (itoa i) \<Longrightarrow> is_dec c \<or> c = CHR ''-''"
  using dec_digits_is_dec by (auto simp: itoa_def list_all_iff split: if_splits)

lemma plain_itoa [simp]: "plain (itoa i)"
proof -
  have "\<not> is_dec colon" "colon \<noteq> CHR ''-''" "\<not> is_dec newline" "newline \<noteq> CHR ''-''" by code_simp+
  with itoa_chars [of _ i] show ?thesis by (auto simp: plain_def)
qed

lemma plain_digit [simp]: "plain ''1''" "plain ''0''"
  by code_simp+

lemma split_n_all: "length (split_char c s) \<le> n \<Longrightarrow> split_n n c s = split_char c s"
  by (simp add: split_n_def Let_def)

lemma pane_line_split:
  assumes "plain_pane q"
  shows "pane_of_parts (split_n 9 colon (pane_line q)) = q" and "length (split_n 9 colon (pane_line q)) = 9"
    and "newline \<notin> set (pane_line q)"
proof -
  let ?ws = "[tp_id q, tp_window_id q, tp_session_id q, itoa (tp_index q), if tp_active q then ''1'' else ''0'',
      itoa (tp_width q), itoa (tp_height q), tp_current_command q, itoa (tp_pid q)]"
  have pl: "\<forall>w\<in>set ?ws. plain w" using assms by (simp add: plain_pane_def)
  then have "split_char colon (pane_line q) = ?ws"
    unfolding pane_line_def by (intro split_join) (simp, simp add: plain_def)
  then have s: "split_n 9 colon (pane_line q) = ?ws" using split_n_all [of colon "pane_line q" 9] by simp
  show "length (split_n 9 colon (pane_line q)) = 9" by (simp add: s)
  show "pane_of_parts (split_n 9 colon (pane_line q)) = q"
    unfolding s using assms by (cases q) (simp add: pane_of_parts_def plain_pane_def int64_def atoi_itoa)
  have nl: "newline \<notin> set (join_with [colon] ws)" if "\<forall>w\<in>set ws. plain w" for ws
  proof -
    have "newline \<noteq> colon" by code_simp
    with that show ?thesis by (induction "[colon]" ws rule: join_with.induct) (auto simp: plain_def)
  qed
  show "newline \<notin> set (pane_line q)" unfolding pane_line_def by (rule nl) (rule pl)
qed

lemma last_bytes:
  "\<forall>t\<in>set (map rev space_encodings). t \<noteq> [] \<and> (hd t = newline \<longrightarrow> t = [newline]) \<and> \<not> is_dec (hd t)"
  by code_simp

lemma trim_output:
  assumes "s \<noteq> []" and "hd s \<notin> set (bytes_of [9, 10, 11, 12, 13, 32, 194, 225, 226, 227])" and "is_dec (last s)"
  shows "trim_space (s @ [newline]) = s"
proof -
  let ?t = "map rev space_encodings"
  have left: "trim_left_upto n space_encodings (s @ [newline]) = s @ [newline]" for n
  proof -
    obtain c cs where s: "s = c # cs" using assms(1) by (cases s) auto
    have "\<forall>t\<in>set space_encodings. t \<noteq> [] \<longrightarrow> hd t \<noteq> c" using space_encodings_hd assms(2) s by fastforce
    then show ?thesis by (intro trim_left_upto_nospace [of _ c "cs @ [newline]"]) (simp_all add: s)
  qed
  obtain r rs where r: "rev s = r # rs" "is_dec r"
    using assms(1,3) by (metis hd_rev list.collapse rev_is_Nil_conv)
  have stop: "trim_left_upto n ?t (rev s) = rev s" for n
    by (rule trim_left_upto_nospace [of _ r rs]) (use r last_bytes in auto)
  have "\<exists>t\<in>set ?t. t \<noteq> [] \<and> is_prefix t (newline # rev s)"
  proof -
    have "\<exists>t\<in>set ?t. t = [newline]" by code_simp
    then show ?thesis by force
  qed
  then have "find (\<lambda>t. t \<noteq> [] \<and> is_prefix t (newline # rev s)) ?t \<noteq> None"
    unfolding find_None_iff by blast
  then obtain t where f: "find (\<lambda>t. t \<noteq> [] \<and> is_prefix t (newline # rev s)) ?t = Some t"
    by (cases "find (\<lambda>t. t \<noteq> [] \<and> is_prefix t (newline # rev s)) ?t") auto
  have "hd t = newline" using find_SomeD [OF f] by (cases t) auto
  then have "t = [newline]" using last_bytes find_SomeD [OF f] by blast
  with f stop have "trim_left_upto (Suc n) ?t (newline # rev s) = rev s" for n by simp
  then show ?thesis by (simp add: trim_space_def Let_def left)
qed

lemma pane_output_join:
  "qs \<noteq> [] \<Longrightarrow> pane_output qs = join_with [newline] (map pane_line qs) @ [newline]"
  by (induction qs rule: list_nonempty_induct) (auto simp: pane_output_def neq_Nil_conv)

lemma join_ends:
  assumes "qs \<noteq> []" and "\<forall>q\<in>set qs. plain_pane q"
  shows "join_with [newline] (map pane_line qs) \<noteq> [] \<and> hd (join_with [newline] (map pane_line qs)) = CHR ''%'' \<and>
    is_dec (last (join_with [newline] (map pane_line qs)))"
proof -
  have digits: "itoa i \<noteq> [] \<and> is_dec (last (itoa i))" for i
  proof -
    have "dec_digits n \<noteq> [] \<and> is_dec (last (dec_digits n))" for n
      using dec_digits_is_dec [of n] dec_digits_hd [of n] last_in_set by (auto simp: list_all_iff)
    then show ?thesis by (simp add: itoa_def)
  qed
  have line: "\<exists>cs. pane_line q = CHR ''%'' # cs \<and> is_dec (last (pane_line q))" if "plain_pane q" for q
  proof -
    from that have "is_prefix ''%'' (tp_id q)" by (simp only: plain_pane_def)
    then obtain x where "tp_id q = CHR ''%'' # x" unfolding is_prefix_append by auto
    then show ?thesis using digits by (simp add: pane_line_def)
  qed
  show ?thesis using assms
  proof (induction qs rule: list_nonempty_induct)
    case (single q)
    then show ?case using line [of q] by auto
  next
    case (cons q qs)
    obtain cs where "pane_line q = CHR ''%'' # cs" using line [of q] cons.prems by auto
    with cons show ?case by (cases qs) auto
  qed
qed

text \<open>
  Panes are read back as tmux prints them.  For panes whose text fields contain no
  colon and no line break, whose numbers fit 64 bits and whose identifiers start with a
  percent sign, \<open>ListPanes\<close> returns exactly the panes that were printed, in order.
\<close>

theorem list_panes_roundtrip:
  assumes "\<forall>q\<in>set qs. plain_pane q" and "exec [''list-panes'', ''-t'', target, ''-F'', pane_format] = Inr (pane_output qs)"
  shows "ListPanes exec target = Inr qs"
proof (cases "qs = []")
  case True
  then have "rows 9 (pane_output qs) = []"
    by (simp add: pane_output_def rows_def trim_space_def Let_def)
  with assms True show ?thesis by (simp add: ListPanes_def)
next
  case False
  let ?s = "join_with [newline] (map pane_line qs)"
  note e = join_ends [OF False assms(1)]
  have pc: "CHR ''%'' \<notin> set (bytes_of [9, 10, 11, 12, 13, 32, 194, 225, 226, 227])" by code_simp
  have "trim_space (?s @ [newline]) = ?s" by (rule trim_output) (use e pc in simp_all)
  moreover have "split_char newline ?s = map pane_line qs"
    by (rule split_join) (use False assms(1) pane_line_split(3) in auto)
  moreover have ne: "pane_line q \<noteq> []" if "q \<in> set qs" for q
    using join_ends [of "[q]"] assms(1) that by simp
  ultimately have "rows 9 (pane_output qs) = map (split_n 9 colon \<circ> pane_line) qs"
    using assms(1) pane_line_split(2) by (simp add: rows_def pane_output_join [OF False] filter_id_conv)
  moreover have "map pane_of_parts (map (split_n 9 colon \<circ> pane_line) qs) = qs"
    using assms(1) pane_line_split(1) by (induction qs) auto
  ultimately show ?thesis using assms(2) by (simp add: ListPanes_def)
qed

definition demo_tpane :: TPane where
  "demo_tpane = \<lparr>tp_id = ''%3'', tp_window_id = ''@1'', tp_session_id = ''$0'', tp_index = 0, tp_active = True,
     tp_width = 80, tp_height = 24, tp_current_command = ''zsh'', tp_pid = 4711\<rparr>"

theorem list_panes_roundtrip_witness:
  "ListPanes (\<lambda>_. Inr (pane_output [demo_tpane])) ''@1'' = Inr [demo_tpane]"
proof (rule list_panes_roundtrip)
  have "plain ''%3''" "plain ''@1''" "plain ''$0''" "plain ''zsh''" by code_simp+
  then show "\<forall>q\<in>set [demo_tpane]. plain_pane q" by (simp add: demo_tpane_def plain_pane_def int64_def)
qed simp

text \<open>
  A colon in a window name shifts the fields.  tmux allows it in window names, and
  the format puts the name before the index: the parsed window loses the rest of its name
  and its index.
\<close>

theorem window_name_colon:
  "ListWindows (\<lambda>_. Inr ''@1:$0:db:main:3:1:b25d'') s =
     Inr [\<lparr>tw_id = ''@1'', tw_session_id = ''$0'', tw_name = ''db'', tw_index = 0, tw_active = False,
           tw_layout = ''1:b25d'', tw_panes = []\<rparr>]"
proof -
  have "rows 6 ''@1:$0:db:main:3:1:b25d'' = [[''@1'', ''$0'', ''db'', ''main'', ''3'', ''1:b25d'']]" by code_simp
  moreover have "fst (atoi ''main'') = 0" by code_simp
  ultimately show ?thesis by (simp add: ListWindows_def window_of_parts_def)
qed

end
