(* ===== verification/SessionManager.thy ===== *)
theory SessionManager
  imports TmuxClient
begin

text \<open>
  The session manager of a host (\<open>pkg/state/manager.go\<close>): the map of tmux sessions, the
  events it broadcasts when discovery reports a new set, and the lookups.  tmux is the
  argument \<open>exec\<close> of the client; other operations do not run between the broadcasts of
  one update.
\<close>

record StateEvent =
  se_type :: string
  se_session :: string
  se_host :: string
  se_host_name :: string

definition state_event :: "string \<Rightarrow> string \<Rightarrow> StateEvent" where
  "state_event kind session = \<lparr>se_type = kind, se_session = session, se_host = [], se_host_name = []\<rparr>"

record session_manager =
  mg_sessions :: "(string, TSession) fmap"
  mg_subs :: "StateEvent fanout"

definition NewManager :: session_manager where
  "NewManager = \<lparr>mg_sessions = fmempty, mg_subs = fan_init\<rparr>"

definition manager_Subscribe :: "session_manager \<Rightarrow> session_manager \<times> nat" where
  "manager_Subscribe m = (case fan_subscribe 64 (mg_subs m) of (f, i) \<Rightarrow> (m\<lparr>mg_subs := f\<rparr>, i))"

definition manager_Unsubscribe :: "nat \<Rightarrow> session_manager \<Rightarrow> session_manager" where
  "manager_Unsubscribe i m = m\<lparr>mg_subs := fan_unsubscribe i (mg_subs m)\<rparr>"

definition manager_broadcast :: "session_manager \<Rightarrow> StateEvent \<Rightarrow> session_manager" where
  "manager_broadcast m e = m\<lparr>mg_subs := fan_broadcast e (mg_subs m)\<rparr>"

text \<open>A window whose panes cannot be listed keeps none; a session whose windows cannot stays as it was.\<close>

definition loadSessionDetails :: "tmux_exec \<Rightarrow> TSession \<Rightarrow> TSession" where
  "loadSessionDetails exec s =
     (case ListWindows exec (ts_name s) of
        Inl _ \<Rightarrow> s
      | Inr windows \<Rightarrow> s\<lparr>ts_windows := map (\<lambda>w. Some (case ListPanes exec (tw_id w) of
            Inl _ \<Rightarrow> w | Inr panes \<Rightarrow> w\<lparr>tw_panes := map Some panes\<rparr>)) windows\<rparr>)"

definition session_map :: "TSession list \<Rightarrow> (string, TSession) fmap" where
  "session_map ss = foldl (\<lambda>m s. fmupd (ts_name s) s m) fmempty ss"

definition session_events :: "(string, TSession) fmap \<Rightarrow> (string, TSession) fmap \<Rightarrow> StateEvent list" where
  "session_events old nxt =
     map (state_event ''session-removed'') (filter (\<lambda>n. \<not> go_has nxt n) (go_keys old)) @
     map (state_event ''session-added'') (filter (\<lambda>n. \<not> go_has old n) (go_keys nxt)) @
     [state_event ''sessions-changed'' []]"

definition UpdateSessions :: "tmux_exec \<Rightarrow> TSession list \<Rightarrow> session_manager \<Rightarrow> session_manager" where
  "UpdateSessions exec sessions m =
     (let newMap = session_map (map (loadSessionDetails exec) sessions)
      in (foldl manager_broadcast m (session_events (mg_sessions m) newMap))\<lparr>mg_sessions := newMap\<rparr>)"

definition SessionForPane :: "string \<Rightarrow> session_manager \<Rightarrow> string" where
  "SessionForPane paneID m =
     (case find (\<lambda>s. list_ex (\<lambda>w. case w of None \<Rightarrow> False | Some w \<Rightarrow>
          list_ex (\<lambda>q. case q of None \<Rightarrow> False | Some q \<Rightarrow> tp_id q = paneID) (tw_panes w)) (ts_windows s))
        (map_values (mg_sessions m)) of
        None \<Rightarrow> [] | Some s \<Rightarrow> ts_name s)"

definition controlSessionName :: string where "controlSessionName = ''tmuxatlas-ctrl''"

definition GetSessions :: "tmux_exec \<Rightarrow> session_manager \<Rightarrow> session_manager \<times> TSession list" where
  "GetSessions exec m =
     (case ListSessions exec of
        Inl _ \<Rightarrow> (m, map_values (mg_sessions m))
      | Inr sessions \<Rightarrow>
          let loaded = map (loadSessionDetails exec) (filter (\<lambda>s. ts_name s \<noteq> controlSessionName) sessions)
          in (m\<lparr>mg_sessions := session_map loaded\<rparr>, loaded))"

lemma load_name [simp]: "ts_name (loadSessionDetails exec s) = ts_name s"
  by (simp add: loadSessionDetails_def split: sum.splits)

lemma session_map_has: "go_has (session_map ss) n \<longleftrightarrow> n \<in> ts_name ` set ss"
proof -
  have "go_has (foldl (\<lambda>m s. fmupd (ts_name s) s m) m ss) n \<longleftrightarrow> n \<in> ts_name ` set ss \<or> go_has m n" for m
    by (induction ss arbitrary: m) auto
  then show ?thesis by (simp add: session_map_def)
qed

lemma broadcast_all: "mg_subs (foldl manager_broadcast m es) = foldl (\<lambda>f e. fan_broadcast e f) (mg_subs m) es"
  by (induction es arbitrary: m) (simp_all add: manager_broadcast_def)

lemma broadcast_buffer:
  assumes "fan_find i f = Some ch" and "length (fc_buf ch) + length es \<le> fc_cap ch"
  shows "fan_buffer i (foldl (\<lambda>f e. fan_broadcast e f) f es) = fc_buf ch @ es"
  using assms
proof (induction es arbitrary: f ch)
  case (Cons e es)
  from Cons.prems have "fan_find i (fan_broadcast e f) = Some (ch\<lparr>fc_buf := fc_buf ch @ [e]\<rparr>)"
    by (simp add: fan_find_def fan_broadcast_def find_map_id fan_send_def)
  from Cons.IH [OF this] Cons.prems show ?case by simp
qed (simp add: fan_buffer_def)

text \<open>
  Session changes are announced exactly.  An update leaves the reported sessions
  and no others; a subscriber with room in its channel gets one removal for each session
  that went away, one addition for each new one, and the change event last.
\<close>

theorem update_sessions_announces:
  assumes "m' = UpdateSessions exec sessions m" and "fan_find i (mg_subs m) = Some ch"
    and "length (fc_buf ch) + length (session_events (mg_sessions m) (mg_sessions m')) \<le> fc_cap ch"
  shows "fm_keys (mg_sessions m') = ts_name ` set sessions \<and>
    fan_buffer i (mg_subs m') = fc_buf ch @ session_events (mg_sessions m) (mg_sessions m') \<and>
    (\<forall>n. count_list (session_events (mg_sessions m) (mg_sessions m')) (state_event ''session-removed'' n) =
       (if go_has (mg_sessions m) n \<and> n \<notin> ts_name ` set sessions then 1 else 0)) \<and>
    (\<forall>n. count_list (session_events (mg_sessions m) (mg_sessions m')) (state_event ''session-added'' n) =
       (if \<not> go_has (mg_sessions m) n \<and> n \<in> ts_name ` set sessions then 1 else 0))"
proof -
  have m': "mg_sessions m' = session_map (map (loadSessionDetails exec) sessions)"
    by (simp add: assms(1) UpdateSessions_def Let_def)
  have has: "go_has (mg_sessions m') n \<longleftrightarrow> n \<in> ts_name ` set sessions" for n
    by (simp add: m' session_map_has image_image)
  have subs: "mg_subs m' = foldl (\<lambda>f e. fan_broadcast e f) (mg_subs m) (session_events (mg_sessions m) (mg_sessions m'))"
    unfolding m' by (simp add: assms(1) UpdateSessions_def Let_def broadcast_all)
  have one: "count_list (map (state_event k) (filter P ns)) (state_event k n) = (if n \<in> set ns \<and> P n then 1 else 0)"
    if "distinct ns" for k P n and ns :: "string list"
    using that by (induction ns) (auto simp: state_event_def)
  have zero: "count_list (map (state_event k) ns) (state_event k' n) = 0" if "k \<noteq> k'" for k k' ns n
    using that by (induction ns) (auto simp: state_event_def)
  have "fan_buffer i (mg_subs m') = fc_buf ch @ session_events (mg_sessions m) (mg_sessions m')"
    unfolding subs by (rule broadcast_buffer) (use assms in auto)
  moreover have "fm_keys (mg_sessions m') = ts_name ` set sessions" by (auto simp: fm_keys_def has)
  ultimately show ?thesis
    by (simp add: session_events_def one zero has) (simp add: state_event_def)
qed

theorem update_sessions_announces_witness:
  "let m = fst (manager_Subscribe NewManager) in
   fan_buffer 0 (mg_subs (UpdateSessions (\<lambda>_. Inl ''gone'') [] m)) = [state_event ''sessions-changed'' []]"
proof -
  let ?m = "fst (manager_Subscribe NewManager)"
  have f: "fan_find 0 (mg_subs ?m) = Some \<lparr>fc_id = 0, fc_cap = 64, fc_buf = [], fc_closed = False\<rparr>"
    by (simp add: manager_Subscribe_def NewManager_def fan_subscribe_def fan_init_def fan_find_def)
  have s: "mg_sessions ?m = fmempty" by (simp add: manager_Subscribe_def NewManager_def fan_subscribe_def)
  have e: "session_events (mg_sessions ?m) (mg_sessions (UpdateSessions (\<lambda>_. Inl ''gone'') [] ?m)) = [state_event ''sessions-changed'' []]"
    by (simp add: session_events_def s UpdateSessions_def session_map_def go_keys_def sorted_list_of_fset.rep_eq)
  from update_sessions_announces [OF refl f, of "\<lambda>_. Inl ''gone''" "[]"] show ?thesis
    by (simp add: e Let_def)
qed

end
