(* ===== verification/AgentProbe.thy ===== *)
theory AgentProbe
  imports ToolWatch GoStrings
begin

text \<open>
  Recognising agents: the process-tree probe (\<open>pkg/toolevents/detect.go\<close>, with \<open>/proc\<close> as
  an argument) and the prompt recogniser (\<open>promptparser.go\<close>), whose regular expressions
  are written out as matchers on bytes.  Case folding is ASCII.
\<close>

subsection \<open>Process tree\<close>

definition matchBinaryName :: "string list \<Rightarrow> string \<Rightarrow> bool" where
  "matchBinaryName args name = (case args of [] \<Rightarrow> False | a # _ \<Rightarrow> filepath_base a = name)"

definition matchNodeScript :: "string list \<Rightarrow> string \<Rightarrow> bool" where
  "matchNodeScript args name =
     (if length args < 2 then False
      else let base = filepath_base (hd args) in
        if base \<noteq> ''node'' \<and> base \<noteq> ''nodejs'' then False
        else list_ex (\<lambda>arg. \<not> is_prefix ''-'' arg \<and> contains_sub name (to_lower arg)) (tl args))"

definition agentPatterns :: "(string \<times> (string list \<Rightarrow> bool)) list" where
  "agentPatterns =
     [(ToolClaude, \<lambda>args. matchBinaryName args ''claude''),
      (ToolCopilot, \<lambda>args. matchBinaryName args ''copilot'' \<or> matchNodeScript args ''copilot''),
      (ToolCodex, \<lambda>args. matchBinaryName args ''codex'' \<or> matchNodeScript args ''codex''),
      (ToolOpenCode, \<lambda>args. matchBinaryName args ''opencode'')]"

definition match_agent :: "string list \<Rightarrow> string option" where
  "match_agent args =
     (if args = [] then None else map_option fst (find (\<lambda>p. snd p args) agentPatterns))"

fun first_some :: "('a \<Rightarrow> 'b option) \<Rightarrow> 'a list \<Rightarrow> 'b option" where
  "first_some f [] = None"
| "first_some f (x # xs) = (case f x of None \<Rightarrow> first_some f xs | Some y \<Rightarrow> Some y)"

text \<open>A child without a command line is skipped together with its own children.\<close>

definition DetectAgentInProcessTree :: "(int \<Rightarrow> int list) \<Rightarrow> (int \<Rightarrow> string list) \<Rightarrow> int \<Rightarrow> string option" where
  "DetectAgentInProcessTree children cmdline pid =
     first_some (\<lambda>cpid.
       if cmdline cpid = [] then None
       else case match_agent (cmdline cpid) of
         Some tool \<Rightarrow> Some tool
       | None \<Rightarrow> first_some (\<lambda>gpid. match_agent (cmdline gpid)) (children cpid))
     (children pid)"

definition parsePIDList :: "string \<Rightarrow> int list" where
  "parsePIDList s = concat (map (\<lambda>f. case atoi f of (pid, ok) \<Rightarrow> if ok then [pid] else []) (fields s))"

definition readCmdline :: "string option \<Rightarrow> string list" where
  "readCmdline data =
     (case data of
        None \<Rightarrow> []
      | Some bytes \<Rightarrow>
          let nul = char_of (0::nat); s = trim_right_chars [nul] bytes in
          if s = [] then [] else split_char nul s)"

fun status_ppid :: "string \<Rightarrow> string list \<Rightarrow> bool" where
  "status_ppid ppid [] = False"
| "status_ppid ppid (line # rest) =
     (if is_prefix (''PPid:'' @ bytes_of [9]) line then trim_prefix (''PPid:'' @ bytes_of [9]) line = ppid
      else status_ppid ppid rest)"

text \<open>\<open>entries\<close> lists \<open>/proc\<close> as (name, is a directory); \<open>status\<close> reads \<open>/proc/pid/status\<close>.\<close>

definition getChildPIDsFallback :: "(string \<times> bool) list option \<Rightarrow> (int \<Rightarrow> string option) \<Rightarrow> int \<Rightarrow> int list" where
  "getChildPIDsFallback entries status ppid =
     (case entries of
        None \<Rightarrow> []
      | Some es \<Rightarrow> concat (map (\<lambda>(name, isdir).
          if \<not> isdir then []
          else case atoi name of (pid, ok) \<Rightarrow>
            if \<not> ok then []
            else case status pid of
              None \<Rightarrow> []
            | Some data \<Rightarrow> if status_ppid (itoa ppid) (split_char (char_of (10::nat)) data) then [pid] else []) es))"

definition getChildPIDs ::
  "(int \<Rightarrow> string option) \<Rightarrow> (string \<times> bool) list option \<Rightarrow> (int \<Rightarrow> string option) \<Rightarrow> int \<Rightarrow> int list" where
  "getChildPIDs childrenFile entries status pid =
     (case childrenFile pid of
        None \<Rightarrow> getChildPIDsFallback entries status pid
      | Some data \<Rightarrow> parsePIDList data)"

lemma first_some_None: "first_some f xs = None \<longleftrightarrow> (\<forall>x\<in>set xs. f x = None)"
  by (induction xs) (auto split: option.splits)

lemma first_some_in: "first_some f xs = Some y \<Longrightarrow> \<exists>x\<in>set xs. f x = Some y"
  by (induction xs) (auto split: option.splits)

text \<open>
  The kernel's list of children is read back exactly: printing any 64-bit process
  identifiers separated by blanks and parsing the text yields the same identifiers in
  order.
\<close>

theorem parse_pid_list_roundtrip:
  assumes "\<forall>p\<in>set pids. - (2 ^ 63) \<le> p \<and> p < 2 ^ 63"
  shows "parsePIDList (join_with '' '' (map itoa pids)) = pids"
proof -
  have "fields (join_with '' '' (map itoa pids)) = map itoa pids"
    by (rule fields_join) (use itoa_visible in auto)
  moreover have "concat (map (\<lambda>f. case atoi f of (pid, ok) \<Rightarrow> if ok then [pid] else []) (map itoa pids)) = pids"
    using assms by (induction pids) (simp_all add: atoi_itoa)
  ultimately show ?thesis by (simp add: parsePIDList_def)
qed

theorem parse_pid_list_roundtrip_witness:
  "parsePIDList (join_with '' '' (map itoa [1, 4194304])) = [1, 4194304]"
  by (rule parse_pid_list_roundtrip) simp

text \<open>
  The probe finds an agent exactly when a child of the pane's process, or a child of
  a child that has a command line, matches one of the known patterns.
\<close>

theorem probe_finds_agents:
  "(DetectAgentInProcessTree children cmdline pid \<noteq> None) =
     (\<exists>c\<in>set (children pid). cmdline c \<noteq> [] \<and>
        (match_agent (cmdline c) \<noteq> None \<or> (\<exists>g\<in>set (children c). match_agent (cmdline g) \<noteq> None)))"
proof -
  have some: "first_some f xs \<noteq> None \<longleftrightarrow> (\<exists>x\<in>set xs. f x \<noteq> None)" for f :: "int \<Rightarrow> string option" and xs
    using first_some_None [of f xs] by (cases "first_some f xs") auto
  have child: "(if cmdline c = [] then None
       else case match_agent (cmdline c) of Some tool \<Rightarrow> Some tool
         | None \<Rightarrow> first_some (\<lambda>gpid. match_agent (cmdline gpid)) (children c)) \<noteq> None \<longleftrightarrow>
     cmdline c \<noteq> [] \<and> (match_agent (cmdline c) \<noteq> None \<or>
       first_some (\<lambda>gpid. match_agent (cmdline gpid)) (children c) \<noteq> None)" for c
    by (cases "match_agent (cmdline c)") simp_all
  show ?thesis unfolding DetectAgentInProcessTree_def some child ..
qed

theorem probe_finds_agents_witness:
  "DetectAgentInProcessTree (\<lambda>p. if p = 1 then [2] else if p = 2 then [3] else [])
     (\<lambda>p. if p = 3 then [''/usr/bin/claude''] else [''bash'']) 1 \<noteq> None"
proof -
  have "match_agent [''/usr/bin/claude''] \<noteq> None" by code_simp
  then show ?thesis unfolding probe_finds_agents by simp
qed

subsection \<open>Prompt recognition\<close>

text \<open>\<open>\s\<close>, \<open>\w\<close> and \<open>\d\<close> of Go's regular expressions are ASCII classes.\<close>

definition re_space :: "char \<Rightarrow> bool" where
  "re_space c = (byte_val c \<in> {9, 10, 12, 13, 32})"

definition re_alpha :: "char \<Rightarrow> bool" where
  "re_alpha c = (let n = byte_val c in (65 \<le> n \<and> n \<le> 90) \<or> (97 \<le> n \<and> n \<le> 122))"

definition re_word :: "char \<Rightarrow> bool" where
  "re_word c = (re_alpha c \<or> is_dec c \<or> c = CHR ''_'')"

definition strip_trailing :: "string \<Rightarrow> string" where
  "strip_trailing s = rev (dropWhile re_space (rev s))"

text \<open>\<open>(?i)\(y/n\)|\[Y/n\]|\[y/N\]|\byes\s*/\s*no\b\<close>; the flag covers all four branches.\<close>

definition yes_no_at :: "char option \<Rightarrow> string \<Rightarrow> bool" where
  "yes_no_at prev s =
     (is_prefix ''(y/n)'' s \<or> is_prefix ''[y/n]'' s \<or>
      ((case prev of None \<Rightarrow> True | Some c \<Rightarrow> \<not> re_word c) \<and> is_prefix ''yes'' s \<and>
       (let r = dropWhile re_space (drop 3 s) in
        is_prefix ''/'' r \<and>
        (let q = dropWhile re_space (drop 1 r) in
         is_prefix ''no'' q \<and> (case drop 2 q of [] \<Rightarrow> True | c # _ \<Rightarrow> \<not> re_word c)))))"

fun yes_no_from :: "char option \<Rightarrow> string \<Rightarrow> bool" where
  "yes_no_from prev [] = False"
| "yes_no_from prev (c # cs) = (yes_no_at prev (c # cs) \<or> yes_no_from (Some c) cs)"

definition yesNoPrompt :: "string \<Rightarrow> bool" where
  "yesNoPrompt s = yes_no_from None (to_lower s)"

text \<open>\<open>\([a-zA-Z]\)|\(esc\)|\(enter\)\<close>: all matches from left to right, not overlapping.\<close>

definition key_option_len :: "string \<Rightarrow> nat" where
  "key_option_len s =
     (case s of
        a # b # c # _ \<Rightarrow>
          if a = CHR ''('' \<and> re_alpha b \<and> c = CHR '')'' then 3
          else if is_prefix ''(esc)'' s then 5 else if is_prefix ''(enter)'' s then 7 else 0
      | _ \<Rightarrow> 0)"

function key_options :: "string \<Rightarrow> string list" where
  "key_options [] = []"
| "key_options (c # cs) =
     (let n = key_option_len (c # cs) in
      if n = 0 then key_options cs else take n (c # cs) # key_options (drop n (c # cs)))"
  by pat_completeness auto
termination by (relation "measure length") auto

definition uniqueStrings :: "string list \<Rightarrow> string list" where
  "uniqueStrings ss = fst (foldl (\<lambda>(out, seen) s.
     if to_lower s \<in> set seen then (out, seen) else (out @ [s], to_lower s # seen)) ([], []) ss)"

text \<open>\<open>^\s*\d+[.)]\s+\S\<close>\<close>

definition numberedOption :: "string \<Rightarrow> bool" where
  "numberedOption s =
     (let a = dropWhile re_space s; b = dropWhile is_dec a in
      a \<noteq> b \<and>
      (case b of
         [] \<Rightarrow> False
       | c # d \<Rightarrow> (c = CHR ''.'' \<or> c = CHR '')'') \<and> d \<noteq> [] \<and> re_space (hd d) \<and> dropWhile re_space d \<noteq> []))"

text \<open>\<open>[?:>]\s*$\<close>\<close>

definition inputPromptSuffix :: "string \<Rightarrow> bool" where
  "inputPromptSuffix s = (let b = strip_trailing s in b \<noteq> [] \<and> last b \<in> set ''?:>'')"

text \<open>The three alternatives of \<open>shellPrompt\<close>.\<close>

definition prompt_arrow :: string where "prompt_arrow = bytes_of [226, 157, 175]"

fun bare_prompt :: "string \<Rightarrow> bool" where
  "bare_prompt [] = True"
| "bare_prompt (c # cs) =
     (if re_space c \<or> c \<in> set ''$#%'' then bare_prompt cs
      else if is_prefix prompt_arrow (c # cs) then bare_prompt (drop 2 cs) else False)"

definition user_host_prompt :: "string \<Rightarrow> bool" where
  "user_host_prompt s =
     (let b = strip_trailing s in
      b \<noteq> [] \<and> list_all (\<lambda>c. \<not> re_space c) b \<and> last b \<in> set '':$#%'' \<and>
      list_ex (\<lambda>i. b ! i = CHR ''@'') [1..<length b - 2])"

definition path_prompt :: "string \<Rightarrow> bool" where
  "path_prompt s =
     (let b = strip_trailing s in
      length b \<ge> 2 \<and> hd b \<in> set ''~/'' \<and> last b \<in> set ''$#%'' \<and>
      list_all (\<lambda>c. re_word c \<or> c \<in> set ''/~.-'') (butlast (tl b)))"

definition shellPrompt :: "string \<Rightarrow> bool" where
  "shellPrompt s = (bare_prompt s \<or> user_host_prompt s \<or> path_prompt s)"

text \<open>\<open>(?i)(press enter|hit enter|press return|continue\??|proceed\??)\s*$\<close>\<close>

definition continuePrompt :: "string \<Rightarrow> bool" where
  "continuePrompt s =
     list_ex (has_suffix (strip_trailing (to_lower s)))
       [''press enter'', ''hit enter'', ''press return'', ''continue'', ''continue?'', ''proceed'', ''proceed?'']"

fun containsWord :: "string \<Rightarrow> bool" where
  "containsWord (a # b # s) = (re_alpha a \<and> re_alpha b \<or> containsWord (b # s))"
| "containsWord _ = False"

text \<open>The last ten lines that are not blank, trimmed.\<close>

definition prompt_tail :: "string \<Rightarrow> string list" where
  "prompt_tail content =
     (let lines = split_char newline (trim_right_chars [newline] content) in
      rev (take 10 (filter (\<lambda>l. l \<noteq> []) (map trim_space (rev lines)))))"

definition prompt_of_tail :: "string list \<Rightarrow> string option" where
  "prompt_of_tail tail =
     (if tail = [] then None
      else let block = join_with [newline] tail; lastLine = last tail in
        if yesNoPrompt block then Some ''Approval prompt detected''
        else if length (uniqueStrings (key_options block)) \<ge> 2 then Some ''Approval prompt detected''
        else if length (filter numberedOption tail) \<ge> 2 \<and> inputPromptSuffix lastLine
          then Some ''Selection prompt detected''
        else if continuePrompt lastLine then Some ''Input prompt detected''
        else if inputPromptSuffix lastLine \<and> \<not> shellPrompt lastLine \<and> length lastLine < 80 \<and>
            length lastLine > 3 \<and> containsWord lastLine
          then Some ''Input prompt detected''
        else None)"

definition DetectPrompt :: "string \<Rightarrow> string option" where
  "DetectPrompt content = prompt_of_tail (prompt_tail content)"

lemma trim_right_suffix:
  "trim_right_chars cs s \<noteq> [] \<Longrightarrow> trim_right_chars cs (a @ s) = a @ trim_right_chars cs s"
  by (auto simp add: trim_right_chars_def dropWhile_append)

lemma split_char_line:
  "split_char c (a @ c # s) = split_char c a @ split_char c s"
  by (induction a) (auto split: list.splits)

text \<open>
  Scrollback does not matter.  When the captured pane ends in ten lines that are not
  blank, any lines above them leave the verdict as it is.
\<close>

theorem prompt_ignores_scrollback:
  assumes "10 \<le> length (filter (\<lambda>l. l \<noteq> []) (map trim_space (split_char newline (trim_right_chars [newline] content))))"
  shows "DetectPrompt (scrollback @ newline # content) = DetectPrompt content"
proof -
  let ?body = "trim_right_chars [newline] content"
  have "?body \<noteq> []"
  proof
    assume "?body = []"
    with assms show False by (simp add: trim_space_def Let_def)
  qed
  then have "trim_right_chars [newline] (scrollback @ newline # content) = scrollback @ newline # ?body"
    using trim_right_suffix [of "[newline]" content "scrollback @ [newline]"] by simp
  then have "filter (\<lambda>l. l \<noteq> []) (map trim_space (rev (split_char newline (trim_right_chars [newline] (scrollback @ newline # content))))) =
    filter (\<lambda>l. l \<noteq> []) (map trim_space (rev (split_char newline ?body))) @
    filter (\<lambda>l. l \<noteq> []) (map trim_space (rev (split_char newline scrollback)))"
    by (simp add: split_char_line)
  moreover have "10 \<le> length (filter (\<lambda>l. l \<noteq> []) (map trim_space (rev (split_char newline ?body))))"
    using assms by (simp add: rev_map [symmetric] rev_filter [symmetric] del: rev_map)
  ultimately have "prompt_tail (scrollback @ newline # content) = prompt_tail content"
    by (simp add: prompt_tail_def Let_def)
  then show ?thesis by (simp add: DetectPrompt_def)
qed

theorem prompt_ignores_scrollback_witness:
  "DetectPrompt (''Overwrite (y/n)'' @ newline # join_with [newline] (replicate 10 ''a'')) =
     DetectPrompt (join_with [newline] (replicate 10 ''a''))"
proof -
  let ?c = "join_with [newline] (replicate 10 ''a'')"
  have a: "trim_space ''a'' = ''a''" by (rule trim_space_visible) (simp add: visible_letter)
  have "trim_right_chars [newline] ?c = ?c" by code_simp
  moreover have "split_char newline ?c = replicate 10 ''a''"
    by (rule split_join) (simp, code_simp)
  ultimately have "10 \<le> length (filter (\<lambda>l. l \<noteq> []) (map trim_space (split_char newline (trim_right_chars [newline] ?c))))"
    by (simp add: a)
  then show ?thesis by (rule prompt_ignores_scrollback)
qed

end
