(* ===== verification/ActivityRing.thy ===== *)
theory ActivityRing
  imports Views
begin

text \<open>
  The output-activity tracker (\<open>pkg/activity/tracker.go\<close>): twenty 15-second buckets per
  session in a ring.  The refinement says what the sparkline means: entry \<open>i\<close> is the number
  of bytes recorded in the \<open>i\<close>-th of the twenty intervals that end now.  Byte counters are
  integers (a counter would have to pass 2 to the 63 bytes to wrap).
\<close>

definition BucketDuration :: duration where "BucketDuration = 15 * second"
definition BucketCount :: nat where "BucketCount = 20"

record SessionActivity =
  sa_buckets :: "int list"
  sa_headIdx :: nat
  sa_headTime :: time
  sa_lastActive :: time
  sa_totalBytes :: int

definition truncate_time :: "time \<Rightarrow> duration \<Rightarrow> time" where
  "truncate_time t d = t - t mod d"

text \<open>The loop of \<open>steps\<close> rounds that clears the buckets the head moves over.\<close>

fun advance_steps :: "nat \<Rightarrow> SessionActivity \<Rightarrow> SessionActivity" where
  "advance_steps 0 sa = sa"
| "advance_steps (Suc k) sa =
     (let h = (sa_headIdx sa + 1) mod BucketCount
      in advance_steps k (sa\<lparr>sa_headIdx := h, sa_buckets := (sa_buckets sa)[h := 0]\<rparr>))"

definition advance :: "time \<Rightarrow> SessionActivity \<Rightarrow> SessionActivity" where
  "advance now sa =
     (let currentBucket = truncate_time now BucketDuration;
          elapsed = currentBucket - sa_headTime sa
      in if elapsed > 0
         then (advance_steps (nat (min (elapsed div BucketDuration) (int BucketCount))) sa)\<lparr>sa_headTime := currentBucket\<rparr>
         else sa)"

definition new_activity :: "time \<Rightarrow> SessionActivity" where
  "new_activity now = \<lparr>sa_buckets = replicate BucketCount 0, sa_headIdx = 0,
     sa_headTime = truncate_time now BucketDuration, sa_lastActive = 0, sa_totalBytes = 0\<rparr>"

definition record_bytes :: "time \<Rightarrow> int \<Rightarrow> SessionActivity \<Rightarrow> SessionActivity" where
  "record_bytes now n sa =
     (let sa = advance now (sa\<lparr>sa_lastActive := now, sa_totalBytes := sa_totalBytes sa + n\<rparr>)
      in sa\<lparr>sa_buckets := (sa_buckets sa)[sa_headIdx sa := sa_buckets sa ! sa_headIdx sa + n]\<rparr>)"

type_synonym activity_tracker = "(string, SessionActivity) fmap"

definition activity_Record :: "time \<Rightarrow> string \<Rightarrow> int \<Rightarrow> activity_tracker \<Rightarrow> activity_tracker" where
  "activity_Record now session n t =
     (let sa = (case fmlookup t session of None \<Rightarrow> new_activity now | Some sa \<Rightarrow> sa)
      in fmupd session (record_bytes now n sa) t)"

definition sparkline :: "SessionActivity \<Rightarrow> int list" where
  "sparkline sa = map (\<lambda>i. sa_buckets sa ! ((sa_headIdx sa + 1 + i) mod BucketCount)) [0..<BucketCount]"

definition activity_Get :: "time \<Rightarrow> string \<Rightarrow> activity_tracker \<Rightarrow> activity_tracker \<times> activity_snapshot" where
  "activity_Get now session t =
     (case fmlookup t session of
        None \<Rightarrow> (t, \<lparr>as_host = [], as_session = session, as_idle_seconds = -1,
                    as_sparkline = replicate BucketCount 0, as_total_bytes = 0\<rparr>)
      | Some sa \<Rightarrow>
          let sa = advance now sa
          in (fmupd session sa t,
              \<lparr>as_host = [], as_session = session, as_idle_seconds = of_int (now - sa_lastActive sa) / of_int second,
               as_sparkline = sparkline sa, as_total_bytes = sa_totalBytes sa\<rparr>))"

definition activity_GetAll :: "time \<Rightarrow> activity_tracker \<Rightarrow> activity_tracker \<times> activity_snapshot list" where
  "activity_GetAll now t =
     foldl (\<lambda>(t, out) name. case activity_Get now name t of (t, s) \<Rightarrow> (t, out @ [s])) (t, []) (go_keys t)"

definition activity_Remove :: "string \<Rightarrow> activity_tracker \<Rightarrow> activity_tracker" where
  "activity_Remove session t = fmdrop session t"

subsection \<open>The ring as a sliding window\<close>

definition ring_ok :: "SessionActivity \<Rightarrow> bool" where
  "ring_ok sa = (length (sa_buckets sa) = BucketCount \<and> sa_headIdx sa < BucketCount)"

lemma BucketCount_20: "BucketCount = 20" by (simp add: BucketCount_def)

lemma sparkline_nth: "i < BucketCount \<Longrightarrow> sparkline sa ! i = sa_buckets sa ! ((sa_headIdx sa + 1 + i) mod BucketCount)"
  by (simp add: sparkline_def)

lemma sparkline_length [simp]: "length (sparkline sa) = BucketCount"
  by (simp add: sparkline_def)

lemma ring_moves: "0 < d \<Longrightarrow> d < 20 \<Longrightarrow> (x + d) mod 20 \<noteq> x mod 20" for x :: nat
proof
  assume d: "0 < d" "d < 20" and e: "(x + d) mod 20 = x mod 20"
  then have "20 dvd (x + d) - x" by (simp only: mod_eq_dvd_iff_nat [symmetric])
  with d show False by (auto dest: dvd_imp_le)
qed

lemma sparkline_step:
  assumes "ring_ok sa" and "h = (sa_headIdx sa + 1) mod BucketCount"
  shows "sparkline (sa\<lparr>sa_headIdx := h, sa_buckets := (sa_buckets sa)[h := 0]\<rparr>) = tl (sparkline sa) @ [0]"
proof (rule nth_equalityI)
  let ?s = "sa\<lparr>sa_headIdx := h, sa_buckets := (sa_buckets sa)[h := 0]\<rparr>"
  show "length (sparkline ?s) = length (tl (sparkline sa) @ [0])" by (simp add: BucketCount_20)
  fix i assume i: "i < length (sparkline ?s)"
  have r: "length (sa_buckets sa) = 20" "sa_headIdx sa < 20" using assms(1) by (simp_all add: ring_ok_def BucketCount_20)
  show "sparkline ?s ! i = (tl (sparkline sa) @ [0]) ! i"
  proof (cases "i = 19")
    case True
    have "(h + 1 + 19) mod 20 = h" using assms(2) r by (simp add: BucketCount_20)
    with True r assms(2) show ?thesis by (simp add: sparkline_nth nth_append BucketCount_20)
  next
    case False
    with i have i19: "i < 19" by (simp add: BucketCount_20)
    have e: "(h + 1 + i) mod 20 = (sa_headIdx sa + 1 + Suc i) mod 20"
      using mod_add_left_eq [of "sa_headIdx sa + 1" 20 "1 + i"] by (simp add: assms(2) BucketCount_20 ac_simps)
    have ne: "(sa_headIdx sa + 1 + Suc i) mod 20 \<noteq> h"
      using ring_moves [of "Suc i" "sa_headIdx sa + 1"] i19 by (simp add: assms(2) BucketCount_20)
    have "sparkline ?s ! i = sa_buckets sa ! ((sa_headIdx sa + 1 + Suc i) mod 20)"
      using i19 e ne by (simp add: sparkline_nth BucketCount_20)
    moreover have "(tl (sparkline sa) @ [0]) ! i = sparkline sa ! Suc i"
      using i19 by (simp add: nth_append nth_tl BucketCount_20)
    ultimately show ?thesis using i19 by (simp add: sparkline_nth BucketCount_20)
  qed
qed

lemma sparkline_steps:
  "ring_ok sa \<Longrightarrow> k \<le> BucketCount \<Longrightarrow>
     sparkline (advance_steps k sa) = drop k (sparkline sa) @ replicate k 0 \<and> ring_ok (advance_steps k sa)"
proof (induction k arbitrary: sa)
  case (Suc k)
  let ?h = "(sa_headIdx sa + 1) mod BucketCount"
  let ?s = "sa\<lparr>sa_headIdx := ?h, sa_buckets := (sa_buckets sa)[?h := 0]\<rparr>"
  have ok: "ring_ok ?s" using Suc.prems(1) by (simp add: ring_ok_def BucketCount_20)
  have "sparkline ?s = tl (sparkline sa) @ [0]" by (rule sparkline_step) (use Suc.prems in auto)
  moreover have "sparkline (advance_steps k ?s) = drop k (sparkline ?s) @ replicate k 0 \<and> ring_ok (advance_steps k ?s)"
    using Suc.IH [OF ok] Suc.prems(2) by simp
  moreover have "drop k (tl (sparkline sa) @ [0]) = drop (Suc k) (sparkline sa) @ [0]"
    using Suc.prems(2) by (simp add: drop_Suc)
  ultimately show ?case by (simp add: Let_def replicate_append_same replicate_app_Cons_same)
qed (simp add: sparkline_def)

lemma advance_steps_fields [simp]:
  "sa_headTime (advance_steps k sa) = sa_headTime sa" "sa_lastActive (advance_steps k sa) = sa_lastActive sa"
  "sa_totalBytes (advance_steps k sa) = sa_totalBytes sa"
  by (induction k arbitrary: sa) (simp_all add: Let_def)

text \<open>
  \<open>bytes_in h b\<close>: the bytes a history of (time, count) pairs recorded in interval \<open>b\<close>, and
  the specification of the window that ends in interval \<open>H\<close>.
\<close>

definition interval :: "time \<Rightarrow> int" where
  "interval t = t div BucketDuration"

fun bytes_in :: "(time \<times> int) list \<Rightarrow> int \<Rightarrow> int" where
  "bytes_in [] b = 0"
| "bytes_in ((t, n) # h) b = (if interval t = b then n else 0) + bytes_in h b"

definition window_of :: "(time \<times> int) list \<Rightarrow> int \<Rightarrow> int list" where
  "window_of h H = map (\<lambda>i. bytes_in h (H - 19 + int i)) [0..<20]"

definition represents :: "(time \<times> int) list \<Rightarrow> SessionActivity \<Rightarrow> bool" where
  "represents h sa =
     (ring_ok sa \<and> sa_headTime sa mod BucketDuration = 0 \<and>
      sparkline sa = window_of h (interval (sa_headTime sa)) \<and>
      (\<forall>(t, n)\<in>set h. interval t \<le> interval (sa_headTime sa)) \<and>
      sa_totalBytes sa = sum_list (map snd h))"

lemma bytes_in_late: "\<forall>(t, n)\<in>set h. interval t < b \<Longrightarrow> bytes_in h b = 0"
  by (induction h b rule: bytes_in.induct) auto

lemma window_nth: "i < 20 \<Longrightarrow> window_of h H ! i = bytes_in h (H - 19 + int i)"
  by (simp add: window_of_def)

lemma window_length [simp]: "length (window_of h H) = 20"
  by (simp add: window_of_def)

lemma window_shift:
  assumes "\<forall>(t, n)\<in>set h. interval t \<le> H" and "k \<le> 20"
  shows "drop k (window_of h H) @ replicate k 0 = window_of h (H + int k)"
proof (rule nth_equalityI)
  fix i assume i: "i < length (drop k (window_of h H) @ replicate k 0)"
  then have i20: "i < 20" using assms(2) by simp
  show "(drop k (window_of h H) @ replicate k 0) ! i = window_of h (H + int k) ! i"
  proof (cases "i < 20 - k")
    case True
    then have "(drop k (window_of h H) @ replicate k 0) ! i = bytes_in h (H - 19 + int (k + i))"
      using window_nth [of "k + i"] by (simp add: nth_append)
    then show ?thesis using window_nth [OF i20, of h "H + int k"] by (simp add: algebra_simps)
  next
    case False
    have "bytes_in h (H + int k - 19 + int i) = 0"
      by (rule bytes_in_late) (use assms False in auto)
    with False i assms window_nth [OF i20, of h "H + int k"] show ?thesis by (simp add: nth_append)
  qed
qed (use assms in simp)

lemma window_far:
  assumes "\<forall>(t, n)\<in>set h. interval t \<le> H" and "20 \<le> k"
  shows "window_of h (H + int k) = replicate 20 0"
proof (rule nth_equalityI)
  fix i assume "i < length (window_of h (H + int k))"
  moreover have "bytes_in h (H + int k - 19 + int i) = 0"
    by (rule bytes_in_late) (use assms in auto)
  ultimately show "window_of h (H + int k) ! i = replicate 20 0 ! i" by (simp add: window_of_def)
qed (simp add: window_of_def)

lemma truncate_interval: "truncate_time t BucketDuration = interval t * BucketDuration"
  by (simp add: truncate_time_def interval_def minus_mod_eq_div_mult)

lemma interval_head: "t mod BucketDuration = 0 \<Longrightarrow> interval t * BucketDuration = t"
  by (simp add: interval_def) (metis add.right_neutral div_mult_mod_eq)

lemma interval_mult [simp]: "interval (b * BucketDuration) = b"
  by (simp add: interval_def BucketDuration_def)

lemma advance_represents:
  assumes "represents h sa"
  shows "represents h (advance now sa) \<and>
    interval (sa_headTime (advance now sa)) = max (interval now) (interval (sa_headTime sa)) \<and>
    sa_lastActive (advance now sa) = sa_lastActive sa"
proof -
  let ?H = "interval (sa_headTime sa)" and ?N = "interval now"
  have bd: "0 < BucketDuration" by (simp add: BucketDuration_def)
  have head: "sa_headTime sa = ?H * BucketDuration" using assms interval_head by (simp add: represents_def)
  then have el: "truncate_time now BucketDuration - sa_headTime sa = (?N - ?H) * BucketDuration"
    by (simp add: truncate_interval left_diff_distrib)
  have ok: "ring_ok sa" and win: "sparkline sa = window_of h ?H" and late: "\<forall>(t, n)\<in>set h. interval t \<le> ?H"
    using assms by (simp_all add: represents_def)
  show ?thesis
  proof (cases "?H < ?N")
    case False
    then have "\<not> truncate_time now BucketDuration - sa_headTime sa > 0"
      unfolding el using bd by (simp add: zero_less_mult_iff)
    then have "advance now sa = sa" unfolding advance_def Let_def by (rule if_not_P)
    then show ?thesis using assms False by (simp add: max_def)
  next
    case True
    then have pos: "(?N - ?H) * BucketDuration > 0" using bd by simp
    let ?k = "nat (min (?N - ?H) (int BucketCount))"
    let ?s = "advance_steps ?k sa"
    have adv: "advance now sa = ?s\<lparr>sa_headTime := ?N * BucketDuration\<rparr>"
      unfolding advance_def Let_def el using pos bd by (simp add: truncate_interval)
    have k: "?k \<le> BucketCount" by simp
    have spark: "sparkline ?s = drop ?k (window_of h ?H) @ replicate ?k 0" and ok': "ring_ok ?s"
      using sparkline_steps [OF ok k] win by simp_all
    have "sparkline ?s = window_of h ?N"
    proof (cases "?N - ?H \<le> 20")
      case True
      then have "int ?k = ?N - ?H" "?k \<le> 20" using \<open>?H < ?N\<close> by (simp_all add: BucketCount_20)
      then show ?thesis using spark window_shift [OF late, of ?k] by simp
    next
      case False
      then have k20: "?k = 20" by (simp add: BucketCount_20)
      have "window_of h (?H + int (nat (?N - ?H))) = replicate 20 0"
        by (rule window_far [OF late]) (use False in simp)
      moreover have "?H + int (nat (?N - ?H)) = ?N" using True by simp
      moreover have "sparkline ?s = replicate 20 0"
        using spark unfolding k20 by (simp add: window_of_def)
      ultimately show ?thesis by simp
    qed
    moreover have "sparkline (?s\<lparr>sa_headTime := b\<rparr>) = sparkline ?s" "ring_ok (?s\<lparr>sa_headTime := b\<rparr>) = ring_ok ?s" for b
      by (simp_all add: sparkline_def ring_ok_def)
    moreover have "\<forall>(t, n)\<in>set h. interval t \<le> ?N" using late True by fastforce
    ultimately show ?thesis
      using assms ok' True unfolding adv represents_def by simp
  qed
qed

lemma record_represents:
  assumes "represents h sa" and "interval (sa_headTime sa) \<le> interval now"
  shows "represents ((now, n) # h) (record_bytes now n sa)"
proof -
  let ?sa = "sa\<lparr>sa_lastActive := now, sa_totalBytes := sa_totalBytes sa + n\<rparr>"
  have comm: "advance now (sa\<lparr>sa_lastActive := a, sa_totalBytes := v\<rparr>) = (advance now sa)\<lparr>sa_lastActive := a, sa_totalBytes := v\<rparr>" for a v
  proof -
    have "advance_steps k (s\<lparr>sa_lastActive := a, sa_totalBytes := v\<rparr>) = (advance_steps k s)\<lparr>sa_lastActive := a, sa_totalBytes := v\<rparr>" for k s
    proof (induction k arbitrary: s)
      case (Suc k)
      show ?case
        using Suc.IH [of "s\<lparr>sa_headIdx := (sa_headIdx s + 1) mod BucketCount,
            sa_buckets := (sa_buckets s)[(sa_headIdx s + 1) mod BucketCount := 0]\<rparr>"]
        by (cases s) (simp add: Let_def)
    qed simp
    moreover have "x\<lparr>sa_lastActive := a, sa_totalBytes := v, sa_headTime := b\<rparr> =
        x\<lparr>sa_headTime := b, sa_lastActive := a, sa_totalBytes := v\<rparr>" for x :: SessionActivity and b
      by (cases x) simp
    ultimately show ?thesis by (simp add: advance_def Let_def)
  qed
  let ?b = "advance now sa"
  have b: "represents h ?b" "interval (sa_headTime ?b) = interval now"
    using advance_represents [OF assms(1), of now] assms(2) by auto
  have r: "length (sa_buckets ?b) = 20" "sa_headIdx ?b < 20" using b(1) by (simp_all add: represents_def ring_ok_def BucketCount_20)
  let ?c = "record_bytes now n sa"
  have c: "?c = ?b\<lparr>sa_lastActive := now, sa_totalBytes := sa_totalBytes sa + n,
      sa_buckets := (sa_buckets ?b)[sa_headIdx ?b := sa_buckets ?b ! sa_headIdx ?b + n]\<rparr>"
    by (simp add: record_bytes_def Let_def comm)
  have "sparkline ?c = window_of ((now, n) # h) (interval now)"
  proof (rule nth_equalityI)
    fix i assume "i < length (sparkline ?c)"
    then have i: "i < 20" by (simp add: BucketCount_20)
    have idx: "(sa_headIdx ?b + 1 + i) mod 20 = sa_headIdx ?b \<longleftrightarrow> i = 19"
      using ring_moves [of "1 + i" "sa_headIdx ?b"] r(2) i by (cases "i = 19") (simp_all add: add.assoc)
    have "sparkline ?c ! i = sparkline ?b ! i + (if i = 19 then n else 0)"
      using i r idx by (auto simp add: sparkline_nth BucketCount_20 c nth_list_update)
    moreover have "sparkline ?b ! i = bytes_in h (interval now - 19 + int i)"
      using b i by (simp add: represents_def window_of_def)
    moreover have "interval now = interval now - 19 + int i \<longleftrightarrow> i = 19" by presburger
    ultimately show "sparkline ?c ! i = window_of ((now, n) # h) (interval now) ! i"
      using i by (simp add: window_of_def)
  qed (simp add: window_of_def BucketCount_20)
  moreover have "sa_totalBytes sa = sum_list (map snd h)" using assms(1) by (simp add: represents_def)
  moreover have "\<forall>(t, n)\<in>set ((now, n) # h). interval t \<le> interval now"
    using b by (auto simp: represents_def)
  ultimately show ?thesis
    using b unfolding represents_def by (simp add: c ring_ok_def)
qed

lemma new_represents: "represents [] (new_activity now)"
proof -
  have "truncate_time now BucketDuration mod BucketDuration = 0" by (simp add: truncate_interval)
  moreover have "sparkline (new_activity now) = replicate 20 0"
    by (rule nth_equalityI) (simp_all add: BucketCount_20 sparkline_nth new_activity_def)
  ultimately show ?thesis
    by (simp add: represents_def ring_ok_def new_activity_def window_of_def BucketCount_20 map_replicate_const)
qed

text \<open>A session's recorder: the first record creates the entry.\<close>

definition record_history :: "string \<Rightarrow> activity_tracker \<Rightarrow> (time \<times> int) list \<Rightarrow> activity_tracker" where
  "record_history session t h = foldl (\<lambda>t (now, n). activity_Record now session n t) t h"

definition forward :: "(time \<times> int) list \<Rightarrow> bool" where
  "forward h = sorted (map (interval \<circ> fst) h)"

lemma bytes_in_rev: "bytes_in (rev h) b = bytes_in h b"
proof -
  have "bytes_in (xs @ ys) b = bytes_in xs b + bytes_in ys b" for xs ys
    by (induction xs b rule: bytes_in.induct) auto
  then show ?thesis by (induction h b rule: bytes_in.induct) auto
qed

lemma history_represents:
  assumes "h \<noteq> []" and "forward h"
  shows "\<exists>sa. fmlookup (record_history s fmempty h) s = Some sa \<and> represents (rev h) sa \<and>
    interval (sa_headTime sa) = interval (fst (last h))"
  using assms
proof (induction h rule: rev_induct)
  case (snoc x h)
  obtain now n where x: "x = (now, n)" by (cases x)
  show ?case
  proof (cases "h = []")
    case True
    let ?sa = "new_activity now"
    have "interval (sa_headTime ?sa) = interval now" by (simp add: new_activity_def truncate_interval)
    with record_represents [OF new_represents, of now now n] advance_represents [OF new_represents, of now now]
    have "represents [(now, n)] (record_bytes now n ?sa)" "interval (sa_headTime (record_bytes now n ?sa)) = interval now"
      by (auto simp: record_bytes_def Let_def advance_def)
    with True x show ?thesis by (simp add: record_history_def activity_Record_def Let_def)
  next
    case False
    have f: "forward h" "interval (fst (last h)) \<le> interval now"
      using snoc.prems(2) x False by (auto simp: forward_def sorted_append)
    from snoc.IH [OF False f(1)] obtain sa where sa: "fmlookup (record_history s fmempty h) s = Some sa"
      "represents (rev h) sa" "interval (sa_headTime sa) = interval (fst (last h))" by blast
    have "represents ((now, n) # rev h) (record_bytes now n sa)"
      by (rule record_represents) (use sa f in auto)
    moreover have "interval (sa_headTime (record_bytes now n sa)) = interval now"
    proof -
      have "sa_headTime (record_bytes now n sa) = sa_headTime (advance now sa)"
        by (simp add: record_bytes_def Let_def advance_def)
      with advance_represents [OF sa(2), of now] sa(3) f(2) show ?thesis by simp
    qed
    moreover have "record_history s fmempty (h @ [x]) = activity_Record now s n (record_history s fmempty h)"
      by (simp add: record_history_def x)
    ultimately show ?thesis using sa(1) x by (simp add: activity_Record_def Let_def)
  qed
qed simp

text \<open>
  C8. The sparkline is a sliding window.  After any records of a session whose clock does
  not run backwards, a snapshot shows for each of the last twenty intervals exactly the
  bytes recorded in it, oldest first, and the total of all bytes.
\<close>

theorem sparkline_is_window:
  assumes "h \<noteq> []" and "forward (h @ [(now, 0)])"
  shows "as_sparkline (snd (activity_Get now s (record_history s fmempty h))) =
      map (\<lambda>i. bytes_in h (interval now - 19 + int i)) [0..<20] \<and>
    as_total_bytes (snd (activity_Get now s (record_history s fmempty h))) = sum_list (map snd h)"
proof -
  have f: "forward h" "interval (fst (last h)) \<le> interval now"
    using assms by (auto simp: forward_def sorted_append)
  from history_represents [OF assms(1) f(1), of s] obtain sa where sa: "fmlookup (record_history s fmempty h) s = Some sa"
    "represents (rev h) sa" "interval (sa_headTime sa) = interval (fst (last h))" by blast
  from advance_represents [OF sa(2), of now] sa(3) f(2)
  have "represents (rev h) (advance now sa)" "interval (sa_headTime (advance now sa)) = interval now" by auto
  then show ?thesis
    by (simp add: activity_Get_def sa(1) Let_def represents_def window_of_def bytes_in_rev rev_map [symmetric])
qed

theorem sparkline_is_window_witness:
  "as_sparkline (snd (activity_Get (31 * second) ''a'' (record_history ''a'' fmempty [(second, 5), (16 * second, 7), (17 * second, 1)])))
     = map (\<lambda>i. bytes_in [(second, 5), (16 * second, 7), (17 * second, 1)] (interval (31 * second) - 19 + int i)) [0..<20]"
  by (rule sparkline_is_window [THEN conjunct1]) (simp, simp add: forward_def interval_def BucketDuration_def)

end
