(* ===== verification/FleetHealth.thy ===== *)
theory FleetHealth
  imports GoStrings
begin

text \<open>
  The health summary of a host (\<open>pkg/fleethealth/health.go\<close>): the rules that turn the
  facts known of a host into reasons, and the summary.  Versions follow the regular
  expression of the source; durations and instants are rendered as Go's standard library
  renders them (whole seconds, UTC, RFC 3339).
\<close>

record Check =
  ck_name :: string
  ck_ok :: "bool option"
  ck_message :: string
  ck_command :: string

record UpdateOutcome =
  uo_source_version :: string
  uo_target_version :: string
  uo_restored_version :: string
  uo_outcome :: string
  uo_at :: time
  uo_error :: string

record Facts =
  fa_host_id :: string
  fa_display_name :: string
  fa_role :: string
  fa_platform :: string
  fa_online :: "bool option"
  fa_last_seen :: time
  fa_last_state_sync :: time
  fa_version :: string
  fa_commit :: string
  fa_hub_version :: string
  fa_protocol_version :: "int option"
  fa_protocol_min :: "int option"
  fa_protocol_max :: "int option"
  fa_checks :: "Check list"
  fa_deployment :: string
  fa_image_tag :: string
  fa_image_digest :: string
  fa_last_update :: "UpdateOutcome option"

record Reason =
  re_code :: string
  re_severity :: nat
  re_message :: string
  re_evidence :: string
  re_remediation :: string

record Record =
  rc_facts :: Facts
  rc_summary :: string
  rc_reasons :: "Reason list"
  rc_evaluated :: time

definition reason :: "string \<Rightarrow> nat \<Rightarrow> string \<Rightarrow> string \<Rightarrow> string \<Rightarrow> Reason" where
  "reason code severity message evidence remediation =
     \<lparr>re_code = code, re_severity = severity, re_message = message, re_evidence = evidence,
      re_remediation = remediation\<rparr>"

subsection \<open>Rendering\<close>

text \<open>\<open>d.Round(time.Second).String()\<close>: halves round away from zero.\<close>

definition round_second :: "duration \<Rightarrow> int" where
  "round_second d = (if d < 0 then - ((- d + second div 2) div second) else (d + second div 2) div second)"

definition duration_string :: "int \<Rightarrow> string" where
  "duration_string s =
     (let a = \<bar>s\<bar>; h = a div 3600; m = (a div 60) mod 60; c = a mod 60;
          body = (if h > 0 then itoa h @ ''h'' @ itoa m @ ''m'' @ itoa c @ ''s''
                  else if m > 0 then itoa m @ ''m'' @ itoa c @ ''s'' else itoa c @ ''s'')
      in if s < 0 then ''-'' @ body else body)"

definition pad :: "nat \<Rightarrow> int \<Rightarrow> string" where
  "pad n i = (let s = itoa i in replicate (n - length s) CHR ''0'' @ s)"

text \<open>The civil date of a day number counted from 1 January of year 1, and RFC 3339 in UTC.\<close>

definition civil :: "int \<Rightarrow> int \<times> int \<times> int" where
  "civil day =
     (let z = day + 306; era = z div 146097; doe = z mod 146097;
          yoe = (doe - doe div 1460 + doe div 36524 - doe div 146096) div 365;
          doy = doe - (365 * yoe + yoe div 4 - yoe div 100);
          mp = (5 * doy + 2) div 153;
          d = doy - (153 * mp + 2) div 5 + 1;
          m = (if mp < 10 then mp + 3 else mp - 9);
          y = yoe + era * 400
      in (if m \<le> 2 then y + 1 else y, m, d))"

definition formatTime :: "time \<Rightarrow> string" where
  "formatTime t =
     (if t = 0 then []
      else let secs = t div second; (y, m, d) = civil (secs div 86400); s = secs mod 86400 in
        pad 4 y @ ''-'' @ pad 2 m @ ''-'' @ pad 2 d @ ''T'' @ pad 2 (s div 3600) @ '':'' @
        pad 2 ((s div 60) mod 60) @ '':'' @ pad 2 (s mod 60) @ ''Z'')"

subsection \<open>Versions\<close>

text \<open>\<open>^v?(\d+)\.(\d+)\.(\d+)(?:[-+].*)?$\<close>; \<open>.\<close> does not match a line break.\<close>

definition semver_match :: "string \<Rightarrow> (string \<times> string \<times> string) option" where
  "semver_match s =
     (let s = trim_prefix ''v'' s;
          a = takeWhile is_dec s; r = dropWhile is_dec s in
      if a = [] \<or> \<not> is_prefix ''.'' r then None
      else let r = tl r; b = takeWhile is_dec r; r = dropWhile is_dec r in
        if b = [] \<or> \<not> is_prefix ''.'' r then None
        else let r = tl r; c = takeWhile is_dec r; r = dropWhile is_dec r in
          if c = [] then None
          else if r = [] \<or> (hd r \<in> set ''-+'' \<and> newline \<notin> set (tl r)) then Some (a, b, c)
          else None)"

definition parseVersion :: "string \<Rightarrow> (int \<times> int \<times> int) option" where
  "parseVersion value =
     (case semver_match (trim_space value) of
        None \<Rightarrow> None
      | Some (a, b, c) \<Rightarrow>
          if snd (atoi a) \<and> snd (atoi b) \<and> snd (atoi c) then Some (fst (atoi a), fst (atoi b), fst (atoi c))
          else None)"

definition compareVersion :: "int \<times> int \<times> int \<Rightarrow> int \<times> int \<times> int \<Rightarrow> int" where
  "compareVersion l r =
     (case (l, r) of ((a, b, c), (x, y, z)) \<Rightarrow>
        if a < x then -1 else if a > x then 1 else
        if b < y then -1 else if b > y then 1 else
        if c < z then -1 else if c > z then 1 else 0)"

definition diagnosticCommand :: "Facts \<Rightarrow> string" where
  "diagnosticCommand facts =
     (if fa_deployment facts = ''docker'' then ''docker compose exec tmuxatlas tmuxatlas doctor''
      else ''tmuxatlas doctor'')"

definition updateCommand :: "Facts \<Rightarrow> string" where
  "updateCommand facts =
     (if fa_deployment facts = ''docker'' then ''docker compose pull && docker compose up -d''
      else ''tmuxatlas update'')"

subsection \<open>Evaluation\<close>

definition online_reasons :: "Facts \<Rightarrow> time \<Rightarrow> duration \<Rightarrow> Reason list" where
  "online_reasons facts now freshness =
     (case fa_online facts of
        None \<Rightarrow> [reason ''unknown'' 1 ''Online state is unknown.'' [] (diagnosticCommand facts)]
      | Some False \<Rightarrow> [reason ''offline'' 4 ''The host is offline.'' (formatTime (fa_last_seen facts)) (diagnosticCommand facts)]
      | Some True \<Rightarrow>
          if fa_last_state_sync facts = 0
          then [reason ''unknown'' 1 ''Last state sync is unknown.'' [] (diagnosticCommand facts)]
          else if now - fa_last_state_sync facts > freshness
          then [reason ''stale'' 3 ''The host is online but its state is stale.''
                  (duration_string (round_second (now - fa_last_state_sync facts))) (diagnosticCommand facts)]
          else [])"

definition version_reasons :: "Facts \<Rightarrow> Reason list" where
  "version_reasons facts =
     (case parseVersion (fa_version facts) of
        None \<Rightarrow> [reason ''unknown'' 1 ''Host version is unknown.'' (fa_version facts) (diagnosticCommand facts)]
      | Some hostVersion \<Rightarrow>
          (case parseVersion (fa_hub_version facts) of
             None \<Rightarrow> [reason ''unknown'' 1 ''Hub version is unknown.'' (fa_hub_version facts) ''tmuxatlas --version'']
           | Some hubVersion \<Rightarrow>
               if compareVersion hostVersion hubVersion = -1
               then [reason ''version-behind'' 2 ''The host version is behind the Hub.''
                       (fa_version facts @ '' < '' @ fa_hub_version facts) (updateCommand facts)]
               else if compareVersion hostVersion hubVersion = 1
               then [reason ''version-ahead'' 2 ''The host version is ahead of the Hub.''
                       (fa_version facts @ '' > '' @ fa_hub_version facts) (updateCommand facts)]
               else []))"

definition protocol_reasons :: "Facts \<Rightarrow> Reason list" where
  "protocol_reasons facts =
     (case (fa_protocol_version facts, fa_protocol_min facts, fa_protocol_max facts) of
        (Some v, Some lo, Some hi) \<Rightarrow>
          if v < lo \<or> v > hi
          then [reason ''incompatible'' 5 ''The host explicitly reports an incompatible protocol.''
                  (itoa v @ '' not in ['' @ itoa lo @ '','' @ itoa hi @ '']'') (updateCommand facts)]
          else []
      | _ \<Rightarrow> [reason ''unknown'' 1 ''Protocol compatibility is unknown.'' [] (diagnosticCommand facts)])"

definition check_reasons :: "Facts \<Rightarrow> Reason list" where
  "check_reasons facts =
     concat (map (\<lambda>c. case ck_ok c of
         None \<Rightarrow> [reason ''unknown'' 1 (ck_name c @ '' check is unknown.'') (ck_message c) (ck_command c)]
       | Some False \<Rightarrow> [reason ''check-failed'' 3 (ck_name c @ '' check failed.'') (ck_message c) (ck_command c)]
       | Some True \<Rightarrow> []) (fa_checks facts)) @
     (if fa_checks facts = []
      then [reason ''unknown'' 1 ''Agent and hook checks are unknown.'' [] (diagnosticCommand facts)] else [])"

definition update_reasons :: "Facts \<Rightarrow> Reason list" where
  "update_reasons facts =
     (case fa_last_update facts of
        None \<Rightarrow> []
      | Some u \<Rightarrow> if uo_outcome u = ''rolled-back''
          then [reason ''update-rolled-back'' 3 ''The most recent update was rolled back.'' (uo_error u) (updateCommand facts)]
          else [])"

fun summarize :: "string \<times> nat \<Rightarrow> Reason list \<Rightarrow> string \<times> nat" where
  "summarize acc [] = acc"
| "summarize (summary, highest) (item # rest) =
     (if re_severity item > highest then summarize (re_code item, re_severity item) rest
      else summarize (summary, highest) rest)"

definition Evaluate :: "Facts \<Rightarrow> time \<Rightarrow> duration \<Rightarrow> Record" where
  "Evaluate facts now freshness =
     (let reasons = online_reasons facts now freshness @ version_reasons facts @ protocol_reasons facts @
            check_reasons facts @ update_reasons facts;
          (summary, highest) = summarize (''healthy'', 0) reasons;
          reasons = (if highest = 0
            then [reason ''healthy'' 0 ''The host is online, fresh, compatible, and all checks pass.'' [] []]
            else reasons)
      in \<lparr>rc_facts = facts, rc_summary = summary, rc_reasons = reasons, rc_evaluated = now\<rparr>)"

subsection \<open>What the summary says\<close>

lemma summarize_max:
  "summarize (s, n) rs = (s', n') \<Longrightarrow> n \<le> n' \<and> (\<forall>r\<in>set rs. re_severity r \<le> n') \<and>
     (n' = n \<and> s' = s \<or> n < n' \<and> (\<exists>r. find (\<lambda>r. re_severity r = n') rs = Some r \<and> s' = re_code r))"
proof (induction "(s, n)" rs arbitrary: s n rule: summarize.induct)
  case (2 s n item rest)
  show ?case
  proof (cases "re_severity item > n")
    case True
    with 2(1) [OF True] 2(3) show ?thesis by auto
  next
    case False
    with 2(2) [OF False] 2(3) show ?thesis by auto
  qed
qed simp

text \<open>The conditions under which a host is healthy, read off the documentation of the page.\<close>

definition all_well :: "Facts \<Rightarrow> time \<Rightarrow> duration \<Rightarrow> bool" where
  "all_well facts now freshness =
     (fa_online facts = Some True \<and> fa_last_state_sync facts \<noteq> 0 \<and> now - fa_last_state_sync facts \<le> freshness \<and>
      (\<exists>v. parseVersion (fa_version facts) = Some v \<and> parseVersion (fa_hub_version facts) = Some v) \<and>
      (\<exists>v lo hi. fa_protocol_version facts = Some v \<and> fa_protocol_min facts = Some lo \<and>
         fa_protocol_max facts = Some hi \<and> lo \<le> v \<and> v \<le> hi) \<and>
      fa_checks facts \<noteq> [] \<and> (\<forall>c\<in>set (fa_checks facts). ck_ok c = Some True) \<and>
      (\<forall>u. fa_last_update facts = Some u \<longrightarrow> uo_outcome u \<noteq> ''rolled-back''))"

lemma reason_sel [simp]: "re_severity (reason c s m e r) = s" "re_code (reason c s m e r) = c"
  by (simp_all add: reason_def)

definition all_reasons :: "Facts \<Rightarrow> time \<Rightarrow> duration \<Rightarrow> Reason list" where
  "all_reasons facts now freshness =
     online_reasons facts now freshness @ version_reasons facts @ protocol_reasons facts @
     check_reasons facts @ update_reasons facts"

lemma compareVersion_eq: "compareVersion a b = 0 \<longleftrightarrow> a = b" "compareVersion a b \<in> {-1, 0, 1}"
  by (auto simp: compareVersion_def split: prod.splits if_splits)

lemma online_none: "online_reasons f now d = [] \<longleftrightarrow>
    fa_online f = Some True \<and> fa_last_state_sync f \<noteq> 0 \<and> now - fa_last_state_sync f \<le> d"
  by (auto simp: online_reasons_def split: option.splits bool.splits)

lemma version_none: "version_reasons f = [] \<longleftrightarrow>
    (\<exists>v. parseVersion (fa_version f) = Some v \<and> parseVersion (fa_hub_version f) = Some v)"
proof -
  have same: "compareVersion a a = 0" and diff: "a \<noteq> b \<Longrightarrow> compareVersion a b = -1 \<or> compareVersion a b = 1" for a b
    using compareVersion_eq [of a a] compareVersion_eq [of a b] by auto
  show ?thesis
  proof (cases "parseVersion (fa_version f)"; cases "parseVersion (fa_hub_version f)")
    fix a b assume "parseVersion (fa_version f) = Some a" "parseVersion (fa_hub_version f) = Some b"
    then show ?thesis using same [of a] diff [of a b] by (cases a; cases b; cases "a = b") (auto simp add: version_reasons_def)
  qed (simp_all add: version_reasons_def)
qed

lemma protocol_none: "protocol_reasons f = [] \<longleftrightarrow>
    (\<exists>v lo hi. fa_protocol_version f = Some v \<and> fa_protocol_min f = Some lo \<and> fa_protocol_max f = Some hi \<and> lo \<le> v \<and> v \<le> hi)"
  by (auto simp: protocol_reasons_def split: option.splits)

lemma check_none: "check_reasons f = [] \<longleftrightarrow> fa_checks f \<noteq> [] \<and> (\<forall>c\<in>set (fa_checks f). ck_ok c = Some True)"
proof -
  have "(case ok of None \<Rightarrow> [x] | Some False \<Rightarrow> [y] | Some True \<Rightarrow> []) = [] \<longleftrightarrow> ok = Some True" for ok and x y :: Reason
    by (auto split: option.splits bool.splits)
  then show ?thesis by (auto simp: check_reasons_def)
qed

lemma update_none: "update_reasons f = [] \<longleftrightarrow> (\<forall>u. fa_last_update f = Some u \<longrightarrow> uo_outcome u \<noteq> ''rolled-back'')"
  by (auto simp: update_reasons_def split: option.splits)

lemma all_reasons_none: "all_reasons f now d = [] \<longleftrightarrow> all_well f now d"
  by (simp add: all_reasons_def online_none version_none protocol_none check_none update_none all_well_def)

lemma all_reasons_positive: "r \<in> set (all_reasons f now d) \<Longrightarrow> 0 < re_severity r \<and> re_code r \<noteq> ''healthy''"
  by (auto simp: all_reasons_def online_reasons_def version_reasons_def protocol_reasons_def check_reasons_def
      update_reasons_def split: option.splits if_splits bool.splits)

text \<open>
  The summary is the worst reason.  A host is summarised as healthy exactly when
  every rule is satisfied; otherwise the summary is the code of the first reason of the
  highest severity, and the record lists all the reasons that were found.
\<close>

theorem summary_is_worst:
  "if all_well facts now freshness
   then rc_summary (Evaluate facts now freshness) = ''healthy''
   else rc_reasons (Evaluate facts now freshness) = all_reasons facts now freshness \<and>
     rc_summary (Evaluate facts now freshness) \<noteq> ''healthy'' \<and>
     (\<exists>r. find (\<lambda>r. re_severity r = Max (re_severity ` set (all_reasons facts now freshness)))
          (all_reasons facts now freshness) = Some r \<and> rc_summary (Evaluate facts now freshness) = re_code r)"
proof (cases "all_reasons facts now freshness = []")
  case True
  then have "rc_summary (Evaluate facts now freshness) = ''healthy''"
    by (simp add: Evaluate_def all_reasons_def)
  with True show ?thesis by (simp add: all_reasons_none)
next
  case False
  let ?rs = "all_reasons facts now freshness"
  obtain s n where sum: "summarize (''healthy'', 0) ?rs = (s, n)" by (metis surj_pair)
  note m = summarize_max [OF sum]
  obtain r where r: "r \<in> set ?rs" using False by (cases ?rs) auto
  with all_reasons_positive [OF r] m have "0 < n" by fastforce
  with m obtain x where x: "find (\<lambda>r. re_severity r = n) ?rs = Some x" "s = re_code x" by auto
  have "Max (re_severity ` set ?rs) = n"
    by (rule Max_eqI) (use m find_SomeD [OF x(1)] in auto)
  moreover have ev: "rc_summary (Evaluate facts now freshness) = s" "rc_reasons (Evaluate facts now freshness) = ?rs"
    using sum \<open>0 < n\<close> by (simp_all add: Evaluate_def all_reasons_def Let_def)
  moreover have "s \<noteq> ''healthy''" using all_reasons_positive find_SomeD [OF x(1)] x(2) by auto
  moreover have "\<not> all_well facts now freshness" using False by (simp add: all_reasons_none)
  ultimately show ?thesis using x by simp
qed

text \<open>
  Versions are compared as a total order: the comparison is -1, 0 or 1 and agrees
  with the lexicographic order of major, minor and patch.
\<close>

theorem compare_version_order:
  "(compareVersion (a, b, c) (x, y, z) = -1) = (a < x \<or> (a = x \<and> (b < y \<or> (b = y \<and> c < z)))) \<and>
   (compareVersion (a, b, c) (x, y, z) = 0) = ((a, b, c) = (x, y, z)) \<and>
   compareVersion (x, y, z) (a, b, c) = - compareVersion (a, b, c) (x, y, z)"
  by (auto simp: compareVersion_def)

end
