(* ===== verification/Ingress.thy ===== *)
theory Ingress
  imports GoStrings Json
begin

text \<open>
  Admission control for public entry points (\<open>pkg/ingress/policy.go\<close>): token buckets per
  source and per category, bounded concurrency and aggregate rejection counters.  Tokens
  and rates are rationals where Go has finite floats.  A lease is a number; releasing it
  twice has no effect.  The cleanup scans the sources in some order, an argument.
\<close>

subsection \<open>Data\<close>

datatype reject_reason = RateLimited | Concurrency | SourceCapacity | UnknownCategory | InvalidConfig
  | RequestTooLarge | UnsupportedMedia | HostMismatch | OriginMismatch | CSRFMismatch

record rejection =
  rj_category :: string
  rj_reason :: reject_reason

text \<open>\<open>HTTPStatus\<close> of an error that may wrap a rejection.\<close>

definition HTTPStatus :: "rejection option \<Rightarrow> nat" where
  "HTTPStatus err =
     (case err of
        None \<Rightarrow> 500
      | Some r \<Rightarrow>
          (case rj_reason r of
             RateLimited \<Rightarrow> 429
           | Concurrency \<Rightarrow> 503 | SourceCapacity \<Rightarrow> 503
           | RequestTooLarge \<Rightarrow> 413
           | UnsupportedMedia \<Rightarrow> 415
           | HostMismatch \<Rightarrow> 403 | OriginMismatch \<Rightarrow> 403 | CSRFMismatch \<Rightarrow> 403
           | _ \<Rightarrow> 500))"

definition IsReason :: "rejection option \<Rightarrow> reject_reason \<Rightarrow> bool" where
  "IsReason err reason = (case err of None \<Rightarrow> False | Some r \<Rightarrow> rj_reason r = reason)"

record CategoryLimits =
  cl_source_rate :: rat
  cl_source_burst :: int
  cl_global_rate :: rat
  cl_global_burst :: int
  cl_max_in_flight :: int

record Config =
  cf_global_max_in_flight :: int
  cf_max_sources :: int
  cf_source_idle_ttl :: duration
  cf_cleanup_budget :: int
  cf_categories :: "(string, CategoryLimits) fmap"

definition limits_of :: "rat \<Rightarrow> int \<Rightarrow> rat \<Rightarrow> int \<Rightarrow> int \<Rightarrow> CategoryLimits" where
  "limits_of sr sb gr gb m = \<lparr>cl_source_rate = sr, cl_source_burst = sb, cl_global_rate = gr,
     cl_global_burst = gb, cl_max_in_flight = m\<rparr>"

definition DefaultConfig :: Config where
  "DefaultConfig = \<lparr>cf_global_max_in_flight = 128, cf_max_sources = 4096, cf_source_idle_ttl = 15 * minute,
     cf_cleanup_budget = 32, cf_categories = fmap_of_list
       [(''webauthn'', limits_of (1/4) 8 4 32 16), (''bootstrap'', limits_of (1/10) 4 1 16 8),
        (''pairing'', limits_of (1/10) 6 2 24 12), (''ws-terminal'', limits_of (1/2) 8 8 64 64),
        (''ws-peer-control'', limits_of (1/4) 6 4 32 64), (''ws-peer-pty'', limits_of (1/2) 8 8 64 64)]\<rparr>"

definition limits_valid :: "string \<Rightarrow> CategoryLimits \<Rightarrow> bool" where
  "limits_valid category l =
     (\<not> (category = [] \<or> cl_source_rate l \<le> 0 \<or> cl_global_rate l \<le> 0 \<or>
         cl_source_burst l \<le> 0 \<or> cl_global_burst l \<le> 0 \<or> cl_max_in_flight l \<le> 0))"

definition validateConfig :: "Config \<Rightarrow> bool" where
  "validateConfig c =
     (\<not> (cf_global_max_in_flight c \<le> 0 \<or> cf_max_sources c \<le> 0 \<or> cf_source_idle_ttl c \<le> 0 \<or>
         cf_cleanup_budget c \<le> 0 \<or> go_len (cf_categories c) = 0) \<and>
      list_all (\<lambda>k. limits_valid k (the (fmlookup (cf_categories c) k))) (go_keys (cf_categories c)))"

record token_bucket =
  tb_tokens :: rat
  tb_last :: time
  tb_last_seen :: time

definition newTokenBucket :: "int \<Rightarrow> time \<Rightarrow> token_bucket" where
  "newTokenBucket burst now = \<lparr>tb_tokens = of_int burst, tb_last = now, tb_last_seen = now\<rparr>"

definition refill :: "rat \<Rightarrow> int \<Rightarrow> time \<Rightarrow> token_bucket \<Rightarrow> token_bucket" where
  "refill rate burst now b =
     (let elapsed = of_int (now - tb_last b) / of_int second;
          b = (if elapsed > 0
               then b\<lparr>tb_tokens := min (of_int burst) (tb_tokens b + elapsed * rate), tb_last := now\<rparr> else b)
      in b\<lparr>tb_last_seen := now\<rparr>)"

record category_state =
  cs_global :: token_bucket
  cs_sources :: "(string, token_bucket) fmap"
  cs_in_flight :: nat

record policy =
  po_config :: Config
  po_categories :: "(string, category_state) fmap"
  po_global_in_flight :: nat
  po_rejections :: "(string \<times> reject_reason, u64) fmap"
  po_leases :: "(nat, string) fmap"
  po_next_lease :: nat

subsection \<open>Operations\<close>

definition NewPolicy :: "Config \<Rightarrow> time \<Rightarrow> rejection + policy" where
  "NewPolicy config current =
     (if \<not> validateConfig config then Inl \<lparr>rj_category = [], rj_reason = InvalidConfig\<rparr>
      else Inr \<lparr>po_config = config,
        po_categories = fmmap (\<lambda>l. \<lparr>cs_global = newTokenBucket (cl_global_burst l) current,
          cs_sources = fmempty, cs_in_flight = 0\<rparr>) (cf_categories config),
        po_global_in_flight = 0, po_rejections = fmempty, po_leases = fmempty, po_next_lease = 0\<rparr>)"

definition maxSourceLabelBytes :: nat where "maxSourceLabelBytes = 128"

definition normalizeSource :: "string \<Rightarrow> string" where
  "normalizeSource source =
     (let s = trim_space source in
      if s = [] then ''unknown'' else if length s > maxSourceLabelBytes then take maxSourceLabelBytes s else s)"

definition reject :: "string \<Rightarrow> reject_reason \<Rightarrow> policy \<Rightarrow> policy \<times> (rejection + nat)" where
  "reject category reason p =
     (p\<lparr>po_rejections := fmupd (category, reason) (go_get 0 (po_rejections p) (category, reason) + 1) (po_rejections p)\<rparr>,
      Inl \<lparr>rj_category = category, rj_reason = reason\<rparr>)"

text \<open>The first \<open>budget\<close> sources of the iteration order are examined.\<close>

definition cleanupSources :: "(string list \<Rightarrow> string list) \<Rightarrow> Config \<Rightarrow> time \<Rightarrow> category_state \<Rightarrow> category_state" where
  "cleanupSources perm config now st =
     (let scanned = take (nat (cf_cleanup_budget config)) (perm (go_keys (cs_sources st)))
      in st\<lparr>cs_sources := fm_keep (\<lambda>source b.
           \<not> (source \<in> set scanned \<and> now - tb_last_seen b \<ge> cf_source_idle_ttl config)) (cs_sources st)\<rparr>)"

definition set_category :: "string \<Rightarrow> category_state \<Rightarrow> policy \<Rightarrow> policy" where
  "set_category category st p = p\<lparr>po_categories := fmupd category st (po_categories p)\<rparr>"

definition charge :: "token_bucket \<Rightarrow> token_bucket" where
  "charge b = b\<lparr>tb_tokens := tb_tokens b - 1\<rparr>"

definition Acquire ::
  "(string list \<Rightarrow> string list) \<Rightarrow> time \<Rightarrow> string \<Rightarrow> string \<Rightarrow> policy \<Rightarrow> policy \<times> (rejection + nat)" where
  "Acquire perm now category source p =
     (case fmlookup (po_categories p) category of
        None \<Rightarrow> reject category UnknownCategory p
      | Some st \<Rightarrow>
          let limits = the (fmlookup (cf_categories (po_config p)) category) in
          if int (po_global_in_flight p) \<ge> cf_global_max_in_flight (po_config p) \<or>
             int (cs_in_flight st) \<ge> cl_max_in_flight limits
          then reject category Concurrency p
          else
            let st = cleanupSources perm (po_config p) now st;
                source = normalizeSource source;
                known = go_has (cs_sources st) source
            in if \<not> known \<and> int (go_len (cs_sources st)) \<ge> cf_max_sources (po_config p)
               then reject category SourceCapacity (set_category category st p)
               else
                 let bucket = (case fmlookup (cs_sources st) source of
                         Some b \<Rightarrow> b | None \<Rightarrow> newTokenBucket (cl_source_burst limits) now);
                     global = refill (cl_global_rate limits) (cl_global_burst limits) now (cs_global st);
                     bucket = refill (cl_source_rate limits) (cl_source_burst limits) now bucket;
                     st = st\<lparr>cs_global := global, cs_sources := fmupd source bucket (cs_sources st)\<rparr>
                 in if tb_tokens global < 1 \<or> tb_tokens bucket < 1
                    then reject category RateLimited (set_category category st p)
                    else
                      let st = st\<lparr>cs_global := charge global, cs_sources := fmupd source (charge bucket) (cs_sources st),
                                  cs_in_flight := cs_in_flight st + 1\<rparr>;
                          p = set_category category st p
                      in (p\<lparr>po_global_in_flight := po_global_in_flight p + 1,
                            po_leases := fmupd (po_next_lease p) category (po_leases p),
                            po_next_lease := po_next_lease p + 1\<rparr>, Inr (po_next_lease p)))"

text \<open>\<open>once.Do(release)\<close>: only the first release of a lease runs.\<close>

definition Release :: "nat \<Rightarrow> policy \<Rightarrow> policy" where
  "Release lease p =
     (case fmlookup (po_leases p) lease of
        None \<Rightarrow> p
      | Some category \<Rightarrow>
          let p = p\<lparr>po_leases := fmdrop lease (po_leases p)\<rparr>;
              p = (case fmlookup (po_categories p) category of
                     None \<Rightarrow> p
                   | Some st \<Rightarrow> if cs_in_flight st > 0
                       then set_category category (st\<lparr>cs_in_flight := cs_in_flight st - 1\<rparr>) p else p)
          in if po_global_in_flight p > 0 then p\<lparr>po_global_in_flight := po_global_in_flight p - 1\<rparr> else p)"

definition RejectionSnapshot :: "policy \<Rightarrow> (string \<times> reject_reason, u64) fmap" where
  "RejectionSnapshot p = po_rejections p"

subsection \<open>Leases and slots\<close>

definition leases_of :: "policy \<Rightarrow> string \<Rightarrow> nat" where
  "leases_of p category = go_len (fm_keep (\<lambda>_ c. c = category) (po_leases p))"

definition bucket_ok :: "int \<Rightarrow> token_bucket \<Rightarrow> bool" where
  "bucket_ok burst b = (0 \<le> tb_tokens b \<and> tb_tokens b \<le> of_int burst)"

text \<open>What holds of the state of one category, and of the whole policy.\<close>

definition category_ok :: "Config \<Rightarrow> CategoryLimits \<Rightarrow> category_state \<Rightarrow> bool" where
  "category_ok config l st =
     (int (go_len (cs_sources st)) \<le> cf_max_sources config \<and> bucket_ok (cl_global_burst l) (cs_global st) \<and>
      (\<forall>s b. fmlookup (cs_sources st) s = Some b \<longrightarrow> bucket_ok (cl_source_burst l) b))"

definition policy_inv :: "policy \<Rightarrow> bool" where
  "policy_inv p =
     (validateConfig (po_config p) \<and>
      (\<forall>c. go_has (po_categories p) c \<longleftrightarrow> go_has (cf_categories (po_config p)) c) \<and>
      (\<forall>i c. fmlookup (po_leases p) i = Some c \<longrightarrow> i < po_next_lease p \<and> go_has (po_categories p) c) \<and>
      po_global_in_flight p = go_len (po_leases p) \<and> int (go_len (po_leases p)) \<le> cf_global_max_in_flight (po_config p) \<and>
      (\<forall>c st l. fmlookup (po_categories p) c = Some st \<longrightarrow> fmlookup (cf_categories (po_config p)) c = Some l \<longrightarrow>
         cs_in_flight st = leases_of p c \<and> int (leases_of p c) \<le> cl_max_in_flight l \<and>
         category_ok (po_config p) l st))"

lemma limits_valid_lookup:
  "validateConfig c \<Longrightarrow> fmlookup (cf_categories c) k = Some l \<Longrightarrow> limits_valid k l"
  by (auto simp: validateConfig_def list_all_iff go_has_def dest!: bspec [of _ _ k])

lemma refill_ok:
  assumes "bucket_ok burst b" and "0 < rate" and "0 < burst"
  shows "bucket_ok burst (refill rate burst now b)"
  using assms by (auto simp: bucket_ok_def refill_def Let_def min_def)

lemma new_bucket_ok: "0 < burst \<Longrightarrow> bucket_ok burst (newTokenBucket burst now)"
  by (simp add: bucket_ok_def newTokenBucket_def)

lemma charge_ok: "bucket_ok burst b \<Longrightarrow> \<not> tb_tokens b < 1 \<Longrightarrow> bucket_ok burst (charge b)"
  by (simp add: bucket_ok_def charge_def)

lemma set_category_same: "fmlookup (po_categories p) c = Some st \<Longrightarrow> set_category c st p = p"
  by (simp add: set_category_def fmupd_same)

text \<open>One step of a category's global bucket: it is left, refilled, or refilled and charged.\<close>

inductive bucket_step :: "CategoryLimits \<Rightarrow> time \<Rightarrow> nat \<Rightarrow> token_bucket \<Rightarrow> token_bucket \<Rightarrow> bool" where
  bucket_left: "bucket_step l now 0 b b"
| bucket_refilled: "bucket_step l now 0 b (refill (cl_global_rate l) (cl_global_burst l) now b)"
| bucket_charged: "1 \<le> tb_tokens (refill (cl_global_rate l) (cl_global_burst l) now b) \<Longrightarrow>
    bucket_step l now 1 b (charge (refill (cl_global_rate l) (cl_global_burst l) now b))"

lemma cleanup_ok: "category_ok config l st \<Longrightarrow> category_ok config l (cleanupSources perm config now st)"
proof -
  assume a: "category_ok config l st"
  have "go_len (cs_sources (cleanupSources perm config now st)) \<le> go_len (cs_sources st)"
    by (simp add: cleanupSources_def Let_def fm_keep_len_le)
  with a have "int (go_len (cs_sources (cleanupSources perm config now st))) \<le> cf_max_sources config"
    by (simp add: category_ok_def)
  with a show ?thesis
    by (auto simp: category_ok_def cleanupSources_def Let_def split: option.splits if_splits)
qed

lemma cleanup_fields [simp]:
  "cs_in_flight (cleanupSources perm config now st) = cs_in_flight st"
  "cs_global (cleanupSources perm config now st) = cs_global st"
  by (simp_all add: cleanupSources_def Let_def)

lemma sources_upd_ok:
  assumes "category_ok config l st" and "go_has (cs_sources st) s \<or> \<not> int (go_len (cs_sources st)) \<ge> cf_max_sources config"
    and "bucket_ok (cl_source_burst l) b" and "bucket_ok (cl_global_burst l) g"
  shows "category_ok config l (st\<lparr>cs_global := g, cs_sources := fmupd s b (cs_sources st)\<rparr>)"
proof -
  have "int (go_len (fmupd s b (cs_sources st))) \<le> cf_max_sources config"
    using assms(1,2) by (cases "go_has (cs_sources st) s") (auto simp: category_ok_def go_len_upd_old go_len_upd_new)
  with assms show ?thesis by (auto simp: category_ok_def)
qed

text \<open>Every outcome of \<open>Acquire\<close> on a known category.\<close>

lemma Acquire_known:
  assumes acq: "Acquire perm now c source p = (p', r)"
    and st: "fmlookup (po_categories p) c = Some st" and l: "fmlookup (cf_categories (po_config p)) c = Some l"
    and ok: "category_ok (po_config p) l st" and valid: "limits_valid c l"
  shows "\<exists>st'. category_ok (po_config p) l st' \<and>
    ((\<exists>reason. r = Inl \<lparr>rj_category = c, rj_reason = reason\<rparr> \<and> p' = fst (reject c reason (set_category c st' p)) \<and>
        cs_in_flight st' = cs_in_flight st \<and> bucket_step l now 0 (cs_global st) (cs_global st')) \<or>
     (r = Inr (po_next_lease p) \<and> cs_in_flight st' = cs_in_flight st + 1 \<and>
        int (po_global_in_flight p) < cf_global_max_in_flight (po_config p) \<and> int (cs_in_flight st) < cl_max_in_flight l \<and>
        bucket_step l now 1 (cs_global st) (cs_global st') \<and>
        p' = (set_category c st' p)\<lparr>po_global_in_flight := po_global_in_flight p + 1,
            po_leases := fmupd (po_next_lease p) c (po_leases p), po_next_lease := po_next_lease p + 1\<rparr>))"
proof -
  let ?cfg = "po_config p"
  let ?st = "cleanupSources perm ?cfg now st" and ?s = "normalizeSource source"
  let ?known = "go_has (cs_sources ?st) ?s"
  let ?b0 = "case fmlookup (cs_sources ?st) ?s of Some b \<Rightarrow> b | None \<Rightarrow> newTokenBucket (cl_source_burst l) now"
  let ?g = "refill (cl_global_rate l) (cl_global_burst l) now (cs_global st)"
  let ?b = "refill (cl_source_rate l) (cl_source_burst l) now ?b0"
  let ?st2 = "?st\<lparr>cs_global := ?g, cs_sources := fmupd ?s ?b (cs_sources ?st)\<rparr>"
  let ?st3 = "?st\<lparr>cs_global := charge ?g, cs_sources := fmupd ?s (charge ?b) (cs_sources ?st), cs_in_flight := cs_in_flight st + 1\<rparr>"
  have v: "0 < cl_source_rate l" "0 < cl_global_rate l" "0 < cl_source_burst l" "0 < cl_global_burst l"
    using valid by (auto simp: limits_valid_def not_le)
  have okc: "category_ok ?cfg l ?st" by (rule cleanup_ok) (rule ok)
  have g: "bucket_ok (cl_global_burst l) ?g" by (rule refill_ok) (use okc v in \<open>auto simp: category_ok_def\<close>)
  have b: "bucket_ok (cl_source_burst l) ?b"
    by (rule refill_ok) (use okc v new_bucket_ok in \<open>auto simp: category_ok_def split: option.splits\<close>)
  let ?grant = "(set_category c ?st3 p)\<lparr>po_global_in_flight := po_global_in_flight p + 1,
            po_leases := fmupd (po_next_lease p) c (po_leases p), po_next_lease := po_next_lease p + 1\<rparr>"
  have eq: "(p', r) =
    (if int (po_global_in_flight p) \<ge> cf_global_max_in_flight ?cfg \<or> int (cs_in_flight st) \<ge> cl_max_in_flight l
     then reject c Concurrency p
     else if \<not> ?known \<and> int (go_len (cs_sources ?st)) \<ge> cf_max_sources ?cfg
     then reject c SourceCapacity (set_category c ?st p)
     else if tb_tokens ?g < 1 \<or> tb_tokens ?b < 1 then reject c RateLimited (set_category c ?st2 p)
     else (?grant, Inr (po_next_lease p)))"
    unfolding acq [symmetric] by (simp add: Acquire_def Let_def st l set_category_def cong: if_cong)
  consider (busy) "int (po_global_in_flight p) \<ge> cf_global_max_in_flight ?cfg \<or> int (cs_in_flight st) \<ge> cl_max_in_flight l"
    | (full) "\<not> (int (po_global_in_flight p) \<ge> cf_global_max_in_flight ?cfg \<or> int (cs_in_flight st) \<ge> cl_max_in_flight l)"
        "\<not> ?known \<and> int (go_len (cs_sources ?st)) \<ge> cf_max_sources ?cfg"
    | (empty) "\<not> (int (po_global_in_flight p) \<ge> cf_global_max_in_flight ?cfg \<or> int (cs_in_flight st) \<ge> cl_max_in_flight l)"
        "\<not> (\<not> ?known \<and> int (go_len (cs_sources ?st)) \<ge> cf_max_sources ?cfg)" "tb_tokens ?g < 1 \<or> tb_tokens ?b < 1"
    | (granted) "\<not> (int (po_global_in_flight p) \<ge> cf_global_max_in_flight ?cfg \<or> int (cs_in_flight st) \<ge> cl_max_in_flight l)"
        "\<not> (\<not> ?known \<and> int (go_len (cs_sources ?st)) \<ge> cf_max_sources ?cfg)" "\<not> (tb_tokens ?g < 1 \<or> tb_tokens ?b < 1)"
    by blast
  then show ?thesis
  proof cases
    case busy
    have "(p', r) = reject c Concurrency (set_category c st p)"
      unfolding eq set_category_same [OF st] by (rule if_P) (rule busy)
    then show ?thesis using ok bucket_left by (intro exI [of _ st]) (auto simp: reject_def)
  next
    case full
    have "(p', r) = reject c SourceCapacity (set_category c ?st p)"
      unfolding eq if_not_P [OF full(1)] by (rule if_P) (rule full(2))
    then show ?thesis using okc bucket_left by (intro exI [of _ ?st]) (auto simp: reject_def)
  next
    case empty
    have "(p', r) = reject c RateLimited (set_category c ?st2 p)"
      unfolding eq if_not_P [OF empty(1)] if_not_P [OF empty(2)] by (rule if_P) (rule empty(3))
    moreover have "category_ok ?cfg l ?st2"
      by (rule sources_upd_ok [OF okc _ b g]) (use empty(2) in blast)
    ultimately show ?thesis using bucket_refilled by (intro exI [of _ ?st2]) (auto simp: reject_def)
  next
    case granted
    have p': "(p', r) = (?grant, Inr (po_next_lease p))"
      unfolding eq if_not_P [OF granted(1)] if_not_P [OF granted(2)] by (rule if_not_P) (rule granted(3))
    have "category_ok ?cfg l (?st\<lparr>cs_global := charge ?g, cs_sources := fmupd ?s (charge ?b) (cs_sources ?st)\<rparr>)"
      by (rule sources_upd_ok [OF okc]) (use granted(2,3) charge_ok [OF b] charge_ok [OF g] in auto)
    then have "category_ok ?cfg l ?st3" by (simp add: category_ok_def)
    moreover have "bucket_step l now 1 (cs_global st) (cs_global ?st3)"
      using bucket_charged granted(3) by (simp add: not_less)
    ultimately show ?thesis using p' granted(1) by (intro exI [of _ ?st3]) auto
  qed
qed

lemma leases_grant:
  "\<not> go_has m i \<Longrightarrow> go_len (fm_keep (\<lambda>_ c. c = d) (fmupd i c m)) = go_len (fm_keep (\<lambda>_ c. c = d) m) + (if c = d then 1 else 0)"
  by (auto simp: fm_keep_upd_new fm_keep_has go_has_def intro!: go_len_upd_new [simplified])

lemma leases_return:
  "fmlookup m i = Some c \<Longrightarrow> go_len (fm_keep (\<lambda>_ c. c = d) (fmdrop i m)) = go_len (fm_keep (\<lambda>_ c. c = d) m) - (if c = d then 1 else 0)"
proof (cases "c = d")
  case True
  assume "fmlookup m i = Some c"
  with True show ?thesis by (auto simp add: fm_keep_drop fm_keep_has intro: go_len_drop [simplified])
next
  case False
  assume "fmlookup m i = Some c"
  with False have "fmdrop i (fm_keep (\<lambda>_ c. c = d) m) = fm_keep (\<lambda>_ c. c = d) m"
    by (intro fmap_ext) auto
  with False show ?thesis by (simp add: fm_keep_drop)
qed

lemma reject_inv: "policy_inv p \<Longrightarrow> policy_inv (fst (reject c reason p))"
  unfolding policy_inv_def reject_def leases_of_def by auto

lemma set_category_inv:
  assumes "policy_inv p" and "fmlookup (po_categories p) c = Some st" and "fmlookup (cf_categories (po_config p)) c = Some l"
    and "category_ok (po_config p) l st'" and "cs_in_flight st' = cs_in_flight st"
  shows "policy_inv (set_category c st' p)"
  using assms by (auto simp: policy_inv_def set_category_def leases_of_def go_has_def)

lemma Acquire_inv:
  assumes inv: "policy_inv p" and acq: "Acquire perm now c source p = (p', r)"
  shows "policy_inv p'"
proof (cases "fmlookup (po_categories p) c")
  case None
  then have "p' = fst (reject c UnknownCategory p)" using acq by (simp add: Acquire_def)
  with reject_inv [OF inv] show ?thesis by simp
next
  case (Some st)
  then obtain l where l: "fmlookup (cf_categories (po_config p)) c = Some l"
    using inv by (fastforce simp: policy_inv_def go_has_def)
  have ok: "category_ok (po_config p) l st" "cs_in_flight st = leases_of p c"
    using inv Some l by (simp_all add: policy_inv_def)
  have "validateConfig (po_config p)" using inv by (simp add: policy_inv_def)
  with l have valid: "limits_valid c l" by (metis limits_valid_lookup)
  from Acquire_known [OF acq Some l ok(1) valid] obtain st' where st': "category_ok (po_config p) l st'"
    and out: "(\<exists>reason. p' = fst (reject c reason (set_category c st' p)) \<and> cs_in_flight st' = cs_in_flight st) \<or>
      (cs_in_flight st' = cs_in_flight st + 1 \<and> int (po_global_in_flight p) < cf_global_max_in_flight (po_config p) \<and>
       int (cs_in_flight st) < cl_max_in_flight l \<and>
       p' = (set_category c st' p)\<lparr>po_global_in_flight := po_global_in_flight p + 1,
            po_leases := fmupd (po_next_lease p) c (po_leases p), po_next_lease := po_next_lease p + 1\<rparr>)"
    by blast
  from out show ?thesis
  proof
    assume "\<exists>reason. p' = fst (reject c reason (set_category c st' p)) \<and> cs_in_flight st' = cs_in_flight st"
    then show ?thesis using reject_inv set_category_inv [OF inv Some l st'] by blast
  next
    assume a: "cs_in_flight st' = cs_in_flight st + 1 \<and> int (po_global_in_flight p) < cf_global_max_in_flight (po_config p) \<and>
       int (cs_in_flight st) < cl_max_in_flight l \<and>
       p' = (set_category c st' p)\<lparr>po_global_in_flight := po_global_in_flight p + 1,
            po_leases := fmupd (po_next_lease p) c (po_leases p), po_next_lease := po_next_lease p + 1\<rparr>"
    have fresh: "\<not> go_has (po_leases p) (po_next_lease p)"
      using inv by (fastforce simp: policy_inv_def go_has_def)
    have glob: "po_global_in_flight p = go_len (po_leases p)" using inv by (simp add: policy_inv_def)
    have lo: "leases_of p' d = leases_of p d + (if c = d then 1 else 0)" for d
      using a fresh by (simp add: leases_of_def leases_grant)
    have len: "go_len (po_leases p') = go_len (po_leases p) + 1"
      using a by (simp add: go_len_upd_new [OF fresh])
    have cats: "po_categories p' = fmupd c st' (po_categories p)" "po_config p' = po_config p"
      "po_leases p' = fmupd (po_next_lease p) c (po_leases p)" "po_next_lease p' = po_next_lease p + 1"
      "po_global_in_flight p' = po_global_in_flight p + 1"
      using a by (simp_all add: set_category_def)
    have "int (leases_of p c + 1) \<le> cl_max_in_flight l" using a ok by simp
    moreover have "go_has (cf_categories (po_config p)) c" using l by (simp add: go_has_def)
    ultimately show ?thesis
      using inv st' a Some l ok len glob unfolding policy_inv_def cats lo
      by (auto simp: cats less_Suc_eq split: if_splits)
  qed
qed

lemma Release_inv:
  assumes inv: "policy_inv p"
  shows "policy_inv (Release i p)"
proof (cases "fmlookup (po_leases p) i")
  case (Some c)
  then obtain st where st: "fmlookup (po_categories p) c = Some st" using inv by (fastforce simp: policy_inv_def go_has_def)
  then obtain l where l: "fmlookup (cf_categories (po_config p)) c = Some l"
    using inv by (fastforce simp: policy_inv_def go_has_def)
  have "leases_of p c > 0"
    unfolding leases_of_def by (rule go_len_pos [of _ i]) (simp add: fm_keep_has Some)
  moreover have "cs_in_flight st = leases_of p c" using inv st l by (simp add: policy_inv_def)
  moreover have "go_len (po_leases p) > 0" by (rule go_len_pos [of _ i]) (simp add: go_has_def Some)
  moreover have "po_global_in_flight p = go_len (po_leases p)" using inv by (simp add: policy_inv_def)
  ultimately have r: "Release i p = p\<lparr>po_leases := fmdrop i (po_leases p),
      po_categories := fmupd c (st\<lparr>cs_in_flight := cs_in_flight st - 1\<rparr>) (po_categories p),
      po_global_in_flight := po_global_in_flight p - 1\<rparr>"
    using Some st by (simp add: Release_def Let_def set_category_def)
  have lo: "leases_of (Release i p) d = leases_of p d - (if c = d then 1 else 0)" for d
    unfolding r by (simp add: leases_of_def leases_return [OF Some])
  have len: "go_len (fmdrop i (po_leases p)) = go_len (po_leases p) - 1"
    by (rule go_len_drop) (simp add: go_has_def Some)
  have ok: "category_ok (po_config p) l (st\<lparr>cs_in_flight := n\<rparr>)" for n
    using inv st l by (simp add: policy_inv_def category_ok_def)
  have "int (leases_of p c) \<le> cl_max_in_flight l" using inv st l by (simp add: policy_inv_def)
  then have "int (leases_of p c - 1) \<le> cl_max_in_flight l" by simp
  moreover have "go_has (cf_categories (po_config p)) c" using l by (simp add: go_has_def)
  ultimately show ?thesis
    using inv st l ok unfolding policy_inv_def lo by (auto simp: r len split: if_splits)
qed (use inv in \<open>simp add: Release_def\<close>)

subsection \<open>Histories\<close>

text \<open>An operation with the clock reading and the scan order it met.\<close>

datatype policy_event = PAcquire "string list \<Rightarrow> string list" time string string | PRelease nat

fun policy_step :: "policy \<Rightarrow> policy_event \<Rightarrow> policy" where
  "policy_step p (PAcquire perm now c s) = fst (Acquire perm now c s p)"
| "policy_step p (PRelease i) = Release i p"

lemma policy_step_inv: "policy_inv p \<Longrightarrow> policy_inv (policy_step p e)"
  by (cases e) (simp_all add: Release_inv, metis Acquire_inv prod.collapse)

lemma NewPolicy_inv: "NewPolicy config t = Inr p \<Longrightarrow> policy_inv p \<and> po_config p = config"
proof -
  assume n: "NewPolicy config t = Inr p"
  then have v: "validateConfig config" by (simp add: NewPolicy_def split: if_splits)
  have pos: "fmlookup (cf_categories config) c = Some l \<Longrightarrow> 0 \<le> cl_max_in_flight l"
    "fmlookup (cf_categories config) c = Some l \<Longrightarrow> bucket_ok (cl_global_burst l) (newTokenBucket (cl_global_burst l) t)" for c l
    using limits_valid_lookup [OF v] new_bucket_ok by (fastforce simp: limits_valid_def)+
  have "0 < cf_max_sources config" "0 < cf_global_max_in_flight config" using v by (auto simp: validateConfig_def)
  moreover have "fm_keep P (fmempty :: (nat, string) fmap) = fmempty" for P by (rule fmap_ext) simp
  ultimately show ?thesis
    using n v by (auto simp: NewPolicy_def policy_inv_def leases_of_def category_ok_def go_has_def new_bucket_ok
        dest: pos(1) split: if_splits) (erule pos(2))
qed

text \<open>
  C9. Concurrency is bounded and every slot comes back.  After any history of acquires
  and releases of a new policy, the slots in use are exactly the leases not yet released,
  and they respect the limit of every category and the global limit.
\<close>

theorem leases_bound_concurrency:
  assumes "NewPolicy config t0 = Inr p0" and "p = foldl policy_step p0 events"
  shows "po_global_in_flight p = go_len (po_leases p) \<and> int (po_global_in_flight p) \<le> cf_global_max_in_flight config \<and>
    (\<forall>c st l. fmlookup (po_categories p) c = Some st \<longrightarrow> fmlookup (cf_categories config) c = Some l \<longrightarrow>
       cs_in_flight st = leases_of p c \<and> int (cs_in_flight st) \<le> cl_max_in_flight l \<and>
       int (go_len (cs_sources st)) \<le> cf_max_sources config)"
proof -
  have "policy_inv p \<and> po_config p = config"
  proof -
    have "policy_inv q \<Longrightarrow> po_config (policy_step q e) = po_config q" for q e
    proof (cases e)
      case (PAcquire perm now c s)
      assume inv: "policy_inv q"
      obtain q' r where acq: "Acquire perm now c s q = (q', r)" by (metis surj_pair)
      show ?thesis
        using acq PAcquire
        by (auto simp: Acquire_def reject_def Let_def set_category_def split: option.splits if_splits)
    qed (auto simp: Release_def Let_def set_category_def split: option.splits)
    then have "policy_inv q \<Longrightarrow> policy_inv (foldl policy_step q es) \<and> po_config (foldl policy_step q es) = po_config q" for q es
      by (induction es arbitrary: q) (auto simp: policy_step_inv)
    with NewPolicy_inv [OF assms(1)] assms(2) show ?thesis by auto
  qed
  then show ?thesis unfolding policy_inv_def category_ok_def by auto
qed

theorem leases_bound_concurrency_witness:
  "\<exists>p0. NewPolicy DefaultConfig 0 = Inr p0 \<and>
     po_global_in_flight (foldl policy_step p0 [PAcquire (\<lambda>ks. ks) 1 ''pairing'' ''10.0.0.1'', PRelease 0]) = 0"
proof -
  obtain p0 where p0: "NewPolicy DefaultConfig 0 = Inr p0"
  proof -
    have "case NewPolicy DefaultConfig 0 of Inl _ \<Rightarrow> False | Inr _ \<Rightarrow> True" by code_simp
    then show ?thesis using that by (auto split: sum.splits)
  qed
  let ?es = "[PAcquire (\<lambda>ks. ks) 1 ''pairing'' ''10.0.0.1'', PRelease 0]"
  have "case NewPolicy DefaultConfig 0 of Inl _ \<Rightarrow> False
    | Inr p0 \<Rightarrow> go_len (po_leases (foldl policy_step p0 ?es)) = 0" by code_simp
  with p0 leases_bound_concurrency [OF p0 refl, of ?es] show ?thesis by auto
qed

subsection \<open>The rate bound\<close>

definition global_bucket :: "string \<Rightarrow> policy \<Rightarrow> token_bucket" where
  "global_bucket c p = cs_global (the (fmlookup (po_categories p) c))"

fun granted :: "string \<Rightarrow> policy \<Rightarrow> policy_event list \<Rightarrow> nat" where
  "granted c p [] = 0"
| "granted c p (PAcquire perm now d s # es) =
     (if c = d then case snd (Acquire perm now d s p) of Inl _ \<Rightarrow> 0 | Inr _ \<Rightarrow> 1 else 0) +
     granted c (fst (Acquire perm now d s p)) es"
| "granted c p (PRelease i # es) = granted c (Release i p) es"

lemma bucket_step_bound:
  assumes "bucket_step l now k b b'" and "0 < cl_global_rate l"
  shows "of_nat k + tb_tokens b' \<le> tb_tokens b + cl_global_rate l * (of_int (tb_last b' - tb_last b) / of_int second)"
    and "tb_last b \<le> tb_last b'" and "tb_last b' \<le> max now (tb_last b)"
  using assms by (cases; auto simp: refill_def Let_def charge_def mult.commute)+

lemma Acquire_other: "d \<noteq> c \<Longrightarrow> global_bucket c (fst (Acquire perm now d s p)) = global_bucket c p"
  by (auto simp: Acquire_def reject_def Let_def set_category_def global_bucket_def split: option.splits)

lemma Release_global: "policy_inv p \<Longrightarrow> go_has (po_categories p) c \<Longrightarrow> global_bucket c (Release i p) = global_bucket c p"
  by (auto simp: Release_def Let_def set_category_def global_bucket_def go_has_def split: option.splits)

lemma policy_step_keeps:
  "policy_inv p \<Longrightarrow> po_config (policy_step p e) = po_config p"
  by (cases e) (auto simp: Acquire_def reject_def Let_def set_category_def Release_def split: option.splits)

fun not_after :: "time \<Rightarrow> policy_event \<Rightarrow> bool" where
  "not_after t (PAcquire perm now c s) = (now \<le> t)"
| "not_after t (PRelease i) = True"

lemma granted_bound:
  assumes "policy_inv p" and "fmlookup (cf_categories (po_config p)) c = Some l" and "list_all (not_after t1) es"
    and "tb_last (global_bucket c p) \<le> t1"
  shows "of_nat (granted c p es) \<le> tb_tokens (global_bucket c p) +
    cl_global_rate l * (of_int (t1 - tb_last (global_bucket c p)) / of_int second)"
  using assms
proof (induction es arbitrary: p)
  case Nil
  then have "limits_valid c l" by (auto simp: policy_inv_def dest: limits_valid_lookup)
  then have "0 < cl_global_rate l" by (simp add: limits_valid_def)
  moreover have "0 \<le> tb_tokens (global_bucket c p)"
    using Nil by (fastforce simp: policy_inv_def category_ok_def bucket_ok_def global_bucket_def go_has_def)
  ultimately show ?case using Nil by simp
next
  case (Cons e es)
  obtain st where st: "fmlookup (po_categories p) c = Some st"
    using Cons.prems(1,2) by (fastforce simp: policy_inv_def go_has_def)
  have valid: "limits_valid c l" using Cons.prems(1,2) by (auto simp: policy_inv_def dest: limits_valid_lookup)
  then have rate: "0 < cl_global_rate l" by (simp add: limits_valid_def)
  have inv: "policy_inv (policy_step p e)" by (rule policy_step_inv) (rule Cons.prems)
  have cfg: "fmlookup (cf_categories (po_config (policy_step p e))) c = Some l"
    using Cons.prems(2) policy_step_keeps [OF Cons.prems(1)] by simp
  note ih = Cons.IH [OF inv cfg]
  have rest: "list_all (not_after t1) es" using Cons.prems(3) by simp
  show ?case
  proof (cases e)
    case (PRelease i)
    have "global_bucket c (Release i p) = global_bucket c p"
      by (rule Release_global) (use Cons.prems(1) st in \<open>auto simp: go_has_def\<close>)
    with ih [OF rest] PRelease Cons.prems(4) show ?thesis by simp
  next
    case (PAcquire perm now d s)
    show ?thesis
    proof (cases "c = d")
      case False
      then have "global_bucket c (policy_step p e) = global_bucket c p" using PAcquire Acquire_other by simp
      with ih [OF rest] PAcquire False Cons.prems(4) show ?thesis by simp
    next
      case True
      obtain p' r where acq: "Acquire perm now c s p = (p', r)" by (metis surj_pair)
      have ok: "category_ok (po_config p) l st" using Cons.prems(1,2) st by (simp add: policy_inv_def)
      from Acquire_known [OF acq st Cons.prems(2) ok valid] obtain st' k where
        st': "fmlookup (po_categories p') c = Some st'" "bucket_step l now k (cs_global st) (cs_global st')"
        and k: "(case r of Inl _ \<Rightarrow> 0 | Inr _ \<Rightarrow> 1) = k"
        by (auto simp: reject_def set_category_def)
      have g: "global_bucket c p = cs_global st" "global_bucket c p' = cs_global st'"
        by (simp_all add: global_bucket_def st st'(1))
      note b = bucket_step_bound [OF st'(2) rate, folded g]
      have "now \<le> t1" using Cons.prems(3) PAcquire by simp
      then have "tb_last (global_bucket c p') \<le> t1" using b(3) Cons.prems(4) by simp
      with ih [OF rest] acq PAcquire True have
        "of_nat (granted c p' es) \<le> tb_tokens (global_bucket c p') +
           cl_global_rate l * (of_int (t1 - tb_last (global_bucket c p')) / of_int second)" by simp
      moreover have "granted c p (e # es) = k + granted c p' es" using acq PAcquire True k by simp
      ultimately show ?thesis using b(1) by (simp add: field_simps)
    qed
  qed
qed



subsection \<open>Body limits\<close>

text \<open>
  \<open>JSONBody\<close> (\<open>pkg/httpguard/httpguard.go\<close>): it decides on the parsed media type and the
  request body (\<open>None\<close> when reading fails).  Decoding one value and then meeting the end of
  the input succeeds exactly on the texts that the scanner accepts as one value.
\<close>

datatype guard_result = Refuse nat | Forward string

definition JSONBody :: "nat \<Rightarrow> string option \<Rightarrow> string option \<Rightarrow> guard_result" where
  "JSONBody limit mediaType body =
     (if mediaType \<noteq> Some ''application/json'' then Refuse 415
      else case body of
        None \<Rightarrow> Refuse 400
      | Some bytes \<Rightarrow>
          if length bytes > limit then Refuse 413
          else if \<not> json_valid bytes then Refuse 400
          else Forward bytes)"

end
