(* ===== verification/Identity.thy ===== *)
theory Identity
  imports GoStrings
begin

text \<open>
  Node identities and the store of paired peers (\<open>pkg/identity/identity.go\<close>,
  \<open>peers.go\<close>): canonical names and Base64 keys, validation, and the store whose memory
  follows the file.  Ed25519 signing and verification are arguments; reading and writing
  files are their outcomes.
\<close>

subsection \<open>Base64\<close>

text \<open>\<open>base64.StdEncoding\<close>: three bytes are the digits of a number below 2 to the 24.\<close>

definition b64_char :: "nat \<Rightarrow> char" where
  "b64_char n =
     (if n < 26 then char_of (65 + n) else if n < 52 then char_of (71 + n)
      else if n < 62 then char_of (n - 4) else if n = 62 then CHR ''+'' else CHR ''/'')"

definition b64_digit :: "char \<Rightarrow> nat option" where
  "b64_digit c =
     (let n = byte_val c in
      if 65 \<le> n \<and> n \<le> 90 then Some (n - 65) else if 97 \<le> n \<and> n \<le> 122 then Some (n - 71)
      else if 48 \<le> n \<and> n \<le> 57 then Some (n + 4)
      else if n = 43 then Some 62 else if n = 47 then Some 63 else None)"

definition three :: "char \<Rightarrow> char \<Rightarrow> char \<Rightarrow> nat" where
  "three a b c = byte_val a * 65536 + byte_val b * 256 + byte_val c"

fun b64_encode :: "string \<Rightarrow> string" where
  "b64_encode [] = []"
| "b64_encode [a] =
     (let v = byte_val a * 16 in [b64_char (v div 64), b64_char (v mod 64), CHR ''='', CHR ''=''])"
| "b64_encode [a, b] =
     (let v = byte_val a * 1024 + byte_val b * 4 in
      [b64_char (v div 4096), b64_char (v div 64 mod 64), b64_char (v mod 64), CHR ''=''])"
| "b64_encode (a # b # c # rest) =
     (let v = three a b c in
      [b64_char (v div 262144), b64_char (v div 4096 mod 64), b64_char (v div 64 mod 64), b64_char (v mod 64)]
      @ b64_encode rest)"

text \<open>
  The strict decoder: line breaks are skipped, the unused bits of a final group must be
  zero and padding is required.
\<close>

fun b64_groups :: "string \<Rightarrow> string option" where
  "b64_groups [] = Some []"
| "b64_groups (p # q # r # s # rest) =
     (case (b64_digit p, b64_digit q) of
        (Some w, Some x) \<Rightarrow>
          if r = CHR ''='' \<and> s = CHR ''='' \<and> rest = []
          then if x mod 16 = 0 then Some [char_of (w * 4 + x div 16)] else None
          else (case b64_digit r of
             None \<Rightarrow> None
           | Some y \<Rightarrow>
               if s = CHR ''='' \<and> rest = []
               then if y mod 4 = 0
                 then Some [char_of ((w * 64 + x) div 16), char_of (((w * 64 + x) * 64 + y) div 4 mod 256)]
                 else None
               else (case (b64_digit s, b64_groups rest) of
                  (Some z, Some bytes) \<Rightarrow>
                    let v = ((w * 64 + x) * 64 + y) * 64 + z in
                    Some ([char_of (v div 65536), char_of (v div 256 mod 256), char_of (v mod 256)] @ bytes)
                | _ \<Rightarrow> None))
      | _ \<Rightarrow> None)"
| "b64_groups _ = None"

definition b64_decode_strict :: "string \<Rightarrow> string option" where
  "b64_decode_strict s = b64_groups (filter (\<lambda>c. byte_val c \<noteq> 10 \<and> byte_val c \<noteq> 13) s)"

datatype identity_error = NameEmpty | NameNotUTF8 | NameTooLong | NameControl | NameNotCanonical
  | NotBase64 | NotCanonicalBase64 | WrongSize nat | NilIdentity | KeyMismatch
  | RandomFailed | FileFailed

definition decodeCanonicalBase64 :: "string \<Rightarrow> nat \<Rightarrow> identity_error + string" where
  "decodeCanonicalBase64 encoded want =
     (case b64_decode_strict encoded of
        None \<Rightarrow> Inl NotBase64
      | Some decoded \<Rightarrow>
          if b64_encode decoded \<noteq> encoded then Inl NotCanonicalBase64
          else if length decoded \<noteq> want then Inl (WrongSize (length decoded))
          else Inr decoded)"

definition ParsePublicKey :: "string \<Rightarrow> identity_error + string" where
  "ParsePublicKey encoded = decodeCanonicalBase64 encoded 32"

definition ParsePrivateKey :: "string \<Rightarrow> identity_error + string" where
  "ParsePrivateKey encoded = decodeCanonicalBase64 encoded 64"

definition ParseSignature :: "string \<Rightarrow> identity_error + string" where
  "ParseSignature encoded = decodeCanonicalBase64 encoded 64"

lemma b64_char_val:
  "n < 64 \<Longrightarrow> byte_val (b64_char n) =
     (if n < 26 then 65 + n else if n < 52 then 71 + n else if n < 62 then n - 4 else if n = 62 then 43 else 47)"
proof -
  have "byte_val CHR ''+'' = 43" "byte_val CHR ''/'' = 47" by (simp_all add: byte_val_def)
  then show "n < 64 \<Longrightarrow> ?thesis" by (simp add: b64_char_def byte_val_char_of)
qed

lemma b64_digit_char [simp]: "n < 64 \<Longrightarrow> b64_digit (b64_char n) = Some n"
  by (auto simp add: b64_digit_def Let_def b64_char_val)

lemma b64_char_plain: "n < 64 \<Longrightarrow> b64_char n \<noteq> CHR ''='' \<and> byte_val (b64_char n) \<noteq> 10 \<and> byte_val (b64_char n) \<noteq> 13"
proof -
  assume n: "n < 64"
  have "byte_val CHR ''='' = 61" by (simp add: byte_val_def)
  moreover have "byte_val (b64_char n) \<noteq> 61 \<and> byte_val (b64_char n) \<noteq> 10 \<and> byte_val (b64_char n) \<noteq> 13"
    using b64_char_val [OF n] n by (auto split: if_splits)
  ultimately show ?thesis by metis
qed

lemma char_of_byte [simp]: "char_of (byte_val c) = c"
  by (simp add: byte_val_def)

lemma byte_div:
  "byte_val a * 16 div 64 < 64" "(byte_val a * 1024 + byte_val b * 4) div 4096 < 64" "three a b c div 262144 < 64"
proof -
  have "byte_val a * 16 < 64 * 64" using byte_val_lt [of a] by simp
  then show "byte_val a * 16 div 64 < 64" by (rule less_mult_imp_div_less)
  have "byte_val a * 1024 + byte_val b * 4 < 64 * 4096" using byte_val_lt [of a] byte_val_lt [of b] by linarith
  then show "(byte_val a * 1024 + byte_val b * 4) div 4096 < 64" by (rule less_mult_imp_div_less)
  have "three a b c < 64 * 262144"
    using byte_val_lt [of a] byte_val_lt [of b] byte_val_lt [of c] unfolding three_def by linarith
  then show "three a b c div 262144 < 64" by (rule less_mult_imp_div_less)
qed

lemma mod_64 [simp]: "v mod 64 < (64 :: nat)"
  by simp

lemma digits4: "(((v div 262144) * 64 + v div 4096 mod 64) * 64 + v div 64 mod 64) * 64 + v mod 64 = v" for v :: nat
proof -
  have "v div 262144 * 64 + v div 4096 mod 64 = v div 4096"
    using div_mult_mod_eq [of "v div 4096" 64] by (simp add: div_mult2_eq [symmetric])
  moreover have "v div 4096 * 64 + v div 64 mod 64 = v div 64"
    using div_mult_mod_eq [of "v div 64" 64] by (simp add: div_mult2_eq [symmetric])
  moreover have "v div 64 * 64 + v mod 64 = v" by (rule div_mult_mod_eq)
  ultimately show ?thesis by simp
qed

lemma digits3: "((v div 4096) * 64 + v div 64 mod 64) * 64 + v mod 64 = v" for v :: nat
proof -
  have "v div 4096 * 64 + v div 64 mod 64 = v div 64"
    using div_mult_mod_eq [of "v div 64" 64] by (simp add: div_mult2_eq [symmetric])
  then show ?thesis by simp
qed

lemma three_bytes:
  "three a b c div 65536 = byte_val a" "three a b c div 256 mod 256 = byte_val b" "three a b c mod 256 = byte_val c"
proof -
  have v: "three a b c = byte_val c + (byte_val a * 256 + byte_val b) * 256" by (simp add: three_def)
  have d: "three a b c div 256 = byte_val a * 256 + byte_val b"
    unfolding v by (subst div_mult_self1) simp_all
  show "three a b c mod 256 = byte_val c" unfolding v by (subst mod_mult_self1) simp
  have "three a b c div 65536 = three a b c div 256 div 256" by (simp add: div_mult2_eq [symmetric])
  also have "\<dots> = (byte_val b + byte_val a * 256) div 256" unfolding d by (simp add: add.commute)
  also have "\<dots> = byte_val a" by (subst div_mult_self1) simp_all
  finally show "three a b c div 65536 = byte_val a" .
  have "three a b c div 256 mod 256 = (byte_val b + byte_val a * 256) mod 256" unfolding d by (simp add: add.commute)
  also have "\<dots> = byte_val b" by (subst mod_mult_self1) simp
  finally show "three a b c div 256 mod 256 = byte_val b" .
qed

lemma one_byte: "a * 16 mod 64 mod 16 = 0 \<and> a * 16 div 64 * 4 + a * 16 mod 64 div 16 = a" for a :: nat
proof -
  have "a * 16 mod 64 = (a mod 4) * 16" using mod_mult_mult2 [of a 16 4] by simp
  moreover have "a * 16 div 64 = a div 4" by simp
  ultimately show ?thesis by (simp add: div_mult_mod_eq)
qed

lemma two_bytes:
  fixes a b :: nat
  assumes "b < 256"
  shows "(a * 1024 + b * 4) mod 64 mod 4 = 0 \<and>
    ((a * 1024 + b * 4) div 4096 * 64 + (a * 1024 + b * 4) div 64 mod 64) div 16 = a \<and>
    (((a * 1024 + b * 4) div 4096 * 64 + (a * 1024 + b * 4) div 64 mod 64) * 64 + (a * 1024 + b * 4) mod 64) div 4 mod 256 = b"
proof (intro conjI)
  let ?v = "a * 1024 + b * 4"
  have v: "?v = (b + a * 256) * 4" by simp
  have "?v mod 64 mod 4 = ?v mod 4" by (rule mod_mod_cancel) simp
  also have "?v mod 4 = 0" unfolding v by (rule mod_mult_self2_is_0)
  finally show "?v mod 64 mod 4 = 0" .
  have "?v div 4096 * 64 + ?v div 64 mod 64 = ?v div 64"
    using div_mult_mod_eq [of "?v div 64" 64] by (simp add: div_mult2_eq [symmetric])
  moreover have "?v div 64 div 16 = ?v div 1024" by (simp add: div_mult2_eq [symmetric])
  moreover have "?v div 1024 = a" using assms by simp
  ultimately show "(?v div 4096 * 64 + ?v div 64 mod 64) div 16 = a" by simp
  have "?v div 4 = b + a * 256" unfolding v by (rule nonzero_mult_div_cancel_right) simp
  then have "?v div 4 mod 256 = b" using assms by simp
  then show "((?v div 4096 * 64 + ?v div 64 mod 64) * 64 + ?v mod 64) div 4 mod 256 = b" unfolding digits3 .
qed

lemma b64_encode_clean: "filter (\<lambda>c. byte_val c \<noteq> 10 \<and> byte_val c \<noteq> 13) (b64_encode bs) = b64_encode bs"
proof -
  have eq: "byte_val CHR ''='' = 61" by (simp add: byte_val_def)
  have "list_all (\<lambda>c. byte_val c \<noteq> 10 \<and> byte_val c \<noteq> 13) (b64_encode bs)"
    by (induction bs rule: b64_encode.induct)
      (simp_all only: b64_encode.simps Let_def list_all_append list.pred_inject eq b64_char_plain byte_div mod_64, simp_all)
  then show ?thesis by (simp add: filter_id_conv list_all_iff)
qed

lemma b64_groups_encode: "b64_groups (b64_encode bs) = Some bs"
proof (induction bs rule: b64_encode.induct)
  case (2 a)
  note d = b64_digit_char [OF byte_div(1) [of a]] b64_digit_char [OF mod_64]
  show ?case using one_byte [of "byte_val a"] by (simp only: b64_encode.simps Let_def b64_groups.simps d) simp
next
  case (3 a b)
  let ?v = "byte_val a * 1024 + byte_val b * 4"
  note d = b64_digit_char [OF byte_div(2) [of a b]] b64_digit_char [OF mod_64]
  show ?case using two_bytes [of "byte_val b" "byte_val a"] b64_char_plain [of "?v mod 64"]
    by (simp only: b64_encode.simps Let_def b64_groups.simps d) (simp del: mod_mult_self1 mod_mult_self2)
next
  case (4 a b c rest)
  let ?v = "three a b c"
  note d = b64_digit_char [OF byte_div(3) [of a b c]] b64_digit_char [OF mod_64]
  have "b64_groups (b64_encode (a # b # c # rest)) =
    Some ([char_of (?v div 65536), char_of (?v div 256 mod 256), char_of (?v mod 256)] @ rest)"
    using b64_char_plain [OF mod_64, of "?v div 64"] b64_char_plain [OF mod_64, of ?v] 4
    by (simp only: b64_encode.simps Let_def append.simps b64_groups.simps d option.case prod.case digits4) simp
  then show ?case by (simp add: three_bytes)
qed simp

lemma decode_canonical_iff:
  "(decodeCanonicalBase64 s n = Inr bytes) = (s = b64_encode bytes \<and> length bytes = n)"
proof
  assume "decodeCanonicalBase64 s n = Inr bytes"
  then show "s = b64_encode bytes \<and> length bytes = n"
    by (auto simp: decodeCanonicalBase64_def split: option.splits if_splits)
next
  assume "s = b64_encode bytes \<and> length bytes = n"
  then show "decodeCanonicalBase64 s n = Inr bytes"
    by (auto simp: decodeCanonicalBase64_def b64_decode_strict_def b64_encode_clean b64_groups_encode)
qed

text \<open>
  Keys have one spelling.  The strict parser accepts a text exactly when it is the
  Base64 encoding of a key of the right size, and returns that key: two stored keys are
  equal as texts when and only when they are the same key.
\<close>

theorem canonical_base64:
  "(decodeCanonicalBase64 s n = Inr bytes) = (s = b64_encode bytes \<and> length bytes = n)"
  by (rule decode_canonical_iff)

subsection \<open>Names and identities\<close>

definition MaxPeerNameBytes :: nat where
  "MaxPeerNameBytes = 128"

definition NormalizeName :: "string \<Rightarrow> identity_error + string" where
  "NormalizeName name =
     (let normalized = trim_space name in
      if normalized = [] then Inl NameEmpty
      else if \<not> valid_utf8 normalized then Inl NameNotUTF8
      else if length normalized > MaxPeerNameBytes then Inl NameTooLong
      else if contains_token control_encodings normalized then Inl NameControl
      else Inr normalized)"

definition validateStoredName :: "string \<Rightarrow> identity_error option" where
  "validateStoredName name =
     (case NormalizeName name of
        Inl err \<Rightarrow> Some err
      | Inr normalized \<Rightarrow> if normalized \<noteq> name then Some NameNotCanonical else None)"

lemma normalized_name_stored: "NormalizeName name = Inr n \<Longrightarrow> validateStoredName n = None"
  by (auto simp: NormalizeName_def validateStoredName_def Let_def split: if_splits)

lemma stored_name_normalized: "(validateStoredName n = None) = (NormalizeName n = Inr n)"
  by (auto simp: validateStoredName_def split: sum.splits)

record identity =
  id_Name :: string
  id_PublicKey :: string
  id_PrivateKey :: string

text \<open>
  \<open>ed25519.PrivateKey\<close> is the 32-byte seed followed by the public key, which \<open>Public\<close>
  returns.  The receiver may be a nil pointer.
\<close>

definition identity_Validate :: "identity option \<Rightarrow> identity_error option" where
  "identity_Validate idp =
     (case idp of
        None \<Rightarrow> Some NilIdentity
      | Some i \<Rightarrow>
          (case validateStoredName (id_Name i) of
             Some err \<Rightarrow> Some err
           | None \<Rightarrow>
               (case ParsePublicKey (id_PublicKey i) of
                  Inl err \<Rightarrow> Some err
                | Inr publicKey \<Rightarrow>
                    (case ParsePrivateKey (id_PrivateKey i) of
                       Inl err \<Rightarrow> Some err
                     | Inr privateKey \<Rightarrow>
                         if publicKey \<noteq> drop 32 privateKey then Some KeyMismatch else None))))"

text \<open>\<open>sign private message\<close> is \<open>ed25519.Sign\<close>, \<open>check public message signature\<close> \<open>ed25519.Verify\<close>.\<close>

definition Sign :: "(string \<Rightarrow> string \<Rightarrow> string) \<Rightarrow> identity option \<Rightarrow> string \<Rightarrow> identity_error + string" where
  "Sign sign idp message =
     (case identity_Validate idp of
        Some err \<Rightarrow> Inl err
      | None \<Rightarrow>
          (case ParsePrivateKey (id_PrivateKey (the idp)) of
             Inl err \<Rightarrow> Inl err | Inr priv \<Rightarrow> Inr (sign priv message)))"

definition Verify :: "(string \<Rightarrow> string \<Rightarrow> string \<Rightarrow> bool) \<Rightarrow> string \<Rightarrow> string \<Rightarrow> string \<Rightarrow> bool" where
  "Verify check publicKeyB64 message signature =
     (case ParsePublicKey publicKeyB64 of
        Inl _ \<Rightarrow> False
      | Inr pub \<Rightarrow> if length signature \<noteq> 64 then False else check pub message signature)"

text \<open>\<open>base64.RawURLEncoding\<close>: the URL alphabet without padding.\<close>

definition b64_raw_url :: "string \<Rightarrow> string" where
  "b64_raw_url bytes =
     map (\<lambda>c. if c = CHR ''+'' then CHR ''-'' else if c = CHR ''/'' then CHR ''_'' else c)
       (filter (\<lambda>c. c \<noteq> CHR ''='') (b64_encode bytes))"

definition Fingerprint :: "string \<Rightarrow> string" where
  "Fingerprint publicKey =
     (case ParsePublicKey publicKey of Inl _ \<Rightarrow> [] | Inr b \<Rightarrow> b64_raw_url (take 8 b))"

text \<open>\<open>GenerateKey\<close> returns the public and the private key, or fails with the random source.\<close>

definition Generate :: "(string \<times> string) option \<Rightarrow> string \<Rightarrow> identity_error + identity" where
  "Generate keypair name =
     (case NormalizeName name of
        Inl err \<Rightarrow> Inl err
      | Inr normalizedName \<Rightarrow>
          (case keypair of
             None \<Rightarrow> Inl RandomFailed
           | Some (pub, priv) \<Rightarrow>
               Inr \<lparr>id_Name = normalizedName, id_PublicKey = b64_encode pub, id_PrivateKey = b64_encode priv\<rparr>))"

text \<open>
  The identity file: absent, unreadable, not an identity, or one.  \<open>LoadOrCreate\<close>
  returns the identity and the content of the file afterwards; a failed write is given by
  what it leaves behind.
\<close>

datatype 'a stored = NotExist | ReadFailed | Unparsable | Stored 'a

definition LoadOrCreate :: "identity stored \<Rightarrow> (string \<times> string) option \<Rightarrow> identity stored option \<Rightarrow> string
    \<Rightarrow> (identity_error + identity) \<times> identity stored" where
  "LoadOrCreate file keypair failed defaultName =
     (case file of
        Stored i \<Rightarrow>
          (case identity_Validate (Some i) of Some err \<Rightarrow> Inl err | None \<Rightarrow> Inr i, file)
      | Unparsable \<Rightarrow> (Inl FileFailed, file)
      | ReadFailed \<Rightarrow> (Inl FileFailed, file)
      | NotExist \<Rightarrow>
          (case Generate keypair defaultName of
             Inl err \<Rightarrow> (Inl err, file)
           | Inr i \<Rightarrow> (case failed of None \<Rightarrow> (Inr i, Stored i) | Some left \<Rightarrow> (Inl FileFailed, left))))"

definition Load :: "identity stored \<Rightarrow> identity_error + identity" where
  "Load file =
     (case file of
        Stored i \<Rightarrow> (case identity_Validate (Some i) of Some err \<Rightarrow> Inl err | None \<Rightarrow> Inr i)
      | _ \<Rightarrow> Inl FileFailed)"

lemma parse_key_iff:
  "(ParsePublicKey s = Inr b) = (s = b64_encode b \<and> length b = 32)"
  "(ParsePrivateKey s = Inr b) = (s = b64_encode b \<and> length b = 64)"
  by (simp_all add: ParsePublicKey_def ParsePrivateKey_def decode_canonical_iff)

lemma identity_valid_iff:
  "(identity_Validate (Some i) = None) =
     (NormalizeName (id_Name i) = Inr (id_Name i) \<and>
      (\<exists>seed pub. length seed = 32 \<and> length pub = 32 \<and>
         id_PublicKey i = b64_encode pub \<and> id_PrivateKey i = b64_encode (seed @ pub)))"
proof
  assume "identity_Validate (Some i) = None"
  then obtain pub priv where n: "validateStoredName (id_Name i) = None"
    and p: "ParsePublicKey (id_PublicKey i) = Inr pub" and q: "ParsePrivateKey (id_PrivateKey i) = Inr priv"
    and e: "pub = drop 32 priv"
    by (auto simp: identity_Validate_def split: option.splits sum.splits if_splits)
  from q have "priv = take 32 priv @ pub \<and> length (take 32 priv) = 32"
    unfolding parse_key_iff e by simp
  with n p q show "NormalizeName (id_Name i) = Inr (id_Name i) \<and>
      (\<exists>seed pub. length seed = 32 \<and> length pub = 32 \<and>
         id_PublicKey i = b64_encode pub \<and> id_PrivateKey i = b64_encode (seed @ pub))"
    unfolding parse_key_iff stored_name_normalized by metis
next
  assume "NormalizeName (id_Name i) = Inr (id_Name i) \<and>
      (\<exists>seed pub. length seed = 32 \<and> length pub = 32 \<and>
         id_PublicKey i = b64_encode pub \<and> id_PrivateKey i = b64_encode (seed @ pub))"
  then obtain seed pub where "validateStoredName (id_Name i) = None" "length seed = 32"
    "ParsePublicKey (id_PublicKey i) = Inr pub" "ParsePrivateKey (id_PrivateKey i) = Inr (seed @ pub)"
    unfolding parse_key_iff stored_name_normalized by auto
  then show "identity_Validate (Some i) = None"
    by (simp add: identity_Validate_def)
qed

text \<open>
  A generated identity works.  Whatever name and key pair it is generated from, the
  identity validates under its normalised name, is written to the file it is loaded from
  next time, and signs messages that verify under its published key.  The hypotheses are
  Ed25519's own: the private key is the seed followed by the public key, and a signature
  is 64 bytes long and verifies under the public key.
\<close>

theorem generated_identity_signs:
  assumes key: "\<And>seed. length seed = 32 \<Longrightarrow> length (pub_of seed) = 32"
    and sig: "\<And>seed m. length seed = 32 \<Longrightarrow> length (sign (seed @ pub_of seed) m) = 64 \<and>
                check (pub_of seed) m (sign (seed @ pub_of seed) m)"
    and seed: "length seed = 32"
    and gen: "LoadOrCreate NotExist (Some (pub_of seed, seed @ pub_of seed)) None name = (Inr i, file)"
  shows "identity_Validate (Some i) = None \<and> NormalizeName name = Inr (id_Name i) \<and> Load file = Inr i \<and>
    (\<exists>s. Sign sign (Some i) m = Inr s \<and> Verify check (id_PublicKey i) m s)"
proof -
  let ?pub = "pub_of seed" and ?priv = "seed @ pub_of seed"
  obtain n where n: "NormalizeName name = Inr n"
    using gen by (cases "NormalizeName name") (simp_all add: LoadOrCreate_def Generate_def)
  with gen have saved: "file = Stored i"
    and i: "i = \<lparr>id_Name = n, id_PublicKey = b64_encode ?pub, id_PrivateKey = b64_encode ?priv\<rparr>"
    by (simp_all add: LoadOrCreate_def Generate_def, blast)
  have pub: "ParsePublicKey (id_PublicKey i) = Inr ?pub" and priv: "ParsePrivateKey (id_PrivateKey i) = Inr ?priv"
    unfolding parse_key_iff using key [OF seed] seed i by simp_all
  have v: "identity_Validate (Some i) = None"
    unfolding identity_Validate_def option.case pub priv using i seed normalized_name_stored [OF n] by simp
  have "Sign sign (Some i) m = Inr (sign ?priv m)" by (simp add: Sign_def v priv)
  moreover have "Verify check (id_PublicKey i) m (sign ?priv m)"
    using sig [OF seed, of m] by (simp add: Verify_def pub)
  ultimately show ?thesis using v n i saved by (simp add: Load_def)
qed

definition demo_seed :: string where
  "demo_seed = replicate 32 CHR ''k''"

theorem generated_identity_signs_witness:
  "\<exists>i stored. LoadOrCreate NotExist (Some (demo_seed, demo_seed @ demo_seed)) None '' hub '' = (Inr i, stored) \<and>
     Load stored = Inr i"
proof -
  have n: "NormalizeName '' hub '' = Inr ''hub''" by code_simp
  have l: "length demo_seed = 32" by (simp add: demo_seed_def)
  define i where "i = \<lparr>id_Name = ''hub'', id_PublicKey = b64_encode demo_seed,
    id_PrivateKey = b64_encode (demo_seed @ demo_seed)\<rparr>"
  have g: "LoadOrCreate NotExist (Some (demo_seed, demo_seed @ demo_seed)) None '' hub '' = (Inr i, Stored i)"
    by (simp add: LoadOrCreate_def Generate_def n i_def)
  have "Load (Stored i) = Inr i"
    using generated_identity_signs [of "\<lambda>s. s" "\<lambda>priv m. priv" "\<lambda>pub m s. True" demo_seed, OF _ _ l g]
    by simp
  with g show ?thesis by blast
qed

end
