(* ===== verification/RuntimeProtocol.thy ===== *)
theory RuntimeProtocol
  imports Json
begin

text \<open>
  The runtime protocol between a hub and its peers (\<open>pkg/peer/runtime_protocol.go\<close>): the
  payloads of the handshake and of requests, their validation, and the negotiation of a
  version and of capabilities.
\<close>

definition RuntimeProtocolMin :: int where "RuntimeProtocolMin = 1"
definition RuntimeProtocolMax :: int where "RuntimeProtocolMax = 1"

definition CapabilityStateSync :: string where "CapabilityStateSync = ''state-sync''"
definition CapabilitySessionActions :: string where "CapabilitySessionActions = ''session-actions''"
definition CapabilityRequestResults :: string where "CapabilityRequestResults = ''request-results''"
definition CapabilityPTYControl :: string where "CapabilityPTYControl = ''pty-control''"

definition maxRuntimeIDLength :: nat where "maxRuntimeIDLength = 128"
definition maxOperationLength :: nat where "maxOperationLength = 64"
definition maxBuildLength :: nat where "maxBuildLength = 128"
definition maxPayloadSize :: nat where "maxPayloadSize = 65536"

definition RuntimeCapabilities :: "string list" where
  "RuntimeCapabilities =
     [CapabilityStateSync, CapabilitySessionActions, CapabilityRequestResults, CapabilityPTYControl]"

text \<open>The codes of \<open>ErrorCode\<close>; any other text a peer sends is an \<open>UnknownCode\<close>.\<close>

datatype error_code = ErrorInvalidTarget | ErrorNotFound | ErrorPeerOffline | ErrorPeerRevoked
  | ErrorProtocolIncompatible | ErrorCapabilityUnsupported | ErrorQueueFull | ErrorTimeout
  | ErrorExecutionFailed | ErrorExecutionUnknown | ErrorRequestConflict | ErrorResourceExhausted
  | ErrorStaleGeneration | UnknownCode string

datatype invalid = FieldRequired string | FieldBound string | FieldSpaceOrControl string
  | BadVersionRange | TooManyCapabilities | DuplicateCapability | UnsupportedVersion | GenerationRequired
  | DeadlineExpired | InvalidTarget invalid | BadPayload | NotAccepted | BadResult | UnknownErrorCode

subsection \<open>Texts and identifiers\<close>

definition validateBoundedOptionalText :: "string \<Rightarrow> string \<Rightarrow> nat \<Rightarrow> invalid option" where
  "validateBoundedOptionalText field value limit =
     (if length value > limit \<or> char_of (0 :: nat) \<in> set value then Some (FieldBound field) else None)"

definition validateBoundedText :: "string \<Rightarrow> string \<Rightarrow> nat \<Rightarrow> invalid option" where
  "validateBoundedText field value limit =
     (if value = [] then Some (FieldRequired field) else validateBoundedOptionalText field value limit)"

definition validateRuntimeID :: "string \<Rightarrow> string \<Rightarrow> invalid option" where
  "validateRuntimeID field value =
     (case validateBoundedText field value maxRuntimeIDLength of
        Some err \<Rightarrow> Some err
      | None \<Rightarrow> if has_space_or_control value then Some (FieldSpaceOrControl field) else None)"

text \<open>The loop of \<open>validateCapabilities\<close>, with the set of capabilities seen so far.\<close>

fun capabilities_from :: "string set \<Rightarrow> string list \<Rightarrow> invalid option" where
  "capabilities_from seen [] = None"
| "capabilities_from seen (capability # rest) =
     (case validateBoundedText ''capability'' capability 64 of
        Some err \<Rightarrow> Some err
      | None \<Rightarrow>
          if capability \<in> seen then Some DuplicateCapability
          else capabilities_from (insert capability seen) rest)"

definition validateCapabilities :: "string list \<Rightarrow> invalid option" where
  "validateCapabilities capabilities =
     (if length capabilities > 32 then Some TooManyCapabilities else capabilities_from {} capabilities)"

definition intersectCapabilities :: "string list \<Rightarrow> string list \<Rightarrow> string list" where
  "intersectCapabilities left right = filter (\<lambda>value. value \<in> set right) left"

definition singleJSONObject :: "string \<Rightarrow> bool" where
  "singleJSONObject value =
     (if value = [] \<or> length value > maxPayloadSize then False else json_object value)"

subsection \<open>Payloads\<close>

record SessionTarget =
  st_HostID :: string
  st_Session :: string

definition target_Validate :: "SessionTarget \<Rightarrow> invalid option" where
  "target_Validate target =
     (case validateRuntimeID ''host_id'' (st_HostID target) of
        Some err \<Rightarrow> Some err | None \<Rightarrow> validateRuntimeID ''session'' (st_Session target))"

record HelloPayload =
  h_MinVersion :: int
  h_MaxVersion :: int
  h_Capabilities :: "string list"
  h_BuildVersion :: string
  h_AgentInstanceID :: string

definition hello_Validate :: "HelloPayload \<Rightarrow> invalid option" where
  "hello_Validate hello =
     (if h_MinVersion hello \<le> 0 \<or> h_MaxVersion hello < h_MinVersion hello then Some BadVersionRange
      else case validateCapabilities (h_Capabilities hello) of
        Some err \<Rightarrow> Some err
      | None \<Rightarrow>
          (case validateBoundedText ''build_version'' (h_BuildVersion hello) maxBuildLength of
             Some err \<Rightarrow> Some err
           | None \<Rightarrow> validateRuntimeID ''agent_instance_id'' (h_AgentInstanceID hello)))"

record HelloAckPayload =
  a_Version :: int
  a_Capabilities :: "string list"
  a_BuildVersion :: string
  a_Generation :: u64
  a_AgentInstanceID :: string

definition hello_ack_Validate :: "HelloAckPayload \<Rightarrow> invalid option" where
  "hello_ack_Validate ack =
     (if a_Version ack < RuntimeProtocolMin \<or> a_Version ack > RuntimeProtocolMax then Some UnsupportedVersion
      else if a_Generation ack = 0 then Some GenerationRequired
      else case validateCapabilities (a_Capabilities ack) of
        Some err \<Rightarrow> Some err
      | None \<Rightarrow>
          (case validateBoundedText ''build_version'' (a_BuildVersion ack) maxBuildLength of
             Some err \<Rightarrow> Some err
           | None \<Rightarrow> validateRuntimeID ''agent_instance_id'' (a_AgentInstanceID ack)))"

record RuntimeError =
  e_RequestID :: string
  e_Generation :: u64
  e_Code :: error_code
  e_Message :: string

record RuntimeRequest =
  r_RequestID :: string
  r_Generation :: u64
  r_Deadline :: time
  r_Operation :: string
  r_Target :: SessionTarget
  r_Payload :: string

record RuntimeAck =
  k_RequestID :: string
  k_Generation :: u64
  k_Accepted :: bool

record RuntimeResult =
  rr_RequestID :: string
  rr_Generation :: u64
  rr_Result :: string

definition request_Validate :: "time \<Rightarrow> RuntimeRequest \<Rightarrow> invalid option" where
  "request_Validate now request =
     (case validateRuntimeID ''request_id'' (r_RequestID request) of
        Some err \<Rightarrow> Some err
      | None \<Rightarrow>
          if r_Generation request = 0 then Some GenerationRequired
          else if r_Deadline request = 0 \<or> \<not> r_Deadline request > now then Some DeadlineExpired
          else case validateBoundedText ''operation'' (r_Operation request) maxOperationLength of
            Some err \<Rightarrow> Some err
          | None \<Rightarrow>
              (case target_Validate (r_Target request) of
                 Some err \<Rightarrow> Some (InvalidTarget err)
               | None \<Rightarrow> if \<not> singleJSONObject (r_Payload request) then Some BadPayload else None))"

definition ack_Validate :: "RuntimeAck \<Rightarrow> invalid option" where
  "ack_Validate ack =
     (case validateRuntimeID ''request_id'' (k_RequestID ack) of
        Some err \<Rightarrow> Some err
      | None \<Rightarrow> if k_Generation ack = 0 \<or> \<not> k_Accepted ack then Some NotAccepted else None)"

definition result_Validate :: "RuntimeResult \<Rightarrow> invalid option" where
  "result_Validate result =
     (case validateRuntimeID ''request_id'' (rr_RequestID result) of
        Some err \<Rightarrow> Some err
      | None \<Rightarrow>
          if rr_Generation result = 0 then Some GenerationRequired
          else if rr_Result result = [] \<or> length (rr_Result result) > maxPayloadSize \<or> \<not> json_valid (rr_Result result)
          then Some BadResult else None)"

definition validateCode :: "RuntimeError \<Rightarrow> invalid option" where
  "validateCode err =
     (case e_Code err of
        UnknownCode _ \<Rightarrow> Some UnknownErrorCode
      | _ \<Rightarrow> validateBoundedOptionalText ''message'' (e_Message err) 256)"

definition ValidateCorrelated :: "RuntimeError \<Rightarrow> invalid option" where
  "ValidateCorrelated err =
     (case validateRuntimeID ''request_id'' (e_RequestID err) of
        Some e \<Rightarrow> Some e
      | None \<Rightarrow> if e_Generation err = 0 then Some GenerationRequired else validateCode err)"

subsection \<open>Negotiation\<close>

text \<open>An invalid hello, or no common version.\<close>

datatype hello_error = InvalidHello invalid | Incompatible

definition NegotiateHello :: "HelloPayload \<Rightarrow> u64 \<Rightarrow> string \<Rightarrow> hello_error + HelloAckPayload" where
  "NegotiateHello hello generation hubBuild =
     (case hello_Validate hello of
        Some err \<Rightarrow> Inl (InvalidHello err)
      | None \<Rightarrow>
          (let minVersion = max (h_MinVersion hello) RuntimeProtocolMin;
               maxVersion = min (h_MaxVersion hello) RuntimeProtocolMax
           in if minVersion > maxVersion then Inl Incompatible
              else Inr \<lparr>a_Version = maxVersion,
                        a_Capabilities = intersectCapabilities (h_Capabilities hello) RuntimeCapabilities,
                        a_BuildVersion = hubBuild, a_Generation = generation,
                        a_AgentInstanceID = h_AgentInstanceID hello\<rparr>))"

lemma visible_not_nul: "visible c \<Longrightarrow> c \<noteq> char_of (0 :: nat)"
  by (auto simp: visible_def byte_val_char_of)

lemma validateBoundedText_visible:
  "\<lbrakk>s \<noteq> []; length s \<le> limit; \<forall>c\<in>set s. visible c\<rbrakk> \<Longrightarrow> validateBoundedText field s limit = None"
  using visible_not_nul [of "char_of (0 :: nat)"]
  by (auto simp: validateBoundedText_def validateBoundedOptionalText_def)

lemma validateRuntimeID_visible:
  "\<lbrakk>s \<noteq> []; length s \<le> 128; \<forall>c\<in>set s. visible c\<rbrakk> \<Longrightarrow> validateRuntimeID field s = None"
  using visible_plain [of s] visible_not_nul [of "char_of (0 :: nat)"]
  by (auto simp: validateRuntimeID_def validateBoundedText_def validateBoundedOptionalText_def
      maxRuntimeIDLength_def list_all_iff)

lemma capabilities_from_iff:
  "(capabilities_from seen cs = None) =
     (distinct cs \<and> set cs \<inter> seen = {} \<and> (\<forall>c\<in>set cs. validateBoundedText ''capability'' c 64 = None))"
  by (induction cs arbitrary: seen) (auto split: option.splits)

lemma validate_capabilities_iff:
  "(validateCapabilities cs = None) =
     (length cs \<le> 32 \<and> distinct cs \<and> (\<forall>c\<in>set cs. validateBoundedText ''capability'' c 64 = None))"
  by (auto simp: validateCapabilities_def capabilities_from_iff)

lemma intersect_valid: "validateCapabilities cs = None \<Longrightarrow> validateCapabilities (intersectCapabilities cs ds) = None"
  using length_filter_le [of "\<lambda>c. c \<in> set ds" cs]
  by (auto simp: validate_capabilities_iff intersectCapabilities_def simp del: length_filter_le)

text \<open>
  Hub and agent agree on the handshake.  A valid hello is refused exactly when the
  version ranges are disjoint.  Otherwise the acknowledgement names the greatest common
  version and exactly the common capabilities, in the agent's order, under the reserved
  generation, and it passes the checks the agent applies to it: the validation and the
  comparison of its own instance.
\<close>

theorem hello_negotiation:
  assumes "hello_Validate hello = None" and "generation \<noteq> 0"
    and "validateBoundedText ''build_version'' hubBuild maxBuildLength = None"
  shows "case NegotiateHello hello generation hubBuild of
      Inl err \<Rightarrow> err = Incompatible \<and>
        \<not> (\<exists>v. h_MinVersion hello \<le> v \<and> v \<le> h_MaxVersion hello \<and> RuntimeProtocolMin \<le> v \<and> v \<le> RuntimeProtocolMax)
    | Inr ack \<Rightarrow> hello_ack_Validate ack = None \<and> a_AgentInstanceID ack = h_AgentInstanceID hello \<and>
        a_Generation ack = generation \<and>
        h_MinVersion hello \<le> a_Version ack \<and> a_Version ack \<le> h_MaxVersion hello \<and>
        (\<forall>v. v \<le> h_MaxVersion hello \<and> v \<le> RuntimeProtocolMax \<longrightarrow> v \<le> a_Version ack) \<and>
        a_Capabilities ack = filter (\<lambda>c. c \<in> set RuntimeCapabilities) (h_Capabilities hello)"
proof -
  from assms(1) have caps: "validateCapabilities (h_Capabilities hello) = None"
    and agent: "validateRuntimeID ''agent_instance_id'' (h_AgentInstanceID hello) = None"
    by (auto simp: hello_Validate_def split: if_splits option.splits)
  show ?thesis
    using intersect_valid [OF caps, of RuntimeCapabilities] agent assms
    by (auto simp: NegotiateHello_def Let_def hello_ack_Validate_def RuntimeProtocolMin_def RuntimeProtocolMax_def
        intersectCapabilities_def split: option.splits)
qed

definition demo_hello :: HelloPayload where
  "demo_hello = \<lparr>h_MinVersion = 1, h_MaxVersion = 3, h_Capabilities = [''session-actions'', ''request-results'', ''telepathy''],
     h_BuildVersion = ''v1'', h_AgentInstanceID = ''a1''\<rparr>"

lemma demo_hello_valid: "hello_Validate demo_hello = None"
proof -
  have "validateCapabilities [''session-actions'', ''request-results'', ''telepathy''] = None"
    by (simp add: validate_capabilities_iff validateBoundedText_visible visible_letter)
  then show ?thesis
    by (simp cong: option.case_cong add: hello_Validate_def demo_hello_def validateBoundedText_visible
        validateRuntimeID_visible visible_letter maxBuildLength_def)
qed

theorem hello_negotiation_witness:
  "\<exists>ack. NegotiateHello demo_hello 7 ''v2'' = Inr ack \<and> hello_ack_Validate ack = None \<and> a_Version ack = 1"
proof -
  note v = demo_hello_valid
  have b: "validateBoundedText ''build_version'' ''v2'' maxBuildLength = None"
    by (simp add: validateBoundedText_visible visible_letter maxBuildLength_def)
  have "(7 :: u64) \<noteq> 0" by simp
  from hello_negotiation [OF v this b] obtain ack where a: "NegotiateHello demo_hello 7 ''v2'' = Inr ack"
    and "hello_ack_Validate ack = None"
    by (cases "NegotiateHello demo_hello 7 ''v2''") (auto simp: demo_hello_def RuntimeProtocolMin_def RuntimeProtocolMax_def)
  moreover have "a_Version ack = 1"
    using a v by (auto simp: NegotiateHello_def Let_def demo_hello_def RuntimeProtocolMax_def RuntimeProtocolMin_def)
  ultimately show ?thesis by blast
qed

end
