(* ===== verification/Requests.thy ===== *)
theory Requests
  imports RuntimeProtocol
begin

text \<open>
  Requests over a peer connection (\<open>pkg/peer/request_tracker.go\<close>, \<open>connection.go\<close>): the
  tracker of pending requests, the bounded send queue, closing, and the steps of \<open>Request\<close>
  as they interleave with the peer's replies.  An outcome channel has a number; its buffer
  of one and the \<open>sync.Once\<close> that fills it are an entry of a map that is never overwritten.
\<close>

datatype outcome = OResult RuntimeResult | OError RuntimeError

record pendingRequest =
  pr_generation :: u64
  pr_chan :: nat

record request_tracker =
  rt_pending :: "(string, pendingRequest) fmap"
  rt_outcomes :: "(nat, outcome) fmap"
  rt_next :: nat

definition NewRequestTracker :: request_tracker where
  "NewRequestTracker = \<lparr>rt_pending = fmempty, rt_outcomes = fmempty, rt_next = 0\<rparr>"

definition request_error :: "RuntimeRequest \<Rightarrow> error_code \<Rightarrow> RuntimeError" where
  "request_error request code =
     \<lparr>e_RequestID = r_RequestID request, e_Generation = r_Generation request, e_Code = code, e_Message = []\<rparr>"

definition Register :: "RuntimeRequest \<Rightarrow> request_tracker \<Rightarrow> (RuntimeError + nat) \<times> request_tracker" where
  "Register request t =
     (if go_has (rt_pending t) (r_RequestID request) then (Inl (request_error request ErrorRequestConflict), t)
      else (Inr (rt_next t), t\<lparr>rt_pending := fmupd (r_RequestID request)
               \<lparr>pr_generation = r_Generation request, pr_chan = rt_next t\<rparr> (rt_pending t),
             rt_next := Suc (rt_next t)\<rparr>))"

definition tracker_Accept :: "RuntimeAck \<Rightarrow> request_tracker \<Rightarrow> bool" where
  "tracker_Accept ack t =
     (if ack_Validate ack \<noteq> None then False
      else case fmlookup (rt_pending t) (k_RequestID ack) of
        None \<Rightarrow> False | Some pending \<Rightarrow> pr_generation pending = k_Generation ack)"

text \<open>\<open>once.Do\<close> sends the outcome and closes the channel: only the first delivery counts.\<close>

definition deliver_once :: "nat \<Rightarrow> outcome \<Rightarrow> (nat, outcome) fmap \<Rightarrow> bool \<times> (nat, outcome) fmap" where
  "deliver_once c outcome outcomes =
     (if go_has outcomes c then (False, outcomes) else (True, fmupd c outcome outcomes))"

definition complete :: "string \<Rightarrow> u64 \<Rightarrow> outcome \<Rightarrow> request_tracker \<Rightarrow> bool \<times> request_tracker" where
  "complete requestID generation outcome t =
     (case fmlookup (rt_pending t) requestID of
        None \<Rightarrow> (False, t)
      | Some pending \<Rightarrow>
          if pr_generation pending \<noteq> generation then (False, t)
          else case deliver_once (pr_chan pending) outcome (rt_outcomes t) of
            (completed, outcomes) \<Rightarrow>
              (completed, t\<lparr>rt_pending := fmdrop requestID (rt_pending t), rt_outcomes := outcomes\<rparr>))"

definition CompleteResult :: "RuntimeResult \<Rightarrow> request_tracker \<Rightarrow> bool \<times> request_tracker" where
  "CompleteResult result t =
     (if result_Validate result \<noteq> None then (False, t)
      else complete (rr_RequestID result) (rr_Generation result) (OResult result) t)"

definition CompleteError :: "RuntimeError \<Rightarrow> request_tracker \<Rightarrow> bool \<times> request_tracker" where
  "CompleteError err t =
     (if ValidateCorrelated err \<noteq> None then (False, t)
      else complete (e_RequestID err) (e_Generation err) (OError err) t)"

definition fail_error :: "string \<Rightarrow> u64 \<Rightarrow> error_code \<Rightarrow> outcome" where
  "fail_error requestID generation code =
     OError \<lparr>e_RequestID = requestID, e_Generation = generation, e_Code = code, e_Message = []\<rparr>"

definition FailAll :: "u64 \<Rightarrow> error_code \<Rightarrow> request_tracker \<Rightarrow> request_tracker" where
  "FailAll generation code t =
     (let selected = fm_keep (\<lambda>_ p. pr_generation p = generation) (rt_pending t) in
      t\<lparr>rt_pending := fm_keep (\<lambda>_ p. pr_generation p \<noteq> generation) (rt_pending t),
        rt_outcomes := foldl (\<lambda>outcomes requestID.
            case fmlookup selected requestID of
              None \<Rightarrow> outcomes
            | Some p \<Rightarrow> snd (deliver_once (pr_chan p) (fail_error requestID generation code) outcomes))
          (rt_outcomes t) (go_keys selected)\<rparr>)"

subsection \<open>Connections\<close>

text \<open>
  \<open>pc_queue\<close> is the buffer of the send channel, \<open>pc_size\<close> its capacity.  \<open>pc_closed\<close> is
  the flag \<open>Send\<close> tests, \<open>pc_failed\<close> says that the rest of the close has run.
\<close>

record 'm peer_connection =
  pc_HostID :: string
  pc_Generation :: u64
  pc_Capabilities :: "string fset"
  pc_AgentInstance :: string
  pc_queue :: "'m list"
  pc_size :: nat
  pc_closed :: bool
  pc_failed :: bool
  pc_requests :: request_tracker

definition newPeerConnection :: "string \<Rightarrow> u64 \<Rightarrow> string list \<Rightarrow> string \<Rightarrow> nat \<Rightarrow> 'm peer_connection" where
  "newPeerConnection hostID generation capabilities agentInstance queueSize =
     \<lparr>pc_HostID = hostID, pc_Generation = generation, pc_Capabilities = fset_of_list capabilities,
      pc_AgentInstance = agentInstance, pc_queue = [], pc_size = queueSize, pc_closed = False,
      pc_failed = False, pc_requests = NewRequestTracker\<rparr>"

datatype send_error = MessageNil | PeerOffline | ContextDone | QueueFull

text \<open>
  \<open>ctx_done\<close>: the caller's context has ended; \<open>pick\<close>: which ready case the \<open>select\<close> takes
  when the context has ended and the queue has room.
\<close>

definition Send :: "bool \<Rightarrow> bool \<Rightarrow> 'm option \<Rightarrow> 'm peer_connection \<Rightarrow> send_error option \<times> 'm peer_connection" where
  "Send ctx_done pick message c =
     (case message of
        None \<Rightarrow> (Some MessageNil, c)
      | Some m \<Rightarrow>
          if pc_closed c then (Some PeerOffline, c)
          else if ctx_done \<and> (pick \<or> length (pc_queue c) \<ge> pc_size c) then (Some ContextDone, c)
          else if length (pc_queue c) < pc_size c then (None, c\<lparr>pc_queue := pc_queue c @ [m]\<rparr>)
          else (Some QueueFull, c))"

definition Supports :: "string \<Rightarrow> 'm peer_connection \<Rightarrow> bool" where
  "Supports capability c = (capability |\<in>| pc_Capabilities c)"

text \<open>Closing: first the flag under \<open>stateMu\<close>, then the pending requests fail.\<close>

definition close_flag :: "'m peer_connection \<Rightarrow> 'm peer_connection" where
  "close_flag c = c\<lparr>pc_closed := True\<rparr>"

definition close_fail :: "error_code \<Rightarrow> 'm peer_connection \<Rightarrow> 'm peer_connection" where
  "close_fail code c =
     c\<lparr>pc_requests := FailAll (pc_Generation c) code (pc_requests c), pc_failed := True\<rparr>"

definition CloseWith :: "error_code \<Rightarrow> 'm peer_connection \<Rightarrow> 'm peer_connection" where
  "CloseWith code c = (if pc_closed c then c else close_fail code (close_flag c))"

definition connection_Close :: "'m peer_connection \<Rightarrow> 'm peer_connection" where
  "connection_Close c = CloseWith ErrorPeerOffline c"

text \<open>One turn of the writer goroutine: a failed write closes the connection.\<close>

definition write_one :: "bool \<Rightarrow> 'm peer_connection \<Rightarrow> 'm peer_connection" where
  "write_one ok c =
     (if pc_closed c then c
      else case pc_queue c of
        [] \<Rightarrow> c
      | _ # rest \<Rightarrow> if ok then c\<lparr>pc_queue := rest\<rparr> else connection_Close (c\<lparr>pc_queue := rest\<rparr>))"

subsection \<open>The steps of \<open>Request\<close>\<close>

text \<open>\<open>describe\<close> is the text of a validation error.\<close>

definition request_begin :: "(invalid \<Rightarrow> string) \<Rightarrow> time \<Rightarrow> RuntimeRequest \<Rightarrow> 'm peer_connection \<Rightarrow> (RuntimeError + nat) \<times> 'm peer_connection" where
  "request_begin describe now request c =
     (if r_Generation request \<noteq> pc_Generation c then (Inl (request_error request ErrorStaleGeneration), c)
      else case request_Validate now request of
        Some err \<Rightarrow> (Inl ((request_error request ErrorInvalidTarget)\<lparr>e_Message := describe err\<rparr>), c)
      | None \<Rightarrow> (case Register request (pc_requests c) of
        (Inl err, _) \<Rightarrow> (Inl err, c)
      | (Inr ch, t) \<Rightarrow> (Inr ch, c\<lparr>pc_requests := t\<rparr>)))"

text \<open>\<open>marshal\<close> is \<open>NewMessage\<close>, which may fail.\<close>

definition request_send :: "(RuntimeRequest \<Rightarrow> 'm option) \<Rightarrow> bool \<Rightarrow> bool \<Rightarrow> RuntimeRequest \<Rightarrow> 'm peer_connection \<Rightarrow> 'm peer_connection" where
  "request_send marshal ctx_done pick request c =
     (case marshal request of
        None \<Rightarrow> c\<lparr>pc_requests := snd (CompleteError (request_error request ErrorExecutionFailed) (pc_requests c))\<rparr>
      | Some m \<Rightarrow>
          (case Send ctx_done pick (Some m) c of
             (None, c') \<Rightarrow> c'
           | (Some err, c') \<Rightarrow>
               (let code = (if err = QueueFull then ErrorQueueFull else ErrorPeerOffline) in
                c'\<lparr>pc_requests := snd (CompleteError (request_error request code) (pc_requests c'))\<rparr>)))"

definition request_timeout :: "RuntimeRequest \<Rightarrow> 'm peer_connection \<Rightarrow> 'm peer_connection" where
  "request_timeout request c =
     c\<lparr>pc_requests := snd (CompleteError (request_error request ErrorTimeout) (pc_requests c))\<rparr>"

definition outcome_reply :: "outcome \<Rightarrow> RuntimeError + string" where
  "outcome_reply o1 = (case o1 of OError err \<Rightarrow> Inl err | OResult r \<Rightarrow> Inr (rr_Result r))"

subsection \<open>The tracker's invariant\<close>

fun outcome_id :: "outcome \<Rightarrow> string \<times> u64" where
  "outcome_id (OResult r) = (rr_RequestID r, rr_Generation r)"
| "outcome_id (OError e) = (e_RequestID e, e_Generation e)"

text \<open>
  \<open>reg\<close> is the history of registrations: the request each channel was made for.
\<close>

definition tracker_ok :: "(nat, RuntimeRequest) fmap \<Rightarrow> request_tracker \<Rightarrow> bool" where
  "tracker_ok reg t =
     ((\<forall>c. go_has reg c = (c < rt_next t)) \<and>
      (\<forall>rid p. fmlookup (rt_pending t) rid = Some p \<longrightarrow>
         (\<exists>r. fmlookup reg (pr_chan p) = Some r \<and> r_RequestID r = rid \<and> r_Generation r = pr_generation p) \<and>
         \<not> go_has (rt_outcomes t) (pr_chan p)) \<and>
      (\<forall>c r. fmlookup reg c = Some r \<longrightarrow>
         (case fmlookup (rt_outcomes t) c of
            Some o1 \<Rightarrow> outcome_id o1 = (r_RequestID r, r_Generation r)
          | None \<Rightarrow> fmlookup (rt_pending t) (r_RequestID r) = Some \<lparr>pr_generation = r_Generation r, pr_chan = c\<rparr>)) \<and>
      (\<forall>c. go_has (rt_outcomes t) c \<longrightarrow> go_has reg c))"

lemma tracker_ok_new: "tracker_ok fmempty NewRequestTracker"
  by (simp add: tracker_ok_def NewRequestTracker_def)

lemma tracker_okD:
  assumes "tracker_ok reg t"
  shows "go_has reg c = (c < rt_next t)"
    and "fmlookup (rt_pending t) rid = Some p \<Longrightarrow> \<exists>r. fmlookup reg (pr_chan p) = Some r \<and> r_RequestID r = rid
      \<and> r_Generation r = pr_generation p"
    and "fmlookup (rt_pending t) rid = Some p \<Longrightarrow> fmlookup (rt_outcomes t) (pr_chan p) = None"
    and "\<lbrakk>fmlookup reg c = Some r; fmlookup (rt_outcomes t) c = Some o1\<rbrakk> \<Longrightarrow> outcome_id o1 = (r_RequestID r, r_Generation r)"
    and "\<lbrakk>fmlookup reg c = Some r; fmlookup (rt_outcomes t) c = None\<rbrakk> \<Longrightarrow>
      fmlookup (rt_pending t) (r_RequestID r) = Some \<lparr>pr_generation = r_Generation r, pr_chan = c\<rparr>"
    and "fmlookup (rt_outcomes t) c = Some o1 \<Longrightarrow> go_has reg c"
  using assms unfolding tracker_ok_def go_has_def by (blast, blast, blast, force, force, blast)

lemma tracker_okI:
  assumes "\<And>c. go_has reg c = (c < rt_next t)"
    and "\<And>rid p. fmlookup (rt_pending t) rid = Some p \<Longrightarrow>
      (\<exists>r. fmlookup reg (pr_chan p) = Some r \<and> r_RequestID r = rid \<and> r_Generation r = pr_generation p) \<and>
      fmlookup (rt_outcomes t) (pr_chan p) = None"
    and "\<And>c r o1. \<lbrakk>fmlookup reg c = Some r; fmlookup (rt_outcomes t) c = Some o1\<rbrakk> \<Longrightarrow>
      outcome_id o1 = (r_RequestID r, r_Generation r)"
    and "\<And>c r. \<lbrakk>fmlookup reg c = Some r; fmlookup (rt_outcomes t) c = None\<rbrakk> \<Longrightarrow>
      fmlookup (rt_pending t) (r_RequestID r) = Some \<lparr>pr_generation = r_Generation r, pr_chan = c\<rparr>"
    and "\<And>c o1. fmlookup (rt_outcomes t) c = Some o1 \<Longrightarrow> go_has reg c"
  shows "tracker_ok reg t"
  unfolding tracker_ok_def using assms by (auto simp: go_has_def split: option.splits)

lemma Register_ok:
  assumes ok: "tracker_ok reg t" and r: "Register request t = (Inr ch, t')"
  shows "tracker_ok (fmupd ch request reg) t' \<and> \<not> go_has reg ch"
proof -
  note d = tracker_okD [OF ok]
  from r have new: "fmlookup (rt_pending t) (r_RequestID request) = None" and ch: "ch = rt_next t"
    and t': "t' = t\<lparr>rt_pending := fmupd (r_RequestID request)
               \<lparr>pr_generation = r_Generation request, pr_chan = ch\<rparr> (rt_pending t), rt_next := Suc ch\<rparr>"
    by (auto simp: Register_def go_has_def split: if_splits)
  have fresh: "fmlookup reg ch = None" using d(1) [of ch] ch by (simp add: go_has_def)
  have no: "fmlookup (rt_outcomes t) ch = None"
    using d(6) [of ch] d(1) [of ch] ch by (cases "fmlookup (rt_outcomes t) ch") auto
  have "tracker_ok (fmupd ch request reg) t'"
  proof (rule tracker_okI)
    show "go_has (fmupd ch request reg) c = (c < rt_next t')" for c
      using d(1) [of c] by (auto simp: t' ch)
    show "(\<exists>r. fmlookup (fmupd ch request reg) (pr_chan p) = Some r \<and> r_RequestID r = rid \<and> r_Generation r = pr_generation p) \<and>
      fmlookup (rt_outcomes t') (pr_chan p) = None" if "fmlookup (rt_pending t') rid = Some p" for rid p
    proof (cases "rid = r_RequestID request")
      case True
      with that show ?thesis by (auto simp: t' no)
    next
      case False
      with that have "fmlookup (rt_pending t) rid = Some p" by (simp add: t')
      from d(2,3) [OF this] fresh show ?thesis by (auto simp: t')
    qed
    show "outcome_id o1 = (r_RequestID r, r_Generation r)"
      if "fmlookup (fmupd ch request reg) c = Some r" "fmlookup (rt_outcomes t') c = Some o1" for c r o1
      using that d(4) [of c r o1] no by (auto simp: t' split: if_splits)
    show "fmlookup (rt_pending t') (r_RequestID r) = Some \<lparr>pr_generation = r_Generation r, pr_chan = c\<rparr>"
      if "fmlookup (fmupd ch request reg) c = Some r" "fmlookup (rt_outcomes t') c = None" for c r
      using that d(5) [of c r] new by (auto simp: t' split: if_splits)
    show "go_has (fmupd ch request reg) c" if "fmlookup (rt_outcomes t') c = Some o1" for c o1
      using that d(6) [of c o1] by (simp add: t')
  qed
  with fresh show ?thesis by (simp add: go_has_def)
qed

lemma complete_ok:
  assumes ok: "tracker_ok reg t" and o1: "outcome_id o1 = (rid, g)"
  shows "tracker_ok reg (snd (complete rid g o1 t))"
proof (cases "fmlookup (rt_pending t) rid")
  case None
  then show ?thesis using ok by (simp add: complete_def)
next
  case (Some p)
  note d = tracker_okD [OF ok]
  show ?thesis
  proof (cases "pr_generation p = g")
    case False
    then show ?thesis using ok Some by (simp add: complete_def)
  next
    case True
    let ?c = "pr_chan p"
    have none: "fmlookup (rt_outcomes t) ?c = None" by (rule d(3) [OF Some])
    obtain r where r: "fmlookup reg ?c = Some r" "r_RequestID r = rid" "r_Generation r = g"
      using d(2) [OF Some] True by blast
    have t': "snd (complete rid g o1 t) = t\<lparr>rt_pending := fmdrop rid (rt_pending t), rt_outcomes := fmupd ?c o1 (rt_outcomes t)\<rparr>"
      using Some True none by (simp add: complete_def deliver_once_def go_has_def)
    show ?thesis unfolding t'
    proof (rule tracker_okI)
      fix rid' p'
      assume "fmlookup (rt_pending (t\<lparr>rt_pending := fmdrop rid (rt_pending t), rt_outcomes := fmupd ?c o1 (rt_outcomes t)\<rparr>)) rid' = Some p'"
      then have p': "fmlookup (rt_pending t) rid' = Some p'" and ne: "rid' \<noteq> rid" by (auto split: if_splits)
      from d(2) [OF p'] r ne have "pr_chan p' \<noteq> ?c" by auto
      with d(2,3) [OF p'] show "(\<exists>r. fmlookup reg (pr_chan p') = Some r \<and> r_RequestID r = rid' \<and> r_Generation r = pr_generation p') \<and>
        fmlookup (rt_outcomes (t\<lparr>rt_pending := fmdrop rid (rt_pending t), rt_outcomes := fmupd ?c o1 (rt_outcomes t)\<rparr>)) (pr_chan p') = None"
        by simp
    next
      fix c r' o2
      assume "fmlookup reg c = Some r'"
        and "fmlookup (rt_outcomes (t\<lparr>rt_pending := fmdrop rid (rt_pending t), rt_outcomes := fmupd ?c o1 (rt_outcomes t)\<rparr>)) c = Some o2"
      then show "outcome_id o2 = (r_RequestID r', r_Generation r')"
        using d(4) [of c r' o2] r o1 by (cases "c = ?c") simp_all
    next
      fix c r'
      assume c: "fmlookup reg c = Some r'"
        and "fmlookup (rt_outcomes (t\<lparr>rt_pending := fmdrop rid (rt_pending t), rt_outcomes := fmupd ?c o1 (rt_outcomes t)\<rparr>)) c = None"
      then have "c \<noteq> ?c" "fmlookup (rt_outcomes t) c = None" by (auto split: if_splits)
      with d(5) [OF c] Some show "fmlookup (rt_pending (t\<lparr>rt_pending := fmdrop rid (rt_pending t), rt_outcomes := fmupd ?c o1 (rt_outcomes t)\<rparr>))
          (r_RequestID r') = Some \<lparr>pr_generation = r_Generation r', pr_chan = c\<rparr>"
        by auto
    qed (use d(1,6) r in \<open>auto simp: go_has_def split: if_splits\<close>)
  qed
qed

lemma fold_complete:
  "\<lbrakk>distinct ks; \<forall>k\<in>set ks. \<exists>p. fmlookup (rt_pending t) k = Some p \<and> pr_generation p = g\<rbrakk> \<Longrightarrow>
   foldl (\<lambda>t k. snd (complete k g (fail_error k g code) t)) t ks =
   t\<lparr>rt_pending := fmfilter (\<lambda>k. k \<notin> set ks) (rt_pending t),
     rt_outcomes := foldl (\<lambda>outcomes k. case fmlookup (rt_pending t) k of None \<Rightarrow> outcomes
        | Some p \<Rightarrow> snd (deliver_once (pr_chan p) (fail_error k g code) outcomes)) (rt_outcomes t) ks\<rparr>"
proof (induction ks arbitrary: t)
  case (Cons k ks)
  obtain p where p: "fmlookup (rt_pending t) k = Some p" "pr_generation p = g" using Cons.prems by auto
  let ?t = "snd (complete k g (fail_error k g code) t)"
  have t: "?t = t\<lparr>rt_pending := fmdrop k (rt_pending t),
      rt_outcomes := snd (deliver_once (pr_chan p) (fail_error k g code) (rt_outcomes t))\<rparr>"
    using p by (simp add: complete_def split: prod.splits)
  have "\<forall>k'\<in>set ks. \<exists>p. fmlookup (rt_pending ?t) k' = Some p \<and> pr_generation p = g"
    using Cons.prems by (auto simp: t)
  note IH = Cons.IH [OF _ this]
  have f: "foldl (\<lambda>outcomes k'. case fmlookup (fmdrop k (rt_pending t)) k' of None \<Rightarrow> outcomes
      | Some p \<Rightarrow> snd (deliver_once (pr_chan p) (fail_error k' g code) outcomes)) oc ks =
    foldl (\<lambda>outcomes k'. case fmlookup (rt_pending t) k' of None \<Rightarrow> outcomes
      | Some p \<Rightarrow> snd (deliver_once (pr_chan p) (fail_error k' g code) outcomes)) oc ks" for oc
    using Cons.prems(1) by (intro foldl_cong) auto
  have m: "fmfilter (\<lambda>k'. k' \<notin> set ks) (fmdrop k (rt_pending t)) = fmfilter (\<lambda>k'. k' \<notin> set (k # ks)) (rt_pending t)"
    by (rule fmap_ext) auto
  have tp: "rt_pending ?t = fmdrop k (rt_pending t)"
    "rt_outcomes ?t = snd (deliver_once (pr_chan p) (fail_error k g code) (rt_outcomes t))"
    by (simp_all add: t)
  have "distinct ks" using Cons.prems(1) by simp
  from IH [OF this, unfolded tp f m] show ?case
    by (simp add: t p)
qed (simp add: fmfilter_true)

lemma FailAll_as_completes:
  "FailAll g code t = foldl (\<lambda>t k. snd (complete k g (fail_error k g code) t)) t
     (go_keys (fm_keep (\<lambda>_ p. pr_generation p = g) (rt_pending t)))"
proof -
  let ?sel = "fm_keep (\<lambda>_ p. pr_generation p = g) (rt_pending t)"
  have k: "k \<in> set (go_keys ?sel) \<longleftrightarrow> (\<exists>p. fmlookup (rt_pending t) k = Some p \<and> pr_generation p = g)" for k
    by (simp add: fm_keep_has)
  have pend: "fmfilter (\<lambda>k. k \<notin> set (go_keys ?sel)) (rt_pending t) = fm_keep (\<lambda>_ p. pr_generation p \<noteq> g) (rt_pending t)"
    by (rule fmap_ext) (auto simp: k simp del: go_keys_set split: option.splits)
  have f: "foldl (\<lambda>outcomes k. case fmlookup ?sel k of None \<Rightarrow> outcomes
      | Some p \<Rightarrow> snd (deliver_once (pr_chan p) (fail_error k g code) outcomes)) oc (go_keys ?sel) =
    foldl (\<lambda>outcomes k. case fmlookup (rt_pending t) k of None \<Rightarrow> outcomes
      | Some p \<Rightarrow> snd (deliver_once (pr_chan p) (fail_error k g code) outcomes)) oc (go_keys ?sel)" for oc
    by (intro foldl_cong) (auto simp: fm_keep_has)
  show ?thesis
    unfolding FailAll_def Let_def f pend [symmetric]
    by (rule fold_complete [symmetric]) (use k in \<open>auto simp del: go_keys_set\<close>)
qed

lemma fail_error_id [simp]: "outcome_id (fail_error k g code) = (k, g)"
  by (simp add: fail_error_def)

lemma FailAll_ok: "tracker_ok reg t \<Longrightarrow> tracker_ok reg (FailAll g code t)"
proof -
  assume "tracker_ok reg t"
  then have "tracker_ok reg (foldl (\<lambda>t k. snd (complete k g (fail_error k g code) t)) t ks)" for ks
    by (induction ks arbitrary: t) (simp_all add: complete_ok)
  then show ?thesis by (simp add: FailAll_as_completes)
qed

lemma FailAll_none_left: "fmlookup (rt_pending (FailAll g code t)) rid = Some p \<Longrightarrow> pr_generation p \<noteq> g"
  by (auto simp: FailAll_def Let_def split: option.splits if_splits)

text \<open>An outcome, once delivered, stays.\<close>

lemma complete_stable: "fmlookup (rt_outcomes t) c = Some o1 \<Longrightarrow> fmlookup (rt_outcomes (snd (complete rid g o2 t))) c = Some o1"
  by (auto simp: complete_def deliver_once_def go_has_def split: option.splits)

lemma FailAll_stable: "fmlookup (rt_outcomes t) c = Some o1 \<Longrightarrow> fmlookup (rt_outcomes (FailAll g code t)) c = Some o1"
proof -
  have "fmlookup (rt_outcomes t) c = Some o1 \<Longrightarrow>
    fmlookup (rt_outcomes (foldl (\<lambda>t k. snd (complete k g (fail_error k g code) t)) t ks)) c = Some o1" for ks
    by (induction ks arbitrary: t) (auto intro: complete_stable)
  then show "fmlookup (rt_outcomes t) c = Some o1 \<Longrightarrow> ?thesis" by (simp add: FailAll_as_completes)
qed

subsection \<open>A connection and its requests\<close>

text \<open>
  The connection with two pieces of history: the request of each outcome channel, and the
  channels whose request has been registered and not yet sent.  The events are the lock
  sections of \<open>Request\<close>, of the read loop, of the writer and of \<open>CloseWith\<close>, in any order.
\<close>

record conn_sys =
  y_conn :: "RuntimeRequest peer_connection"
  y_reg :: "(nat, RuntimeRequest) fmap"
  y_unsent :: "nat fset"

datatype conn_event = BeginRequest "invalid \<Rightarrow> string" time RuntimeRequest | SendRequest nat bool bool bool
  | PeerAck RuntimeAck | PeerResult RuntimeResult | PeerError RuntimeError | TimeoutRequest nat
  | SetClosed | FailPending error_code | WriteNext bool

fun conn_step :: "conn_sys \<Rightarrow> conn_event \<Rightarrow> conn_sys" where
  "conn_step y (BeginRequest describe now request) =
     (case request_begin describe now request (y_conn y) of
        (Inl _, _) \<Rightarrow> y
      | (Inr ch, c) \<Rightarrow> \<lparr>y_conn = c, y_reg = fmupd ch request (y_reg y), y_unsent = finsert ch (y_unsent y)\<rparr>)"
| "conn_step y (SendRequest ch marshals ctx_done pick) =
     (case fmlookup (y_reg y) ch of
        None \<Rightarrow> y
      | Some request \<Rightarrow>
          if ch |\<in>| y_unsent y
          then y\<lparr>y_conn := request_send (\<lambda>r. if marshals then Some r else None) ctx_done pick request (y_conn y),
                 y_unsent := y_unsent y |-| {|ch|}\<rparr>
          else y)"
| "conn_step y (PeerAck ack) = y"
| "conn_step y (PeerResult r) = y\<lparr>y_conn := (y_conn y)\<lparr>pc_requests := snd (CompleteResult r (pc_requests (y_conn y)))\<rparr>\<rparr>"
| "conn_step y (PeerError e) = y\<lparr>y_conn := (y_conn y)\<lparr>pc_requests := snd (CompleteError e (pc_requests (y_conn y)))\<rparr>\<rparr>"
| "conn_step y (TimeoutRequest ch) =
     (case fmlookup (y_reg y) ch of None \<Rightarrow> y | Some request \<Rightarrow> y\<lparr>y_conn := request_timeout request (y_conn y)\<rparr>)"
| "conn_step y SetClosed = y\<lparr>y_conn := close_flag (y_conn y)\<rparr>"
| "conn_step y (FailPending code) =
     (if pc_closed (y_conn y) \<and> \<not> pc_failed (y_conn y) then y\<lparr>y_conn := close_fail code (y_conn y)\<rparr> else y)"
| "conn_step y (WriteNext ok) = y\<lparr>y_conn := write_one ok (y_conn y)\<rparr>"

definition conn_init :: "string \<Rightarrow> u64 \<Rightarrow> string list \<Rightarrow> string \<Rightarrow> nat \<Rightarrow> conn_sys" where
  "conn_init host generation caps agent queueSize =
     \<lparr>y_conn = newPeerConnection host generation caps agent queueSize, y_reg = fmempty, y_unsent = {||}\<rparr>"

definition reg_ok :: "u64 \<Rightarrow> (nat, RuntimeRequest) fmap \<Rightarrow> bool" where
  "reg_ok g reg = (\<forall>ch r. fmlookup reg ch = Some r \<longrightarrow>
     r_Generation r = g \<and> g \<noteq> 0 \<and> validateRuntimeID ''request_id'' (r_RequestID r) = None)"

definition conn_inv :: "conn_sys \<Rightarrow> bool" where
  "conn_inv y =
     (tracker_ok (y_reg y) (pc_requests (y_conn y)) \<and> reg_ok (pc_Generation (y_conn y)) (y_reg y) \<and>
      (pc_failed (y_conn y) \<longrightarrow> pc_closed (y_conn y)) \<and>
      (pc_failed (y_conn y) \<longrightarrow>
         (\<forall>rid p. fmlookup (rt_pending (pc_requests (y_conn y))) rid = Some p \<longrightarrow> pr_chan p |\<in>| y_unsent y)))"

lemma conn_inv_init: "conn_inv (conn_init host generation caps agent queueSize)"
  by (simp add: conn_inv_def conn_init_def newPeerConnection_def tracker_ok_new reg_ok_def)

lemma reg_okD:
  "\<lbrakk>reg_ok g reg; fmlookup reg ch = Some r\<rbrakk> \<Longrightarrow>
     r_Generation r = g \<and> r_Generation r \<noteq> 0 \<and> validateRuntimeID ''request_id'' (r_RequestID r) = None"
  unfolding reg_ok_def by blast

lemma reg_ok_upd:
  "\<lbrakk>reg_ok g reg; r_Generation r = g; g \<noteq> 0; validateRuntimeID ''request_id'' (r_RequestID r) = None\<rbrakk>
     \<Longrightarrow> reg_ok g (fmupd ch r reg)"
  by (simp add: reg_ok_def)

lemma complete_pending: "fmlookup (rt_pending (snd (complete rid g o1 t))) k = Some p \<Longrightarrow> fmlookup (rt_pending t) k = Some p"
  by (auto simp: complete_def split: option.splits prod.splits if_splits)

lemma CompleteResult_pending: "fmlookup (rt_pending (snd (CompleteResult r t))) k = Some p \<Longrightarrow> fmlookup (rt_pending t) k = Some p"
  by (auto simp: CompleteResult_def dest: complete_pending split: if_splits)

lemma CompleteError_pending: "fmlookup (rt_pending (snd (CompleteError e t))) k = Some p \<Longrightarrow> fmlookup (rt_pending t) k = Some p"
  by (auto simp: CompleteError_def dest: complete_pending split: if_splits)

lemma CompleteResult_ok: "tracker_ok reg t \<Longrightarrow> tracker_ok reg (snd (CompleteResult r t))"
  by (simp add: CompleteResult_def complete_ok)

lemma CompleteError_ok: "tracker_ok reg t \<Longrightarrow> tracker_ok reg (snd (CompleteError e t))"
  by (simp add: CompleteError_def complete_ok)

lemma CompleteResult_stable: "fmlookup (rt_outcomes t) c = Some o1 \<Longrightarrow> fmlookup (rt_outcomes (snd (CompleteResult r t))) c = Some o1"
  by (simp add: CompleteResult_def complete_stable)

lemma CompleteError_stable: "fmlookup (rt_outcomes t) c = Some o1 \<Longrightarrow> fmlookup (rt_outcomes (snd (CompleteError e t))) c = Some o1"
  by (simp add: CompleteError_def complete_stable)

text \<open>An error made for a registered request by \<open>Request\<close> itself is always accepted.\<close>

lemma own_error_completes:
  assumes ok: "tracker_ok reg t" and r: "fmlookup reg ch = Some request"
    and v: "r_Generation request \<noteq> 0" "validateRuntimeID ''request_id'' (r_RequestID request) = None"
    and code: "\<forall>m. code \<noteq> UnknownCode m"
    and p: "fmlookup (rt_pending (snd (CompleteError (request_error request code) t))) rid = Some p"
  shows "pr_chan p \<noteq> ch"
proof
  assume ch: "pr_chan p = ch"
  from p have p0: "fmlookup (rt_pending t) rid = Some p" by (rule CompleteError_pending)
  from tracker_okD(2) [OF ok p0] ch r have id: "rid = r_RequestID request" "pr_generation p = r_Generation request" by auto
  have "ValidateCorrelated (request_error request code) = None"
    using v code by (auto simp: ValidateCorrelated_def request_error_def validateCode_def
        validateBoundedOptionalText_def split: error_code.splits)
  with p id p0 show False
    by (auto simp: CompleteError_def complete_def request_error_def split: prod.splits)
qed

lemma Register_pending:
  "\<lbrakk>Register request t = (Inr ch, t'); fmlookup (rt_pending t') rid = Some p; fmlookup (rt_pending t) rid \<noteq> Some p\<rbrakk>
    \<Longrightarrow> pr_chan p = ch"
  by (auto simp: Register_def split: if_splits)

lemma conn_inv_complete:
  assumes "conn_inv y" and "tracker_ok (y_reg y) t'"
    and "\<And>k p. fmlookup (rt_pending t') k = Some p \<Longrightarrow> fmlookup (rt_pending (pc_requests (y_conn y))) k = Some p"
  shows "conn_inv (y\<lparr>y_conn := (y_conn y)\<lparr>pc_requests := t'\<rparr>\<rparr>)"
  using assms unfolding conn_inv_def by (simp (no_asm)) blast

lemma FailAll_empty:
  assumes "tracker_ok reg t" and "reg_ok g reg"
  shows "fmlookup (rt_pending (FailAll g code t)) rid = None"
proof (cases "fmlookup (rt_pending (FailAll g code t)) rid")
  case (Some p)
  from FailAll_none_left [OF Some] have "pr_generation p \<noteq> g" .
  moreover obtain r where "fmlookup reg (pr_chan p) = Some r" "r_Generation r = pr_generation p"
    using tracker_okD(2) [OF FailAll_ok [OF assms(1)] Some] by blast
  ultimately show ?thesis using reg_okD [OF assms(2)] by metis
qed

lemma conn_inv_fail:
  assumes inv: "conn_inv y" and c: "pc_requests c = pc_requests (y_conn y)" "pc_Generation c = pc_Generation (y_conn y)" "pc_closed c"
  shows "conn_inv (y\<lparr>y_conn := close_fail code c\<rparr>)"
proof -
  from inv have t: "tracker_ok (y_reg y) (pc_requests (y_conn y))" and r: "reg_ok (pc_Generation (y_conn y)) (y_reg y)"
    by (simp_all add: conn_inv_def)
  show ?thesis
    using FailAll_ok [OF t] FailAll_empty [OF t r] r c by (simp add: conn_inv_def close_fail_def)
qed

lemma conn_inv_send:
  assumes inv: "conn_inv y" and r: "fmlookup (y_reg y) ch = Some request" and u: "ch |\<in>| y_unsent y"
  shows "conn_inv (y\<lparr>y_conn := request_send (\<lambda>r. if m then Some r else None) d k request (y_conn y),
     y_unsent := y_unsent y |-| {|ch|}\<rparr>)"
proof -
  let ?c = "y_conn y" and ?t = "pc_requests (y_conn y)"
  from inv r have v: "tracker_ok (y_reg y) ?t" "r_Generation request \<noteq> 0"
    "validateRuntimeID ''request_id'' (r_RequestID request) = None" unfolding conn_inv_def using reg_okD by blast+
  have fail: "conn_inv (y\<lparr>y_conn := ?c\<lparr>pc_requests := snd (CompleteError (request_error request code) ?t)\<rparr>,
      y_unsent := y_unsent y |-| {|ch|}\<rparr>)" if code: "\<forall>m. code \<noteq> UnknownCode m" for code
  proof -
    let ?t' = "snd (CompleteError (request_error request code) ?t)"
    have "pr_chan p |\<in>| y_unsent y |-| {|ch|}" if "pc_failed ?c" "fmlookup (rt_pending ?t') rid = Some p" for rid p
      using inv that own_error_completes [OF v(1) r v(2,3) code that(2)] CompleteError_pending [OF that(2)]
      by (auto simp: conn_inv_def)
    with inv CompleteError_ok [OF v(1)] show ?thesis
      unfolding conn_inv_def by (simp (no_asm)) blast
  qed
  show ?thesis
  proof (cases "m \<and> \<not> pc_closed ?c")
    case True
    then have nf: "\<not> pc_failed ?c" using inv by (simp add: conn_inv_def)
    from True fail [of ErrorQueueFull] fail [of ErrorPeerOffline] show ?thesis
    proof (cases "d \<and> (k \<or> length (pc_queue ?c) \<ge> pc_size ?c)")
      case d: True
      with True fail [of ErrorPeerOffline] show ?thesis by (simp add: request_send_def Send_def Let_def)
    next
      case nd: False
      show ?thesis
      proof (cases "length (pc_queue ?c) < pc_size ?c")
        case q: True
        with True nd nf inv show ?thesis by (auto simp: request_send_def Send_def conn_inv_def)
      next
        case q: False
        with True nd fail [of ErrorQueueFull] show ?thesis by (simp add: request_send_def Send_def Let_def)
      qed
    qed
  next
    case False
    with fail [of ErrorExecutionFailed] fail [of ErrorPeerOffline] show ?thesis
      by (cases m) (simp_all add: request_send_def Send_def Let_def)
  qed
qed

lemma conn_inv_step: "conn_inv y \<Longrightarrow> conn_inv (conn_step y e)"
proof (cases e)
  case (BeginRequest describe now request)
  assume inv: "conn_inv y"
  show ?thesis
  proof (cases "request_begin describe now request (y_conn y)")
    case (Pair res c)
    show ?thesis
    proof (cases res)
      case (Inl err)
      with inv Pair BeginRequest show ?thesis by simp
    next
      case (Inr ch)
      with Pair obtain t where t: "Register request (pc_requests (y_conn y)) = (Inr ch, t)"
        and c: "c = (y_conn y)\<lparr>pc_requests := t\<rparr>" and g: "r_Generation request = pc_Generation (y_conn y)"
        and v: "request_Validate now request = None"
        by (auto simp: request_begin_def split: if_splits option.splits prod.splits sum.splits)
      from inv have ok: "tracker_ok (y_reg y) (pc_requests (y_conn y))" by (simp add: conn_inv_def)
      from v have "r_Generation request \<noteq> 0" "validateRuntimeID ''request_id'' (r_RequestID request) = None"
        by (auto simp: request_Validate_def split: option.splits if_splits)
      with inv g have reg: "reg_ok (pc_Generation (y_conn y)) (fmupd ch request (y_reg y))"
        unfolding conn_inv_def by (auto intro: reg_ok_upd)
      have "pr_chan p = ch \<or> fmlookup (rt_pending (pc_requests (y_conn y))) rid = Some p"
        if "fmlookup (rt_pending t) rid = Some p" for rid p
        using Register_pending [OF t that] by blast
      with Register_ok [OF ok t] inv reg show ?thesis
        unfolding BeginRequest by (auto simp: Pair Inr c conn_inv_def)
    qed
  qed
next
  case (SendRequest ch m d k)
  assume inv: "conn_inv y"
  then show ?thesis
    using SendRequest conn_inv_send [OF inv] by (auto split: option.splits)
next
  case (PeerResult r)
  assume inv: "conn_inv y"
  then show ?thesis
    using PeerResult by (auto intro!: conn_inv_complete CompleteResult_ok dest: CompleteResult_pending simp: conn_inv_def [of y])
next
  case (PeerError r)
  assume inv: "conn_inv y"
  then show ?thesis
    using PeerError by (auto intro!: conn_inv_complete CompleteError_ok dest: CompleteError_pending simp: conn_inv_def [of y])
next
  case (TimeoutRequest ch)
  assume inv: "conn_inv y"
  then show ?thesis
    using TimeoutRequest by (auto intro!: conn_inv_complete CompleteError_ok dest: CompleteError_pending
        simp: request_timeout_def conn_inv_def [of y] split: option.splits)
next
  case (FailPending code)
  assume inv: "conn_inv y"
  then show ?thesis using conn_inv_fail [OF inv] FailPending by auto
next
  case (WriteNext ok)
  assume inv: "conn_inv y"
  have "conn_inv (y\<lparr>y_conn := (y_conn y)\<lparr>pc_queue := q\<rparr>\<rparr>)" for q
    using inv unfolding conn_inv_def by (simp (no_asm))
  moreover have "conn_inv (y\<lparr>y_conn := close_fail ErrorPeerOffline (close_flag ((y_conn y)\<lparr>pc_queue := q\<rparr>))\<rparr>)" for q
    by (rule conn_inv_fail [OF inv]) (simp_all add: close_flag_def)
  ultimately show ?thesis
    using inv WriteNext
    by (auto simp: write_one_def connection_Close_def CloseWith_def split: list.splits)
qed (auto simp: conn_inv_def close_flag_def)

interpretation conn: component "conn_init host generation caps agent queueSize" conn_step conn_inv
  for host generation caps agent queueSize
  by unfold_locales (rule conn_inv_init, rule conn_inv_step)

abbreviation conn_outcome :: "conn_sys \<Rightarrow> nat \<Rightarrow> outcome option" where
  "conn_outcome y ch \<equiv> fmlookup (rt_outcomes (pc_requests (y_conn y))) ch"

lemma request_send_stable:
  "fmlookup (rt_outcomes (pc_requests c)) ch = Some o1 \<Longrightarrow>
     fmlookup (rt_outcomes (pc_requests (request_send m d k request c))) ch = Some o1"
  by (auto simp: request_send_def Send_def Let_def CompleteError_stable split: option.splits)

lemma Register_stable:
  "\<lbrakk>request_begin describe now request c = (Inr n, c'); fmlookup (rt_outcomes (pc_requests c)) ch = Some o1\<rbrakk> \<Longrightarrow>
     fmlookup (rt_outcomes (pc_requests c')) ch = Some o1"
  by (auto simp: request_begin_def Register_def split: if_splits option.splits)

lemma conn_step_stable: "conn_outcome y ch = Some o1 \<Longrightarrow> conn_outcome (conn_step y e) ch = Some o1"
  by (cases e)
     (auto simp: CompleteResult_stable CompleteError_stable request_send_stable request_timeout_def close_flag_def
        close_fail_def FailAll_stable write_one_def connection_Close_def CloseWith_def
      dest: Register_stable split: option.splits sum.splits prod.splits list.splits)

lemma conn_run_stable: "conn_outcome y ch = Some o1 \<Longrightarrow> conn_outcome (foldl conn_step y es) ch = Some o1"
  by (induction es arbitrary: y) (simp_all add: conn_step_stable)

text \<open>
  C24. Every request is answered exactly once, and by its own answer.  Take any history of
  a connection: requests begun, sent and timed out, results and errors arriving from the
  peer, true or forged, writes failing and the connection closing, in any order.  The
  outcome delivered for a request carries its identifier and the connection's generation,
  and once delivered it never changes.  A request without an outcome is still pending; and
  once the connection has been closed and every registered request has reached its send,
  none is left without one.
\<close>

theorem request_answered_once:
  assumes y: "y = foldl conn_step (conn_init host generation caps agent queueSize) es"
    and r: "fmlookup (y_reg y) ch = Some r"
  shows "case conn_outcome y ch of
      Some o1 \<Rightarrow> outcome_id o1 = (r_RequestID r, generation) \<and>
        (\<forall>es'. conn_outcome (foldl conn_step y es') ch = Some o1)
    | None \<Rightarrow> \<not> (pc_failed (y_conn y) \<and> y_unsent y = {||}) \<and>
        fmlookup (rt_pending (pc_requests (y_conn y))) (r_RequestID r) = Some \<lparr>pr_generation = generation, pr_chan = ch\<rparr>"
proof -
  have inv: "conn_inv y" unfolding y by (rule conn.run_inv)
  have g: "pc_Generation (y_conn y) = generation"
  proof -
    have step: "pc_Generation (y_conn (conn_step x e)) = pc_Generation (y_conn x)" for x e
      by (cases e)
        (auto simp: request_begin_def request_send_def Send_def Let_def request_timeout_def close_flag_def close_fail_def
          write_one_def connection_Close_def CloseWith_def split: option.splits sum.splits prod.splits list.splits)
    have "pc_Generation (y_conn (foldl conn_step x es)) = pc_Generation (y_conn x)" for x
      by (induction es arbitrary: x) (simp_all add: step)
    then show ?thesis unfolding y by (simp add: conn_init_def newPeerConnection_def)
  qed
  from inv have ok: "tracker_ok (y_reg y) (pc_requests (y_conn y))" and "reg_ok generation (y_reg y)"
    and left: "\<lbrakk>pc_failed (y_conn y); fmlookup (rt_pending (pc_requests (y_conn y))) rid = Some p\<rbrakk> \<Longrightarrow> pr_chan p |\<in>| y_unsent y" for rid p
    by (auto simp: conn_inv_def g)
  with r have rg: "r_Generation r = generation" using reg_okD by blast
  show ?thesis
  proof (cases "conn_outcome y ch")
    case None
    with tracker_okD(5) [OF ok r None] left [of "r_RequestID r"] rg show ?thesis by auto
  next
    case (Some o1)
    with tracker_okD(4) [OF ok r Some] rg conn_run_stable [OF Some] show ?thesis by simp
  qed
qed

definition demo_request :: RuntimeRequest where
  "demo_request = \<lparr>r_RequestID = ''r1'', r_Generation = 3, r_Deadline = 100, r_Operation = ''new'',
     r_Target = \<lparr>st_HostID = ''h'', st_Session = ''s''\<rparr>, r_Payload = ''{}''\<rparr>"

theorem request_answered_once_witness:
  "\<exists>o1. conn_outcome (foldl conn_step (conn_init ''h'' 3 [] ''a'' 8)
       [BeginRequest (\<lambda>_. []) 5 demo_request, SetClosed, SendRequest 0 True False False, FailPending ErrorPeerRevoked]) 0 = Some o1 \<and>
     outcome_id o1 = (''r1'', 3)"
proof -
  have ids: "validateRuntimeID ''request_id'' ''r1'' = None" "validateBoundedText ''operation'' ''new'' maxOperationLength = None"
    "target_Validate \<lparr>st_HostID = ''h'', st_Session = ''s''\<rparr> = None"
    by (simp_all add: target_Validate_def validateRuntimeID_visible validateBoundedText_visible
        maxOperationLength_def visible_letter)
  have chars: "byte_val CHR ''{'' = 123" "byte_val CHR ''}'' = 125" by code_simp+
  have space: "\<not> json_space CHR ''{''" "\<not> json_space CHR ''}''" "json_space CHR '' ''" by code_simp+
  have "singleJSONObject ''{}''"
    by (simp add: singleJSONObject_def json_object_def json_valid_def begin_value_def push_parse_def end_value_def
        pop_parse_def max_nesting_depth_def maxPayloadSize_def space)
  with ids have v: "request_Validate 5 demo_request = None"
    by (simp add: request_Validate_def demo_request_def)
  let ?y = "foldl conn_step (conn_init ''h'' 3 [] ''a'' 8)
       [BeginRequest (\<lambda>_. []) 5 demo_request, SetClosed, SendRequest 0 True False False, FailPending ErrorPeerRevoked]"
  have b: "request_begin (\<lambda>_. []) 5 demo_request (newPeerConnection ''h'' 3 [] ''a'' 8) =
    (Inr 0, (newPeerConnection ''h'' 3 [] ''a'' 8)\<lparr>pc_requests :=
       \<lparr>rt_pending = fmupd ''r1'' \<lparr>pr_generation = 3, pr_chan = 0\<rparr> fmempty, rt_outcomes = fmempty, rt_next = 1\<rparr>\<rparr>)"
    unfolding request_begin_def v
    by (simp add: demo_request_def newPeerConnection_def Register_def NewRequestTracker_def)
  have s1: "conn_step (conn_init ''h'' 3 [] ''a'' 8) (BeginRequest (\<lambda>_. []) 5 demo_request) =
     \<lparr>y_conn = (newPeerConnection ''h'' 3 [] ''a'' 8)\<lparr>pc_requests :=
       \<lparr>rt_pending = fmupd ''r1'' \<lparr>pr_generation = 3, pr_chan = 0\<rparr> fmempty, rt_outcomes = fmempty, rt_next = 1\<rparr>\<rparr>,
       y_reg = fmupd 0 demo_request fmempty, y_unsent = {|0|}\<rparr>"
    unfolding conn_init_def conn_step.simps conn_sys.select_convs b by simp
  have r: "fmlookup (y_reg ?y) 0 = Some demo_request" and f: "pc_failed (y_conn ?y) \<and> y_unsent ?y = {||}"
    unfolding foldl_Cons foldl_Nil s1
    by (simp_all add: close_flag_def request_send_def Send_def Let_def close_fail_def newPeerConnection_def)
  from request_answered_once [OF refl r] f show ?thesis
    by (auto simp: demo_request_def split: option.splits)
qed

end
