(* ===== verification/Dispatch.thy ===== *)
theory Dispatch
  imports Requests TmuxClient
begin

text \<open>
  Executing requests on an agent (\<open>pkg/peer/dispatcher.go\<close>, \<open>tmux_executor.go\<close>): the
  cache of outcomes, which runs a request identifier at most once while its outcome is
  kept, the dispatcher's checks and the tmux executor.  Digests (\<open>json\<close> and \<open>sha256\<close>),
  the environment and tmux are arguments.
\<close>

subsection \<open>Configuration\<close>

record OutcomeCacheConfig =
  oc_TTL :: duration
  oc_MaxEntries :: int
  oc_MaxResultSize :: int

definition DefaultOutcomeCacheConfig :: OutcomeCacheConfig where
  "DefaultOutcomeCacheConfig = \<lparr>oc_TTL = 5 * minute, oc_MaxEntries = 1024, oc_MaxResultSize = 65536\<rparr>"

definition cache_config_valid :: "OutcomeCacheConfig \<Rightarrow> bool" where
  "cache_config_valid c = (\<not> (oc_TTL c \<le> 0 \<or> oc_MaxEntries c \<le> 0 \<or> oc_MaxResultSize c \<le> 0))"

definition read_limit :: "(string \<Rightarrow> string) \<Rightarrow> string \<Rightarrow> int \<Rightarrow> int option" where
  "read_limit getenv name current =
     (if getenv name = [] then Some current
      else case atoi (getenv name) of (parsed, ok) \<Rightarrow> if ok then Some parsed else None)"

text \<open>
  \<open>OutcomeCacheConfigFromEnv\<close>; an error is \<open>None\<close>, and the caller then uses the defaults.
  \<open>parse_duration\<close> is \<open>time.ParseDuration\<close>.
\<close>

definition OutcomeCacheConfigFromEnv :: "(string \<Rightarrow> duration option) \<Rightarrow> (string \<Rightarrow> string) \<Rightarrow> OutcomeCacheConfig option" where
  "OutcomeCacheConfigFromEnv parse_duration getenv =
     (let ttl = (if getenv ''TMUXATLAS_PEER_OUTCOME_TTL'' = [] then Some (oc_TTL DefaultOutcomeCacheConfig)
                 else parse_duration (getenv ''TMUXATLAS_PEER_OUTCOME_TTL''))
      in case (ttl, read_limit getenv ''TMUXATLAS_PEER_OUTCOME_MAX_ENTRIES'' (oc_MaxEntries DefaultOutcomeCacheConfig),
               read_limit getenv ''TMUXATLAS_PEER_OUTCOME_MAX_BYTES'' (oc_MaxResultSize DefaultOutcomeCacheConfig)) of
           (Some t, Some n, Some b) \<Rightarrow>
             (let config = \<lparr>oc_TTL = t, oc_MaxEntries = n, oc_MaxResultSize = b\<rparr> in
              if cache_config_valid config then Some config else None)
         | _ \<Rightarrow> None)"

subsection \<open>The outcome cache\<close>

record 'd cachedOutcome =
  co_digest :: 'd
  co_outcome :: "outcome option"
  co_expires :: time
  co_complete :: bool

record 'd outcome_cache =
  cache_config :: OutcomeCacheConfig
  cache_entries :: "(string, 'd cachedOutcome) fmap"

definition NewOutcomeCache :: "OutcomeCacheConfig \<Rightarrow> 'd outcome_cache option" where
  "NewOutcomeCache config =
     (if \<not> cache_config_valid config then None else Some \<lparr>cache_config = config, cache_entries = fmempty\<rparr>)"

definition errorOutcome :: "RuntimeRequest \<Rightarrow> error_code \<Rightarrow> string \<Rightarrow> outcome" where
  "errorOutcome request code message =
     OError \<lparr>e_RequestID = r_RequestID request, e_Generation = r_Generation request, e_Code = code, e_Message = message\<rparr>"

text \<open>
  The first critical section of \<open>Do\<close> decides: answer at once, wait for the execution under
  way (or done) with this identifier, or run.
\<close>

datatype decision = Answer outcome | Await string | Run

definition cache_begin :: "time \<Rightarrow> RuntimeRequest \<Rightarrow> 'd option \<Rightarrow> 'd outcome_cache \<Rightarrow> decision \<times> 'd outcome_cache" where
  "cache_begin now request digest0 cache =
     (case digest0 of
        None \<Rightarrow> (Answer (errorOutcome request ErrorExecutionFailed ''invalid request payload''), cache)
      | Some digest \<Rightarrow>
          (let entries = fm_keep (\<lambda>_ e. \<not> (co_complete e \<and> \<not> now < co_expires e)) (cache_entries cache);
               cleaned = cache\<lparr>cache_entries := entries\<rparr>
           in case fmlookup entries (r_RequestID request) of
                Some existing \<Rightarrow>
                  if co_digest existing \<noteq> digest then (Answer (errorOutcome request ErrorRequestConflict []), cleaned)
                  else (Await (r_RequestID request), cleaned)
              | None \<Rightarrow>
                  if int (go_len entries) \<ge> oc_MaxEntries (cache_config cache)
                  then (Answer (errorOutcome request ErrorResourceExhausted []), cleaned)
                  else (Run, cleaned\<lparr>cache_entries := fmupd (r_RequestID request)
                      \<lparr>co_digest = digest, co_outcome = None, co_expires = 0, co_complete = False\<rparr> entries\<rparr>)))"

text \<open>The second critical section, after the execution; \<open>size\<close> is the length of the marshalled outcome.\<close>

definition bounded_outcome :: "(outcome \<Rightarrow> nat) \<Rightarrow> RuntimeRequest \<Rightarrow> 'd outcome_cache \<Rightarrow> outcome \<Rightarrow> outcome" where
  "bounded_outcome osize request cache o1 =
     (if int (osize o1) > oc_MaxResultSize (cache_config cache)
      then errorOutcome request ErrorResourceExhausted ''terminal outcome exceeds configured bound'' else o1)"

definition cache_finish :: "time \<Rightarrow> (outcome \<Rightarrow> nat) \<Rightarrow> RuntimeRequest \<Rightarrow> outcome \<Rightarrow> 'd outcome_cache \<Rightarrow> outcome \<times> 'd outcome_cache" where
  "cache_finish now osize request executed cache =
     (let o1 = bounded_outcome osize request cache executed in
      (o1, case fmlookup (cache_entries cache) (r_RequestID request) of
             None \<Rightarrow> cache
           | Some entry \<Rightarrow> cache\<lparr>cache_entries := fmupd (r_RequestID request)
               (entry\<lparr>co_outcome := Some o1, co_complete := True, co_expires := now + oc_TTL (cache_config cache)\<rparr>)
               (cache_entries cache)\<rparr>))"

text \<open>Waiting on \<open>done\<close>: the caller's context may end first.\<close>

definition cache_await :: "bool \<Rightarrow> RuntimeRequest \<Rightarrow> 'd outcome_cache \<Rightarrow> outcome option" where
  "cache_await ctx_done request cache =
     (case fmlookup (cache_entries cache) (r_RequestID request) of
        Some e \<Rightarrow> if ctx_done \<and> \<not> co_complete e then Some (errorOutcome request ErrorTimeout [])
          else if co_complete e then co_outcome e else None
      | None \<Rightarrow> None)"

text \<open>\<open>Do\<close> when no other call runs in between.\<close>

definition cache_Do :: "time \<Rightarrow> time \<Rightarrow> (outcome \<Rightarrow> nat) \<Rightarrow> RuntimeRequest \<Rightarrow> 'd option \<Rightarrow> outcome
    \<Rightarrow> 'd outcome_cache \<Rightarrow> outcome option \<times> 'd outcome_cache" where
  "cache_Do start finish osize request digest executed cache =
     (case cache_begin start request digest cache of
        (Answer o1, c) \<Rightarrow> (Some o1, c)
      | (Await _, c) \<Rightarrow> (cache_await False request c, c)
      | (Run, c) \<Rightarrow> (case cache_finish finish osize request executed c of (o1, c') \<Rightarrow> (Some o1, c')))"

subsection \<open>The dispatcher\<close>

record dispatcher =
  d_Generation :: u64
  d_HostID :: string
  d_Capabilities :: "string fset"
  d_has_executor :: bool
  d_has_cache :: bool

definition no_ack :: RuntimeAck where
  "no_ack = \<lparr>k_RequestID = [], k_Generation = 0, k_Accepted = False\<rparr>"

text \<open>\<open>describe\<close> is the text of a validation error.\<close>

definition dispatch_guard :: "(invalid \<Rightarrow> string) \<Rightarrow> time \<Rightarrow> dispatcher \<Rightarrow> RuntimeRequest \<Rightarrow> outcome option" where
  "dispatch_guard describe now d request =
     (case request_Validate now request of
        Some err \<Rightarrow> Some (errorOutcome request ErrorInvalidTarget (describe err))
      | None \<Rightarrow>
          if r_Generation request \<noteq> d_Generation d then Some (errorOutcome request ErrorStaleGeneration [])
          else if st_HostID (r_Target request) \<noteq> d_HostID d
          then Some (errorOutcome request ErrorInvalidTarget ''target host does not match this Agent'')
          else if CapabilitySessionActions |\<notin>| d_Capabilities d then Some (errorOutcome request ErrorCapabilityUnsupported [])
          else if \<not> d_has_executor d \<or> \<not> d_has_cache d
          then Some (errorOutcome request ErrorExecutionFailed ''runtime executor unavailable'')
          else None)"

definition executed_outcome :: "RuntimeRequest \<Rightarrow> string option \<Rightarrow> outcome" where
  "executed_outcome request executed =
     (case executed of
        None \<Rightarrow> errorOutcome request ErrorExecutionFailed ''target operation failed''
      | Some result \<Rightarrow>
          OResult \<lparr>rr_RequestID = r_RequestID request, rr_Generation = r_Generation request,
            rr_Result = (if result = [] then ''{'' @ [CHR 0x22] @ ''ok'' @ [CHR 0x22] @ '':true}'' else result)\<rparr>)"

definition Dispatch :: "(invalid \<Rightarrow> string) \<Rightarrow> time \<Rightarrow> time \<Rightarrow> time \<Rightarrow> (outcome \<Rightarrow> nat)
    \<Rightarrow> (string \<Rightarrow> SessionTarget \<Rightarrow> string \<Rightarrow> 'd option) \<Rightarrow> (string \<Rightarrow> SessionTarget \<Rightarrow> string \<Rightarrow> string option)
    \<Rightarrow> dispatcher \<Rightarrow> RuntimeRequest \<Rightarrow> 'd outcome_cache \<Rightarrow> RuntimeAck \<times> outcome option \<times> 'd outcome_cache" where
  "Dispatch describe now start finish osize digest execute d request cache =
     (case dispatch_guard describe now d request of
        Some o1 \<Rightarrow> (no_ack, Some o1, cache)
      | None \<Rightarrow>
          (let ack = \<lparr>k_RequestID = r_RequestID request, k_Generation = r_Generation request, k_Accepted = True\<rparr>
           in case cache_Do start finish osize request (digest (r_Operation request) (r_Target request) (r_Payload request))
                     (executed_outcome request (execute (r_Operation request) (r_Target request) (r_Payload request))) cache of
                (o1, cache') \<Rightarrow> (ack, o1, cache')))"

subsection \<open>The tmux executor\<close>

text \<open>
  The decoders of the parameter objects return \<open>None\<close> when \<open>json.Unmarshal\<close> fails; a
  missing field is its zero value.  \<open>marshal_target\<close> builds the result object with an
  optional window index.
\<close>

record param_decoders =
  p_new_name :: "string \<Rightarrow> string option"
  p_select :: "string \<Rightarrow> (int \<times> string) option"
  p_pane :: "string \<Rightarrow> string option"
  p_value :: "string \<Rightarrow> string option"

definition ok_result :: string where
  "ok_result = ''{'' @ [CHR 0x22] @ ''ok'' @ [CHR 0x22] @ '':true}''"

definition tmux_Execute :: "tmux_exec option \<Rightarrow> param_decoders \<Rightarrow> (SessionTarget \<Rightarrow> int option \<Rightarrow> string)
    \<Rightarrow> string \<Rightarrow> SessionTarget \<Rightarrow> string \<Rightarrow> string option" where
  "tmux_Execute client dec marshal_target operation target payload =
     (case client of
        None \<Rightarrow> None
      | Some exec \<Rightarrow>
          if operation = ''new'' then
            (case NewSession exec (st_Session target) of Some _ \<Rightarrow> None | None \<Rightarrow> Some (marshal_target target None))
          else if operation = ''rename'' then
            (case p_new_name dec payload of
               None \<Rightarrow> None
             | Some newName \<Rightarrow>
                 if newName = [] then None
                 else case RenameSession exec (st_Session target) newName of
                   Some _ \<Rightarrow> None
                 | None \<Rightarrow> Some (marshal_target (target\<lparr>st_Session := newName\<rparr>) None))
          else if operation = ''select-window'' then
            (case p_select dec payload of
               None \<Rightarrow> None
             | Some (window, pane) \<Rightarrow>
                 (case SelectWindow exec (st_Session target) (itoa window) of
                    Some _ \<Rightarrow> None
                  | None \<Rightarrow>
                      if pane \<noteq> [] then (case SelectPane exec pane of Some _ \<Rightarrow> None | None \<Rightarrow> Some ok_result)
                      else Some ok_result))
          else if operation = ''select-pane'' then
            (case p_pane dec payload of
               None \<Rightarrow> None
             | Some pane \<Rightarrow>
                 if pane = [] then None
                 else case SelectPane exec pane of Some _ \<Rightarrow> None | None \<Rightarrow> Some ok_result)
          else if operation = ''new-window'' then
            (case NewWindow exec (st_Session target) of
               Inl _ \<Rightarrow> None | Inr index \<Rightarrow> Some (marshal_target target (Some index)))
          else if operation = ''mouse'' then
            (case p_value dec payload of
               None \<Rightarrow> None
             | Some v \<Rightarrow>
                 if v \<noteq> ''on'' \<and> v \<noteq> ''off'' then None
                 else case SetMouse exec (st_Session target) (v = ''on'') of Some _ \<Rightarrow> None | None \<Rightarrow> Some ok_result)
          else None)"

subsection \<open>At most one execution\<close>

text \<open>
  Calls of \<open>Do\<close> interleave at their critical sections.  The clock only advances (the
  comparison uses Go's monotonic reading): every event says by how much.  The log, newest
  first, records the decisions to run and the completions.
\<close>

datatype cache_log = Ran string time | Finished string time

record 'd cache_sys =
  q_cache :: "'d outcome_cache"
  q_now :: time
  q_log :: "cache_log list"

datatype 'd cache_event = DoBegin nat RuntimeRequest "'d option" | DoFinish nat RuntimeRequest outcome

definition cache_tick :: "nat \<Rightarrow> 'd cache_sys \<Rightarrow> time" where
  "cache_tick dt q = q_now q + int dt"

fun cache_step :: "(outcome \<Rightarrow> nat) \<Rightarrow> 'd cache_sys \<Rightarrow> 'd cache_event \<Rightarrow> 'd cache_sys" where
  "cache_step osize q (DoBegin dt request digest) =
     (let now = cache_tick dt q in
      case cache_begin now request digest (q_cache q) of
        (decision, c) \<Rightarrow> \<lparr>q_cache = c, q_now = now,
          q_log = (if decision = Run then Ran (r_RequestID request) now # q_log q else q_log q)\<rparr>)"
| "cache_step osize q (DoFinish dt request executed) =
     (let now = cache_tick dt q in
      case fmlookup (cache_entries (q_cache q)) (r_RequestID request) of
        Some e \<Rightarrow>
          if co_complete e then q\<lparr>q_now := now\<rparr>
          else \<lparr>q_cache = snd (cache_finish now osize request executed (q_cache q)), q_now = now,
                q_log = Finished (r_RequestID request) now # q_log q\<rparr>
      | None \<Rightarrow> q\<lparr>q_now := now\<rparr>)"

fun log_id :: "cache_log \<Rightarrow> string" where
  "log_id (Ran rid _) = rid"
| "log_id (Finished rid _) = rid"

definition latest :: "string \<Rightarrow> cache_log list \<Rightarrow> cache_log option" where
  "latest rid l = find (\<lambda>x. log_id x = rid) l"

fun spaced :: "duration \<Rightarrow> cache_log list \<Rightarrow> bool" where
  "spaced ttl [] = True"
| "spaced ttl (Finished _ _ # l) = spaced ttl l"
| "spaced ttl (Ran rid now # l) =
     (spaced ttl l \<and> (case latest rid l of
        None \<Rightarrow> True | Some (Ran _ _) \<Rightarrow> False | Some (Finished _ t) \<Rightarrow> t + ttl \<le> now))"

definition cache_init :: "OutcomeCacheConfig \<Rightarrow> time \<Rightarrow> 'd cache_sys" where
  "cache_init config start = \<lparr>q_cache = \<lparr>cache_config = config, cache_entries = fmempty\<rparr>, q_now = start, q_log = []\<rparr>"

definition entry_matches :: "duration \<Rightarrow> time \<Rightarrow> 'd cachedOutcome option \<Rightarrow> cache_log option \<Rightarrow> string \<Rightarrow> bool" where
  "entry_matches ttl now e l rid =
     (case e of
        None \<Rightarrow> (case l of None \<Rightarrow> True | Some (Ran _ _) \<Rightarrow> False | Some (Finished _ t) \<Rightarrow> t + ttl \<le> now)
      | Some entry \<Rightarrow>
          if co_complete entry then (\<exists>t. l = Some (Finished rid t) \<and> co_expires entry = t + ttl)
          else (\<exists>t. l = Some (Ran rid t)))"

definition cache_inv :: "OutcomeCacheConfig \<Rightarrow> 'd cache_sys \<Rightarrow> bool" where
  "cache_inv config q =
     (cache_config (q_cache q) = config \<and> spaced (oc_TTL config) (q_log q) \<and>
      (\<forall>rid. entry_matches (oc_TTL config) (q_now q) (fmlookup (cache_entries (q_cache q)) rid) (latest rid (q_log q)) rid))"

lemma entry_matches_later: "\<lbrakk>entry_matches ttl now e l rid; now \<le> now'\<rbrakk> \<Longrightarrow> entry_matches ttl now' e l rid"
  by (auto simp: entry_matches_def split: option.splits cache_log.splits if_splits)

lemma entry_matches_expire:
  "\<lbrakk>entry_matches ttl now (Some e) l rid; co_complete e; co_expires e \<le> now'\<rbrakk> \<Longrightarrow> entry_matches ttl now' None l rid"
  by (auto simp: entry_matches_def)

lemma latest_Cons: "latest rid (x # l) = (if log_id x = rid then Some x else latest rid l)"
  by (simp add: latest_def)

text \<open>What the cleanup of the first section leaves still matches the log.\<close>

lemma cleanup_matches:
  assumes "\<forall>rid. entry_matches ttl now (fmlookup entries rid) (latest rid l) rid" and "now \<le> now'"
  shows "entry_matches ttl now' (fmlookup (fm_keep (\<lambda>_ e. \<not> (co_complete e \<and> \<not> now' < co_expires e)) entries) rid) (latest rid l) rid"
proof (cases "fmlookup entries rid")
  case None
  from spec [OF assms(1), of rid] have "entry_matches ttl now (fmlookup entries rid) (latest rid l) rid" .
  from entry_matches_later [OF this assms(2)] None show ?thesis by simp
next
  case (Some e)
  from spec [OF assms(1), of rid] have m: "entry_matches ttl now (Some e) (latest rid l) rid" by (simp only: Some)
  show ?thesis
  proof (cases "co_complete e \<and> \<not> now' < co_expires e")
    case True
    with entry_matches_expire [OF m, of now'] Some show ?thesis by simp
  next
    case False
    with entry_matches_later [OF m assms(2)] Some show ?thesis by auto
  qed
qed

lemma cache_inv_step:
  fixes q :: "'d cache_sys"
  shows "cache_inv config q \<Longrightarrow> cache_inv config (cache_step osize q e)"
proof (cases e)
  case (DoBegin dt request digest)
  assume inv: "cache_inv config q"
  let ?now = "cache_tick dt q" and ?rid = "r_RequestID request"
  let ?entries = "fm_keep (\<lambda>_ e. \<not> (co_complete e \<and> \<not> ?now < co_expires e)) (cache_entries (q_cache q))"
  have later: "q_now q \<le> ?now" by (simp add: cache_tick_def)
  from inv have c: "cache_config (q_cache q) = config" and s: "spaced (oc_TTL config) (q_log q)"
    and m: "\<forall>rid. entry_matches (oc_TTL config) (q_now q) (fmlookup (cache_entries (q_cache q)) rid) (latest rid (q_log q)) rid"
    by (simp_all add: cache_inv_def)
  note clean = cleanup_matches [OF m later]
  have run: "cache_inv config \<lparr>q_cache = (q_cache q)\<lparr>cache_entries := fmupd ?rid
       \<lparr>co_digest = d, co_outcome = None, co_expires = 0, co_complete = False\<rparr> ?entries\<rparr>,
     q_now = ?now, q_log = Ran ?rid ?now # q_log q\<rparr>" if "fmlookup ?entries ?rid = None" for d
  proof -
    have "entry_matches (oc_TTL config) ?now (None :: 'd cachedOutcome option) (latest ?rid (q_log q)) ?rid"
      using clean [of ?rid] unfolding that .
    then have "spaced (oc_TTL config) (Ran ?rid ?now # q_log q)" using s by (simp add: entry_matches_def)
    with c clean show ?thesis by (auto simp: cache_inv_def latest_Cons entry_matches_def [of _ _ "Some _"] simp del: spaced.simps fm_keep_lookup)
  qed
  have keep: "cache_inv config \<lparr>q_cache = (q_cache q)\<lparr>cache_entries := ?entries\<rparr>, q_now = ?now, q_log = q_log q\<rparr>"
    using c s clean by (simp add: cache_inv_def del: fm_keep_lookup)
  have same: "cache_inv config \<lparr>q_cache = q_cache q, q_now = ?now, q_log = q_log q\<rparr>"
    using c s entry_matches_later [OF spec [OF m] later] by (simp add: cache_inv_def)
  show ?thesis
    unfolding DoBegin cache_step.simps Let_def cache_begin_def
    using run keep same by (auto simp del: fm_keep_lookup split: option.splits)
next
  case (DoFinish dt request executed)
  assume inv: "cache_inv config q"
  let ?now = "cache_tick dt q" and ?rid = "r_RequestID request"
  have later: "q_now q \<le> ?now" by (simp add: cache_tick_def)
  from inv have c: "cache_config (q_cache q) = config" and s: "spaced (oc_TTL config) (q_log q)"
    and m: "\<And>rid. entry_matches (oc_TTL config) (q_now q) (fmlookup (cache_entries (q_cache q)) rid) (latest rid (q_log q)) rid"
    by (simp_all add: cache_inv_def)
  have same: "cache_inv config (q\<lparr>q_now := ?now\<rparr>)"
    using c s entry_matches_later [OF m later] by (simp add: cache_inv_def)
  show ?thesis
  proof (cases "fmlookup (cache_entries (q_cache q)) ?rid")
    case None
    with same DoFinish show ?thesis by (simp add: Let_def)
  next
    case (Some entry)
    have "cache_inv config \<lparr>q_cache = snd (cache_finish ?now osize request executed (q_cache q)), q_now = ?now,
        q_log = Finished ?rid ?now # q_log q\<rparr>" if "\<not> co_complete entry"
      using c s entry_matches_later [OF m later] Some
      by (auto simp: cache_inv_def cache_finish_def Let_def latest_Cons entry_matches_def [of _ _ "Some _"])
    with Some same DoFinish show ?thesis by (simp add: Let_def)
  qed
qed

lemma cache_inv_init: "cache_inv config (cache_init config start)"
  by (simp add: cache_inv_def cache_init_def entry_matches_def latest_def)

interpretation cache: component "cache_init config start" "cache_step osize" "cache_inv config" for config start osize
  by unfold_locales (rule cache_inv_init, erule cache_inv_step)

lemma spaced_suffix: "spaced ttl (a @ l) \<Longrightarrow> spaced ttl l"
  by (induction a rule: spaced.induct) simp_all

text \<open>In a spaced log, a run that follows another was preceded by the completion of that one's outcome.\<close>

lemma spaced_two_runs:
  assumes "spaced ttl (Ran rid n2 # b @ Ran rid n1 # c)"
  shows "\<exists>t. Finished rid t \<in> set b \<and> t + ttl \<le> n2"
proof -
  from assms obtain x where x: "latest rid (b @ Ran rid n1 # c) = Some x"
    and later: "\<And>m t. x = Finished m t \<Longrightarrow> t + ttl \<le> n2" and not_run: "\<And>m t. x \<noteq> Ran m t"
    by (auto simp: latest_def find_None_iff split: option.splits cache_log.splits)
  from x not_run have "x \<in> set b \<and> log_id x = rid"
    by (induction b) (auto simp: latest_Cons split: if_splits)
  with later not_run show ?thesis by (cases x) auto
qed

text \<open>
  C25. However the calls of the outcome cache interleave, a request identifier that is
  executed twice was, in between, completed for the first execution, and the second one
  starts no earlier than the configured lifetime after that completion: while an outcome is
  kept, or an execution is under way, the same identifier is never executed again.
\<close>

theorem executed_at_most_once_per_ttl:
  assumes "q_log (foldl (cache_step osize) (cache_init config start) events) = a @ Ran rid n2 # b @ Ran rid n1 # c"
  shows "\<exists>t. Finished rid t \<in> set b \<and> t + oc_TTL config \<le> n2"
proof -
  have "cache_inv config (foldl (cache_step osize) (cache_init config start) events)"
    by (rule cache.run_inv)
  then have "spaced (oc_TTL config) (a @ Ran rid n2 # b @ Ran rid n1 # c)"
    unfolding cache_inv_def assms by blast
  from spaced_two_runs [OF spaced_suffix [OF this]] show ?thesis .
qed

theorem executed_at_most_once_per_ttl_witness:
  "\<exists>t. Finished ''r1'' t \<in> set [Finished ''r1'' 3] \<and> t + 10 \<le> (13 :: int)"
proof -
  let ?config = "\<lparr>oc_TTL = 10, oc_MaxEntries = 4, oc_MaxResultSize = 100\<rparr>"
  let ?outcome = "errorOutcome demo_request ErrorExecutionFailed []"
  have "q_log (foldl (cache_step (\<lambda>_. 0)) (cache_init ?config 0)
      [DoBegin 1 demo_request (Some (7 :: nat)), DoBegin 1 demo_request (Some 7), DoFinish 1 demo_request ?outcome,
       DoBegin 9 demo_request (Some 7), DoBegin 1 demo_request (Some 7)])
    = [] @ Ran ''r1'' 13 # [Finished ''r1'' 3] @ Ran ''r1'' 1 # []"
    by code_simp
  from executed_at_most_once_per_ttl [OF this] show ?thesis by simp
qed

end
