(* ===== verification/AtomicFile.thy ===== *)
theory AtomicFile
  imports Prelude
begin

text \<open>
  Replacing a file: the program's stores write a temporary file beside the target, sync
  it and rename it over the target.  The steps are explicit, any of them may fail, and
  the model records every state the directory passes through, so that a crash between
  two steps is covered.  \<open>atomicWriteFile\<close> of \<open>pkg/commands/update/transaction.go\<close>,
  \<open>saveData\<close> of \<open>pkg/identity/peers.go\<close>, \<open>saveLocked\<close> of \<open>pkg/auth/passkey.go\<close> and
  \<open>writeSubscriptions\<close> of \<open>pkg/webpush/subscriptions.go\<close> are built from them.  The
  content is the value that is marshalled; \<open>encoding/json\<close> itself is not modelled.
\<close>

record 'a dir =
  d_target :: "'a option"
  d_temp :: "'a option option"

datatype stage = MakeDir | CreateTemp | ChmodTemp | WriteTemp | SyncTemp | CloseTemp | RenameTemp
  | ChmodTarget | SyncDir

text \<open>
  The result of a sequence of steps: the stage that failed, the directory, and the
  directories visited on the way.
\<close>

type_synonym 'a run = "stage option \<times> 'a dir \<times> 'a dir list"

text \<open>
  \<open>attempt fault s ok bad next\<close> runs stage \<open>s\<close>: \<open>ok\<close> is its effect, \<open>bad\<close> the cleanup
  of the error path that returns.
\<close>

definition attempt :: "stage option \<Rightarrow> stage \<Rightarrow> ('a dir \<Rightarrow> 'a dir) \<Rightarrow> ('a dir \<Rightarrow> 'a dir)
    \<Rightarrow> ('a dir \<Rightarrow> 'a run) \<Rightarrow> 'a dir \<Rightarrow> 'a run" where
  "attempt fault s ok bad next d =
     (if fault = Some s then (Some s, bad d, [d, bad d])
      else case next (ok d) of (e, d', visited) \<Rightarrow> (e, d', d # visited))"

definition finished :: "'a dir \<Rightarrow> 'a run" where
  "finished d = (None, d, [d])"

definition keep :: "'a dir \<Rightarrow> 'a dir" where "keep d = d"
definition make_temp :: "'a dir \<Rightarrow> 'a dir" where "make_temp d = d\<lparr>d_temp := Some None\<rparr>"
definition fill_temp :: "'a \<Rightarrow> 'a dir \<Rightarrow> 'a dir" where "fill_temp v d = d\<lparr>d_temp := Some (Some v)\<rparr>"
definition drop_temp :: "'a dir \<Rightarrow> 'a dir" where "drop_temp d = d\<lparr>d_temp := None\<rparr>"

text \<open>The rename puts the whole temporary file in the target's place.\<close>

definition publish :: "'a dir \<Rightarrow> 'a dir" where
  "publish d = d\<lparr>d_target := (case d_temp d of Some (Some v) \<Rightarrow> Some v | _ \<Rightarrow> d_target d), d_temp := None\<rparr>"

text \<open>The steps the routines share, once the temporary file exists; the deferred or explicit
  removal of the temporary file is the cleanup of each error path.\<close>

definition fill_and_rename :: "stage option \<Rightarrow> 'a \<Rightarrow> ('a dir \<Rightarrow> 'a run) \<Rightarrow> 'a dir \<Rightarrow> 'a run" where
  "fill_and_rename fault v next =
     attempt fault ChmodTemp keep drop_temp
     (attempt fault WriteTemp (fill_temp v) drop_temp
     (attempt fault SyncTemp keep drop_temp
     (attempt fault CloseTemp keep drop_temp
     (attempt fault RenameTemp publish drop_temp next))))"

definition atomicWriteFile :: "stage option \<Rightarrow> 'a \<Rightarrow> 'a dir \<Rightarrow> 'a run" where
  "atomicWriteFile fault v =
     attempt fault MakeDir keep keep
     (attempt fault CreateTemp make_temp keep
     (fill_and_rename fault v finished))"

text \<open>\<open>PeerStore.saveData\<close> and \<open>PasskeyStore.saveLocked\<close> have no directory to make.\<close>

definition saveData :: "stage option \<Rightarrow> 'a \<Rightarrow> 'a dir \<Rightarrow> 'a run" where
  "saveData fault v = attempt fault CreateTemp make_temp keep (fill_and_rename fault v finished)"

text \<open>\<open>writeSubscriptions\<close> goes on after the rename: it sets the mode and syncs the directory.\<close>

definition writeSubscriptions :: "stage option \<Rightarrow> 'a \<Rightarrow> 'a dir \<Rightarrow> 'a run" where
  "writeSubscriptions fault v =
     attempt fault MakeDir keep keep
     (attempt fault CreateTemp make_temp keep
     (fill_and_rename fault v
     (attempt fault ChmodTarget keep keep
     (attempt fault SyncDir keep keep finished))))"

definition no_temp :: "'a dir \<Rightarrow> bool" where
  "no_temp d = (d_temp d = None)"

text \<open>Stages at which the new content is already in place.\<close>

definition after_rename :: "stage \<Rightarrow> bool" where
  "after_rename s = (s = ChmodTarget \<or> s = SyncDir)"

text \<open>
  The contract of such a routine: it leaves no temporary file; the target holds the new
  content after a success, the old content or the new one after a failure, by the stage
  that failed; and no state on the way holds anything else.
\<close>

locale atomic_save =
  fixes save :: "stage option \<Rightarrow> 'a \<Rightarrow> 'a dir \<Rightarrow> 'a run"
  assumes saved: "\<lbrakk>no_temp d; save fault v d = (e, d', visited)\<rbrakk> \<Longrightarrow>
      no_temp d' \<and> (e = None \<or> e = fault) \<and>
      d_target d' = (if e = None \<or> after_rename (the e) then Some v else d_target d)"
    and crash: "\<lbrakk>no_temp d; save fault v d = (e, d', visited); c \<in> set visited\<rbrakk> \<Longrightarrow>
      d_target c = d_target d \<or> d_target c = Some v"
    and no_fault: "\<lbrakk>no_temp d; save None v d = (e, d', visited)\<rbrakk> \<Longrightarrow> e = None"
begin

lemma success: "\<lbrakk>no_temp d; save fault v d = (None, d', visited)\<rbrakk> \<Longrightarrow> d_target d' = Some v"
  using saved by fastforce

lemma failure: "\<lbrakk>no_temp d; save fault v d = (Some s, d', visited); \<not> after_rename s\<rbrakk> \<Longrightarrow> d_target d' = d_target d"
  using saved by fastforce

lemma clean: "\<lbrakk>no_temp d; save fault v d = (e, d', visited)\<rbrakk> \<Longrightarrow> no_temp d'"
  using saved by blast

end

lemmas dir_defs = attempt_def finished_def keep_def make_temp_def fill_temp_def drop_temp_def publish_def
  fill_and_rename_def no_temp_def after_rename_def

interpretation peers_file: atomic_save saveData
proof unfold_locales
  fix d d' :: "'a dir" and fault v e visited
  assume d: "no_temp d" and s: "saveData fault v d = (e, d', visited)"
  show "no_temp d' \<and> (e = None \<or> e = fault) \<and>
      d_target d' = (if e = None \<or> after_rename (the e) then Some v else d_target d)"
    using d s by (auto simp: saveData_def dir_defs split: if_splits)
  show "d_target c = d_target d \<or> d_target c = Some v" if "c \<in> set visited" for c
    using d s that by (auto simp: saveData_def dir_defs split: if_splits)
next
  fix d d' :: "'a dir" and v e visited
  show "saveData None v d = (e, d', visited) \<Longrightarrow> e = None" by (auto simp: saveData_def dir_defs)
qed

interpretation atomic_file: atomic_save atomicWriteFile
proof unfold_locales
  fix d d' :: "'a dir" and fault v e visited
  assume d: "no_temp d" and s: "atomicWriteFile fault v d = (e, d', visited)"
  show "no_temp d' \<and> (e = None \<or> e = fault) \<and>
      d_target d' = (if e = None \<or> after_rename (the e) then Some v else d_target d)"
    using d s by (auto simp: atomicWriteFile_def dir_defs split: if_splits)
  show "d_target c = d_target d \<or> d_target c = Some v" if "c \<in> set visited" for c
    using d s that by (auto simp: atomicWriteFile_def dir_defs split: if_splits)
next
  fix d d' :: "'a dir" and v e visited
  show "atomicWriteFile None v d = (e, d', visited) \<Longrightarrow> e = None" by (auto simp: atomicWriteFile_def dir_defs)
qed

interpretation subscriptions_file: atomic_save writeSubscriptions
proof unfold_locales
  fix d d' :: "'a dir" and fault v e visited
  assume d: "no_temp d" and s: "writeSubscriptions fault v d = (e, d', visited)"
  show "no_temp d' \<and> (e = None \<or> e = fault) \<and>
      d_target d' = (if e = None \<or> after_rename (the e) then Some v else d_target d)"
    using d s by (auto simp: writeSubscriptions_def dir_defs split: if_splits)
  show "d_target c = d_target d \<or> d_target c = Some v" if "c \<in> set visited" for c
    using d s that by (auto simp: writeSubscriptions_def dir_defs split: if_splits)
next
  fix d d' :: "'a dir" and v e visited
  show "writeSubscriptions None v d = (e, d', visited) \<Longrightarrow> e = None"
    by (auto simp: writeSubscriptions_def dir_defs)
qed

lemma saveData_fails_before_rename: "saveData fault v d = (Some s, d', visited) \<Longrightarrow> \<not> after_rename s"
  by (auto simp: saveData_def dir_defs split: if_splits)



end
