(* ===== verification/PeerStore.thy ===== *)
theory PeerStore
  imports Identity AtomicFile
begin

text \<open>
  The store of paired peers (\<open>pkg/identity/peers.go\<close>): validation of records, loading
  with the migration of the legacy format, adding, removing and looking up.  The store
  keeps the records in memory and in a file; the file is the directory of \<open>AtomicFile\<close>
  and each write takes the stage at which it fails, if any.
\<close>

record Peer =
  peer_Name :: string
  peer_PublicKey :: string
  peer_PairedAt :: time

definition peer_Fingerprint :: "Peer \<Rightarrow> string" where
  "peer_Fingerprint p = Fingerprint (peer_PublicKey p)"

record legacyPeer =
  lp_Name :: string
  lp_PublicKey :: string
  lp_PairedAt :: time
  lp_TLSCertPEM :: string
  lp_CACertPEM :: string

text \<open>What the file holds: records of the legacy format, of which the current one is a part.\<close>

type_synonym peer_file = "legacyPeer list"

definition plain_record :: "Peer \<Rightarrow> legacyPeer" where
  "plain_record p = \<lparr>lp_Name = peer_Name p, lp_PublicKey = peer_PublicKey p, lp_PairedAt = peer_PairedAt p,
     lp_TLSCertPEM = [], lp_CACertPEM = []\<rparr>"

definition of_legacy :: "legacyPeer \<Rightarrow> Peer" where
  "of_legacy p = \<lparr>peer_Name = lp_Name p, peer_PublicKey = lp_PublicKey p, peer_PairedAt = lp_PairedAt p\<rparr>"

lemma of_legacy_plain [simp]: "of_legacy (plain_record p) = p"
  by (simp add: of_legacy_def plain_record_def)

record peer_store =
  ps_peers :: "Peer list"
  ps_dir :: "peer_file dir"

datatype peer_error = InvalidPeer identity_error | InvalidRecord nat identity_error
  | DuplicateName nat nat | DuplicateKey nat nat | PeerConflict | PeerNotFound
  | SaveFailed stage | BackupFailed | LoadFailed

subsection \<open>Validation\<close>

definition validatePeer :: "Peer \<Rightarrow> identity_error option" where
  "validatePeer peer =
     (case validateStoredName (peer_Name peer) of
        Some err \<Rightarrow> Some err
      | None \<Rightarrow> (case ParsePublicKey (peer_PublicKey peer) of Inl err \<Rightarrow> Some err | Inr _ \<Rightarrow> None))"

text \<open>The loop of \<open>validatePeerRecords\<close>: the maps remember the index of each name and key.\<close>

fun validate_from :: "nat \<Rightarrow> (string, nat) fmap \<Rightarrow> (string, nat) fmap \<Rightarrow> Peer list \<Rightarrow> peer_error option" where
  "validate_from i names keys [] = None"
| "validate_from i names keys (peer # peers) =
     (case validatePeer peer of
        Some err \<Rightarrow> Some (InvalidRecord i err)
      | None \<Rightarrow>
          (case fmlookup names (peer_Name peer) of
             Some previous \<Rightarrow> Some (DuplicateName i previous)
           | None \<Rightarrow>
               (case fmlookup keys (peer_PublicKey peer) of
                  Some previous \<Rightarrow> Some (DuplicateKey i previous)
                | None \<Rightarrow>
                    validate_from (Suc i) (fmupd (peer_Name peer) i names) (fmupd (peer_PublicKey peer) i keys) peers)))"

definition validatePeerRecords :: "Peer list \<Rightarrow> peer_error option" where
  "validatePeerRecords peers = validate_from 0 fmempty fmempty peers"

text \<open>The specification of a well-formed list of peers.\<close>

definition peers_ok :: "Peer list \<Rightarrow> bool" where
  "peers_ok ps = (list_all (\<lambda>p. validatePeer p = None) ps \<and>
     distinct (map peer_Name ps) \<and> distinct (map peer_PublicKey ps))"

lemma peers_ok_Nil [simp]: "peers_ok []"
  by (simp add: peers_ok_def)

lemma validate_from_iff:
  "(validate_from i names keys ps = None) =
     (peers_ok ps \<and> (\<forall>p\<in>set ps. \<not> go_has names (peer_Name p) \<and> \<not> go_has keys (peer_PublicKey p)))"
proof (induction ps arbitrary: i names keys)
  case (Cons p ps)
  show ?case
    using Cons.IH [of "Suc i" "fmupd (peer_Name p) i names" "fmupd (peer_PublicKey p) i keys"]
    by (auto simp: peers_ok_def go_has_def split: option.splits)
qed (simp add: peers_ok_def)

lemma validate_records_iff: "(validatePeerRecords ps = None) = peers_ok ps"
  by (simp add: validatePeerRecords_def validate_from_iff)

subsection \<open>Loading\<close>

text \<open>
  \<open>backup\<close> is the outcome of \<open>backupPeerStore\<close>; an existing backup counts as a success.
\<close>

definition loadPeerStore :: "peer_file stored \<Rightarrow> bool \<Rightarrow> stage option \<Rightarrow> peer_error + peer_store" where
  "loadPeerStore f backup fault =
     (case f of
        NotExist \<Rightarrow> Inr \<lparr>ps_peers = [], ps_dir = \<lparr>d_target = None, d_temp = None\<rparr>\<rparr>
      | ReadFailed \<Rightarrow> Inl LoadFailed
      | Unparsable \<Rightarrow> Inl LoadFailed
      | Stored recs \<Rightarrow>
          (let peers = map of_legacy recs;
               needsMigration = list_ex (\<lambda>p. lp_TLSCertPEM p \<noteq> [] \<or> lp_CACertPEM p \<noteq> []) recs;
               disk = \<lparr>d_target = Some recs, d_temp = None\<rparr>
           in case validatePeerRecords peers of
                Some err \<Rightarrow> Inl err
              | None \<Rightarrow>
                  if needsMigration then
                    (if \<not> backup then Inl BackupFailed
                     else case saveData fault (map plain_record peers) disk of
                       (Some s, _) \<Rightarrow> Inl (SaveFailed s)
                     | (None, disk', _) \<Rightarrow> Inr \<lparr>ps_peers = peers, ps_dir = disk'\<rparr>)
                  else Inr \<lparr>ps_peers = peers, ps_dir = disk\<rparr>))"

text \<open>\<open>ValidateStoredPeers\<close> counts the records without writing.\<close>

definition ValidateStoredPeers :: "peer_file stored \<Rightarrow> peer_error + nat" where
  "ValidateStoredPeers f =
     (case f of
        NotExist \<Rightarrow> Inr 0
      | ReadFailed \<Rightarrow> Inl LoadFailed
      | Unparsable \<Rightarrow> Inl LoadFailed
      | Stored recs \<Rightarrow>
          (case validatePeerRecords (map of_legacy recs) of Some err \<Rightarrow> Inl err | None \<Rightarrow> Inr (length recs)))"

subsection \<open>Operations\<close>

definition peer_save :: "stage option \<Rightarrow> peer_store \<Rightarrow> Peer list \<Rightarrow> peer_error option \<times> peer_store" where
  "peer_save fault ps updated =
     (case saveData fault (map plain_record updated) (ps_dir ps) of
        (Some s, disk, _) \<Rightarrow> (Some (SaveFailed s), ps\<lparr>ps_dir := disk\<rparr>)
      | (None, disk, _) \<Rightarrow> (None, \<lparr>ps_peers = updated, ps_dir = disk\<rparr>))"

fun first_conflict :: "Peer \<Rightarrow> Peer list \<Rightarrow> peer_error option" where
  "first_conflict peer [] = None"
| "first_conflict peer (existing # rest) =
     (if peer_PublicKey existing = peer_PublicKey peer then Some PeerConflict
      else if peer_Name existing = peer_Name peer then Some PeerConflict
      else first_conflict peer rest)"

definition peer_Add :: "stage option \<Rightarrow> Peer \<Rightarrow> peer_store \<Rightarrow> peer_error option \<times> peer_store" where
  "peer_Add fault peer0 ps =
     (case NormalizeName (peer_Name peer0) of
        Inl err \<Rightarrow> (Some (InvalidPeer err), ps)
      | Inr normalizedName \<Rightarrow>
          (let peer = peer0\<lparr>peer_Name := normalizedName\<rparr> in
           case validatePeer peer of
             Some err \<Rightarrow> (Some (InvalidPeer err), ps)
           | None \<Rightarrow>
               (case first_conflict peer (ps_peers ps) of
                  Some err \<Rightarrow> (Some err, ps)
                | None \<Rightarrow> peer_save fault ps (ps_peers ps @ [peer]))))"

definition peer_Remove :: "stage option \<Rightarrow> string \<Rightarrow> peer_store \<Rightarrow> peer_error option \<times> peer_store" where
  "peer_Remove fault name ps =
     (if list_ex (\<lambda>p. peer_Name p = name) (ps_peers ps)
      then peer_save fault ps (remove_first (\<lambda>p. peer_Name p = name) (ps_peers ps))
      else (Some PeerNotFound, ps))"

definition peer_Get :: "string \<Rightarrow> peer_store \<Rightarrow> Peer option" where
  "peer_Get name ps = find (\<lambda>p. peer_Name p = name) (ps_peers ps)"

definition GetByPublicKey :: "string \<Rightarrow> peer_store \<Rightarrow> Peer option" where
  "GetByPublicKey publicKey ps = find (\<lambda>p. peer_PublicKey p = publicKey) (ps_peers ps)"

definition peer_List :: "peer_store \<Rightarrow> Peer list" where
  "peer_List ps = ps_peers ps"

subsection \<open>The invariant\<close>

text \<open>
  The records are well formed, no temporary file is left, and a restart would load the
  records that are in memory.
\<close>

definition peer_inv :: "peer_store \<Rightarrow> bool" where
  "peer_inv ps = (peers_ok (ps_peers ps) \<and> no_temp (ps_dir ps) \<and>
     (case d_target (ps_dir ps) of None \<Rightarrow> ps_peers ps = [] | Some recs \<Rightarrow> recs = map plain_record (ps_peers ps)))"

lemma peer_save_inv:
  assumes "peer_inv ps" and "peers_ok updated"
  shows "peer_inv (snd (peer_save fault ps updated))"
proof -
  obtain e disk visited where s: "saveData fault (map plain_record updated) (ps_dir ps) = (e, disk, visited)"
    by (cases "saveData fault (map plain_record updated) (ps_dir ps)")
  have nt: "no_temp (ps_dir ps)" using assms(1) by (simp add: peer_inv_def)
  show ?thesis
  proof (cases e)
    case None
    then show ?thesis
      using assms(2) peers_file.success [OF nt s [unfolded None]] peers_file.clean [OF nt s]
      by (simp add: peer_save_def s peer_inv_def)
  next
    case (Some f)
    have "d_target disk = d_target (ps_dir ps)"
      using peers_file.failure [OF nt s [unfolded Some]] saveData_fails_before_rename [OF s [unfolded Some]] .
    then show ?thesis
      using assms(1) Some peers_file.clean [OF nt s]
      by (simp add: peer_save_def s peer_inv_def split: option.splits)
  qed
qed

lemma first_conflict_iff:
  "(first_conflict peer ps = None) =
     (peer_PublicKey peer \<notin> peer_PublicKey ` set ps \<and> peer_Name peer \<notin> peer_Name ` set ps)"
  by (induction ps) auto

lemma peers_ok_add:
  "\<lbrakk>peers_ok ps; validatePeer p = None; first_conflict p ps = None\<rbrakk> \<Longrightarrow> peers_ok (ps @ [p])"
  by (auto simp: peers_ok_def first_conflict_iff)

lemma peers_ok_remove: "peers_ok ps \<Longrightarrow> peers_ok (remove_first P ps)"
  unfolding peers_ok_def
  using remove_first_subset [of P ps] remove_first_distinct_map by (fastforce simp: list_all_iff)

datatype peer_event = AddPeer "stage option" Peer | RemovePeer "stage option" string

fun peer_step :: "peer_store \<Rightarrow> peer_event \<Rightarrow> peer_store" where
  "peer_step ps (AddPeer fault p) = snd (peer_Add fault p ps)"
| "peer_step ps (RemovePeer fault name) = snd (peer_Remove fault name ps)"

definition empty_peers :: peer_store where
  "empty_peers = \<lparr>ps_peers = [], ps_dir = \<lparr>d_target = None, d_temp = None\<rparr>\<rparr>"

lemma peer_inv_ok: "peer_inv ps \<Longrightarrow> peers_ok (ps_peers ps)"
  by (simp add: peer_inv_def)

lemma peer_Add_inv: "peer_inv ps \<Longrightarrow> peer_inv (snd (peer_Add fault p ps))"
  by (auto simp: peer_Add_def Let_def
      intro!: peer_save_inv peers_ok_add peer_inv_ok split: sum.splits option.splits)

lemma peer_Remove_inv: "peer_inv ps \<Longrightarrow> peer_inv (snd (peer_Remove fault name ps))"
  by (auto simp: peer_Remove_def intro!: peer_save_inv peers_ok_remove peer_inv_ok)

interpretation peers: component empty_peers peer_step peer_inv
proof unfold_locales
  show "peer_inv empty_peers" by (simp add: peer_inv_def empty_peers_def peers_ok_def no_temp_def)
  show "peer_inv (peer_step s e)" if "peer_inv s" for s e
    using that by (cases e) (auto intro: peer_Add_inv peer_Remove_inv)
qed

lemma peer_save_result:
  "peer_save fault ps updated = (e, ps') \<Longrightarrow> ps_peers ps' = (if e = None then updated else ps_peers ps)"
  by (auto simp: peer_save_def split: prod.splits option.splits)

lemma peers_ok_unique:
  "\<lbrakk>peers_ok ps; p \<in> set ps\<rbrakk> \<Longrightarrow>
     find (\<lambda>q. peer_Name q = peer_Name p) ps = Some p \<and> find (\<lambda>q. peer_PublicKey q = peer_PublicKey p) ps = Some p"
  by (simp add: peers_ok_def find_unique)

lemma no_migration: "\<not> list_ex (\<lambda>p. lp_TLSCertPEM p \<noteq> [] \<or> lp_CACertPEM p \<noteq> []) (map plain_record ps)"
  by (simp add: list_ex_iff plain_record_def)

lemma load_plain:
  "peers_ok ps \<Longrightarrow> loadPeerStore (Stored (map plain_record ps)) backup fault =
     Inr \<lparr>ps_peers = ps, ps_dir = \<lparr>d_target = Some (map plain_record ps), d_temp = None\<rparr>\<rparr>"
proof -
  assume ok: "peers_ok ps"
  have m: "map of_legacy (map plain_record ps) = ps" by (simp add: comp_def)
  from ok have "validatePeerRecords ps = None" by (simp add: validate_records_iff)
  then show ?thesis
    unfolding loadPeerStore_def stored.case Let_def m using no_migration [of ps] by simp
qed

lemma find_snoc_new: "\<lbrakk>\<not> P x\<rbrakk> \<Longrightarrow> find P (xs @ [x]) = find P xs"
  by (induction xs) auto

lemma find_snoc_hit: "\<lbrakk>P x; \<And>y. y \<in> set xs \<Longrightarrow> \<not> P y\<rbrakk> \<Longrightarrow> find P (xs @ [x]) = Some x"
  by (induction xs) auto

lemma find_without:
  "\<lbrakk>distinct (map f xs); x \<in> set xs\<rbrakk> \<Longrightarrow>
     find (\<lambda>y. f y = k) (filter (\<lambda>y. y \<noteq> x) xs) = (if k = f x then None else find (\<lambda>y. f y = k) xs)"
proof (induction xs)
  case (Cons y ys)
  show ?case
  proof (cases "y = x")
    case True
    with Cons.prems have "x \<notin> set ys" "f x \<notin> f ` set ys" by auto
    then have "filter (\<lambda>y. y \<noteq> x) ys = ys" "find (\<lambda>y. f y = f x) ys = None"
      by (auto simp: filter_id_conv find_None_iff image_iff)
    with True show ?thesis by auto
  next
    case False
    with Cons have "x \<in> set ys" "f y \<noteq> f x" by auto
    with False Cons show ?thesis by auto
  qed
qed simp

lemma remove_first_as_filter:
  "\<lbrakk>distinct (map f xs); find (\<lambda>y. f y = k) xs = Some x\<rbrakk> \<Longrightarrow>
     remove_first (\<lambda>y. f y = k) xs = filter (\<lambda>y. y \<noteq> x) xs"
proof (induction xs)
  case (Cons y ys)
  show ?case
  proof (cases "f y = k")
    case True
    with Cons.prems have "y = x" "y \<notin> set ys" by auto
    then have "filter (\<lambda>z. z \<noteq> x) ys = ys" by (auto simp: filter_id_conv)
    with True \<open>y = x\<close> show ?thesis by simp
  next
    case False
    with Cons.prems have "find (\<lambda>y. f y = k) ys = Some x" by simp
    moreover from this have "f x = k" by (auto dest: find_SomeD)
    ultimately show ?thesis using False Cons by auto
  qed
qed simp

lemma add_lookups:
  assumes "peer_Add fault p ps = (e, ps')"
  shows "case e of
      None \<Rightarrow> \<exists>n. NormalizeName (peer_Name p) = Inr n \<and>
        (\<forall>m. peer_Get m ps' = (if m = n then Some (p\<lparr>peer_Name := n\<rparr>) else peer_Get m ps)) \<and>
        (\<forall>k. GetByPublicKey k ps' = (if k = peer_PublicKey p then Some (p\<lparr>peer_Name := n\<rparr>) else GetByPublicKey k ps))
    | Some _ \<Rightarrow> ps_peers ps' = ps_peers ps"
proof (cases e)
  case None
  with assms obtain n where n: "NormalizeName (peer_Name p) = Inr n"
    and c: "first_conflict (p\<lparr>peer_Name := n\<rparr>) (ps_peers ps) = None"
    and s: "peer_save fault ps (ps_peers ps @ [p\<lparr>peer_Name := n\<rparr>]) = (None, ps')"
    by (auto simp: peer_Add_def Let_def split: sum.splits option.splits)
  from peer_save_result [OF s] have ps': "ps_peers ps' = ps_peers ps @ [p\<lparr>peer_Name := n\<rparr>]" by simp
  have "n \<notin> peer_Name ` set (ps_peers ps)" "peer_PublicKey p \<notin> peer_PublicKey ` set (ps_peers ps)"
    using c by (simp_all add: first_conflict_iff)
  then have "peer_Get m ps' = (if m = n then Some (p\<lparr>peer_Name := n\<rparr>) else peer_Get m ps)"
    and "GetByPublicKey k ps' = (if k = peer_PublicKey p then Some (p\<lparr>peer_Name := n\<rparr>) else GetByPublicKey k ps)" for m k
    by (auto simp: peer_Get_def GetByPublicKey_def ps' image_iff intro!: find_snoc_new find_snoc_hit)
  with None n show ?thesis by auto
next
  case (Some x)
  with assms peer_save_result show ?thesis
    by (auto simp: peer_Add_def Let_def split: sum.splits option.splits)
qed

lemma remove_lookups:
  assumes ok: "peers_ok (ps_peers ps)" and "peer_Remove fault name ps = (e, ps')"
  shows "case e of
      None \<Rightarrow> \<exists>q. peer_Get name ps = Some q \<and>
        (\<forall>m. peer_Get m ps' = (if m = name then None else peer_Get m ps)) \<and>
        (\<forall>k. GetByPublicKey k ps' = (if k = peer_PublicKey q then None else GetByPublicKey k ps))
    | Some _ \<Rightarrow> ps_peers ps' = ps_peers ps"
proof (cases e)
  case None
  with assms have s: "peer_save fault ps (remove_first (\<lambda>p. peer_Name p = name) (ps_peers ps)) = (None, ps')"
    and has: "list_ex (\<lambda>p. peer_Name p = name) (ps_peers ps)"
    by (auto simp: peer_Remove_def split: if_splits)
  from has obtain q where q: "find (\<lambda>p. peer_Name p = name) (ps_peers ps) = Some q"
    by (cases "find (\<lambda>p. peer_Name p = name) (ps_peers ps)") (auto simp: list_ex_iff find_None_iff)
  then have q_in: "q \<in> set (ps_peers ps)" "peer_Name q = name" by (auto dest: find_SomeD)
  have d: "distinct (map peer_Name (ps_peers ps))" "distinct (map peer_PublicKey (ps_peers ps))"
    using ok by (simp_all add: peers_ok_def)
  have ps': "ps_peers ps' = filter (\<lambda>p. p \<noteq> q) (ps_peers ps)"
    using peer_save_result [OF s] remove_first_as_filter [OF d(1) q] by simp
  have "peer_Get m ps' = (if m = name then None else peer_Get m ps)"
    and "GetByPublicKey k ps' = (if k = peer_PublicKey q then None else GetByPublicKey k ps)" for m k
    using find_without [OF d(1) q_in(1), of m] find_without [OF d(2) q_in(1), of k] q_in(2)
    by (simp_all add: peer_Get_def GetByPublicKey_def ps')
  with None q show ?thesis by (auto simp: peer_Get_def)
next
  case (Some x)
  with assms peer_save_result show ?thesis by (auto simp: peer_Remove_def split: if_splits)
qed

text \<open>
  C34. The pairings survive a restart.  After any sequence of additions and removals, with
  any of their writes failing at any stage, every record is valid, no name and no key
  occurs twice, and loading the file gives back exactly the peers in memory.
\<close>

theorem peers_survive_restart:
  "let ps = foldl peer_step empty_peers es;
       f = (case d_target (ps_dir ps) of None \<Rightarrow> NotExist | Some recs \<Rightarrow> Stored recs)
   in validatePeerRecords (ps_peers ps) = None \<and>
      map_sum id ps_peers (loadPeerStore f backup fault) = Inr (ps_peers ps)"
proof -
  let ?ps = "foldl peer_step empty_peers es"
  have inv: "peer_inv ?ps" by (rule peers.run_inv)
  show ?thesis
  proof (cases "d_target (ps_dir ?ps)")
    case None
    with inv show ?thesis by (simp add: Let_def peer_inv_def validate_records_iff loadPeerStore_def)
  next
    case (Some recs)
    with inv have "recs = map plain_record (ps_peers ?ps)" "peers_ok (ps_peers ?ps)" by (simp_all add: peer_inv_def)
    with Some show ?thesis by (simp add: Let_def validate_records_iff load_plain)
  qed
qed

text \<open>
  Adding and removing a peer are exact on every store the operations can reach.  A
  successful addition makes the peer the answer to a lookup of its normalised name and of
  its key and changes no other lookup; a successful removal of a peer makes both lookups
  fail and changes no other; an operation that reports an error leaves every lookup as it
  was.
\<close>

theorem peer_add_remove_exact:
  assumes ps: "ps = foldl peer_step empty_peers es"
    and add: "peer_Add fault p ps = (e, ps')" and rem: "peer_Remove fault' name ps = (e', ps'')"
  shows "(case e of
      None \<Rightarrow> \<exists>n. NormalizeName (peer_Name p) = Inr n \<and>
        (\<forall>m. peer_Get m ps' = (if m = n then Some (p\<lparr>peer_Name := n\<rparr>) else peer_Get m ps)) \<and>
        (\<forall>k. GetByPublicKey k ps' = (if k = peer_PublicKey p then Some (p\<lparr>peer_Name := n\<rparr>) else GetByPublicKey k ps))
    | Some _ \<Rightarrow> ps_peers ps' = ps_peers ps) \<and>
    (case e' of
      None \<Rightarrow> \<exists>q. peer_Get name ps = Some q \<and>
        (\<forall>m. peer_Get m ps'' = (if m = name then None else peer_Get m ps)) \<and>
        (\<forall>k. GetByPublicKey k ps'' = (if k = peer_PublicKey q then None else GetByPublicKey k ps))
    | Some _ \<Rightarrow> ps_peers ps'' = ps_peers ps)"
proof (rule conjI)
  show "case e of
      None \<Rightarrow> \<exists>n. NormalizeName (peer_Name p) = Inr n \<and>
        (\<forall>m. peer_Get m ps' = (if m = n then Some (p\<lparr>peer_Name := n\<rparr>) else peer_Get m ps)) \<and>
        (\<forall>k. GetByPublicKey k ps' = (if k = peer_PublicKey p then Some (p\<lparr>peer_Name := n\<rparr>) else GetByPublicKey k ps))
    | Some _ \<Rightarrow> ps_peers ps' = ps_peers ps"
    using add by (rule add_lookups)
  show "case e' of
      None \<Rightarrow> \<exists>q. peer_Get name ps = Some q \<and>
        (\<forall>m. peer_Get m ps'' = (if m = name then None else peer_Get m ps)) \<and>
        (\<forall>k. GetByPublicKey k ps'' = (if k = peer_PublicKey q then None else GetByPublicKey k ps))
    | Some _ \<Rightarrow> ps_peers ps'' = ps_peers ps"
    using peer_inv_ok [OF peers.run_inv] rem unfolding ps by (rule remove_lookups)
qed

definition demo_peer :: Peer where
  "demo_peer = \<lparr>peer_Name = ''hub'', peer_PublicKey = b64_encode demo_seed, peer_PairedAt = 1\<rparr>"

lemma demo_peer_added:
  "peer_Add None demo_peer empty_peers =
     (None, \<lparr>ps_peers = [demo_peer], ps_dir = \<lparr>d_target = Some [plain_record demo_peer], d_temp = None\<rparr>\<rparr>)"
  and demo_peer_name: "NormalizeName (peer_Name demo_peer) = Inr ''hub''"
  and demo_peer_key: "ParsePublicKey (peer_PublicKey demo_peer) = Inr demo_seed"
proof -
  have h: "NormalizeName ''hub'' = Inr ''hub''" by code_simp
  then show n: "NormalizeName (peer_Name demo_peer) = Inr ''hub''" by (simp only: demo_peer_def Peer.simps)
  from h have "validateStoredName ''hub'' = None" by (simp only: stored_name_normalized)
  moreover have "ParsePublicKey (b64_encode demo_seed) = Inr demo_seed"
    unfolding parse_key_iff by (simp add: demo_seed_def)
  ultimately have v: "validatePeer demo_peer = None" by (simp only: validatePeer_def demo_peer_def Peer.simps option.case sum.case)
  show "ParsePublicKey (peer_PublicKey demo_peer) = Inr demo_seed"
    unfolding parse_key_iff by (simp add: demo_seed_def demo_peer_def)
  have m: "demo_peer\<lparr>peer_Name := ''hub''\<rparr> = demo_peer" by (simp add: demo_peer_def)
  show "peer_Add None demo_peer empty_peers =
     (None, \<lparr>ps_peers = [demo_peer], ps_dir = \<lparr>d_target = Some [plain_record demo_peer], d_temp = None\<rparr>\<rparr>)"
    by (simp add: peer_Add_def n m v Let_def empty_peers_def peer_save_def saveData_def dir_defs)
qed

theorem peer_add_remove_exact_witness:
  "peer_Get ''hub'' (snd (peer_Add None demo_peer empty_peers)) = Some demo_peer \<and>
   fst (peer_Remove None ''hub'' empty_peers) = Some PeerNotFound"
proof -
  obtain e ps' where a: "peer_Add None demo_peer empty_peers = (e, ps')" by (cases "peer_Add None demo_peer empty_peers")
  have r: "peer_Remove None ''hub'' empty_peers = (Some PeerNotFound, empty_peers)" by code_simp
  have m: "demo_peer\<lparr>peer_Name := ''hub''\<rparr> = demo_peer" by (simp add: demo_peer_def)
  from a have e: "e = None" by (simp add: demo_peer_added)
  have "empty_peers = foldl peer_step empty_peers []" by simp
  from peer_add_remove_exact [OF this a r] show ?thesis unfolding e a r by (simp add: demo_peer_name m)
qed

end
