(* ===== verification/PeerManager.thy ===== *)
theory PeerManager
  imports Dispatch SessionManager PeerStore Views
begin

text \<open>
  The registry of hosts on a hub or an agent (\<open>pkg/peer/manager.go\<close>): the known hosts with
  their sessions and their current connection, the generations handed out, and the
  subscribers to state events.  A connection is a number into \<open>m_conns\<close>, the heap of
  connection objects, so two hosts or a host and a goroutine may refer to the same one; the
  peer store is shared with the pairing handler, which is why it is part of the state.  The
  closing of a replaced connection, which the code does right after it releases the lock,
  belongs to the same operation here.  A \<open>nil\<close> session or snapshot is \<open>None\<close>.
\<close>

definition OfflineTimeout :: duration where "OfflineTimeout = 5 * minute"

record Message =
  msg_type :: string
  msg_payload :: string

type_synonym connection = "Message peer_connection"

record 's HostState =
  hst_ID :: string
  hst_Name :: string
  hst_Version :: string
  hst_PublicKey :: string
  hst_Sessions :: "TSession option list"
  hst_Stats :: "'s option"
  hst_Activity :: "activity_snapshot option list"
  hst_Connected :: bool
  hst_LastSeen :: time
  hst_Conn :: "nat option"
  hst_Generation :: u64
  hst_Capabilities :: "string list"
  hst_AgentInstance :: string

record 's manager =
  m_hosts :: "(string, 's HostState) fmap"
  m_localID :: string
  m_localName :: string
  m_hasLocal :: bool
  m_peerStore :: "peer_store option"
  m_localMgr :: "session_manager option"
  m_generations :: "(string, u64) fmap"
  m_subs :: "StateEvent fanout"
  m_conns :: "(nat, connection) fmap"
  m_started :: "nat fset"

text \<open>A host as the composite literals that leave most fields out build it.\<close>

definition new_host :: "string \<Rightarrow> string \<Rightarrow> string \<Rightarrow> time \<Rightarrow> 's HostState" where
  "new_host hostID name publicKey now =
     \<lparr>hst_ID = hostID, hst_Name = name, hst_Version = [], hst_PublicKey = publicKey, hst_Sessions = [],
      hst_Stats = None, hst_Activity = [], hst_Connected = True, hst_LastSeen = now, hst_Conn = None,
      hst_Generation = 0, hst_Capabilities = [], hst_AgentInstance = []\<rparr>"

definition newManager :: "time \<Rightarrow> string \<Rightarrow> identity \<Rightarrow> peer_store option \<Rightarrow> session_manager option \<Rightarrow> bool \<Rightarrow> 's manager" where
  "newManager now version ident peerStore localMgr hasLocal =
     (let localID = Fingerprint (id_PublicKey ident) in
      \<lparr>m_hosts = (if hasLocal
          then fmupd localID ((new_host localID (id_Name ident) (id_PublicKey ident) now)\<lparr>hst_Version := version\<rparr>) fmempty
          else fmempty),
       m_localID = localID, m_localName = id_Name ident, m_hasLocal = hasLocal, m_peerStore = peerStore,
       m_localMgr = localMgr, m_generations = fmempty, m_subs = fan_init, m_conns = fmempty, m_started = {||}\<rparr>)"

definition NewHubManager :: "time \<Rightarrow> string \<Rightarrow> identity \<Rightarrow> peer_store option \<Rightarrow> 's manager" where
  "NewHubManager now version ident peerStore = newManager now version ident peerStore None False"

subsection \<open>Subscribers\<close>

definition peers_Subscribe :: "'s manager \<Rightarrow> 's manager \<times> nat" where
  "peers_Subscribe m = (case fan_subscribe 64 (m_subs m) of (f, i) \<Rightarrow> (m\<lparr>m_subs := f\<rparr>, i))"

definition peers_Unsubscribe :: "nat \<Rightarrow> 's manager \<Rightarrow> 's manager" where
  "peers_Unsubscribe i m = m\<lparr>m_subs := fan_unsubscribe i (m_subs m)\<rparr>"

definition peers_broadcast :: "StateEvent \<Rightarrow> 's manager \<Rightarrow> 's manager" where
  "peers_broadcast evt m = m\<lparr>m_subs := fan_broadcast evt (m_subs m)\<rparr>"

definition host_event :: "string \<Rightarrow> string \<Rightarrow> string \<Rightarrow> StateEvent" where
  "host_event kind host name = \<lparr>se_type = kind, se_session = [], se_host = host, se_host_name = name\<rparr>"

subsection \<open>Connections\<close>

definition close_conn :: "error_code \<Rightarrow> nat option \<Rightarrow> 's manager \<Rightarrow> 's manager" where
  "close_conn code c m =
     (case c of
        None \<Rightarrow> m
      | Some i \<Rightarrow> (case fmlookup (m_conns m) i of
            None \<Rightarrow> m | Some k \<Rightarrow> m\<lparr>m_conns := fmupd i (CloseWith code k) (m_conns m)\<rparr>))"

definition ReserveGeneration :: "string \<Rightarrow> 's manager \<Rightarrow> u64 \<times> 's manager" where
  "ReserveGeneration hostID m =
     (let g = go_get 0 (m_generations m) hostID + 1
      in (g, m\<lparr>m_generations := fmupd hostID g (m_generations m)\<rparr>))"

text \<open>
  \<open>RegisterPeer\<close> is only called with a \<open>nil\<close> connection.  The capabilities of an activated
  host are the keys of the connection's set, in any order.
\<close>

definition RegisterPeer :: "time \<Rightarrow> string \<Rightarrow> string \<Rightarrow> string \<Rightarrow> nat option \<Rightarrow> 's manager \<Rightarrow> 's manager" where
  "RegisterPeer now hostID name publicKey conn m =
     peers_broadcast (host_event ''peer-connected'' hostID name)
       (m\<lparr>m_hosts := fmupd hostID ((new_host hostID name publicKey now)\<lparr>hst_Conn := conn\<rparr>) (m_hosts m)\<rparr>)"

definition authorized :: "string \<Rightarrow> 's manager \<Rightarrow> bool" where
  "authorized publicKey m =
     (case m_peerStore m of None \<Rightarrow> False | Some ps \<Rightarrow> GetByPublicKey publicKey ps \<noteq> None)"

definition supersede_code :: "connection option \<Rightarrow> connection \<Rightarrow> error_code" where
  "supersede_code previous conn =
     (case previous of
        None \<Rightarrow> ErrorPeerOffline
      | Some k \<Rightarrow> if pc_AgentInstance k \<noteq> [] \<and> pc_AgentInstance k \<noteq> pc_AgentInstance conn
                  then ErrorExecutionUnknown else ErrorPeerOffline)"

definition activatePeerLocked :: "time \<Rightarrow> string \<Rightarrow> string \<Rightarrow> string \<Rightarrow> nat \<Rightarrow> bool \<Rightarrow> 's manager \<Rightarrow> bool \<times> 's manager" where
  "activatePeerLocked now hostID name publicKey c requireAuthorization m =
     (case fmlookup (m_conns m) c of
        None \<Rightarrow> (False, m)
      | Some conn \<Rightarrow>
          if requireAuthorization \<and> \<not> authorized publicKey m then (False, m)
          else
            let current = fmlookup (m_hosts m) hostID in
            if (case current of None \<Rightarrow> False
                | Some h \<Rightarrow> hst_Conn h \<noteq> None \<and> hst_Generation h \<ge> pc_Generation conn) then (False, m)
            else
              let previous = (case current of None \<Rightarrow> None | Some h \<Rightarrow> hst_Conn h);
                  code = supersede_code (case previous of None \<Rightarrow> None | Some i \<Rightarrow> fmlookup (m_conns m) i) conn;
                  host = (new_host hostID name publicKey now)\<lparr>hst_Conn := Some c, hst_Generation := pc_Generation conn,
                    hst_Capabilities := sorted_list_of_fset (pc_Capabilities conn), hst_AgentInstance := pc_AgentInstance conn\<rparr>;
                  installed = m\<lparr>m_hosts := fmupd hostID host (m_hosts m)\<rparr>;
                  closed = close_conn code previous installed;
                  started = closed\<lparr>m_started := finsert c (m_started closed)\<rparr>
              in (True, peers_broadcast (host_event ''peer-connected'' hostID name) started))"

definition ActivatePeer :: "time \<Rightarrow> string \<Rightarrow> string \<Rightarrow> string \<Rightarrow> nat \<Rightarrow> 's manager \<Rightarrow> bool \<times> 's manager" where
  "ActivatePeer now hostID name publicKey c m = activatePeerLocked now hostID name publicKey c False m"

definition ActivateAuthorizedPeer :: "time \<Rightarrow> string \<Rightarrow> string \<Rightarrow> string \<Rightarrow> nat \<Rightarrow> 's manager \<Rightarrow> bool \<times> 's manager" where
  "ActivateAuthorizedPeer now hostID name publicKey c m = activatePeerLocked now hostID name publicKey c True m"

datatype revoke_error = StoreUnavailable | NoSuchPeer | RevokeFailed peer_error

definition RevokePeer :: "stage option \<Rightarrow> string \<Rightarrow> 's manager \<Rightarrow> (revoke_error + Peer) \<times> 's manager" where
  "RevokePeer fault name m =
     (case m_peerStore m of
        None \<Rightarrow> (Inl StoreUnavailable, m)
      | Some ps \<Rightarrow>
          (case peer_Get name ps of
             None \<Rightarrow> (Inl NoSuchPeer, m)
           | Some peer \<Rightarrow>
               (case peer_Remove fault name ps of
                  (Some err, ps') \<Rightarrow> (Inl (RevokeFailed err), m\<lparr>m_peerStore := Some ps'\<rparr>)
                | (None, ps') \<Rightarrow>
                    (let fingerprint = peer_Fingerprint peer;
                         connection = (case fmlookup (m_hosts m) fingerprint of None \<Rightarrow> None | Some h \<Rightarrow> hst_Conn h);
                         m' = m\<lparr>m_peerStore := Some ps', m_hosts := fmdrop fingerprint (m_hosts m)\<rparr>
                     in (Inr peer, peers_broadcast (host_event ''peer-disconnected'' fingerprint (peer_Name peer))
                           (close_conn ErrorPeerRevoked connection m'))))))"

definition gone_host :: "time \<Rightarrow> 's HostState \<Rightarrow> 's HostState" where
  "gone_host now h = h\<lparr>hst_Connected := False, hst_Conn := None, hst_LastSeen := now\<rparr>"

definition UnregisterPeerGeneration :: "time \<Rightarrow> string \<Rightarrow> u64 \<Rightarrow> 's manager \<Rightarrow> bool \<times> 's manager" where
  "UnregisterPeerGeneration now hostID generation m =
     (case fmlookup (m_hosts m) hostID of
        None \<Rightarrow> (False, m)
      | Some h \<Rightarrow>
          if hst_Generation h \<noteq> generation then (False, m)
          else (True, peers_broadcast (host_event ''peer-disconnected'' hostID (hst_Name h))
                 (m\<lparr>m_hosts := fmupd hostID (gone_host now h) (m_hosts m)\<rparr>)))"

definition UnregisterPeer :: "time \<Rightarrow> string \<Rightarrow> 's manager \<Rightarrow> 's manager" where
  "UnregisterPeer now hostID m =
     (case fmlookup (m_hosts m) hostID of
        None \<Rightarrow> m
      | Some h \<Rightarrow> peers_broadcast (host_event ''peer-disconnected'' hostID (hst_Name h))
          (m\<lparr>m_hosts := fmupd hostID (gone_host now h) (m_hosts m)\<rparr>))"

subsection \<open>What a peer reports\<close>

text \<open>The updates write one field and the time, and most announce the change.\<close>

definition update_host :: "time \<Rightarrow> string \<Rightarrow> ('s HostState \<Rightarrow> 's HostState) \<Rightarrow> string option \<Rightarrow> 's manager \<Rightarrow> 's manager" where
  "update_host now hostID f kind m =
     (case fmlookup (m_hosts m) hostID of
        None \<Rightarrow> m
      | Some h \<Rightarrow>
          (let m' = m\<lparr>m_hosts := fmupd hostID ((f h)\<lparr>hst_LastSeen := now\<rparr>) (m_hosts m)\<rparr>
           in case kind of None \<Rightarrow> m' | Some k \<Rightarrow> peers_broadcast (host_event k hostID (hst_Name h)) m'))"

definition UpdatePeerSessions :: "time \<Rightarrow> string \<Rightarrow> TSession option list \<Rightarrow> 's manager \<Rightarrow> 's manager" where
  "UpdatePeerSessions now hostID sessions =
     update_host now hostID (\<lambda>h. h\<lparr>hst_Sessions := sessions\<rparr>) (Some ''sessions-changed'')"

definition UpdatePeerVersion :: "time \<Rightarrow> string \<Rightarrow> string \<Rightarrow> 's manager \<Rightarrow> 's manager" where
  "UpdatePeerVersion now hostID version =
     update_host now hostID (\<lambda>h. h\<lparr>hst_Version := version\<rparr>) (Some ''host-health-changed'')"

definition UpdatePeerActivity :: "time \<Rightarrow> string \<Rightarrow> activity_snapshot option list \<Rightarrow> 's manager \<Rightarrow> 's manager" where
  "UpdatePeerActivity now hostID snapshots = update_host now hostID (\<lambda>h. h\<lparr>hst_Activity := snapshots\<rparr>) None"

definition UpdatePeerStats :: "time \<Rightarrow> string \<Rightarrow> 's option \<Rightarrow> 's manager \<Rightarrow> 's manager" where
  "UpdatePeerStats now hostID stats =
     update_host now hostID (\<lambda>h. h\<lparr>hst_Stats := stats\<rparr>) (Some ''host-health-changed'')"

subsection \<open>Lookups\<close>

definition GetPeerConnection :: "string \<Rightarrow> 's manager \<Rightarrow> nat option" where
  "GetPeerConnection hostID m = (case fmlookup (m_hosts m) hostID of None \<Rightarrow> None | Some h \<Rightarrow> hst_Conn h)"

definition IsCurrent :: "nat \<Rightarrow> 's manager \<Rightarrow> bool" where
  "IsCurrent c m =
     (case fmlookup (m_conns m) c of
        None \<Rightarrow> False
      | Some k \<Rightarrow> (case fmlookup (m_hosts m) (pc_HostID k) of
          None \<Rightarrow> False | Some h \<Rightarrow> hst_Conn h = Some c \<and> hst_Generation h = pc_Generation k))"

definition GetHostName :: "string \<Rightarrow> 's manager \<Rightarrow> string" where
  "GetHostName hostID m = (case fmlookup (m_hosts m) hostID of None \<Rightarrow> [] | Some h \<Rightarrow> hst_Name h)"

definition HasHost :: "string \<Rightarrow> 's manager \<Rightarrow> bool" where
  "HasHost hostID m = go_has (m_hosts m) hostID"

definition IsLocal :: "string \<Rightarrow> 's manager \<Rightarrow> bool" where
  "IsLocal hostID m = (m_hasLocal m \<and> hostID = m_localID m)"

definition GetAllActivity :: "'s manager \<Rightarrow> activity_snapshot option list" where
  "GetAllActivity m =
     concat (map (\<lambda>i. if m_hasLocal m \<and> i = m_localID m then [] else hst_Activity (the (fmlookup (m_hosts m) i)))
       (go_keys (m_hosts m)))"

text \<open>A search dereferences the sessions in turn up to the first hit: \<open>None\<close> is a panic on a \<open>nil\<close> one.\<close>

fun search_sessions :: "string \<Rightarrow> TSession option list \<Rightarrow> bool option" where
  "search_sessions session [] = Some False"
| "search_sessions session (None # rest) = None"
| "search_sessions session (Some s # rest) = (if ts_name s = session then Some True else search_sessions session rest)"

definition HasSession :: "tmux_exec \<Rightarrow> string \<Rightarrow> string \<Rightarrow> 's manager \<Rightarrow> bool option \<times> 's manager" where
  "HasSession exec hostID session m =
     (case (if m_hasLocal m \<and> hostID = m_localID m then m_localMgr m else None) of
        Some mg \<Rightarrow> (case GetSessions exec mg of
            (mg', ss) \<Rightarrow> (Some (list_ex (\<lambda>s. ts_name s = session) ss), m\<lparr>m_localMgr := Some mg'\<rparr>))
      | None \<Rightarrow> (case fmlookup (m_hosts m) hostID of
            None \<Rightarrow> (Some False, m) | Some h \<Rightarrow> (search_sessions session (hst_Sessions h), m)))"

text \<open>\<open>GetAllSessions\<close> stamps the stored sessions themselves; a \<open>nil\<close> one panics.\<close>

definition stamp_session :: "'s HostState \<Rightarrow> TSession option \<Rightarrow> TSession option" where
  "stamp_session h = map_option (\<lambda>s. s\<lparr>ts_host := hst_ID h, ts_host_name := hst_Name h, ts_host_online := hst_Connected h\<rparr>)"

definition GetAllSessions :: "'s manager \<Rightarrow> (TSession list \<times> 's manager) option" where
  "GetAllSessions m =
     (let hosts = fmmap (\<lambda>h. h\<lparr>hst_Sessions := map (stamp_session h) (hst_Sessions h)\<rparr>) (m_hosts m);
          all = concat (map (\<lambda>i. hst_Sessions (the (fmlookup hosts i))) (go_keys hosts))
      in if None \<in> set all then None else Some (map the all, m\<lparr>m_hosts := hosts\<rparr>))"

definition GetLocalSessions :: "tmux_exec \<Rightarrow> 's manager \<Rightarrow> TSession list \<times> 's manager" where
  "GetLocalSessions exec m =
     (case m_localMgr m of
        None \<Rightarrow> ([], m)
      | Some mg \<Rightarrow> (case GetSessions exec mg of
          (mg', ss) \<Rightarrow>
            (let stamp = (\<lambda>s. s\<lparr>ts_host := m_localID m, ts_host_name := m_localName m, ts_host_online := True\<rparr>)
             in (map stamp ss, m\<lparr>m_localMgr := Some (mg'\<lparr>mg_sessions := fmmap stamp (mg_sessions mg')\<rparr>)\<rparr>))))"

record 's HostInfo =
  hi_ID :: string
  hi_Name :: string
  hi_Version :: string
  hi_RuntimeProtocol :: int
  hi_Generation :: u64
  hi_Capabilities :: "string list"
  hi_AgentInstance :: string
  hi_Local :: bool
  hi_Online :: bool
  hi_Sessions :: "TSession option list"
  hi_Activity :: "activity_snapshot option list"
  hi_Stats :: "'s option"
  hi_LastSeen :: time

definition GetHosts :: "'s manager \<Rightarrow> 's HostInfo list" where
  "GetHosts m = map (\<lambda>h.
     \<lparr>hi_ID = hst_ID h, hi_Name = hst_Name h, hi_Version = hst_Version h, hi_RuntimeProtocol = RuntimeProtocolMax,
      hi_Generation = hst_Generation h, hi_Capabilities = hst_Capabilities h, hi_AgentInstance = hst_AgentInstance h,
      hi_Local = (m_hasLocal m \<and> hst_ID h = m_localID m), hi_Online = hst_Connected h, hi_Sessions = hst_Sessions h,
      hi_Activity = hst_Activity h, hi_Stats = hst_Stats h, hi_LastSeen = hst_LastSeen h\<rparr>) (map_values (m_hosts m))"

text \<open>The clone rebuilds every level, so the snapshot shares nothing with the registry.\<close>

definition clone_window :: "TWindow \<Rightarrow> TWindow" where
  "clone_window w = w\<lparr>tw_panes := map (map_option (\<lambda>q. q)) (tw_panes w)\<rparr>"

definition cloneTmuxSession :: "TSession option \<Rightarrow> TSession option" where
  "cloneTmuxSession source =
     (case source of None \<Rightarrow> None | Some s \<Rightarrow> Some (s\<lparr>ts_windows := map (map_option clone_window) (ts_windows s)\<rparr>))"

definition StateHostSnapshots :: "'s manager \<Rightarrow> HostSnapshot list" where
  "StateHostSnapshots m = map (\<lambda>h.
     \<lparr>hs_id = hst_ID h, hs_display_name = hst_Name h, hs_online = hst_Connected h,
      hs_local = (m_hasLocal m \<and> hst_ID h = m_localID m), hs_version = hst_Version h,
      hs_sessions = map cloneTmuxSession (hst_Sessions h)\<rparr>) (map_values (m_hosts m))"

subsection \<open>The turns of the run loop\<close>

definition pruneOffline :: "time \<Rightarrow> 's manager \<Rightarrow> 's manager" where
  "pruneOffline now m =
     m\<lparr>m_hosts := fm_keep (\<lambda>i h. i = m_localID m \<or> \<not> (\<not> hst_Connected h \<and> now - hst_LastSeen h > OfflineTimeout)) (m_hosts m)\<rparr>"

text \<open>A local event: stamped, the cache of local sessions refreshed, forwarded.\<close>

definition forward_local :: "tmux_exec \<Rightarrow> time \<Rightarrow> StateEvent \<Rightarrow> 's manager \<Rightarrow> 's manager" where
  "forward_local exec now evt0 m =
     (let evt = evt0\<lparr>se_host := m_localID m, se_host_name := m_localName m\<rparr>;
          refreshed = (case (fmlookup (m_hosts m) (m_localID m), m_localMgr m) of
              (Some h, Some mg) \<Rightarrow> (case GetSessions exec mg of
                (mg', ss) \<Rightarrow> m\<lparr>m_hosts := fmupd (m_localID m) (h\<lparr>hst_Sessions := map Some ss, hst_LastSeen := now\<rparr>) (m_hosts m),
                               m_localMgr := Some mg'\<rparr>)
            | _ \<Rightarrow> m)
      in peers_broadcast evt refreshed)"

text \<open>\<open>system_stats\<close> reads \<open>/proc\<close> and adds the process counts of the sessions.\<close>

definition updateLocalStats :: "tmux_exec \<Rightarrow> (TSession list \<Rightarrow> 's) \<Rightarrow> time \<Rightarrow> 's manager \<Rightarrow> 's manager" where
  "updateLocalStats exec system_stats now m =
     (case m_localMgr m of
        None \<Rightarrow> m
      | Some mg \<Rightarrow> (case GetSessions exec mg of
          (mg', ss) \<Rightarrow> UpdatePeerStats now (m_localID m) (Some (system_stats ss)) (m\<lparr>m_localMgr := Some mg'\<rparr>)))"

lemma map_option_same: "map_option (\<lambda>q. q) = (\<lambda>x. x)"
  by (rule ext) (simp add: option.map_ident)

lemma clone_window_id [clone_simps]: "clone_window w = w"
  by (cases w) (simp add: clone_window_def map_option_same)

lemma clone_window_same: "clone_window = (\<lambda>w. w)"
  by (rule ext) (rule clone_window_id)

lemma cloneTmuxSession_id [clone_simps]: "cloneTmuxSession s = s"
  by (cases s) (simp_all add: cloneTmuxSession_def clone_window_same map_option_same)

lemma close_conn_fields [simp]:
  "m_hosts (close_conn code c m) = m_hosts m" "m_peerStore (close_conn code c m) = m_peerStore m"
  "m_generations (close_conn code c m) = m_generations m" "m_started (close_conn code c m) = m_started m"
  "m_localID (close_conn code c m) = m_localID m"
  by (auto simp: close_conn_def split: option.splits)

lemma peers_broadcast_fields [simp]:
  "m_hosts (peers_broadcast e m) = m_hosts m" "m_peerStore (peers_broadcast e m) = m_peerStore m"
  "m_generations (peers_broadcast e m) = m_generations m" "m_started (peers_broadcast e m) = m_started m"
  "m_conns (peers_broadcast e m) = m_conns m" "m_localID (peers_broadcast e m) = m_localID m"
  by (simp_all add: peers_broadcast_def)

lemma CloseWith_fields [simp]:
  "pc_HostID (CloseWith code k) = pc_HostID k" "pc_Generation (CloseWith code k) = pc_Generation k"
  "pc_closed (CloseWith code k)"
  by (simp_all add: CloseWith_def close_fail_def close_flag_def)

lemma close_conn_lookup:
  "fmlookup (m_conns (close_conn code c m)) i =
     (if c = Some i then map_option (CloseWith code) (fmlookup (m_conns m) i) else fmlookup (m_conns m) i)"
  by (auto simp: close_conn_def split: option.splits)

end
