(* ===== verification/Bytes.thy ===== *)
theory Bytes
  imports GoText
begin

text \<open>
  \<open>encoding/binary\<close>'s big-endian numbers: \<open>be_bytes n v\<close> are the \<open>n\<close> bytes of \<open>v\<close>, most
  significant first, modulo 256 to the \<open>n\<close>; \<open>be_val\<close> reads them back.  The pairing
  transcript and the PTY data frames are made of them.
\<close>

fun be_bytes :: "nat \<Rightarrow> nat \<Rightarrow> byte list" where
  "be_bytes 0 v = []"
| "be_bytes (Suc n) v = be_bytes n (v div 256) @ [char_of (v mod 256)]"

definition be_val :: "byte list \<Rightarrow> nat" where
  "be_val bs = foldl (\<lambda>v b. v * 256 + byte_val b) 0 bs"

lemma be_bytes_length [simp]: "length (be_bytes n v) = n"
  by (induction n arbitrary: v) simp_all

lemma be_val_snoc: "be_val (bs @ [b]) = be_val bs * 256 + byte_val b"
  by (simp add: be_val_def)

lemma be_val_lt: "be_val bs < 256 ^ length bs"
proof (induction bs rule: rev_induct)
  case (snoc b bs)
  have "be_val bs * 256 + byte_val b < (be_val bs + 1) * 256" using byte_val_lt [of b] by simp
  also have "\<dots> \<le> 256 ^ length bs * 256" using snoc by (intro mult_le_mono1) simp
  finally show ?case by (simp add: be_val_snoc)
qed (simp add: be_val_def)

lemma be_val_bytes [simp]: "v < 256 ^ n \<Longrightarrow> be_val (be_bytes n v) = v"
proof (induction n arbitrary: v)
  case (Suc n)
  have "v div 256 < 256 ^ n" using Suc.prems by (simp add: less_mult_imp_div_less mult.commute)
  moreover have "byte_val (char_of (v mod 256)) = v mod 256" by (rule byte_val_char_of) simp
  ultimately show ?case unfolding be_bytes.simps be_val_snoc by (simp only: Suc.IH div_mult_mod_eq)
qed (simp add: be_val_def)

lemma be_bytes_val [simp]: "be_bytes (length bs) (be_val bs) = bs"
proof (induction bs rule: rev_induct)
  case (snoc b bs)
  have "(be_val bs * 256 + byte_val b) div 256 = be_val bs" "(be_val bs * 256 + byte_val b) mod 256 = byte_val b"
    using byte_val_lt [of b] by simp_all
  with snoc show ?case by (simp add: be_val_snoc byte_val_def)
qed simp

lemma be_bytes_inject: "\<lbrakk>be_bytes n u = be_bytes n v; u < 256 ^ n; v < 256 ^ n\<rbrakk> \<Longrightarrow> u = v"
  using be_val_bytes by metis

lemma be_bytes_of_val: "length bs = n \<Longrightarrow> be_bytes n (be_val bs) = bs"
  by (metis be_bytes_val)

end
