(* ===== verification/Pairing.thy ===== *)
theory Pairing
  imports PeerStore GoStrings Bytes
begin

text \<open>
  One-time pairing codes (\<open>pkg/identity/pairing.go\<close>): six random bytes spelled as
  syllables, a bounded map of pending codes with an expiry, completion that consumes a
  code only when the commit succeeds, and the transcript a peer signs.  The clock and the
  random bytes are arguments of the operations; \<open>commit\<close> acts on a state of its own.
\<close>

definition PairingCodeTTL :: duration where "PairingCodeTTL = 5 * minute"
definition MaxPendingPairing :: nat where "MaxPendingPairing = 32"
definition PairingVersion :: nat where "PairingVersion = 1"

definition pairingSyllables :: "string list" where
  "pairingSyllables =
     [''ba'', ''be'', ''bi'', ''bo'', ''da'', ''de'', ''di'', ''do'',
      ''ka'', ''ke'', ''ki'', ''ko'', ''la'', ''le'', ''li'', ''lo'']"

record pairing_manager =
  pm_codes :: "(string, time) fmap"
  pm_max :: nat

definition newPairingManager :: "nat \<Rightarrow> pairing_manager" where
  "newPairingManager maxPending = \<lparr>pm_codes = fmempty, pm_max = maxPending\<rparr>"

definition NormalizePairingCode :: "string \<Rightarrow> string" where
  "NormalizePairingCode code = to_upper (trim_space code)"

definition cleanupLocked :: "time \<Rightarrow> pairing_manager \<Rightarrow> pairing_manager" where
  "cleanupLocked now pm = pm\<lparr>pm_codes := fm_keep (\<lambda>_ expires. now < expires) (pm_codes pm)\<rparr>"

definition syllables :: "byte \<Rightarrow> string" where
  "syllables b = pairingSyllables ! (byte_val b div 16) @ pairingSyllables ! (byte_val b mod 16)"

definition pairing_code :: "byte list \<Rightarrow> string" where
  "pairing_code random = to_upper (join_with ''-'' (map syllables random))"

datatype pairing_error = CapacityReached | PairingRandomFailed | PairingFailed

text \<open>\<open>random\<close> is what reading six bytes gives, \<open>None\<close> when the source fails.\<close>

definition pairing_Generate :: "time \<Rightarrow> byte list option \<Rightarrow> pairing_manager
    \<Rightarrow> (pairing_error + string \<times> time) \<times> pairing_manager" where
  "pairing_Generate now random pm0 =
     (let pm = cleanupLocked now pm0 in
      if go_len (pm_codes pm) \<ge> pm_max pm then (Inl CapacityReached, pm)
      else case random of
        None \<Rightarrow> (Inl PairingRandomFailed, pm)
      | Some bytes \<Rightarrow>
          (let code = pairing_code bytes; expires = now + PairingCodeTTL in
           (Inr (code, expires), pm\<lparr>pm_codes := fmupd code expires (pm_codes pm)\<rparr>)))"

definition pairing_Complete :: "time \<Rightarrow> string \<Rightarrow> ('w \<Rightarrow> bool \<times> 'w) \<Rightarrow> pairing_manager \<times> 'w
    \<Rightarrow> pairing_error option \<times> pairing_manager \<times> 'w" where
  "pairing_Complete now code0 commit st =
     (case st of (pm, w) \<Rightarrow>
      let code = NormalizePairingCode code0 in
      case fmlookup (pm_codes pm) code of
        None \<Rightarrow> (Some PairingFailed, pm, w)
      | Some expires \<Rightarrow>
          if \<not> now < expires then (Some PairingFailed, pm\<lparr>pm_codes := fmdrop code (pm_codes pm)\<rparr>, w)
          else case commit w of
            (False, w') \<Rightarrow> (Some PairingFailed, pm, w')
          | (True, w') \<Rightarrow> (None, pm\<lparr>pm_codes := fmdrop code (pm_codes pm)\<rparr>, w'))"

definition sized :: "string \<Rightarrow> string" where
  "sized value = be_bytes 4 (length value) @ value"

definition PairingTranscript :: "string \<Rightarrow> string \<Rightarrow> string \<Rightarrow> string \<Rightarrow> string" where
  "PairingTranscript origin code name publicKey =
     ''tmuxatlas/pairing-proof'' @ [char_of (0 :: nat)] @ be_bytes 2 PairingVersion @
     concat (map sized [origin, NormalizePairingCode code, name, publicKey])"

subsection \<open>Codes are injective\<close>

lemma sized_inject:
  assumes "sized a @ x = sized b @ y" and "length a < 2 ^ 32" and "length b < 2 ^ 32"
  shows "a = b \<and> x = y"
proof -
  have "be_bytes 4 (length a) = be_bytes 4 (length b)" and r: "a @ x = b @ y"
    using assms(1) by (simp_all add: sized_def)
  then have "length a = length b" using assms(2,3) by (intro be_bytes_inject [of 4]) simp_all
  with r show ?thesis by simp
qed

lemma syllable_upper:
  "map (\<lambda>n. map byte_val (to_upper (pairingSyllables ! n))) [0..<16] =
     [[66, 65], [66, 69], [66, 73], [66, 79], [68, 65], [68, 69], [68, 73], [68, 79],
      [75, 65], [75, 69], [75, 73], [75, 79], [76, 65], [76, 69], [76, 73], [76, 79]]"
  by code_simp

lemma syllable_table:
  assumes "n < 16"
  shows "map byte_val (to_upper (pairingSyllables ! n)) =
     [[66, 65], [66, 69], [66, 73], [66, 79], [68, 65], [68, 69], [68, 73], [68, 79],
      [75, 65], [75, 69], [75, 73], [75, 79], [76, 65], [76, 69], [76, 73], [76, 79]] ! n"
  using arg_cong [OF syllable_upper, of "\<lambda>l. l ! n"] assms by simp

lemma less_16_cases: "n < 16 \<Longrightarrow> n \<in> {0, 1, 2, 3, 4, 5, 6, 7, 8, 9, 10, 11, 12, 13, 14, 15 :: nat}"
  by (simp; presburger)

lemma syllable_length: "n < 16 \<Longrightarrow> length (to_upper (pairingSyllables ! n)) = 2"
proof -
  assume n: "n < 16"
  have "length (map byte_val (to_upper (pairingSyllables ! n))) = 2"
    unfolding syllable_table [OF n] using less_16_cases [OF n] by auto
  then show ?thesis by (simp only: length_map)
qed

lemma syllable_inject:
  assumes "to_upper (pairingSyllables ! m) = to_upper (pairingSyllables ! n)" and m: "m < 16" and n: "n < 16"
  shows "m = n"
proof -
  have d: "distinct [[66, 65], [66, 69], [66, 73], [66, 79], [68, 65], [68, 69], [68, 73], [68, 79],
      [75, 65], [75, 69], [75, 73], [75, 79], [76, 65], [76, 69], [76, 73], [76, 79 :: nat]]" by simp
  show ?thesis
    using nth_eq_iff_index_eq [OF d, of m n] arg_cong [OF assms(1), of "map byte_val"] m n
    unfolding syllable_table [OF m] syllable_table [OF n] by simp
qed

lemma to_upper_append: "to_upper (a @ b) = to_upper a @ to_upper b"
  by (simp add: to_upper_def)

lemma syllables_length: "length (to_upper (syllables b)) = 4"
proof -
  have "byte_val b div 16 < 16" "byte_val b mod 16 < 16" by (rule nibble_lt)+
  then show ?thesis by (simp only: syllables_def to_upper_append length_append syllable_length)
qed

lemma syllables_inject: "to_upper (syllables a) = to_upper (syllables b) \<Longrightarrow> a = b"
proof -
  assume e: "to_upper (syllables a) = to_upper (syllables b)"
  note l = nibble_lt [of a] nibble_lt [of b]
  from e have "to_upper (pairingSyllables ! (byte_val a div 16)) = to_upper (pairingSyllables ! (byte_val b div 16)) \<and>
    to_upper (pairingSyllables ! (byte_val a mod 16)) = to_upper (pairingSyllables ! (byte_val b mod 16))"
    unfolding syllables_def to_upper_append
    by (subst (asm) append_eq_append_conv) (simp_all only: syllable_length l simp_thms)
  then have "byte_val a div 16 = byte_val b div 16" "byte_val a mod 16 = byte_val b mod 16"
    using syllable_inject l by blast+
  then show ?thesis by (rule nibbles_inject)
qed

lemma to_upper_join: "to_upper (join_with sep ws) = join_with (to_upper sep) (map to_upper ws)"
  by (induction sep ws rule: join_with.induct) (simp_all add: to_upper_def)

lemma upper_join:
  "to_upper (join_with ''-'' (map syllables bs)) = join_with ''-'' (map (\<lambda>b. to_upper (syllables b)) bs)"
proof -
  have "to_upper ''-'' = ''-''" by code_simp
  then show ?thesis by (simp add: to_upper_join comp_def)
qed

lemma pairing_code_inject:
  "\<lbrakk>pairing_code as = pairing_code bs; length as = length bs\<rbrakk> \<Longrightarrow> as = bs"
  unfolding pairing_code_def upper_join
proof (induction as bs rule: list_induct2')
  case (4 a as b bs)
  show ?case
  proof (cases as)
    case Nil
    with 4 have "bs = []" by simp
    with 4 Nil show ?thesis by (auto dest: syllables_inject)
  next
    case (Cons x xs)
    with 4 obtain y ys where "bs = y # ys" by (cases bs) auto
    let ?j = "\<lambda>bs. join_with ''-'' (map (\<lambda>b. to_upper (syllables b)) bs)"
    have "to_upper (syllables a) @ ''-'' @ ?j as = to_upper (syllables b) @ ''-'' @ ?j bs"
      using "4.prems"(1) Cons \<open>bs = y # ys\<close> by simp
    then have "to_upper (syllables a) = to_upper (syllables b) \<and> ''-'' @ ?j as = ''-'' @ ?j bs"
      by (subst (asm) append_eq_append_conv) (simp_all only: syllables_length simp_thms)
    with "4.IH" "4.prems"(2) show ?thesis by (auto dest: syllables_inject)
  qed
qed simp_all

text \<open>
  C27. Pairing codes and proofs are unambiguous.  Different random bytes give different
  codes, so a code carries the full 48 bits; and equal transcripts are transcripts of the
  same origin, normalised code, name and key, whatever bytes these contain (each is
  shorter than 4 GiB).
\<close>

theorem pairing_proof_unambiguous:
  assumes "length as = 6" and "length bs = 6"
    and "\<And>s. s \<in> {o1, NormalizePairingCode c1, n1, k1, o2, NormalizePairingCode c2, n2, k2} \<Longrightarrow> length s < 2 ^ 32"
  shows "(pairing_code as = pairing_code bs) = (as = bs) \<and>
    (PairingTranscript o1 c1 n1 k1 = PairingTranscript o2 c2 n2 k2) =
      (o1 = o2 \<and> NormalizePairingCode c1 = NormalizePairingCode c2 \<and> n1 = n2 \<and> k1 = k2)"
proof
  show "(pairing_code as = pairing_code bs) = (as = bs)" using assms(1,2) pairing_code_inject by metis
  have "PairingTranscript o1 c1 n1 k1 = PairingTranscript o2 c2 n2 k2 \<Longrightarrow>
      o1 = o2 \<and> NormalizePairingCode c1 = NormalizePairingCode c2 \<and> n1 = n2 \<and> k1 = k2"
  proof -
    assume "PairingTranscript o1 c1 n1 k1 = PairingTranscript o2 c2 n2 k2"
    then have e: "sized o1 @ sized (NormalizePairingCode c1) @ sized n1 @ sized k1 @ [] =
      sized o2 @ sized (NormalizePairingCode c2) @ sized n2 @ sized k2 @ []" by (simp add: PairingTranscript_def)
    from sized_inject [OF e] assms(3) have o: "o1 = o2" and
      e2: "sized (NormalizePairingCode c1) @ sized n1 @ sized k1 @ [] = sized (NormalizePairingCode c2) @ sized n2 @ sized k2 @ []"
      by simp_all
    from sized_inject [OF e2] assms(3) have c: "NormalizePairingCode c1 = NormalizePairingCode c2"
      and e3: "sized n1 @ sized k1 @ [] = sized n2 @ sized k2 @ []" by simp_all
    from sized_inject [OF e3] assms(3) have n: "n1 = n2" and e4: "sized k1 @ [] = sized k2 @ []" by simp_all
    from sized_inject [OF e4] assms(3) have "k1 = k2" by simp
    with o c n show ?thesis by simp
  qed
  then show "(PairingTranscript o1 c1 n1 k1 = PairingTranscript o2 c2 n2 k2) =
      (o1 = o2 \<and> NormalizePairingCode c1 = NormalizePairingCode c2 \<and> n1 = n2 \<and> k1 = k2)"
    by (auto simp: PairingTranscript_def)
qed

theorem pairing_proof_unambiguous_witness:
  "pairing_code ''abcdef'' \<noteq> pairing_code ''abcdeg'' \<and>
   PairingTranscript ''https'' ''BA'' ''x'' ''y'' \<noteq> PairingTranscript ''http'' ''sBA'' ''x'' ''y''"
proof -
  have l: "length (NormalizePairingCode s) \<le> length s" for s
    using trim_space_length [of s] by (simp add: NormalizePairingCode_def)
  have "length s < 2 ^ 32"
    if "s \<in> {''https'', NormalizePairingCode ''BA'', ''x'', ''y'', ''http'', NormalizePairingCode ''sBA'', ''x'', ''y''}" for s
    using that l [of "''BA''"] l [of "''sBA''"] by auto
  from pairing_proof_unambiguous [of "''abcdef''" "''abcdeg''", OF _ _ this] show ?thesis by simp
qed

subsection \<open>Pairing through the store\<close>

text \<open>
  The completion endpoint runs \<open>Complete\<close> with an addition to the peer store as the
  commit.  A history of generations and completions has one output per event.
\<close>

datatype pairing_event = GenerateCode time "byte list option" | CompleteCode time string Peer "stage option"
datatype pairing_out = Issued string time | Paired string time | Refused

definition add_commit :: "stage option \<Rightarrow> Peer \<Rightarrow> peer_store \<Rightarrow> bool \<times> peer_store" where
  "add_commit fault p ps = (case peer_Add fault p ps of (e, ps') \<Rightarrow> (e = None, ps'))"

fun pairing_step :: "pairing_manager \<times> peer_store \<Rightarrow> pairing_event \<Rightarrow> pairing_out \<times> pairing_manager \<times> peer_store" where
  "pairing_step (pm, ps) (GenerateCode now random) =
     (case pairing_Generate now random pm of
        (Inr (c, x), pm') \<Rightarrow> (Issued c x, pm', ps)
      | (Inl _, pm') \<Rightarrow> (Refused, pm', ps))"
| "pairing_step (pm, ps) (CompleteCode now code p fault) =
     (case pairing_Complete now code (add_commit fault p) (pm, ps) of
        (None, st) \<Rightarrow> (Paired (NormalizePairingCode code) now, st)
      | (Some _, st) \<Rightarrow> (Refused, st))"

fun pairing_run :: "pairing_manager \<times> peer_store \<Rightarrow> pairing_event list \<Rightarrow> pairing_out list \<times> pairing_manager \<times> peer_store" where
  "pairing_run st [] = ([], st)"
| "pairing_run st (e # es) =
     (case pairing_step st e of (out, st') \<Rightarrow> case pairing_run st' es of (outs, st'') \<Rightarrow> (out # outs, st''))"

fun issues :: "string \<Rightarrow> pairing_out \<Rightarrow> bool" where
  "issues c (Issued d _) = (d = c)"
| "issues c _ = False"

fun pairs :: "string \<Rightarrow> pairing_out \<Rightarrow> bool" where
  "pairs c (Paired d _) = (d = c)"
| "pairs c _ = False"

fun is_paired :: "pairing_out \<Rightarrow> bool" where
  "is_paired (Paired _ _) = True"
| "is_paired _ = False"

lemma peer_save_length:
  "peer_save fault ps updated = (e, ps') \<Longrightarrow> length (ps_peers ps') = (if e = None then length updated else length (ps_peers ps))"
  by (auto dest: peer_save_result)

lemma add_commit_length:
  "add_commit fault p ps = (ok, ps') \<Longrightarrow> length (ps_peers ps') = length (ps_peers ps) + (if ok then 1 else 0)"
  by (auto simp: add_commit_def peer_Add_def Let_def dest: peer_save_result
      split: prod.splits sum.splits option.splits)

lemma pairing_step_cases:
  assumes "pairing_step (pm, ps) e = (out, pm', ps')"
  shows "(\<exists>c x. out = Issued c x \<and> fmlookup (pm_codes pm') c = Some x \<and> ps' = ps \<and>
            (\<forall>d y. d \<noteq> c \<longrightarrow> fmlookup (pm_codes pm') d = Some y \<longrightarrow> fmlookup (pm_codes pm) d = Some y)) \<or>
    (\<exists>c now x. out = Paired c now \<and> fmlookup (pm_codes pm) c = Some x \<and> now < x \<and>
            pm_codes pm' = fmdrop c (pm_codes pm) \<and> length (ps_peers ps') = Suc (length (ps_peers ps))) \<or>
    (out = Refused \<and> length (ps_peers ps') = length (ps_peers ps) \<and>
            (\<forall>d y. fmlookup (pm_codes pm') d = Some y \<longrightarrow> fmlookup (pm_codes pm) d = Some y))"
proof (cases e)
  case (GenerateCode now random)
  with assms show ?thesis
    by (auto simp: pairing_Generate_def cleanupLocked_def Let_def split: if_splits option.splits)
next
  case (CompleteCode now code p fault)
  let ?c = "NormalizePairingCode code"
  show ?thesis
  proof (cases "fmlookup (pm_codes pm) ?c")
    case None
    with assms CompleteCode show ?thesis by (auto simp: pairing_Complete_def)
  next
    case (Some x)
    show ?thesis
    proof (cases "now < x")
      case False
      with Some assms CompleteCode show ?thesis by (auto simp: pairing_Complete_def split: if_splits)
    next
      case True
      obtain ok ps1 where a: "add_commit fault p ps = (ok, ps1)" by (cases "add_commit fault p ps")
      from add_commit_length [OF a] a Some True assms CompleteCode show ?thesis
        by (cases ok) (auto simp: pairing_Complete_def)
    qed
  qed
qed

lemma pairing_step_kept:
  assumes "pairing_step (pm, ps) e = (out, pm', ps')" and "fmlookup (pm_codes pm') c = Some x"
  shows "out = Issued c x \<or> fmlookup (pm_codes pm) c = Some x"
  using pairing_step_cases [OF assms(1)]
proof (elim disjE exE conjE)
  fix d y
  assume "out = Issued d y" "fmlookup (pm_codes pm') d = Some y"
    "\<forall>d' y'. d' \<noteq> d \<longrightarrow> fmlookup (pm_codes pm') d' = Some y' \<longrightarrow> fmlookup (pm_codes pm) d' = Some y'"
  with assms(2) show ?thesis by (cases "c = d") simp_all
qed (use assms(2) in \<open>simp_all split: if_splits\<close>)

lemma pairing_run_counts:
  assumes "pairing_run (pm, ps) es = (outs, pm', ps')"
  shows "length (filter (pairs c) outs) \<le> length (filter (issues c) outs) + (if go_has (pm_codes pm) c then 1 else 0)"
  using assms
proof (induction es arbitrary: pm ps outs)
  case (Cons e es)
  obtain out pm1 ps1 where s: "pairing_step (pm, ps) e = (out, pm1, ps1)" by (cases "pairing_step (pm, ps) e") auto
  with Cons.prems obtain outs1 where r: "pairing_run (pm1, ps1) es = (outs1, pm', ps')" and o: "outs = out # outs1"
    by (auto split: prod.splits)
  from Cons.IH [OF r] pairing_step_cases [OF s] show ?case
    by (auto simp: o go_has_def split: if_splits)
qed simp

lemma pairing_run_fresh:
  assumes "pairing_run (pm, ps) es = (a @ Paired c now # b, pm', ps')"
  shows "(\<exists>x. Issued c x \<in> set a \<and> now < x) \<or> (\<exists>x. fmlookup (pm_codes pm) c = Some x \<and> now < x)"
  using assms
proof (induction es arbitrary: pm ps a)
  case (Cons e es)
  obtain out pm1 ps1 where s: "pairing_step (pm, ps) e = (out, pm1, ps1)" by (cases "pairing_step (pm, ps) e") auto
  with Cons.prems obtain outs1 where r: "pairing_run (pm1, ps1) es = (outs1, pm', ps')"
    and o: "a @ Paired c now # b = out # outs1" by (auto split: prod.splits)
  show ?case
  proof (cases a)
    case Nil
    with o pairing_step_cases [OF s] show ?thesis by auto
  next
    case (Cons y ys)
    with o have "out = y" "outs1 = ys @ Paired c now # b" by simp_all
    with Cons.IH r have "(\<exists>x. Issued c x \<in> set ys \<and> now < x) \<or> (\<exists>x. fmlookup (pm_codes pm1) c = Some x \<and> now < x)"
      by blast
    moreover have "(\<exists>x. Issued c x \<in> set a \<and> now < x) \<or> (\<exists>x. fmlookup (pm_codes pm) c = Some x \<and> now < x)"
      if "fmlookup (pm_codes pm1) c = Some x" "now < x" for x
      using pairing_step_kept [OF s that(1)] that(2) Cons \<open>out = y\<close> by auto
    ultimately show ?thesis using Cons by auto
  qed
qed simp

lemma pairing_run_peers:
  "pairing_run (pm, ps) es = (outs, pm', ps') \<Longrightarrow>
     length (ps_peers ps') = length (ps_peers ps) + length (filter is_paired outs)"
proof (induction es arbitrary: pm ps outs)
  case (Cons e es)
  obtain out pm1 ps1 where s: "pairing_step (pm, ps) e = (out, pm1, ps1)" by (cases "pairing_step (pm, ps) e") auto
  with Cons.prems obtain outs1 where r: "pairing_run (pm1, ps1) es = (outs1, pm', ps')" and o: "outs = out # outs1"
    by (auto split: prod.splits)
  from Cons.IH [OF r] pairing_step_cases [OF s] show ?case by (auto simp: o)
qed simp

text \<open>
  C26. A pairing code admits one peer.  In every history of generations and completions,
  each code is completed at most as often as it was issued, every completion follows an
  issue that has not expired at that time, and the peer store grows by exactly one peer
  per completion: a rejected completion adds none.
\<close>

theorem pairing_code_admits_one_peer:
  assumes "pairing_run (newPairingManager maxPending, ps) es = (outs, pm', ps')"
  shows "length (filter (pairs c) outs) \<le> length (filter (issues c) outs) \<and>
    (outs = a @ Paired c now # b \<longrightarrow> (\<exists>x. Issued c x \<in> set a \<and> now < x)) \<and>
    length (ps_peers ps') = length (ps_peers ps) + length (filter is_paired outs)"
proof (intro conjI impI)
  show "length (filter (pairs c) outs) \<le> length (filter (issues c) outs)"
    using pairing_run_counts [OF assms, of c] by (simp add: newPairingManager_def)
  show "\<exists>x. Issued c x \<in> set a \<and> now < x" if "outs = a @ Paired c now # b"
    using pairing_run_fresh [OF assms [unfolded that]] by (simp add: newPairingManager_def)
  show "length (ps_peers ps') = length (ps_peers ps) + length (filter is_paired outs)"
    by (rule pairing_run_peers [OF assms])
qed

theorem pairing_code_admits_one_peer_witness:
  "\<exists>outs st. pairing_run (newPairingManager 32, empty_peers) [GenerateCode 0 (Some ''abcdef''), CompleteCode 1 ''x'' demo_peer None]
      = (outs, st) \<and> length (filter is_paired outs) = length (ps_peers (snd st))"
proof -
  let ?es = "[GenerateCode 0 (Some ''abcdef''), CompleteCode 1 ''x'' demo_peer None]"
  obtain outs pm' ps' where r: "pairing_run (newPairingManager 32, empty_peers) ?es = (outs, pm', ps')"
    by (cases "pairing_run (newPairingManager 32, empty_peers) ?es") auto
  from pairing_code_admits_one_peer [OF r] have "length (ps_peers ps') = length (filter is_paired outs)"
    by (simp add: empty_peers_def)
  with r show ?thesis by auto
qed

text \<open>The number of pending codes is bounded.\<close>

lemma pending_bounded:
  "go_len (pm_codes pm) \<le> pm_max pm \<Longrightarrow>
     go_len (pm_codes (fst (snd (pairing_step (pm, ps) e)))) \<le> pm_max (fst (snd (pairing_step (pm, ps) e)))"
proof (cases e)
  case (GenerateCode now random)
  assume "go_len (pm_codes pm) \<le> pm_max pm"
  moreover have "go_len (fmupd k v m) \<le> Suc (go_len m)" for k :: string and v :: time and m
    by (cases "go_has m k") (simp_all add: go_len_upd_new go_len_upd_old)
  ultimately show ?thesis
    using GenerateCode fm_keep_len_le [of "\<lambda>_ expires. now < expires" "pm_codes pm"]
    by (auto simp: pairing_Generate_def cleanupLocked_def Let_def not_le Suc_le_eq intro: le_trans less_imp_le
        split: option.splits) (metis Suc_leI le_trans)
next
  case (CompleteCode now code p fault)
  assume "go_len (pm_codes pm) \<le> pm_max pm"
  with CompleteCode go_len_drop_le [of _ "pm_codes pm"] show ?thesis
    by (auto simp: pairing_Complete_def Let_def split: option.splits prod.splits bool.splits intro: le_trans)
qed

end
