(* ===== verification/PeerHub.thy ===== *)
theory PeerHub
  imports PeerManager Pairing ToolTracker
begin

text \<open>
  The hub's side of the peer protocol (\<open>pkg/peer/handler.go\<close>): authentication by a signed
  challenge, negotiation, activation, the dispatch of a peer's messages and the pairing
  endpoint, composed into a transition system of a hub with any number of peers.  Decoding
  of JSON payloads and the signature check are arguments.
\<close>

subsection \<open>Message types\<close>

definition MsgAuth :: string where "MsgAuth = ''auth''"
definition MsgHello :: string where "MsgHello = ''runtime-hello''"
definition MsgStateUpdate :: string where "MsgStateUpdate = ''state-update''"
definition MsgStateEvent :: string where "MsgStateEvent = ''state-event''"
definition MsgToolEvent :: string where "MsgToolEvent = ''tool-event''"
definition MsgActivityUpdate :: string where "MsgActivityUpdate = ''activity-update''"
definition MsgStats :: string where "MsgStats = ''stats''"
definition MsgRuntimeError :: string where "MsgRuntimeError = ''runtime-error''"
definition MsgRuntimeAck :: string where "MsgRuntimeAck = ''runtime-ack''"
definition MsgRuntimeResult :: string where "MsgRuntimeResult = ''runtime-result''"

lemmas msg_types = MsgAuth_def MsgHello_def MsgStateUpdate_def MsgStateEvent_def MsgToolEvent_def
  MsgActivityUpdate_def MsgStats_def MsgRuntimeError_def MsgRuntimeAck_def MsgRuntimeResult_def

text \<open>
  The decoders give \<open>None\<close> when \<open>json.Unmarshal\<close> fails; an authentication payload is the
  pair of its public key and signature, a state update the pair of sessions and version.
\<close>

record 's peer_codec =
  dec_auth :: "string \<Rightarrow> (string \<times> string) option"
  dec_hello :: "string \<Rightarrow> HelloPayload option"
  dec_ack :: "string \<Rightarrow> RuntimeAck option"
  dec_result :: "string \<Rightarrow> RuntimeResult option"
  dec_error :: "string \<Rightarrow> RuntimeError option"
  dec_state :: "string \<Rightarrow> (TSession option list \<times> string) option"
  dec_event :: "string \<Rightarrow> (string \<times> string) option"
  dec_tool :: "string \<Rightarrow> Event option option"
  dec_activity :: "string \<Rightarrow> activity_snapshot option list option"
  dec_stats :: "string \<Rightarrow> 's option option"

record 's hub =
  hb_mgr :: "'s manager"
  hb_tracker :: tracker
  hb_pairing :: pairing_manager
  hb_next :: nat
  hb_owner :: "(nat, Peer \<times> string) fmap"

subsection \<open>The handshake\<close>

datatype hub_failure = AuthFail string | RuntimeFailure error_code string

definition hub_authenticate :: "(string \<Rightarrow> string \<Rightarrow> string \<Rightarrow> bool) \<Rightarrow> 's peer_codec \<Rightarrow> string \<Rightarrow> Message \<Rightarrow> peer_store
    \<Rightarrow> hub_failure + Peer" where
  "hub_authenticate check dec challenge authMsg peerStore =
     (if msg_type authMsg \<noteq> MsgAuth then Inl (AuthFail ''expected auth message'')
      else case dec_auth dec (msg_payload authMsg) of
        None \<Rightarrow> Inl (AuthFail ''invalid auth payload'')
      | Some (publicKey, sig64) \<Rightarrow>
          (case GetByPublicKey publicKey peerStore of
             None \<Rightarrow> Inl (AuthFail ''unknown peer'')
           | Some peer \<Rightarrow>
               (case ParseSignature sig64 of
                  Inl _ \<Rightarrow> Inl (AuthFail ''invalid signature encoding'')
                | Inr signature \<Rightarrow>
                    if \<not> Verify check publicKey challenge signature then Inl (AuthFail ''invalid signature'')
                    else Inr peer)))"

text \<open>
  Negotiation reserves a generation and builds the connection; it is not yet visible to
  the registry.  \<open>hub_owner\<close> keeps the peer and the build version for the activation.
\<close>

definition hub_negotiate :: "'s peer_codec \<Rightarrow> string \<Rightarrow> Peer \<Rightarrow> Message \<Rightarrow> 's hub \<Rightarrow> (hub_failure + nat) \<times> 's hub" where
  "hub_negotiate dec version peer helloMessage hub =
     (if msg_type helloMessage \<noteq> MsgHello
      then (Inl (RuntimeFailure ErrorProtocolIncompatible ''runtime hello required before activation''), hub)
      else case dec_hello dec (msg_payload helloMessage) of
        None \<Rightarrow> (Inl (RuntimeFailure ErrorProtocolIncompatible ''invalid runtime hello''), hub)
      | Some hello \<Rightarrow>
          (case ReserveGeneration (peer_Fingerprint peer) (hb_mgr hub) of
             (generation, mgr) \<Rightarrow>
               (case NegotiateHello hello generation version of
                  Inl _ \<Rightarrow> (Inl (RuntimeFailure ErrorProtocolIncompatible ''no compatible runtime protocol''), hub\<lparr>hb_mgr := mgr, hb_next := Suc (hb_next hub)\<rparr>)
                | Inr ack \<Rightarrow>
                    (let c = hb_next hub;
                         conn = newPeerConnection (peer_Fingerprint peer) generation (a_Capabilities ack)
                           (h_AgentInstanceID hello) 64
                     in (Inr c, hub\<lparr>hb_mgr := mgr\<lparr>m_conns := fmupd c conn (m_conns mgr)\<rparr>, hb_next := Suc c,
                           hb_owner := fmupd c (peer, h_BuildVersion hello) (hb_owner hub)\<rparr>)))))"

definition hub_connect :: "(string \<Rightarrow> string \<Rightarrow> string \<Rightarrow> bool) \<Rightarrow> 's peer_codec \<Rightarrow> string \<Rightarrow> string \<Rightarrow> Message \<Rightarrow> Message
    \<Rightarrow> 's hub \<Rightarrow> (hub_failure + nat) \<times> 's hub" where
  "hub_connect check dec version challenge authMsg helloMessage hub =
     (case m_peerStore (hb_mgr hub) of
        None \<Rightarrow> (Inl (AuthFail ''unknown peer''), hub)
      | Some ps \<Rightarrow>
          (case hub_authenticate check dec challenge authMsg ps of
             Inl failure \<Rightarrow> (Inl failure, hub)
           | Inr peer \<Rightarrow> hub_negotiate dec version peer helloMessage hub))"

definition hub_admit :: "time \<Rightarrow> nat \<Rightarrow> 's hub \<Rightarrow> hub_failure option \<times> 's hub" where
  "hub_admit now c hub =
     (case fmlookup (hb_owner hub) c of
        None \<Rightarrow> (None, hub)
      | Some (peer, build) \<Rightarrow>
          (let peerID = peer_Fingerprint peer in
           case ActivateAuthorizedPeer now peerID (peer_Name peer) (peer_PublicKey peer) c (hb_mgr hub) of
             (False, m) \<Rightarrow> (Some (RuntimeFailure ErrorStaleGeneration ''newer connection already active''), hub\<lparr>hb_mgr := m\<rparr>)
           | (True, m) \<Rightarrow> (None, hub\<lparr>hb_mgr := UpdatePeerVersion now peerID build m\<rparr>)))"

text \<open>The deferred end of \<open>HandlePeer\<close>.\<close>

definition hub_leave :: "time \<Rightarrow> nat \<Rightarrow> 's hub \<Rightarrow> 's hub" where
  "hub_leave now c hub =
     (case fmlookup (m_conns (hb_mgr hub)) c of
        None \<Rightarrow> hub
      | Some k \<Rightarrow> hub\<lparr>hb_mgr := close_conn ErrorPeerOffline (Some c)
          (snd (UnregisterPeerGeneration now (pc_HostID k) (pc_Generation k) (hb_mgr hub)))\<rparr>)"

subsection \<open>A peer's messages\<close>

definition getPeerSessions :: "string \<Rightarrow> 's manager \<Rightarrow> TSession option list" where
  "getPeerSessions peerID m = (case fmlookup (m_hosts m) peerID of None \<Rightarrow> [] | Some h \<Rightarrow> hst_Sessions h)"

definition on_requests :: "nat \<Rightarrow> (request_tracker \<Rightarrow> request_tracker) \<Rightarrow> 's hub \<Rightarrow> 's hub" where
  "on_requests c f hub =
     (case fmlookup (m_conns (hb_mgr hub)) c of
        None \<Rightarrow> hub
      | Some k \<Rightarrow> hub\<lparr>hb_mgr := (hb_mgr hub)\<lparr>m_conns :=
          fmupd c (k\<lparr>pc_requests := f (pc_requests k)\<rparr>) (m_conns (hb_mgr hub))\<rparr>\<rparr>)"

definition on_manager :: "('s manager \<Rightarrow> 's manager) \<Rightarrow> 's hub \<Rightarrow> 's hub" where
  "on_manager f hub = hub\<lparr>hb_mgr := f (hb_mgr hub)\<rparr>"

text \<open>
  The result \<open>None\<close> is a panic: stamping a snapshot that the peer sent as \<open>null\<close>
  dereferences \<open>nil\<close>.
\<close>

definition handlePeerMessage :: "'s peer_codec \<Rightarrow> time \<Rightarrow> string \<Rightarrow> nat \<Rightarrow> Message \<Rightarrow> 's hub \<Rightarrow> 's hub option" where
  "handlePeerMessage dec now peerID c msg hub =
     (if \<not> IsCurrent c (hb_mgr hub) then Some hub
      else if msg_type msg = MsgRuntimeAck then Some hub
      else if msg_type msg = MsgRuntimeResult then
        (case dec_result dec (msg_payload msg) of
           None \<Rightarrow> Some hub | Some r \<Rightarrow> Some (on_requests c (\<lambda>t. snd (CompleteResult r t)) hub))
      else if msg_type msg = MsgRuntimeError then
        (case dec_error dec (msg_payload msg) of
           None \<Rightarrow> Some hub
         | Some e \<Rightarrow> Some (if e_RequestID e \<noteq> [] then on_requests c (\<lambda>t. snd (CompleteError e t)) hub else hub))
      else if msg_type msg = MsgStateUpdate then
        (case dec_state dec (msg_payload msg) of
           None \<Rightarrow> Some hub
         | Some (sessions, version) \<Rightarrow>
             (let updated = on_manager (UpdatePeerSessions now peerID sessions) hub in
              Some (if version \<noteq> [] then on_manager (UpdatePeerVersion now peerID version) updated else updated)))
      else if msg_type msg = MsgStateEvent then
        (case dec_event dec (msg_payload msg) of
           None \<Rightarrow> Some hub
         | Some _ \<Rightarrow> Some (on_manager (\<lambda>m. UpdatePeerSessions now peerID (getPeerSessions peerID m) m) hub))
      else if msg_type msg = MsgToolEvent then
        (case dec_tool dec (msg_payload msg) of
           None \<Rightarrow> Some hub
         | Some None \<Rightarrow> Some hub
         | Some (Some e) \<Rightarrow> Some (hub\<lparr>hb_tracker := tracker_record now
             (e\<lparr>ev_host := peerID, ev_host_name := GetHostName peerID (hb_mgr hub)\<rparr>) (hb_tracker hub)\<rparr>))
      else if msg_type msg = MsgActivityUpdate then
        (case dec_activity dec (msg_payload msg) of
           None \<Rightarrow> Some hub
         | Some snapshots \<Rightarrow>
             if None \<in> set snapshots then None
             else Some (on_manager (UpdatePeerActivity now peerID
                    (map (map_option (\<lambda>s. s\<lparr>as_host := peerID\<rparr>)) snapshots)) hub))
      else if msg_type msg = MsgStats then
        (case dec_stats dec (msg_payload msg) of
           None \<Rightarrow> Some hub | Some stats \<Rightarrow> Some (on_manager (UpdatePeerStats now peerID stats) hub))
      else Some hub)"

subsection \<open>Pairing\<close>

record pair_request =
  pq_Code :: string
  pq_Name :: string
  pq_PublicKey :: string
  pq_Version :: int
  pq_Signature :: string

text \<open>
  The status of the response; \<open>None\<close> as request is a body that does not decode.  The server
  always gives the handler a peer store; the branch without one is not reached.
\<close>

definition pair_request_ok :: "(string \<Rightarrow> string \<Rightarrow> string \<Rightarrow> bool) \<Rightarrow> string \<Rightarrow> pair_request \<Rightarrow> string option" where
  "pair_request_ok check publicURL req =
     (case NormalizeName (pq_Name req) of
        Inl _ \<Rightarrow> None
      | Inr name \<Rightarrow>
          (case (ParsePublicKey (pq_PublicKey req), ParseSignature (pq_Signature req)) of
             (Inr publicKey, Inr signature) \<Rightarrow>
               if pq_Version req \<noteq> int PairingVersion \<or> pq_Code req = [] \<or>
                  \<not> Verify check (pq_PublicKey req) (PairingTranscript publicURL (pq_Code req) name (pq_PublicKey req)) signature \<or>
                  publicKey = []
               then None else Some name
           | _ \<Rightarrow> None))"

definition HandlePairing :: "(string \<Rightarrow> string \<Rightarrow> string \<Rightarrow> bool) \<Rightarrow> string \<Rightarrow> stage option \<Rightarrow> time \<Rightarrow> pair_request option
    \<Rightarrow> 's hub \<Rightarrow> int \<times> 's hub" where
  "HandlePairing check publicURL fault now request hub =
     (case request of
        None \<Rightarrow> (400, hub)
      | Some req \<Rightarrow>
          (case pair_request_ok check publicURL req of
             None \<Rightarrow> (401, hub)
           | Some name \<Rightarrow>
               (case m_peerStore (hb_mgr hub) of
                  None \<Rightarrow> (401, hub)
                | Some ps \<Rightarrow>
                    (case pairing_Complete now (pq_Code req)
                        (add_commit fault \<lparr>peer_Name = name, peer_PublicKey = pq_PublicKey req, peer_PairedAt = now\<rparr>)
                        (hb_pairing hub, ps) of
                       (e, pm, ps') \<Rightarrow>
                         ((if e = None then 200 else 401),
                          hub\<lparr>hb_pairing := pm, hb_mgr := (hb_mgr hub)\<lparr>m_peerStore := Some ps'\<rparr>\<rparr>)))))"

subsection \<open>The hub as a transition system\<close>

text \<open>
  One event is one turn of a goroutine: a handshake up to the acknowledgement, an
  activation, a message received (a panic ends the handler, which runs its deferred end),
  the end of a handler, a revocation, a pairing request, a message submitted to a
  connection, a turn of its writer, a pruning turn.
\<close>

datatype hub_event =
    Arrive string Message Message
  | Admit time nat
  | Receive time nat Message
  | Leave time nat
  | Revoke "stage option" string
  | Pair "stage option" time "pair_request option"
  | Submit nat bool bool "Message option"
  | WriterTurn nat bool
  | Prune time

definition on_conn :: "nat \<Rightarrow> (connection \<Rightarrow> connection) \<Rightarrow> 's hub \<Rightarrow> 's hub" where
  "on_conn c f hub =
     (case fmlookup (m_conns (hb_mgr hub)) c of
        None \<Rightarrow> hub
      | Some k \<Rightarrow> hub\<lparr>hb_mgr := (hb_mgr hub)\<lparr>m_conns := fmupd c (f k) (m_conns (hb_mgr hub))\<rparr>\<rparr>)"

record 's hub_env =
  env_check :: "string \<Rightarrow> string \<Rightarrow> string \<Rightarrow> bool"
  env_codec :: "'s peer_codec"
  env_version :: string
  env_url :: string

fun hub_step :: "'s hub_env \<Rightarrow> 's hub \<Rightarrow> hub_event \<Rightarrow> 's hub" where
  "hub_step env hub (Arrive challenge authMsg helloMsg) =
     snd (hub_connect (env_check env) (env_codec env) (env_version env) challenge authMsg helloMsg hub)"
| "hub_step env hub (Admit now c) = snd (hub_admit now c hub)"
| "hub_step env hub (Receive now c msg) =
     (case fmlookup (m_conns (hb_mgr hub)) c of
        None \<Rightarrow> hub
      | Some k \<Rightarrow> (case handlePeerMessage (env_codec env) now (pc_HostID k) c msg hub of
          None \<Rightarrow> hub_leave now c hub | Some hub' \<Rightarrow> hub'))"
| "hub_step env hub (Leave now c) = hub_leave now c hub"
| "hub_step env hub (Revoke fault name) = on_manager (\<lambda>m. snd (RevokePeer fault name m)) hub"
| "hub_step env hub (Pair fault now request) = snd (HandlePairing (env_check env) (env_url env) fault now request hub)"
| "hub_step env hub (Submit c ctx_done pick m) = on_conn c (\<lambda>k. snd (Send ctx_done pick m k)) hub"
| "hub_step env hub (WriterTurn c ok) =
     (if c |\<in>| m_started (hb_mgr hub) then on_conn c (write_one ok) hub else hub)"
| "hub_step env hub (Prune now) = on_manager (pruneOffline now) hub"

definition hub_init :: "time \<Rightarrow> string \<Rightarrow> identity \<Rightarrow> peer_store \<Rightarrow> nat \<Rightarrow> 's hub" where
  "hub_init now version ident ps maxPending =
     \<lparr>hb_mgr = NewHubManager now version ident (Some ps), hb_tracker = NewTracker,
      hb_pairing = newPairingManager maxPending, hb_next = 0, hb_owner = fmempty\<rparr>"

text \<open>A writer whose write fails closes its connection; then the connection is still the current one.\<close>

definition conn_ok :: "'s hub \<Rightarrow> nat \<Rightarrow> connection \<Rightarrow> bool" where
  "conn_ok hub c k =
     (c < hb_next hub \<and> (\<exists>peer build. fmlookup (hb_owner hub) c = Some (peer, build) \<and> pc_HostID k = peer_Fingerprint peer) \<and>
      0 < unat (pc_Generation k) \<and> unat (pc_Generation k) \<le> unat (go_get 0 (m_generations (hb_mgr hub)) (pc_HostID k)))"

definition host_ok :: "'s manager \<Rightarrow> string \<Rightarrow> 's HostState \<Rightarrow> bool" where
  "host_ok m i h =
     (case hst_Conn h of
        None \<Rightarrow> True
      | Some c \<Rightarrow> hst_Connected h \<and> c |\<in>| m_started m \<and> authorized (hst_PublicKey h) m \<and>
          Fingerprint (hst_PublicKey h) = i \<and>
          (\<exists>k. fmlookup (m_conns m) c = Some k \<and> pc_HostID k = i \<and> pc_Generation k = hst_Generation h))"

definition hub_ok :: "'s hub \<Rightarrow> bool" where
  "hub_ok hub =
     (let m = hb_mgr hub in
      (\<forall>i. unat (go_get 0 (m_generations m) i) \<le> hb_next hub) \<and>
      (\<forall>c k. fmlookup (m_conns m) c = Some k \<longrightarrow> conn_ok hub c k) \<and>
      (\<forall>c k c' k'. fmlookup (m_conns m) c = Some k \<and> fmlookup (m_conns m) c' = Some k' \<and>
         pc_HostID k = pc_HostID k' \<and> pc_Generation k = pc_Generation k' \<longrightarrow> c = c') \<and>
      (\<forall>i h. fmlookup (m_hosts m) i = Some h \<longrightarrow> host_ok m i h) \<and>
      (\<forall>c k. fmlookup (m_conns m) c = Some k \<and> c |\<in>| m_started m \<and> \<not> pc_closed k \<longrightarrow> IsCurrent c m) \<and>
      (\<exists>ps. m_peerStore m = Some ps \<and> peer_inv ps) \<and>
      (\<forall>c. c |\<in>| m_started m \<longrightarrow> go_has (m_conns m) c))"

text \<open>The generation counter of a host wraps round after \<open>2 ^ 64\<close> reservations.\<close>

definition hub_inv :: "'s hub \<Rightarrow> bool" where
  "hub_inv hub = (hb_next hub < 2 ^ 64 \<longrightarrow> hub_ok hub)"

subsection \<open>The invariant is kept\<close>

definition same_conn :: "connection \<Rightarrow> connection \<Rightarrow> bool" where
  "same_conn k k' = (pc_HostID k' = pc_HostID k \<and> pc_Generation k' = pc_Generation k \<and> (pc_closed k \<longrightarrow> pc_closed k'))"

definition same_host :: "'s HostState \<Rightarrow> 's HostState \<Rightarrow> bool" where
  "same_host h h' = (hst_Conn h' = hst_Conn h \<and> hst_Connected h' = hst_Connected h \<and>
     hst_PublicKey h' = hst_PublicKey h \<and> hst_Generation h' = hst_Generation h)"

lemma same_conn_refl [simp]: "same_conn k k"
  by (simp add: same_conn_def)

lemma same_host_refl [simp]: "same_host h h"
  by (simp add: same_host_def)

lemma conns_same [simp]: "rel_option same_conn x x"
  by (cases x) simp_all

lemma hub_okD:
  assumes "hub_ok hub"
  shows "unat (go_get 0 (m_generations (hb_mgr hub)) i) \<le> hb_next hub"
    and "fmlookup (m_conns (hb_mgr hub)) c = Some k \<Longrightarrow> conn_ok hub c k"
    and "\<lbrakk>fmlookup (m_conns (hb_mgr hub)) c = Some k; fmlookup (m_conns (hb_mgr hub)) c' = Some k';
         pc_HostID k = pc_HostID k'; pc_Generation k = pc_Generation k'\<rbrakk> \<Longrightarrow> c = c'"
    and "fmlookup (m_hosts (hb_mgr hub)) i = Some h \<Longrightarrow> host_ok (hb_mgr hub) i h"
    and "\<lbrakk>fmlookup (m_conns (hb_mgr hub)) c = Some k; c |\<in>| m_started (hb_mgr hub); \<not> pc_closed k\<rbrakk> \<Longrightarrow>
         IsCurrent c (hb_mgr hub)"
    and "\<exists>ps. m_peerStore (hb_mgr hub) = Some ps \<and> peer_inv ps"
    and "c |\<in>| m_started (hb_mgr hub) \<Longrightarrow> go_has (m_conns (hb_mgr hub)) c"
  using assms unfolding hub_ok_def Let_def by blast+

lemma hub_okI:
  assumes "\<And>i. unat (go_get 0 (m_generations (hb_mgr hub)) i) \<le> hb_next hub"
    and "\<And>c k. fmlookup (m_conns (hb_mgr hub)) c = Some k \<Longrightarrow> conn_ok hub c k"
    and "\<And>c k c' k'. \<lbrakk>fmlookup (m_conns (hb_mgr hub)) c = Some k; fmlookup (m_conns (hb_mgr hub)) c' = Some k';
         pc_HostID k = pc_HostID k'; pc_Generation k = pc_Generation k'\<rbrakk> \<Longrightarrow> c = c'"
    and "\<And>i h. fmlookup (m_hosts (hb_mgr hub)) i = Some h \<Longrightarrow> host_ok (hb_mgr hub) i h"
    and "\<And>c k. \<lbrakk>fmlookup (m_conns (hb_mgr hub)) c = Some k; c |\<in>| m_started (hb_mgr hub); \<not> pc_closed k\<rbrakk> \<Longrightarrow>
         IsCurrent c (hb_mgr hub)"
    and "\<exists>ps. m_peerStore (hb_mgr hub) = Some ps \<and> peer_inv ps"
    and "\<And>c. c |\<in>| m_started (hb_mgr hub) \<Longrightarrow> go_has (m_conns (hb_mgr hub)) c"
  shows "hub_ok hub"
  unfolding hub_ok_def Let_def using assms by blast

lemma rel_someD:
  assumes "rel_option same_conn x y" and "y = Some k'"
  shows "\<exists>k. x = Some k \<and> pc_HostID k' = pc_HostID k \<and> pc_Generation k' = pc_Generation k \<and> (pc_closed k \<longrightarrow> pc_closed k')"
  using assms by (cases x) (auto simp: same_conn_def)

text \<open>Every step but a handshake leaves the connections' identities as they are.\<close>

lemma hub_ok_evolve:
  assumes ok: "hub_ok hub"
    and keep: "hb_next hub' = hb_next hub" "hb_owner hub' = hb_owner hub"
      "m_generations (hb_mgr hub') = m_generations (hb_mgr hub)"
    and conns: "\<And>c. rel_option same_conn (fmlookup (m_conns (hb_mgr hub)) c) (fmlookup (m_conns (hb_mgr hub')) c)"
    and hosts: "\<And>i h. fmlookup (m_hosts (hb_mgr hub')) i = Some h \<Longrightarrow> host_ok (hb_mgr hub') i h"
    and live: "\<And>c k. \<lbrakk>fmlookup (m_conns (hb_mgr hub')) c = Some k; c |\<in>| m_started (hb_mgr hub'); \<not> pc_closed k\<rbrakk> \<Longrightarrow>
      IsCurrent c (hb_mgr hub')"
    and store: "\<exists>ps. m_peerStore (hb_mgr hub') = Some ps \<and> peer_inv ps"
    and born: "\<And>c. c |\<in>| m_started (hb_mgr hub') \<Longrightarrow> c |\<in>| m_started (hb_mgr hub) \<or> go_has (m_conns (hb_mgr hub)) c"
  shows "hub_ok hub'"
proof (rule hub_okI)
  show "unat (go_get 0 (m_generations (hb_mgr hub')) i) \<le> hb_next hub'" for i
    using hub_okD(1) [OF ok] by (simp add: keep)
  show "conn_ok hub' c k'" if "fmlookup (m_conns (hb_mgr hub')) c = Some k'" for c k'
  proof -
    from rel_someD [OF conns that] obtain k where k: "fmlookup (m_conns (hb_mgr hub)) c = Some k"
      "pc_HostID k' = pc_HostID k" "pc_Generation k' = pc_Generation k" by blast
    from hub_okD(2) [OF ok k(1)] k(2,3) show ?thesis by (simp add: conn_ok_def keep)
  qed
  show "c = c'" if "fmlookup (m_conns (hb_mgr hub')) c = Some k" "fmlookup (m_conns (hb_mgr hub')) c' = Some k'"
    "pc_HostID k = pc_HostID k'" "pc_Generation k = pc_Generation k'" for c k c' k'
    using rel_someD [OF conns that(1)] rel_someD [OF conns that(2)] hub_okD(3) [OF ok] that(3,4) by metis
  show "go_has (m_conns (hb_mgr hub')) c" if "c |\<in>| m_started (hb_mgr hub')" for c
  proof -
    from born [OF that] hub_okD(7) [OF ok] have "go_has (m_conns (hb_mgr hub)) c" by blast
    with conns [of c] show ?thesis by (cases "fmlookup (m_conns (hb_mgr hub')) c") (auto simp: go_has_def)
  qed
qed (rule hosts live store; assumption)+

lemma host_ok_same:
  assumes h: "host_ok m i h" and s: "same_host h h'"
    and conns: "\<And>c. rel_option same_conn (fmlookup (m_conns m) c) (fmlookup (m_conns m') c)"
    and started: "m_started m |\<subseteq>| m_started m'"
    and auth: "authorized (hst_PublicKey h) m \<Longrightarrow> authorized (hst_PublicKey h) m'"
  shows "host_ok m' i h'"
proof (cases "hst_Conn h")
  case None
  with s show ?thesis by (simp add: host_ok_def same_host_def)
next
  case (Some c)
  from h Some obtain k where k: "fmlookup (m_conns m) c = Some k" "pc_HostID k = i" "pc_Generation k = hst_Generation h"
    and o: "hst_Connected h" "c |\<in>| m_started m" "authorized (hst_PublicKey h) m" "Fingerprint (hst_PublicKey h) = i"
    by (auto simp: host_ok_def)
  from conns [of c] k obtain k' where "fmlookup (m_conns m') c = Some k'" "pc_HostID k' = i" "pc_Generation k' = hst_Generation h"
    by (cases "fmlookup (m_conns m') c") (auto simp: same_conn_def)
  with o s Some started auth show ?thesis by (auto simp: host_ok_def same_host_def)
qed

lemma IsCurrent_iff:
  "IsCurrent c m = (\<exists>k h. fmlookup (m_conns m) c = Some k \<and> fmlookup (m_hosts m) (pc_HostID k) = Some h \<and>
     hst_Conn h = Some c \<and> hst_Generation h = pc_Generation k)"
  by (auto simp: IsCurrent_def split: option.splits)

text \<open>Steps that write no connection of the registry: all hosts stay as they are in what matters.\<close>

lemma hub_ok_frame:
  assumes ok: "hub_ok hub"
    and keep: "hb_next hub' = hb_next hub" "hb_owner hub' = hb_owner hub"
      "m_generations (hb_mgr hub') = m_generations (hb_mgr hub)" "m_started (hb_mgr hub') = m_started (hb_mgr hub)"
    and conns: "\<And>c. rel_option same_conn (fmlookup (m_conns (hb_mgr hub)) c) (fmlookup (m_conns (hb_mgr hub')) c)"
    and hosts: "\<And>i. rel_option same_host (fmlookup (m_hosts (hb_mgr hub)) i) (fmlookup (m_hosts (hb_mgr hub')) i)"
    and auth: "\<And>pk. authorized pk (hb_mgr hub) \<Longrightarrow> authorized pk (hb_mgr hub')"
    and store: "\<exists>ps. m_peerStore (hb_mgr hub') = Some ps \<and> peer_inv ps"
  shows "hub_ok hub'"
proof (rule hub_ok_evolve [OF ok keep(1-3) conns])
  show "host_ok (hb_mgr hub') i h'" if "fmlookup (m_hosts (hb_mgr hub')) i = Some h'" for i h'
  proof -
    from hosts [of i] that obtain h where h: "fmlookup (m_hosts (hb_mgr hub)) i = Some h" "same_host h h'"
      by (cases "fmlookup (m_hosts (hb_mgr hub)) i") auto
    from host_ok_same [OF hub_okD(4) [OF ok h(1)] h(2) conns _ auth] show ?thesis by (simp add: keep)
  qed
  show "IsCurrent c (hb_mgr hub')"
    if k': "fmlookup (m_conns (hb_mgr hub')) c = Some k'" "c |\<in>| m_started (hb_mgr hub')" "\<not> pc_closed k'" for c k'
  proof -
    from rel_someD [OF conns k'(1)] obtain k where k: "fmlookup (m_conns (hb_mgr hub)) c = Some k"
      and kk: "pc_HostID k' = pc_HostID k" "pc_Generation k' = pc_Generation k" "pc_closed k \<longrightarrow> pc_closed k'" by blast
    from hub_okD(5) [OF ok k] k'(2,3) kk(3) keep(4) have "IsCurrent c (hb_mgr hub)" by simp
    with k obtain h where h: "fmlookup (m_hosts (hb_mgr hub)) (pc_HostID k) = Some h" "hst_Conn h = Some c"
      "hst_Generation h = pc_Generation k" by (auto simp: IsCurrent_iff)
    from hosts [of "pc_HostID k"] h show ?thesis
      using k'(1) kk by (cases "fmlookup (m_hosts (hb_mgr hub')) (pc_HostID k)") (auto simp: IsCurrent_iff same_host_def)
  qed
qed (use store keep(4) in simp_all)

lemma hosts_same [simp]: "rel_option same_host x x"
  by (cases x) simp_all

lemma update_host_fields [simp]:
  "m_conns (update_host now i f kind m) = m_conns m" "m_peerStore (update_host now i f kind m) = m_peerStore m"
  "m_generations (update_host now i f kind m) = m_generations m" "m_started (update_host now i f kind m) = m_started m"
  by (auto simp: update_host_def Let_def split: option.splits)

lemma update_host_hosts:
  assumes "\<And>h. same_host h (f h)"
  shows "rel_option same_host (fmlookup (m_hosts m) j) (fmlookup (m_hosts (update_host now i f kind m)) j)"
  using assms by (auto simp: update_host_def Let_def same_host_def split: option.splits)

lemma update_host_ok:
  assumes ok: "hub_ok hub" and f: "\<And>h. same_host h (f h)"
  shows "hub_ok (on_manager (update_host now i f kind) hub)"
  by (rule hub_ok_frame [OF ok])
    (simp_all add: on_manager_def update_host_hosts [OF f] authorized_def hub_okD(6) [OF ok])

lemma on_conn_ok:
  assumes ok: "hub_ok hub" and f: "\<And>k. same_conn k (f k)"
  shows "hub_ok (on_conn c f hub)"
proof (rule hub_ok_frame [OF ok])
  show "rel_option same_conn (fmlookup (m_conns (hb_mgr hub)) i) (fmlookup (m_conns (hb_mgr (on_conn c f hub))) i)" for i
    using f by (auto simp: on_conn_def split: option.splits)
qed (auto simp: on_conn_def authorized_def hub_okD(6) [OF ok] split: option.splits)

lemma on_requests_conn: "on_requests c f hub = on_conn c (\<lambda>k. k\<lparr>pc_requests := f (pc_requests k)\<rparr>) hub"
  by (simp add: on_requests_def on_conn_def)

lemma updates_same [simp]:
  "same_host h (h\<lparr>hst_Sessions := a\<rparr>)" "same_host h (h\<lparr>hst_Version := v\<rparr>)" "same_host h (h\<lparr>hst_Stats := s\<rparr>)"
  "same_host h (h\<lparr>hst_Activity := t\<rparr>)" "same_conn k (k\<lparr>pc_requests := r\<rparr>)"
  by (simp_all add: same_host_def same_conn_def)

lemma tracker_write_ok: "hub_ok hub \<Longrightarrow> hub_ok (hub\<lparr>hb_tracker := t\<rparr>)"
  by (rule hub_ok_frame [of hub]) (simp_all add: hub_okD(6))

text \<open>A syntax-directed way through the branches of a handler.\<close>

definition holds_after :: "('a \<Rightarrow> bool) \<Rightarrow> 'a option \<Rightarrow> bool" where
  "holds_after P r = (\<forall>x. r = Some x \<longrightarrow> P x)"

lemma holds_after_intros:
  "P x \<Longrightarrow> holds_after P (Some x)"
  "holds_after P None"
  "\<lbrakk>b \<Longrightarrow> holds_after P r; \<not> b \<Longrightarrow> holds_after P s\<rbrakk> \<Longrightarrow> holds_after P (if b then r else s)"
  "\<lbrakk>holds_after P r; \<And>v. holds_after P (f v)\<rbrakk> \<Longrightarrow> holds_after P (case z of None \<Rightarrow> r | Some v \<Rightarrow> f v)"
  "(\<And>u v. holds_after P (g u v)) \<Longrightarrow> holds_after P (case y of (u, v) \<Rightarrow> g u v)"
  by (auto simp: holds_after_def split: option.splits prod.splits)

lemma holds_if: "\<lbrakk>b \<Longrightarrow> P x; \<not> b \<Longrightarrow> P y\<rbrakk> \<Longrightarrow> P (if b then x else y)"
  by simp

lemma report_ok:
  "hub_ok hub \<Longrightarrow> hub_ok (on_manager (UpdatePeerSessions now i ss) hub)"
  "hub_ok hub \<Longrightarrow> hub_ok (on_manager (UpdatePeerVersion now i v) hub)"
  "hub_ok hub \<Longrightarrow> hub_ok (on_manager (UpdatePeerStats now i st) hub)"
  "hub_ok hub \<Longrightarrow> hub_ok (on_manager (UpdatePeerActivity now i as) hub)"
  "hub_ok hub \<Longrightarrow> hub_ok (on_manager (\<lambda>m. UpdatePeerSessions now i (getPeerSessions i m) m) hub)"
  "hub_ok hub \<Longrightarrow> hub_ok (on_requests c f hub)"
proof -
  assume ok: "hub_ok hub"
  show "hub_ok (on_manager (UpdatePeerSessions now i ss) hub)" "hub_ok (on_manager (UpdatePeerVersion now i v) hub)"
    "hub_ok (on_manager (UpdatePeerStats now i st) hub)" "hub_ok (on_manager (UpdatePeerActivity now i as) hub)"
    unfolding UpdatePeerSessions_def UpdatePeerVersion_def UpdatePeerStats_def UpdatePeerActivity_def
    by (rule update_host_ok [OF ok]; simp)+
  show "hub_ok (on_manager (\<lambda>m. UpdatePeerSessions now i (getPeerSessions i m) m) hub)"
    using update_host_ok [OF ok, of "\<lambda>x. x\<lparr>hst_Sessions := getPeerSessions i (hb_mgr hub)\<rparr>"]
    by (simp add: on_manager_def UpdatePeerSessions_def)
  show "hub_ok (on_requests c f hub)"
    unfolding on_requests_conn by (rule on_conn_ok [OF ok]) simp
qed

lemma receive_ok:
  assumes ok: "hub_ok hub"
  shows "holds_after hub_ok (handlePeerMessage dec now peerID c msg hub)"
  unfolding handlePeerMessage_def Let_def
  by (intro holds_after_intros holds_if [of _ hub_ok] report_ok tracker_write_ok ok)

lemma gone_host_ok: "host_ok m i (gone_host now h)"
  by (simp add: host_ok_def gone_host_def)

lemma leave_ok:
  assumes ok: "hub_ok hub"
  shows "hub_ok (hub_leave now c hub)"
proof (cases "fmlookup (m_conns (hb_mgr hub)) c")
  case None
  with ok show ?thesis by (simp add: hub_leave_def)
next
  case (Some k)
  let ?m = "hb_mgr hub" and ?i = "pc_HostID k"
  let ?m' = "snd (UnregisterPeerGeneration now ?i (pc_Generation k) ?m)"
  have hub': "hub_leave now c hub = hub\<lparr>hb_mgr := close_conn ErrorPeerOffline (Some c) ?m'\<rparr>"
    by (simp add: hub_leave_def Some)
  have same: "m_conns ?m' = m_conns ?m" "m_peerStore ?m' = m_peerStore ?m"
    "m_generations ?m' = m_generations ?m" "m_started ?m' = m_started ?m"
    by (auto simp: UnregisterPeerGeneration_def split: option.splits)
  have hosts: "fmlookup (m_hosts ?m') j =
      (case fmlookup (m_hosts ?m) j of
         None \<Rightarrow> None
       | Some h \<Rightarrow> Some (if j = ?i \<and> hst_Generation h = pc_Generation k then gone_host now h else h))" for j
    by (auto simp: UnregisterPeerGeneration_def split: option.splits)
  have conns: "rel_option same_conn (fmlookup (m_conns ?m) j) (fmlookup (m_conns (close_conn ErrorPeerOffline (Some c) ?m')) j)" for j
    by (auto simp: close_conn_lookup same Some same_conn_def option.rel_map)
       (cases "fmlookup (m_conns ?m) j"; simp)
  show ?thesis
  proof (rule hub_ok_evolve [OF ok])
    show "host_ok (hb_mgr (hub_leave now c hub)) i h'" if "fmlookup (m_hosts (hb_mgr (hub_leave now c hub))) i = Some h'" for i h'
    proof -
      from that hosts [of i] obtain h where h: "fmlookup (m_hosts ?m) i = Some h" "h' = gone_host now h \<or> h' = h"
        by (auto simp: hub' split: option.splits if_splits)
      from h(2) show ?thesis
      proof
        assume "h' = h"
        with host_ok_same [OF hub_okD(4) [OF ok h(1)] same_host_refl conns] show ?thesis
          by (simp add: hub' same authorized_def)
      qed (simp add: gone_host_ok)
    qed
    show "IsCurrent j (hb_mgr (hub_leave now c hub))"
      if j: "fmlookup (m_conns (hb_mgr (hub_leave now c hub))) j = Some k'" "j |\<in>| m_started (hb_mgr (hub_leave now c hub))"
        "\<not> pc_closed k'" for j k'
    proof -
      from j(1,3) Some have jc: "j \<noteq> c" and k': "fmlookup (m_conns ?m) j = Some k'"
        by (auto simp: hub' close_conn_lookup same split: if_splits)
      from hub_okD(5) [OF ok k'] j(2,3) obtain h where h: "fmlookup (m_hosts ?m) (pc_HostID k') = Some h"
        "hst_Conn h = Some j" "hst_Generation h = pc_Generation k'"
        by (auto simp: hub' same IsCurrent_iff k')
      have "\<not> (pc_HostID k' = ?i \<and> hst_Generation h = pc_Generation k)"
        using hub_okD(3) [OF ok k' Some] jc h(3) by auto
      with h hosts [of "pc_HostID k'"] j(1) show ?thesis by (auto simp: IsCurrent_iff hub')
    qed
  qed (simp_all add: hub' same conns hub_okD(6) [OF ok])
qed

lemma prune_ok:
  assumes ok: "hub_ok hub"
  shows "hub_ok (on_manager (pruneOffline now) hub)"
proof (rule hub_ok_evolve [OF ok])
  let ?m = "hb_mgr hub" and ?m' = "hb_mgr (on_manager (pruneOffline now) hub)"
  have kept: "fmlookup (m_hosts ?m') i = Some h" if "fmlookup (m_hosts ?m) i = Some h" "hst_Connected h" for i h
    using that by (simp add: on_manager_def pruneOffline_def)
  show "host_ok ?m' i h" if "fmlookup (m_hosts ?m') i = Some h" for i h
  proof -
    from that have "fmlookup (m_hosts ?m) i = Some h"
      by (auto simp: on_manager_def pruneOffline_def split: option.splits if_splits)
    from host_ok_same [OF hub_okD(4) [OF ok this] same_host_refl, of ?m'] show ?thesis
      by (simp add: on_manager_def pruneOffline_def authorized_def)
  qed
  show "IsCurrent c ?m'" if "fmlookup (m_conns ?m') c = Some k" "c |\<in>| m_started ?m'" "\<not> pc_closed k" for c k
  proof -
    have "m_conns ?m' = m_conns ?m" "m_started ?m' = m_started ?m" by (simp_all add: on_manager_def pruneOffline_def)
    with that hub_okD(5) [OF ok] obtain h where k: "fmlookup (m_conns ?m) c = Some k"
      and h: "fmlookup (m_hosts ?m) (pc_HostID k) = Some h" "hst_Conn h = Some c" "hst_Generation h = pc_Generation k"
      by (auto simp: IsCurrent_iff)
    from hub_okD(4) [OF ok h(1)] h(2) have "hst_Connected h" by (simp add: host_ok_def)
    with kept [OF h(1)] h k \<open>m_conns ?m' = m_conns ?m\<close> show ?thesis by (auto simp: IsCurrent_iff)
  qed
qed (simp_all add: on_manager_def pruneOffline_def hub_okD(6) [OF ok])

lemma admit_ok:
  fixes hub :: "'s hub"
  assumes ok: "hub_ok hub"
  shows "hub_ok (snd (hub_admit now c hub))"
proof (cases "fmlookup (hb_owner hub) c")
  case None
  with ok show ?thesis by (simp add: hub_admit_def)
next
  case (Some owner)
  then obtain peer build where owner: "fmlookup (hb_owner hub) c = Some (peer, build)" by (cases owner) auto
  let ?m = "hb_mgr hub" and ?i = "peer_Fingerprint peer" and ?pk = "peer_PublicKey peer"
  obtain granted m' where a: "ActivateAuthorizedPeer now ?i (peer_Name peer) ?pk c ?m = (granted, m')"
    by (cases "ActivateAuthorizedPeer now ?i (peer_Name peer) ?pk c ?m")
  show ?thesis
  proof (cases granted)
    case False
    with a have "m' = ?m"
      by (auto simp: ActivateAuthorizedPeer_def activatePeerLocked_def Let_def split: option.splits if_splits)
    with a False owner ok show ?thesis by (simp add: hub_admit_def Let_def)
  next
    case True
    with a obtain k where k: "fmlookup (m_conns ?m) c = Some k" and auth: "authorized ?pk ?m"
      and newer: "\<And>h. \<lbrakk>fmlookup (m_hosts ?m) ?i = Some h; hst_Conn h \<noteq> None\<rbrakk> \<Longrightarrow> hst_Generation h < pc_Generation k"
      by (auto simp: ActivateAuthorizedPeer_def activatePeerLocked_def Let_def not_le split: option.splits if_splits)
    define prev where "prev = (case fmlookup (m_hosts ?m) ?i of None \<Rightarrow> None | Some h \<Rightarrow> hst_Conn h)"
    define host :: "'s HostState" where "host = (new_host ?i (peer_Name peer) ?pk now)\<lparr>hst_Conn := Some c, hst_Generation := pc_Generation k,
                    hst_Capabilities := sorted_list_of_fset (pc_Capabilities k), hst_AgentInstance := pc_AgentInstance k\<rparr>"
    obtain code where m': "m' = peers_broadcast (host_event ''peer-connected'' ?i (peer_Name peer))
        ((close_conn code prev (?m\<lparr>m_hosts := fmupd ?i host (m_hosts ?m)\<rparr>))\<lparr>m_started := finsert c (m_started ?m)\<rparr>)"
      using a True k
      by (auto simp: ActivateAuthorizedPeer_def activatePeerLocked_def Let_def prev_def host_def split: if_splits)
    have i: "pc_HostID k = ?i" using hub_okD(2) [OF ok k] owner by (auto simp: conn_ok_def)
    have prev: "prev \<noteq> Some c"
    proof
      assume "prev = Some c"
      then obtain h where h: "fmlookup (m_hosts ?m) ?i = Some h" "hst_Conn h = Some c"
        by (auto simp: prev_def split: option.splits)
      from hub_okD(4) [OF ok h(1)] h(2) k have "hst_Generation h = pc_Generation k" by (auto simp: host_ok_def)
      with newer [OF h(1)] h(2) show False by simp
    qed
    have ck: "fmlookup (m_conns m') c = Some k" using prev k by (simp add: m' close_conn_lookup)
    have conns: "rel_option same_conn (fmlookup (m_conns ?m) j) (fmlookup (m_conns m') j)" for j
      by (cases "fmlookup (m_conns ?m) j") (simp_all add: m' close_conn_lookup same_conn_def)
    have "hub_ok (hub\<lparr>hb_mgr := m'\<rparr>)"
    proof (rule hub_ok_evolve [OF ok])
      show "host_ok (hb_mgr (hub\<lparr>hb_mgr := m'\<rparr>)) j h" if "fmlookup (m_hosts (hb_mgr (hub\<lparr>hb_mgr := m'\<rparr>))) j = Some h" for j h
      proof (cases "j = ?i")
        case True
        with that have "h = host" by (simp add: m')
        with True ck i auth show ?thesis
          by (simp add: host_ok_def host_def new_host_def m' authorized_def peer_Fingerprint_def)
      next
        case False
        with that have h: "fmlookup (m_hosts ?m) j = Some h" by (simp add: m')
        show ?thesis
          using host_ok_same [OF hub_okD(4) [OF ok h] same_host_refl conns] by (auto simp: m' authorized_def)
      qed
      show "IsCurrent j (hb_mgr (hub\<lparr>hb_mgr := m'\<rparr>))"
        if j: "fmlookup (m_conns (hb_mgr (hub\<lparr>hb_mgr := m'\<rparr>))) j = Some kj" "j |\<in>| m_started (hb_mgr (hub\<lparr>hb_mgr := m'\<rparr>))"
          "\<not> pc_closed kj" for j kj
      proof (cases "j = c")
        case True
        with ck i show ?thesis by (auto simp: IsCurrent_iff m' host_def)
      next
        case False
        with j have js: "j |\<in>| m_started ?m" by (auto simp: m')
        from j(1,3) have pj: "prev \<noteq> Some j" and kj: "fmlookup (m_conns ?m) j = Some kj"
          by (auto simp: m' close_conn_lookup split: if_splits)
        from hub_okD(5) [OF ok kj js j(3)] obtain h where h: "fmlookup (m_hosts ?m) (pc_HostID kj) = Some h"
          "hst_Conn h = Some j" "hst_Generation h = pc_Generation kj" by (auto simp: IsCurrent_iff kj)
        have "pc_HostID kj \<noteq> ?i"
        proof
          assume "pc_HostID kj = ?i"
          with h have "prev = Some j" by (simp add: prev_def)
          with pj show False by simp
        qed
        with h j(1) show ?thesis by (auto simp: IsCurrent_iff m')
      qed
    qed (use conns k in \<open>auto simp: m' go_has_def hub_okD(6) [OF ok]\<close>)
    from report_ok(2) [OF this, of now ?i build] a True owner show ?thesis
      by (simp add: hub_admit_def Let_def on_manager_def)
  qed
qed

lemma revoke_ok:
  assumes ok: "hub_ok hub"
  shows "hub_ok (on_manager (\<lambda>m. snd (RevokePeer fault name m)) hub)"
proof -
  let ?m = "hb_mgr hub"
  from hub_okD(6) [OF ok] obtain ps where ps: "m_peerStore ?m = Some ps" "peer_inv ps" by blast
  obtain e ps' where r: "peer_Remove fault name ps = (e, ps')" by (cases "peer_Remove fault name ps")
  have inv': "peer_inv ps'" using peer_Remove_inv [OF ps(2), of fault name] r by simp
  note look = remove_lookups [OF peer_inv_ok [OF ps(2)] r]
  show ?thesis
  proof (cases "e = None \<and> peer_Get name ps \<noteq> None")
    case False
    have "ps_peers ps' = ps_peers ps \<or> peer_Get name ps = None"
      using False look by (cases e) auto
    with ps r False show ?thesis
      by (intro hub_ok_frame [OF ok])
        (auto simp: on_manager_def RevokePeer_def authorized_def GetByPublicKey_def inv' split: option.splits)
  next
    case True
    with look obtain peer where peer: "peer_Get name ps = Some peer"
      and keys: "\<And>pk. GetByPublicKey pk ps' = (if pk = peer_PublicKey peer then None else GetByPublicKey pk ps)"
      by auto
    let ?i = "peer_Fingerprint peer"
    define cur where "cur = (case fmlookup (m_hosts ?m) ?i of None \<Rightarrow> None | Some h \<Rightarrow> hst_Conn h)"
    define m' where "m' = snd (RevokePeer fault name ?m)"
    have m': "m' = peers_broadcast (host_event ''peer-disconnected'' ?i (peer_Name peer))
        (close_conn ErrorPeerRevoked cur (?m\<lparr>m_peerStore := Some ps', m_hosts := fmdrop ?i (m_hosts ?m)\<rparr>))"
      using True by (simp add: m'_def RevokePeer_def ps peer r Let_def cur_def)
    have conns: "rel_option same_conn (fmlookup (m_conns ?m) j) (fmlookup (m_conns m') j)" for j
      by (cases "fmlookup (m_conns ?m) j") (simp_all add: m' close_conn_lookup same_conn_def)
    have "hub_ok (hub\<lparr>hb_mgr := m'\<rparr>)"
    proof (rule hub_ok_evolve [OF ok])
      show "host_ok (hb_mgr (hub\<lparr>hb_mgr := m'\<rparr>)) j h" if "fmlookup (m_hosts (hb_mgr (hub\<lparr>hb_mgr := m'\<rparr>))) j = Some h" for j h
      proof -
        from that have j: "j \<noteq> ?i" and h: "fmlookup (m_hosts ?m) j = Some h" by (auto simp: m' split: if_splits)
        show ?thesis
        proof (cases "hst_Conn h")
          case (Some c)
          with hub_okD(4) [OF ok h] have "Fingerprint (hst_PublicKey h) = j" by (simp add: host_ok_def)
          with j have pk: "hst_PublicKey h \<noteq> peer_PublicKey peer" by (auto simp: peer_Fingerprint_def)
          show ?thesis
            using host_ok_same [OF hub_okD(4) [OF ok h] same_host_refl conns] pk by (simp add: m' authorized_def keys ps)
        qed (simp add: host_ok_def)
      qed
      show "IsCurrent j (hb_mgr (hub\<lparr>hb_mgr := m'\<rparr>))"
        if j: "fmlookup (m_conns (hb_mgr (hub\<lparr>hb_mgr := m'\<rparr>))) j = Some kj" "j |\<in>| m_started (hb_mgr (hub\<lparr>hb_mgr := m'\<rparr>))"
          "\<not> pc_closed kj" for j kj
      proof -
        from j(1,3) have cj: "cur \<noteq> Some j" and kj: "fmlookup (m_conns ?m) j = Some kj"
          by (auto simp: m' close_conn_lookup split: if_splits)
        from j(2) have "j |\<in>| m_started ?m" by (simp add: m')
        from hub_okD(5) [OF ok kj this j(3)] obtain h where h: "fmlookup (m_hosts ?m) (pc_HostID kj) = Some h"
          "hst_Conn h = Some j" "hst_Generation h = pc_Generation kj" by (auto simp: IsCurrent_iff kj)
        have "pc_HostID kj \<noteq> ?i"
        proof
          assume "pc_HostID kj = ?i"
          with h have "cur = Some j" by (simp add: cur_def)
          with cj show False by simp
        qed
        with h j(1) show ?thesis by (auto simp: IsCurrent_iff m')
      qed
    qed (use conns inv' in \<open>simp_all add: m'\<close>)
    then show ?thesis by (simp add: on_manager_def m'_def)
  qed
qed

text \<open>A pairing only adds to the store.\<close>

lemma add_commit_store:
  assumes "peer_inv ps" and "add_commit fault p ps = (b, ps')"
  shows "peer_inv ps' \<and> (\<forall>k. GetByPublicKey k ps \<noteq> None \<longrightarrow> GetByPublicKey k ps' \<noteq> None)"
proof -
  obtain e where a: "peer_Add fault p ps = (e, ps')" using assms(2) by (auto simp: add_commit_def split: prod.splits)
  have "peer_inv ps'" using peer_Add_inv [OF assms(1), of fault p] a by simp
  with add_lookups [OF a] show ?thesis by (cases e) (auto simp: GetByPublicKey_def)
qed

lemma complete_store:
  assumes "peer_inv ps" and "pairing_Complete now code (add_commit fault p) (pm, ps) = (e, pm', ps')"
  shows "peer_inv ps' \<and> (\<forall>k. GetByPublicKey k ps \<noteq> None \<longrightarrow> GetByPublicKey k ps' \<noteq> None)"
proof -
  obtain b q where a: "add_commit fault p ps = (b, q)" by (cases "add_commit fault p ps")
  from assms(2) a have "ps' = ps \<or> ps' = q"
    by (auto simp: pairing_Complete_def Let_def split: option.splits if_splits bool.splits)
  with add_commit_store [OF assms(1) a] assms(1) show ?thesis by auto
qed

lemma pair_ok:
  assumes ok: "hub_ok hub"
  shows "hub_ok (snd (HandlePairing check url fault now request hub))"
proof (cases request)
  case (Some req)
  from hub_okD(6) [OF ok] obtain ps where ps: "m_peerStore (hb_mgr hub) = Some ps" "peer_inv ps" by blast
  show ?thesis
  proof (cases "pair_request_ok check url req")
    case (Some name)
    obtain e pm ps' where c: "pairing_Complete now (pq_Code req)
        (add_commit fault \<lparr>peer_Name = name, peer_PublicKey = pq_PublicKey req, peer_PairedAt = now\<rparr>)
        (hb_pairing hub, ps) = (e, pm, ps')" by (metis prod_cases3)
    from complete_store [OF ps(2) c] ps show ?thesis
      by (intro hub_ok_frame [OF ok]) (auto simp: HandlePairing_def \<open>request = Some req\<close> Some c authorized_def)
  qed (use ok Some in \<open>simp add: HandlePairing_def\<close>)
qed (use ok in \<open>simp add: HandlePairing_def\<close>)

lemma unat_succ:
  assumes "unat (g :: u64) \<le> n" and "Suc n < 2 ^ 64"
  shows "unat (g + 1) = Suc (unat g)"
  using assms unat_add_lem [of g 1] by simp

lemma reserve_facts:
  assumes ok: "hub_ok hub" and n: "Suc (hb_next hub) < 2 ^ 64"
    and r: "ReserveGeneration i (hb_mgr hub) = (g, mgr)"
  shows "unat g = Suc (unat (go_get 0 (m_generations (hb_mgr hub)) i))"
    and "mgr = (hb_mgr hub)\<lparr>m_generations := fmupd i g (m_generations (hb_mgr hub))\<rparr>"
proof -
  show "mgr = (hb_mgr hub)\<lparr>m_generations := fmupd i g (m_generations (hb_mgr hub))\<rparr>"
    using r by (auto simp: ReserveGeneration_def Let_def)
  show "unat g = Suc (unat (go_get 0 (m_generations (hb_mgr hub)) i))"
    using r unat_succ [OF hub_okD(1) [OF ok] n] by (auto simp: ReserveGeneration_def Let_def)
qed

lemma negotiate_ok:
  assumes ok: "hub_ok hub" and n: "Suc (hb_next hub) < 2 ^ 64"
  shows "hub_ok (snd (hub_negotiate dec version peer helloMsg hub))"
proof -
  let ?m = "hb_mgr hub" and ?i = "peer_Fingerprint peer"
  obtain g mgr where r: "ReserveGeneration ?i ?m = (g, mgr)" by (cases "ReserveGeneration ?i ?m")
  note g = reserve_facts [OF ok n r]
  have gens: "unat (go_get 0 (m_generations ?m) j) \<le> unat (go_get 0 (m_generations mgr) j)"
    "unat (go_get 0 (m_generations mgr) j) \<le> Suc (hb_next hub)" for j
    using hub_okD(1) [OF ok, of j] hub_okD(1) [OF ok, of ?i] by (auto simp: g)
  have mgr: "m_conns mgr = m_conns ?m" "m_hosts mgr = m_hosts ?m" "m_started mgr = m_started ?m"
    "m_peerStore mgr = m_peerStore ?m" by (simp_all add: g(2))
  have old: "conn_ok hub c k \<Longrightarrow> hb_mgr hub' = m' \<Longrightarrow> m_generations m' = m_generations mgr \<Longrightarrow> hb_next hub' = Suc (hb_next hub)
    \<Longrightarrow> fmlookup (hb_owner hub') c = fmlookup (hb_owner hub) c \<Longrightarrow> conn_ok hub' c k" for c k hub' m'
    using gens(1) [of "pc_HostID k"] by (auto simp: conn_ok_def)
  have plain: "hub_ok (hub\<lparr>hb_mgr := mgr, hb_next := Suc (hb_next hub)\<rparr>)"
  proof (rule hub_okI)
    let ?hub' = "hub\<lparr>hb_mgr := mgr, hb_next := Suc (hb_next hub)\<rparr>"
    show "unat (go_get 0 (m_generations (hb_mgr ?hub')) j) \<le> hb_next ?hub'" for j using gens(2) [of j] by simp
    show "conn_ok ?hub' c k" if "fmlookup (m_conns (hb_mgr ?hub')) c = Some k" for c k
      by (rule old [OF hub_okD(2) [OF ok, of c k] refl]) (use that in \<open>simp_all add: mgr\<close>)
    show "host_ok (hb_mgr ?hub') i h" if "fmlookup (m_hosts (hb_mgr ?hub')) i = Some h" for i h
      by (rule host_ok_same [OF hub_okD(4) [OF ok, of i h] same_host_refl]) (use that in \<open>simp_all add: mgr authorized_def\<close>)
    show "IsCurrent c (hb_mgr ?hub')" if "fmlookup (m_conns (hb_mgr ?hub')) c = Some k" "c |\<in>| m_started (hb_mgr ?hub')"
      "\<not> pc_closed k" for c k
      using hub_okD(5) [OF ok, of c k] that by (simp add: mgr IsCurrent_def)
  qed (use hub_okD(3,6,7) [OF ok] in \<open>simp_all add: mgr\<close>)
  have fresh: "fmlookup (m_conns ?m) (hb_next hub) = None"
    using hub_okD(2) [OF ok, of "hb_next hub"] by (cases "fmlookup (m_conns ?m) (hb_next hub)") (auto simp: conn_ok_def)
  have made: "hub_ok (hub\<lparr>hb_mgr := mgr\<lparr>m_conns := fmupd (hb_next hub) (newPeerConnection ?i g caps agent 64) (m_conns mgr)\<rparr>,
      hb_next := Suc (hb_next hub), hb_owner := fmupd (hb_next hub) (peer, build) (hb_owner hub)\<rparr>)" (is "hub_ok ?hub'") for caps agent build
  proof (rule hub_okI)
    let ?k = "newPeerConnection ?i g caps agent 64 :: connection"
    have k: "pc_HostID ?k = ?i" "pc_Generation ?k = g" by (simp_all add: newPeerConnection_def)
    show "unat (go_get 0 (m_generations (hb_mgr ?hub')) j) \<le> hb_next ?hub'" for j using gens(2) [of j] by simp
    show "conn_ok ?hub' c k'" if "fmlookup (m_conns (hb_mgr ?hub')) c = Some k'" for c k'
    proof (cases "c = hb_next hub")
      case True
      with that k show ?thesis by (auto simp: conn_ok_def g)
    next
      case False
      with that have k0: "fmlookup (m_conns ?m) c = Some k'" by (simp add: mgr)
      show ?thesis by (rule old [OF hub_okD(2) [OF ok k0] refl]) (use False in simp_all)
    qed
    have below: "\<not> (pc_HostID k' = ?i \<and> pc_Generation k' = g)" if "fmlookup (m_conns ?m) c = Some k'" for c k'
    proof
      assume a: "pc_HostID k' = ?i \<and> pc_Generation k' = g"
      from hub_okD(2) [OF ok that] a have "unat g \<le> unat (go_get 0 (m_generations ?m) ?i)" by (simp add: conn_ok_def)
      with g(1) show False by simp
    qed
    show "c = c'" if "fmlookup (m_conns (hb_mgr ?hub')) c = Some k1" "fmlookup (m_conns (hb_mgr ?hub')) c' = Some k2"
      "pc_HostID k1 = pc_HostID k2" "pc_Generation k1 = pc_Generation k2" for c k1 c' k2
      using that below hub_okD(3) [OF ok, of c k1 c' k2] k by (auto simp: mgr split: if_splits)
    show "host_ok (hb_mgr ?hub') i h" if "fmlookup (m_hosts (hb_mgr ?hub')) i = Some h" for i h
    proof -
      from that have "host_ok ?m i h" by (intro hub_okD(4) [OF ok]) (simp add: mgr)
      with fresh show ?thesis by (auto simp: host_ok_def mgr authorized_def split: option.splits)
    qed
    show "IsCurrent c (hb_mgr ?hub')"
      if c: "fmlookup (m_conns (hb_mgr ?hub')) c = Some k'" "c |\<in>| m_started (hb_mgr ?hub')" "\<not> pc_closed k'" for c k'
    proof -
      have cn: "c \<noteq> hb_next hub"
      proof
        assume "c = hb_next hub"
        with c(2) hub_okD(7) [OF ok, of c] fresh show False by (simp add: mgr go_has_def)
      qed
      with c have k': "fmlookup (m_conns ?m) c = Some k'" "c |\<in>| m_started ?m" by (simp_all add: mgr)
      from hub_okD(5) [OF ok this c(3)] cn k'(1) show ?thesis by (simp add: IsCurrent_def mgr)
    qed
  qed (use hub_okD(6,7) [OF ok] in \<open>simp_all add: mgr\<close>)
  show ?thesis
    unfolding hub_negotiate_def r Let_def
    using ok plain made by (auto split: option.splits sum.splits)
qed

lemma write_one_same: "same_conn k (write_one ok k)"
  by (auto simp: write_one_def same_conn_def connection_Close_def split: list.splits)

lemma Send_same: "same_conn k (snd (Send ctx_done pick m k))"
  by (auto simp: Send_def same_conn_def split: option.splits)

lemma connect_ok:
  assumes "hub_ok hub" and "Suc (hb_next hub) < 2 ^ 64"
  shows "hub_ok (snd (hub_connect check dec version challenge authMsg helloMsg hub))"
  using negotiate_ok [OF assms, of dec version] assms(1) by (auto simp: hub_connect_def split: option.splits sum.splits)

lemma next_fields [simp]:
  "hb_next (on_manager f hub) = hb_next hub" "hb_next (on_conn c g hub) = hb_next hub"
  "hb_next (on_requests c h hub) = hb_next hub" "hb_next (hub_leave now c hub) = hb_next hub"
  "hb_next (snd (hub_admit now c hub)) = hb_next hub"
  "hb_next (snd (HandlePairing check url fault now request hub)) = hb_next hub"
  by (auto simp: on_manager_def on_conn_def on_requests_def hub_leave_def hub_admit_def Let_def HandlePairing_def
      split: option.splits prod.splits bool.splits)

lemma receive_next: "holds_after (\<lambda>h. hb_next h = hb_next hub) (handlePeerMessage dec now peerID c msg hub)"
  unfolding handlePeerMessage_def Let_def
  by (intro holds_after_intros holds_if [of _ "\<lambda>h. hb_next h = hb_next hub"]) simp_all

lemma next_step: "hb_next hub \<le> hb_next (hub_step env hub e) \<and> hb_next (hub_step env hub e) \<le> Suc (hb_next hub)"
proof (cases e)
  case (Receive now c msg)
  then show ?thesis
    using receive_next [of hub "env_codec env" now _ c msg]
    by (auto simp: holds_after_def split: option.splits)
next
  case (Arrive challenge authMsg helloMsg)
  then show ?thesis
    by (auto simp: hub_connect_def hub_negotiate_def Let_def split: option.splits sum.splits prod.splits)
qed simp_all

lemma hub_inv_step: "hub_inv hub \<Longrightarrow> hub_inv (hub_step env hub e)"
proof -
  assume inv: "hub_inv hub"
  show ?thesis
    unfolding hub_inv_def
  proof (rule impI)
    assume n: "hb_next (hub_step env hub e) < 2 ^ 64"
    with next_step [of hub env e] inv have ok: "hub_ok hub" by (simp add: hub_inv_def)
    show "hub_ok (hub_step env hub e)"
    proof (cases e)
      case (Arrive challenge authMsg helloMsg)
      show ?thesis
      proof (cases "hub_step env hub e = hub")
        case False
        then have "hb_next (hub_step env hub e) = Suc (hb_next hub)"
          by (auto simp: Arrive hub_connect_def hub_negotiate_def Let_def split: option.splits sum.splits prod.splits)
        with connect_ok [OF ok] n show ?thesis by (simp add: Arrive)
      qed (use ok in simp)
    next
      case (Receive now c msg)
      then show ?thesis
        using receive_ok [OF ok, of "env_codec env" now _ c msg] leave_ok [OF ok] ok
        by (auto simp: holds_after_def split: option.splits)
    qed (simp_all add: admit_ok leave_ok revoke_ok pair_ok prune_ok on_conn_ok write_one_same Send_same ok)
  qed
qed

lemma hub_inv_init: "peer_inv ps \<Longrightarrow> hub_inv (hub_init now version ident ps maxPending)"
  by (simp add: hub_inv_def hub_ok_def hub_init_def NewHubManager_def newManager_def Let_def go_get_def)

text \<open>The hub starts with the store as any history of additions and removals left it.\<close>

definition hub_start :: "time \<Rightarrow> string \<Rightarrow> identity \<Rightarrow> nat \<Rightarrow> peer_event list \<Rightarrow> 's hub" where
  "hub_start now version ident maxPending past =
     hub_init now version ident (foldl peer_step empty_peers past) maxPending"

interpretation hub: component "hub_start now version ident maxPending past" "hub_step env" hub_inv
  for now version ident maxPending past env
proof unfold_locales
  show "hub_inv (hub_start now version ident maxPending past)"
    unfolding hub_start_def by (rule hub_inv_init) (rule peers.run_inv)
qed (rule hub_inv_step)

lemma hub_next_bound: "hb_next (foldl (hub_step env) h events) \<le> hb_next h + length events"
proof (induction events arbitrary: h)
  case (Cons e es)
  from Cons.IH [of "hub_step env h e"] next_step [of h env e] show ?case by simp
qed simp

lemma hub_reach_ok:
  assumes "length events < 2 ^ 64"
  shows "hub_ok (foldl (hub_step env) (hub_start now version ident maxPending past) events)"
proof -
  have "hb_next (foldl (hub_step env) (hub_start now version ident maxPending past) events) \<le> length events"
    using hub_next_bound [of env "hub_start now version ident maxPending past" events]
    by (simp add: hub_start_def hub_init_def)
  with hub.run_inv [of env now version ident maxPending past events] assms show ?thesis
    unfolding hub_inv_def by linarith
qed


lemma authorized_shrinks:
  assumes ok: "hub_ok hub" and e: "\<And>f t r. e \<noteq> Pair f t r" and no: "\<not> authorized pk (hb_mgr hub)"
  shows "\<not> authorized pk (hb_mgr (hub_step env hub e))"
proof -
  have same: "m_peerStore (hb_mgr (hub_step env hub e)) = m_peerStore (hb_mgr hub)" if "\<And>f n. e \<noteq> Revoke f n"
  proof (cases e)
    case (Receive now c msg)
    have "holds_after (\<lambda>h. m_peerStore (hb_mgr h) = m_peerStore (hb_mgr hub)) (handlePeerMessage dec now i c msg hub)" for dec i
      unfolding handlePeerMessage_def Let_def
      by (intro holds_after_intros holds_if [of _ "\<lambda>h. m_peerStore (hb_mgr h) = m_peerStore (hb_mgr hub)"])
        (auto simp: on_manager_def on_requests_def UpdatePeerSessions_def UpdatePeerVersion_def UpdatePeerActivity_def
          UpdatePeerStats_def split: option.splits)
    then show ?thesis
      by (auto simp: Receive holds_after_def hub_leave_def UnregisterPeerGeneration_def split: option.splits)
  qed (use e that in \<open>auto simp: hub_connect_def hub_negotiate_def ReserveGeneration_def Let_def hub_admit_def
      ActivateAuthorizedPeer_def activatePeerLocked_def hub_leave_def UnregisterPeerGeneration_def on_conn_def
      on_manager_def pruneOffline_def UpdatePeerVersion_def split: option.splits sum.splits prod.splits bool.splits if_splits\<close>)
  show ?thesis
  proof (cases "\<exists>f n. e = Revoke f n")
    case True
    then obtain f n where en: "e = Revoke f n" by blast
    from hub_okD(6) [OF ok] obtain ps where ps: "m_peerStore (hb_mgr hub) = Some ps" "peer_inv ps" by blast
    obtain x ps' where r: "peer_Remove f n ps = (x, ps')" by (cases "peer_Remove f n ps")
    from remove_lookups [OF peer_inv_ok [OF ps(2)] r] no ps r show ?thesis
      by (cases x) (auto simp: en on_manager_def RevokePeer_def authorized_def GetByPublicKey_def Let_def split: option.splits)
  qed (use same no in \<open>simp add: authorized_def\<close>)
qed

text \<open>A hub with one paired peer, which connects.\<close>

definition demo_env :: "nat hub_env" where
  "demo_env = \<lparr>env_check = (\<lambda>_ _ _. True),
     env_codec = \<lparr>dec_auth = (\<lambda>_. Some (peer_PublicKey demo_peer, b64_encode (demo_seed @ demo_seed))),
       dec_hello = (\<lambda>_. Some demo_hello), dec_ack = (\<lambda>_. None), dec_result = (\<lambda>_. None), dec_error = (\<lambda>_. None),
       dec_state = (\<lambda>_. None), dec_event = (\<lambda>_. None), dec_tool = (\<lambda>_. None), dec_activity = (\<lambda>_. None),
       dec_stats = (\<lambda>_. Some (Some 7))\<rparr>,
     env_version = ''v2'', env_url = ''u''\<rparr>"

definition demo_arrival :: hub_event where
  "demo_arrival = Arrive ''c'' \<lparr>msg_type = MsgAuth, msg_payload = []\<rparr> \<lparr>msg_type = MsgHello, msg_payload = []\<rparr>"

definition demo_start :: "nat hub" where
  "demo_start = hub_start 1 ''v2'' \<lparr>id_Name = ''hub'', id_PublicKey = [], id_PrivateKey = []\<rparr> 32 [AddPeer None demo_peer]"

definition demo_conn :: connection where
  "demo_conn = newPeerConnection (peer_Fingerprint demo_peer) 1 (intersectCapabilities (h_Capabilities demo_hello) RuntimeCapabilities)
     ''a1'' 64"

lemma demo_store: "m_peerStore (hb_mgr demo_start) =
    Some \<lparr>ps_peers = [demo_peer], ps_dir = \<lparr>d_target = Some [plain_record demo_peer], d_temp = None\<rparr>\<rparr>"
  by (simp add: demo_start_def hub_start_def hub_init_def NewHubManager_def newManager_def Let_def demo_peer_added)

lemma demo_negotiated:
  "NegotiateHello demo_hello 1 ''v2'' = Inr \<lparr>a_Version = 1,
     a_Capabilities = intersectCapabilities (h_Capabilities demo_hello) RuntimeCapabilities, a_BuildVersion = ''v2'',
     a_Generation = 1, a_AgentInstanceID = ''a1''\<rparr>"
  by (simp add: NegotiateHello_def demo_hello_valid Let_def RuntimeProtocolMin_def RuntimeProtocolMax_def)
    (simp add: demo_hello_def)

lemma demo_arrives:
  "hub_step demo_env demo_start demo_arrival =
     demo_start\<lparr>hb_mgr := (hb_mgr demo_start)\<lparr>m_generations := fmupd (peer_Fingerprint demo_peer) 1 fmempty,
         m_conns := fmupd 0 demo_conn fmempty\<rparr>,
       hb_next := 1, hb_owner := fmupd 0 (demo_peer, ''v1'') fmempty\<rparr>"
proof -
  have sig: "ParseSignature (b64_encode (demo_seed @ demo_seed)) = Inr (demo_seed @ demo_seed)"
    by (simp add: ParseSignature_def decode_canonical_iff demo_seed_def)
  have v: "Verify (\<lambda>_ _ _. True) (peer_PublicKey demo_peer) ''c'' (demo_seed @ demo_seed)"
    by (simp add: Verify_def demo_peer_key) (simp add: demo_seed_def)
  have a: "hub_authenticate (env_check demo_env) (env_codec demo_env) ''c'' \<lparr>msg_type = MsgAuth, msg_payload = []\<rparr>
      \<lparr>ps_peers = [demo_peer], ps_dir = \<lparr>d_target = Some [plain_record demo_peer], d_temp = None\<rparr>\<rparr> = Inr demo_peer"
    by (simp add: hub_authenticate_def demo_env_def GetByPublicKey_def sig v)
  have r: "ReserveGeneration (peer_Fingerprint demo_peer) (hb_mgr demo_start) =
      (1, (hb_mgr demo_start)\<lparr>m_generations := fmupd (peer_Fingerprint demo_peer) 1 fmempty\<rparr>)"
    by (simp add: ReserveGeneration_def demo_start_def hub_start_def hub_init_def NewHubManager_def newManager_def Let_def go_get_def)
  have e: "env_version demo_env = ''v2''" "dec_hello (env_codec demo_env) x = Some demo_hello" for x
    by (simp_all add: demo_env_def)
  have s: "m_conns (hb_mgr demo_start) = fmempty" "hb_next demo_start = 0" "hb_owner demo_start = fmempty"
    "h_BuildVersion demo_hello = ''v1''" "h_AgentInstanceID demo_hello = ''a1''"
    by (simp_all add: demo_start_def hub_start_def hub_init_def NewHubManager_def newManager_def Let_def demo_hello_def)
  show ?thesis
    by (simp add: demo_arrival_def hub_connect_def demo_store a hub_negotiate_def e r demo_negotiated Let_def s demo_conn_def)
qed

lemma demo_admitted:
  "\<exists>m. foldl (hub_step demo_env) demo_start [demo_arrival, Admit 5 0] = m \<and>
     fmlookup (m_conns (hb_mgr m)) 0 = Some demo_conn \<and> 0 |\<in>| m_started (hb_mgr m) \<and> \<not> pc_closed demo_conn"
proof -
  have h: "m_hosts (hb_mgr demo_start) = fmempty"
    by (simp add: demo_start_def hub_start_def hub_init_def NewHubManager_def newManager_def Let_def)
  have k: "\<not> pc_closed demo_conn" by (simp add: demo_conn_def newPeerConnection_def)
  have auth: "authorized (peer_PublicKey demo_peer) ((hb_mgr demo_start)\<lparr>m_generations := g, m_conns := c\<rparr>)" for g c
    by (simp add: authorized_def demo_store GetByPublicKey_def)
  show ?thesis
    by (simp add: demo_arrives hub_admit_def Let_def ActivateAuthorizedPeer_def activatePeerLocked_def auth h k
        UpdatePeerVersion_def close_conn_def)
qed


lemma stays_out:
  assumes "hub_inv hub" and "hb_next hub + length es < 2 ^ 64" and "\<And>f t r. Pair f t r \<notin> set es"
    and "\<not> authorized pk (hb_mgr hub)"
  shows "\<not> authorized pk (hb_mgr (foldl (hub_step env) hub es)) \<and> hub_ok (foldl (hub_step env) hub es)"
  using assms
proof (induction es arbitrary: hub)
  case Nil
  then show ?case by (simp add: hub_inv_def)
next
  case (Cons e es)
  from Cons.prems(1,2) have ok: "hub_ok hub" by (simp add: hub_inv_def)
  have "\<not> authorized pk (hb_mgr (hub_step env hub e))"
    by (rule authorized_shrinks [OF ok _ Cons.prems(4)]) (use Cons.prems(3) in auto)
  moreover have "hub_inv (hub_step env hub e)" using Cons.prems(1) by (rule hub_inv_step)
  moreover have "hb_next (hub_step env hub e) + length es < 2 ^ 64" using Cons.prems(2) next_step [of hub env e] by simp
  ultimately show ?case using Cons.prems(3) by (simp add: Cons.IH)
qed

lemma revoke_unauthorizes:
  assumes ok: "hub_ok hub" and r: "RevokePeer fault name (hb_mgr hub) = (Inr peer, m)"
  shows "\<not> authorized (peer_PublicKey peer) m"
proof -
  from hub_okD(6) [OF ok] obtain ps where ps: "m_peerStore (hb_mgr hub) = Some ps" "peer_inv ps" by blast
  from r ps have g: "peer_Get name ps = Some peer" by (auto simp: RevokePeer_def Let_def split: option.splits prod.splits)
  obtain e ps' where rem: "peer_Remove fault name ps = (e, ps')" by (cases "peer_Remove fault name ps")
  with r ps g have e: "e = None" and m: "m_peerStore m = Some ps'"
    by (auto simp: RevokePeer_def Let_def split: option.splits)
  from remove_lookups [OF peer_inv_ok [OF ps(2)] rem] e g have "GetByPublicKey (peer_PublicKey peer) ps' = None" by auto
  with m show ?thesis by (simp add: authorized_def)
qed



definition confined :: "string \<Rightarrow> nat \<Rightarrow> 's hub \<Rightarrow> 's hub \<Rightarrow> bool" where
  "confined peerID c hub hub' =
     ((\<forall>i. i \<noteq> peerID \<longrightarrow> fmlookup (m_hosts (hb_mgr hub')) i = fmlookup (m_hosts (hb_mgr hub)) i) \<and>
      (\<forall>d. d \<noteq> c \<longrightarrow> fmlookup (m_conns (hb_mgr hub')) d = fmlookup (m_conns (hb_mgr hub)) d) \<and>
      m_peerStore (hb_mgr hub') = m_peerStore (hb_mgr hub) \<and>
      m_generations (hb_mgr hub') = m_generations (hb_mgr hub) \<and> hb_pairing hub' = hb_pairing hub \<and>
      (\<forall>q. pr_host q \<noteq> peerID \<longrightarrow> fmlookup (tk_events (hb_tracker hub')) q = fmlookup (tk_events (hb_tracker hub)) q))"

lemma confined_refl: "confined i c hub hub"
  by (simp add: confined_def)

lemma confined_manager:
  "confined i c hub hub' \<Longrightarrow> confined i c hub (on_manager (update_host now i f kind) hub')"
  by (auto simp: confined_def on_manager_def update_host_def Let_def peers_broadcast_def split: option.splits)

lemma confined_reports:
  "confined i c hub hub' \<Longrightarrow> confined i c hub (on_manager (UpdatePeerSessions now i ss) hub')"
  "confined i c hub hub' \<Longrightarrow> confined i c hub (on_manager (UpdatePeerVersion now i v) hub')"
  "confined i c hub hub' \<Longrightarrow> confined i c hub (on_manager (UpdatePeerStats now i st) hub')"
  "confined i c hub hub' \<Longrightarrow> confined i c hub (on_manager (UpdatePeerActivity now i as) hub')"
  "confined i c hub hub' \<Longrightarrow> confined i c hub (on_manager (\<lambda>m. UpdatePeerSessions now i (getPeerSessions i m) m) hub')"
  "confined i c hub hub' \<Longrightarrow> confined i c hub (on_requests c f hub')"
  "confined i c hub hub' \<Longrightarrow> confined i c hub
     (hub'\<lparr>hb_tracker := tracker_record now (e\<lparr>ev_host := i, ev_host_name := n\<rparr>) (hb_tracker hub')\<rparr>)"
proof -
  assume a: "confined i c hub hub'"
  show "confined i c hub (on_manager (UpdatePeerSessions now i ss) hub')"
    "confined i c hub (on_manager (UpdatePeerVersion now i v) hub')"
    "confined i c hub (on_manager (UpdatePeerStats now i st) hub')"
    "confined i c hub (on_manager (UpdatePeerActivity now i as) hub')"
    unfolding UpdatePeerSessions_def UpdatePeerVersion_def UpdatePeerStats_def UpdatePeerActivity_def
    by (rule confined_manager [OF a])+
  show "confined i c hub (on_manager (\<lambda>m. UpdatePeerSessions now i (getPeerSessions i m) m) hub')"
    using confined_manager [OF a, of now "\<lambda>x. x\<lparr>hst_Sessions := getPeerSessions i (hb_mgr hub')\<rparr>"]
    by (simp add: on_manager_def UpdatePeerSessions_def)
  show "confined i c hub (on_requests c f hub')"
    using a by (auto simp: confined_def on_requests_def split: option.splits)
  show "confined i c hub (hub'\<lparr>hb_tracker := tracker_record now (e\<lparr>ev_host := i, ev_host_name := n\<rparr>) (hb_tracker hub')\<rparr>)"
    using a by (auto simp: confined_def tracker_record_def Let_def event_pane_def)
qed

lemma handler_confined: "holds_after (confined peerID c hub) (handlePeerMessage dec now peerID c msg hub)"
  unfolding handlePeerMessage_def Let_def
  by (intro holds_after_intros holds_if [of _ "confined peerID c hub"] confined_reports confined_refl)

lemma stale_ignored: "\<not> IsCurrent c (hb_mgr hub) \<Longrightarrow> handlePeerMessage dec now peerID c msg hub = Some hub"
  by (simp add: handlePeerMessage_def)

text \<open>
  C15. A peer speaks for its own host only.  Handling a message of a connection that is not
  current changes nothing; handling any other message leaves every other host's entry, every
  other connection, the peer store, the generations and the pairing codes as they were, and
  changes the tracked tool events of no pane of another host.
\<close>

theorem peer_message_confined:
  assumes "handlePeerMessage dec now peerID c msg hub = Some hub'"
  shows "confined peerID c hub hub' \<and> (\<not> IsCurrent c (hb_mgr hub) \<longrightarrow> hub' = hub)"
  using handler_confined [of peerID c hub dec now msg] stale_ignored [of c hub dec now peerID msg] assms
  by (simp add: holds_after_def)

theorem peer_message_confined_witness:
  "\<exists>hub'. handlePeerMessage (env_codec demo_env) 6 (peer_Fingerprint demo_peer) 0 \<lparr>msg_type = MsgStats, msg_payload = []\<rparr>
      (foldl (hub_step demo_env) demo_start [demo_arrival, Admit 5 0]) = Some hub' \<and>
     fmlookup (m_hosts (hb_mgr hub')) (CHR ''x'' # peer_Fingerprint demo_peer) =
     fmlookup (m_hosts (hb_mgr (foldl (hub_step demo_env) demo_start [demo_arrival, Admit 5 0]))) (CHR ''x'' # peer_Fingerprint demo_peer)"
proof -
  let ?hub = "foldl (hub_step demo_env) demo_start [demo_arrival, Admit 5 0]"
  have d: "dec_stats (env_codec demo_env) x = Some (Some 7)" for x by (simp add: demo_env_def)
  have h: "handlePeerMessage (env_codec demo_env) 6 i 0 \<lparr>msg_type = MsgStats, msg_payload = []\<rparr> hub =
      Some (if IsCurrent 0 (hb_mgr hub) then on_manager (UpdatePeerStats 6 i (Some 7)) hub else hub)" for i hub
    by (simp add: handlePeerMessage_def msg_types d)
  from peer_message_confined [OF h] have "confined (peer_Fingerprint demo_peer) 0 ?hub
      (if IsCurrent 0 (hb_mgr ?hub) then on_manager (UpdatePeerStats 6 (peer_Fingerprint demo_peer) (Some 7)) ?hub else ?hub)"
    by blast
  moreover have "CHR ''x'' # peer_Fingerprint demo_peer \<noteq> peer_Fingerprint demo_peer" by (rule not_Cons_self2)
  ultimately show ?thesis unfolding h confined_def by blast
qed

end
