(* ===== verification/PtyFrame.thy ===== *)
theory PtyFrame
  imports Bytes GoStrings
begin

text \<open>
  The frames of a PTY data channel (\<open>pkg/peer/pty_frame.go\<close>): the binary data frame with
  its header, the control frame and its validation, the sequence check of a receiver, and
  the sender and receiver loops of \<open>Bridge\<close> (\<open>pty_relay.go\<close>) and \<open>Open\<close>
  (\<open>pty_manager.go\<close>).  Sequence numbers are 64-bit words.
\<close>

definition PTYFrameVersion :: nat where "PTYFrameVersion = 1"
definition PTYDataInput :: nat where "PTYDataInput = 1"
definition PTYDataOutput :: nat where "PTYDataOutput = 2"
definition ptyDataHeaderSize :: nat where "ptyDataHeaderSize = 20"
definition maxPTYFrameData :: nat where "maxPTYFrameData = 65536"
definition maxPTYReason :: nat where "maxPTYReason = 256"
definition ptyFrameMagic :: "byte list" where "ptyFrameMagic = ''TAP1''"

lemmas pty_consts [simp] = PTYFrameVersion_def PTYDataInput_def PTYDataOutput_def
  ptyDataHeaderSize_def maxPTYFrameData_def maxPTYReason_def

record PTYDataFrame =
  f_Direction :: nat
  f_Sequence :: u64
  f_Payload :: "byte list"

datatype pty_error = InvalidDirection | SequenceZero | PayloadTooLong | Truncated | BadMagic
  | UnsupportedVersion nat | ReservedNonZero | BadLength | InvalidControl string | NotJSON | SequenceGap u64 u64

subsection \<open>Data frames\<close>

text \<open>The direction is a byte; the two reserved bytes of the header stay zero.\<close>

definition EncodePTYDataFrame :: "nat \<Rightarrow> u64 \<Rightarrow> byte list \<Rightarrow> pty_error + byte list" where
  "EncodePTYDataFrame direction seq payload =
     (if direction \<noteq> PTYDataInput \<and> direction \<noteq> PTYDataOutput then Inl InvalidDirection
      else if seq = 0 then Inl SequenceZero
      else if length payload > maxPTYFrameData then Inl PayloadTooLong
      else Inr (ptyFrameMagic @ [char_of PTYFrameVersion, char_of direction, char_of (0 :: nat), char_of (0 :: nat)] @
        be_bytes 8 (unat seq) @ be_bytes 4 (length payload) @ payload))"

definition DecodePTYDataFrame :: "byte list \<Rightarrow> pty_error + PTYDataFrame" where
  "DecodePTYDataFrame data =
     (if length data < ptyDataHeaderSize then Inl Truncated
      else if take 4 data \<noteq> ptyFrameMagic then Inl BadMagic
      else if byte_val (data ! 4) \<noteq> PTYFrameVersion then Inl (UnsupportedVersion (byte_val (data ! 4)))
      else if byte_val (data ! 6) \<noteq> 0 \<or> byte_val (data ! 7) \<noteq> 0 then Inl ReservedNonZero
      else let direction = byte_val (data ! 5) in
        if direction \<noteq> PTYDataInput \<and> direction \<noteq> PTYDataOutput then Inl InvalidDirection
        else let seq = (of_nat (be_val (take 8 (drop 8 data))) :: u64) in
          if seq = 0 then Inl SequenceZero
          else let payloadLength = be_val (take 4 (drop 16 data)) in
            if payloadLength > maxPTYFrameData \<or> payloadLength \<noteq> length data - ptyDataHeaderSize
            then Inl BadLength
            else Inr \<lparr>f_Direction = direction, f_Sequence = seq, f_Payload = drop ptyDataHeaderSize data\<rparr>)"

subsection \<open>Control frames\<close>

record PTYControlFrame =
  c_Version :: nat
  c_Type :: string
  c_Sequence :: u64
  c_Cols :: "16 word"
  c_Rows :: "16 word"
  c_Reason :: string

definition control_Validate :: "PTYControlFrame \<Rightarrow> pty_error option" where
  "control_Validate frame =
     (if c_Version frame \<noteq> PTYFrameVersion then Some (InvalidControl ''version'')
      else if c_Sequence frame = 0 then Some SequenceZero
      else if c_Type frame = ''resize'' then
        (if c_Cols frame = 0 \<or> c_Rows frame = 0 then Some (InvalidControl ''dimensions'')
         else if c_Reason frame \<noteq> [] then Some (InvalidControl ''reason'') else None)
      else if c_Type frame = ''close'' \<or> c_Type frame = ''error'' then
        (if c_Cols frame \<noteq> 0 \<or> c_Rows frame \<noteq> 0 \<or> length (c_Reason frame) > maxPTYReason
         then Some (InvalidControl ''close/error'') else None)
      else Some (InvalidControl ''type''))"

text \<open>
  \<open>marshal\<close> is \<open>json.Marshal\<close>; \<open>decode\<close> is the strict decoder: the frame, and whether the
  input ends after it.
\<close>

definition EncodePTYControlFrame :: "(PTYControlFrame \<Rightarrow> byte list) \<Rightarrow> PTYControlFrame \<Rightarrow> pty_error + byte list" where
  "EncodePTYControlFrame marshal frame =
     (case control_Validate frame of Some err \<Rightarrow> Inl err | None \<Rightarrow> Inr (marshal frame))"

definition DecodePTYControlFrame :: "(byte list \<Rightarrow> (PTYControlFrame \<times> bool) option) \<Rightarrow> byte list
    \<Rightarrow> pty_error + PTYControlFrame" where
  "DecodePTYControlFrame decode data =
     (case decode data of
        None \<Rightarrow> Inl NotJSON
      | Some (frame, at_end) \<Rightarrow>
          if \<not> at_end then Inl NotJSON
          else (case control_Validate frame of Some err \<Rightarrow> Inl err | None \<Rightarrow> Inr frame))"

subsection \<open>Sequence numbers\<close>

record PTYSequence =
  s_next :: u64

definition new_sequence :: PTYSequence where
  "new_sequence = \<lparr>s_next = 0\<rparr>"

text \<open>\<open>Accept\<close> returns whether the value is a duplicate, or the gap.\<close>

definition seq_Accept :: "u64 \<Rightarrow> PTYSequence \<Rightarrow> (pty_error + bool) \<times> PTYSequence" where
  "seq_Accept value s0 =
     (let s = (if s_next s0 = 0 then s0\<lparr>s_next := 1\<rparr> else s0) in
      if value < s_next s then (Inr True, s)
      else if value > s_next s then (Inl (SequenceGap value (s_next s)), s)
      else (Inr False, s\<lparr>s_next := s_next s + 1\<rparr>))"

subsection \<open>Sender and receiver\<close>

text \<open>
  The sender numbers its messages from 1.  The receiver stops at the first frame it cannot
  decode, of the wrong direction or after a gap, and skips duplicates.
\<close>

fun send_stream :: "nat \<Rightarrow> u64 \<Rightarrow> byte list list \<Rightarrow> byte list list" where
  "send_stream direction seq [] = []"
| "send_stream direction seq (payload # rest) =
     (case EncodePTYDataFrame direction (seq + 1) payload of
        Inl _ \<Rightarrow> []
      | Inr frame \<Rightarrow> frame # send_stream direction (seq + 1) rest)"

fun receive_stream :: "nat \<Rightarrow> PTYSequence \<Rightarrow> byte list list \<Rightarrow> byte list list" where
  "receive_stream direction s [] = []"
| "receive_stream direction s (data # rest) =
     (case DecodePTYDataFrame data of
        Inl _ \<Rightarrow> []
      | Inr frame \<Rightarrow>
          if f_Direction frame \<noteq> direction then []
          else case seq_Accept (f_Sequence frame) s of
            (Inl _, _) \<Rightarrow> []
          | (Inr duplicate, s') \<Rightarrow>
              if duplicate then receive_stream direction s' rest
              else f_Payload frame # receive_stream direction s' rest)"

subsection \<open>The frame codec is a bijection\<close>

lemma unat_of_nat_64: "n < 2 ^ 64 \<Longrightarrow> unat (of_nat n :: u64) = n"
  by (simp add: unsigned_of_nat take_bit_nat_eq_self)

lemma unat_of_be: "length bs = 8 \<Longrightarrow> unat (of_nat (be_val bs) :: u64) = be_val bs"
proof -
  assume "length bs = 8"
  then have "be_val bs < 2 ^ 64" using be_val_lt [of bs] by simp
  then show ?thesis by (rule unat_of_nat_64)
qed

lemma unat_u64_bytes: "be_val (be_bytes 8 (unat (s :: u64))) = unat s"
  using unsigned_less [of s] by (intro be_val_bytes) simp

lemma char_of_val: "char_of (byte_val c) = c"
  by (simp add: byte_val_def)

lemma encode_frame_iff:
  "(EncodePTYDataFrame d s p = Inr data) =
     ((d = 1 \<or> d = 2) \<and> s \<noteq> 0 \<and> length p \<le> maxPTYFrameData \<and>
      data = ptyFrameMagic @ [char_of (1 :: nat), char_of d, char_of (0 :: nat), char_of (0 :: nat)] @
        be_bytes 8 (unat s) @ be_bytes 4 (length p) @ p)"
  by (auto simp: EncodePTYDataFrame_def)

lemma decode_encode:
  assumes "EncodePTYDataFrame d s p = Inr data"
  shows "DecodePTYDataFrame data = Inr \<lparr>f_Direction = d, f_Sequence = s, f_Payload = p\<rparr>"
proof -
  from assms have d: "d = 1 \<or> d = 2" and s: "s \<noteq> 0" and l: "length p \<le> maxPTYFrameData"
    and data: "data = ptyFrameMagic @ [char_of (1 :: nat), char_of d, char_of (0 :: nat), char_of (0 :: nat)] @
        be_bytes 8 (unat s) @ be_bytes 4 (length p) @ p"
    by (simp_all add: encode_frame_iff)
  have "take 4 data = ptyFrameMagic" "data ! 4 = char_of (1 :: nat)" "data ! 5 = char_of d"
    "data ! 6 = char_of (0 :: nat)" "data ! 7 = char_of (0 :: nat)" "length data = 20 + length p"
    "take 8 (drop 8 data) = be_bytes 8 (unat s)" "take 4 (drop 16 data) = be_bytes 4 (length p)"
    "drop 20 data = p"
    unfolding data ptyFrameMagic_def by simp_all
  moreover have "be_val (be_bytes 4 (length p)) = length p" using l by (intro be_val_bytes) simp
  moreover have "byte_val (char_of d) = d" "byte_val (char_of (1 :: nat)) = 1" "byte_val (char_of (0 :: nat)) = 0"
    using d by (auto intro!: byte_val_char_of)
  ultimately show ?thesis using d s l by (simp add: DecodePTYDataFrame_def Let_def unat_u64_bytes)
qed

lemma frame_parts:
  assumes "20 \<le> length data"
  shows "data = take 4 data @ [data ! 4, data ! 5, data ! 6, data ! 7] @ take 8 (drop 8 data) @
    take 4 (drop 16 data) @ drop 20 data"
proof -
  have "drop 4 data = data ! 4 # data ! 5 # data ! 6 # data ! 7 # drop 8 data"
    using assms Cons_nth_drop_Suc [of 4 data] Cons_nth_drop_Suc [of 5 data]
      Cons_nth_drop_Suc [of 6 data] Cons_nth_drop_Suc [of 7 data] by simp
  moreover have "drop 8 data = take 8 (drop 8 data) @ take 4 (drop 16 data) @ drop 20 data"
    using append_take_drop_id [of 8 "drop 8 data"] append_take_drop_id [of 4 "drop 16 data"] by simp
  ultimately show ?thesis using append_take_drop_id [of 4 data] by (metis append_Cons append_Nil)
qed

lemma encode_decode:
  assumes "DecodePTYDataFrame data = Inr f"
  shows "EncodePTYDataFrame (f_Direction f) (f_Sequence f) (f_Payload f) = Inr data"
proof -
  let ?s = "of_nat (be_val (take 8 (drop 8 data))) :: u64" and ?n = "be_val (take 4 (drop 16 data))"
  from assms have l: "20 \<le> length data" and m: "take 4 data = ptyFrameMagic"
    and b: "byte_val (data ! 4) = 1" "byte_val (data ! 6) = 0" "byte_val (data ! 7) = 0"
    and d: "byte_val (data ! 5) = 1 \<or> byte_val (data ! 5) = 2" and s: "?s \<noteq> 0"
    and n: "?n \<le> maxPTYFrameData" "?n = length data - 20"
    and f: "f = \<lparr>f_Direction = byte_val (data ! 5), f_Sequence = ?s, f_Payload = drop 20 data\<rparr>"
    by (auto simp: DecodePTYDataFrame_def Let_def split: if_splits)
  have "be_bytes 8 (unat ?s) = take 8 (drop 8 data)"
    using l by (subst unat_of_be) (simp_all add: be_bytes_of_val)
  moreover have "be_bytes 4 (length (drop 20 data)) = take 4 (drop 16 data)"
    using l n(2) be_bytes_of_val [of "take 4 (drop 16 data)" 4] by simp
  moreover have "data ! 4 = char_of (1 :: nat)" "data ! 6 = char_of (0 :: nat)" "data ! 7 = char_of (0 :: nat)"
    "char_of (byte_val (data ! 5)) = data ! 5"
    using b by (metis char_of_val)+
  ultimately show ?thesis
    unfolding encode_frame_iff f PTYDataFrame.select_convs using frame_parts [OF l] m d s n by simp
qed

text \<open>
  C31. The PTY frame codec is exact in both directions.  A frame decodes to the message it
  was encoded from, and the decoder accepts nothing else: whatever it accepts is, byte for
  byte, the encoding of the frame it returns, with no spare bytes and no second spelling.
\<close>

theorem pty_frame_codec:
  "(EncodePTYDataFrame d s p = Inr data) =
     (DecodePTYDataFrame data = Inr \<lparr>f_Direction = d, f_Sequence = s, f_Payload = p\<rparr>)"
  using decode_encode encode_decode by fastforce

subsection \<open>Streams\<close>

lemma word_succ_nat: "unat (of_nat k + 1 :: u64) = Suc k" if "Suc k < 2 ^ 64"
  using unat_of_nat_64 [OF that] by (simp add: add.commute)

lemma word_succ_nonzero: "Suc k < 2 ^ 64 \<Longrightarrow> (of_nat k + 1 :: u64) \<noteq> 0"
  using word_succ_nat [of k] by force

lemma send_stream_nth:
  assumes "d = 1 \<or> d = 2" and "\<forall>p\<in>set ps. length p \<le> maxPTYFrameData" and "k + length ps < 2 ^ 64"
  shows "length (send_stream d (of_nat k) ps) = length ps \<and>
    (\<forall>i < length ps. DecodePTYDataFrame (send_stream d (of_nat k) ps ! i) =
       Inr \<lparr>f_Direction = d, f_Sequence = of_nat (k + i + 1), f_Payload = ps ! i\<rparr>)"
  using assms(2,3)
proof (induction ps arbitrary: k)
  case (Cons p ps)
  have "(of_nat k + 1 :: u64) \<noteq> 0" by (rule word_succ_nonzero) (use Cons.prems(2) in simp)
  with assms(1) Cons.prems(1) obtain frame where e: "EncodePTYDataFrame d (of_nat k + 1) p = Inr frame"
    by (auto simp: EncodePTYDataFrame_def)
  from decode_encode [OF e] have f: "DecodePTYDataFrame frame = Inr \<lparr>f_Direction = d, f_Sequence = of_nat (k + 0 + 1), f_Payload = p\<rparr>"
    by (simp add: add.commute)
  from Cons.IH [of "Suc k"] Cons.prems have IH: "length (send_stream d (of_nat (Suc k)) ps) = length ps"
    "\<forall>i < length ps. DecodePTYDataFrame (send_stream d (of_nat (Suc k)) ps ! i) =
       Inr \<lparr>f_Direction = d, f_Sequence = of_nat (Suc k + i + 1), f_Payload = ps ! i\<rparr>" by simp_all
  have s: "send_stream d (of_nat k) (p # ps) = frame # send_stream d (of_nat (Suc k)) ps"
    unfolding send_stream.simps e sum.case by (simp add: add.commute)
  show ?case unfolding s using f IH by (auto simp: nth_Cons' less_Suc_eq_0_disj)
qed simp

text \<open>The receiver after \<open>m\<close> accepted messages.\<close>

definition expects :: "nat \<Rightarrow> PTYSequence \<Rightarrow> bool" where
  "expects m s = (s_next s = of_nat (Suc m) \<or> (m = 0 \<and> s_next s = 0))"

lemma accept_expected:
  assumes "expects m s" and "Suc m < 2 ^ 64" and "Suc i < 2 ^ 64"
  shows "\<exists>s'. seq_Accept (of_nat (Suc i)) s =
      (if i < m then (Inr True, s') else if i > m then (Inl (SequenceGap (of_nat (Suc i)) (of_nat (Suc m))), s') else (Inr False, s'))
    \<and> expects (if i = m then Suc m else m) s'"
proof -
  let ?s = "if s_next s = 0 then s\<lparr>s_next := 1\<rparr> else s"
  have nz: "(of_nat (Suc m) :: u64) \<noteq> 0" using unat_of_nat_64 [OF assms(2)] by force
  have n: "s_next ?s = of_nat (Suc m)"
  proof (cases "s_next s = 0")
    case True
    with assms(1) nz have "m = 0" by (auto simp: expects_def simp del: of_nat_Suc)
    with True show ?thesis by simp
  qed (use assms(1) in \<open>simp add: expects_def\<close>)
  have lt: "((of_nat (Suc i) :: u64) < of_nat (Suc m)) = (i < m)" "((of_nat (Suc i) :: u64) > of_nat (Suc m)) = (i > m)"
    unfolding word_less_nat_alt unat_of_nat_64 [OF assms(2)] unat_of_nat_64 [OF assms(3)] by simp_all
  define t where "t = ?s"
  have t: "s_next t = of_nat (Suc m)" using n by (simp only: t_def)
  have a: "seq_Accept (of_nat (Suc i)) s =
    (if i < m then (Inr True, t) else if i > m then (Inl (SequenceGap (of_nat (Suc i)) (of_nat (Suc m))), t)
     else (Inr False, t\<lparr>s_next := of_nat (Suc (Suc m))\<rparr>))"
    unfolding seq_Accept_def Let_def unfolding t_def [symmetric] unfolding t lt by (simp add: add.commute)
  consider "i < m" | "i > m" | "i = m" by linarith
  then show ?thesis
    unfolding a by cases (use t in \<open>auto simp: expects_def simp del: of_nat_Suc\<close>)
qed

lemma receive_prefix:
  assumes frames: "\<And>i. i < length ps \<Longrightarrow> DecodePTYDataFrame (fs ! i) = Inr \<lparr>f_Direction = d, f_Sequence = of_nat (Suc i), f_Payload = ps ! i\<rparr>"
    and small: "Suc (length ps) < 2 ^ 64"
    and ix: "\<forall>i\<in>set ix. i < length ps" and s: "expects m s" "m \<le> length ps"
  shows "\<exists>n. receive_stream d s (map ((!) fs) ix) = take n (drop m ps)"
  using ix s
proof (induction ix arbitrary: m s)
  case Nil
  show ?case by (rule exI [of _ 0]) simp
next
  case (Cons i ix)
  have i: "i < length ps" using Cons.prems by simp
  obtain s' where a: "seq_Accept (of_nat (Suc i)) s =
      (if i < m then (Inr True, s') else if i > m then (Inl (SequenceGap (of_nat (Suc i)) (of_nat (Suc m))), s') else (Inr False, s'))"
    and e: "expects (if i = m then Suc m else m) s'"
    using accept_expected [OF Cons.prems(2), of i] small i Cons.prems(3) by auto
  have r: "receive_stream d s (map ((!) fs) (i # ix)) =
     (case seq_Accept (of_nat (Suc i)) s of (Inl _, _) \<Rightarrow> [] | (Inr duplicate, s') \<Rightarrow>
        if duplicate then receive_stream d s' (map ((!) fs) ix) else ps ! i # receive_stream d s' (map ((!) fs) ix))"
    unfolding list.map receive_stream.simps frames [OF i] sum.case PTYDataFrame.select_convs by simp
  consider "i < m" | "i > m" | "i = m" by linarith
  then show ?case
  proof cases
    case 1
    with Cons.IH [of m s'] Cons.prems e show ?thesis unfolding r a by simp
  next
    case 2
    then show ?thesis unfolding r a by (intro exI [of _ 0]) simp
  next
    case 3
    with Cons.IH [of "Suc m" s'] Cons.prems e i obtain n
      where n: "receive_stream d s' (map ((!) fs) ix) = take n (drop (Suc m) ps)" by auto
    have "drop m ps = ps ! m # drop (Suc m) ps" using i 3 by (simp add: Cons_nth_drop_Suc)
    with n 3 show ?thesis unfolding r a by (intro exI [of _ "Suc n"]) simp
  qed
qed

lemma receive_all:
  assumes frames: "\<And>i. i < length ps \<Longrightarrow> DecodePTYDataFrame (fs ! i) = Inr \<lparr>f_Direction = d, f_Sequence = of_nat (Suc i), f_Payload = ps ! i\<rparr>"
    and small: "Suc (length ps) < 2 ^ 64" and s: "expects m s" "m \<le> length ps"
  shows "receive_stream d s (map ((!) fs) [m..<length ps]) = drop m ps"
  using s
proof (induction "length ps - m" arbitrary: m s)
  case 0
  then show ?case by simp
next
  case (Suc k)
  then have i: "m < length ps" by simp
  obtain s' where a: "seq_Accept (of_nat (Suc m)) s = (Inr False, s')" and e: "expects (Suc m) s'"
    using accept_expected [OF Suc.prems(1), of m] small i by auto
  have "drop m ps = ps ! m # drop (Suc m) ps" using i by (simp add: Cons_nth_drop_Suc)
  moreover have "[m..<length ps] = m # [Suc m..<length ps]" using i by (simp add: upt_conv_Cons)
  moreover have "receive_stream d s' (map ((!) fs) [Suc m..<length ps]) = drop (Suc m) ps"
    using Suc.hyps(1) [of "Suc m" s'] Suc.hyps(2) e i by simp
  ultimately show ?case by (simp add: frames [OF i] a del: of_nat_Suc)
qed

text \<open>
  C30. The terminal sees what was typed.  If the sender's frames arrive in order the
  receiver writes exactly the sender's messages; whatever frames of the stream arrive,
  repeated, lost or reordered, it writes a prefix of them, in order and without repetition.
  The messages are at most 64 KiB each, and fewer than the 64-bit sequence numbers.
\<close>

theorem pty_stream_faithful:
  assumes "d = 1 \<or> d = 2" and "\<forall>p\<in>set ps. length p \<le> maxPTYFrameData" and "Suc (length ps) < 2 ^ 64"
    and "\<forall>i\<in>set ix. i < length ps"
  shows "receive_stream d new_sequence (send_stream d 0 ps) = ps \<and>
    (\<exists>n. receive_stream d new_sequence (map ((!) (send_stream d 0 ps)) ix) = take n ps)"
proof -
  have l: "length (send_stream d 0 ps) = length ps" and
    f: "\<And>i. i < length ps \<Longrightarrow> DecodePTYDataFrame (send_stream d 0 ps ! i) =
      Inr \<lparr>f_Direction = d, f_Sequence = of_nat (Suc i), f_Payload = ps ! i\<rparr>"
    using send_stream_nth [OF assms(1,2), of 0] assms(3) by simp_all
  have e: "expects 0 new_sequence" by (simp add: expects_def new_sequence_def)
  have "map ((!) (send_stream d 0 ps)) [0..<length ps] = send_stream d 0 ps"
    using map_nth [of "send_stream d 0 ps"] l by simp
  then show ?thesis using receive_all [OF f assms(3) e] receive_prefix [OF f assms(3,4) e] by simp
qed

theorem pty_stream_faithful_witness:
  "receive_stream 1 new_sequence (send_stream 1 0 [''ls'', [], ''exit'']) = [''ls'', [], ''exit'']"
  using pty_stream_faithful [of 1 "[''ls'', [], ''exit'']" "[]"] by simp

end
