(* ===== verification/AuthSessions.thy ===== *)
theory AuthSessions
  imports Identity GoStrings
begin

text \<open>
  Browser sessions and request guards (\<open>pkg/auth/auth.go\<close>): session tokens with a sliding
  expiry, the middlewares that check the session, the CSRF header and the origin, and the
  logout and check handlers.  A request is the part of it the guards read; random bytes and
  the clock are arguments, and \<open>url.Parse\<close> is given by its result.
\<close>

subsection \<open>The session manager\<close>

record browser_session =
  bs_expiry :: time
  bs_csrf :: string

record session_store =
  sm_sessions :: "(string, browser_session) fmap"
  sm_ttl :: duration

definition NewSessionManager :: "duration \<Rightarrow> session_store" where
  "NewSessionManager ttl = \<lparr>sm_sessions = fmempty, sm_ttl = ttl\<rparr>"

text \<open>The two draws of random bytes may each fail.\<close>

definition session_Create :: "time \<Rightarrow> byte list option \<Rightarrow> byte list option \<Rightarrow> session_store \<Rightarrow> string option \<times> session_store" where
  "session_Create now b csrfBytes sm =
     (case b of
        None \<Rightarrow> (None, sm)
      | Some tokenBytes \<Rightarrow>
          (case csrfBytes of
             None \<Rightarrow> (None, sm)
           | Some cs \<Rightarrow>
               (let token = hex_encode tokenBytes in
                (Some token, sm\<lparr>sm_sessions := fmupd token
                   \<lparr>bs_expiry = now + sm_ttl sm, bs_csrf = hex_encode cs\<rparr> (sm_sessions sm)\<rparr>))))"

text \<open>\<open>Validate\<close> reads the clock twice: for the comparison and for the new expiry.\<close>

definition session_Validate :: "time \<Rightarrow> time \<Rightarrow> string \<Rightarrow> session_store \<Rightarrow> bool \<times> session_store" where
  "session_Validate now now' token sm =
     (case fmlookup (sm_sessions sm) token of
        None \<Rightarrow> (False, sm\<lparr>sm_sessions := fmdrop token (sm_sessions sm)\<rparr>)
      | Some value \<Rightarrow>
          if now > bs_expiry value then (False, sm\<lparr>sm_sessions := fmdrop token (sm_sessions sm)\<rparr>)
          else (True, sm\<lparr>sm_sessions := fmupd token (value\<lparr>bs_expiry := now' + sm_ttl sm\<rparr>) (sm_sessions sm)\<rparr>))"

definition session_CSRF :: "time \<Rightarrow> string \<Rightarrow> session_store \<Rightarrow> string option" where
  "session_CSRF now token sm =
     (case fmlookup (sm_sessions sm) token of
        None \<Rightarrow> None
      | Some value \<Rightarrow> if now > bs_expiry value then None else Some (bs_csrf value))"

definition session_Revoke :: "string \<Rightarrow> session_store \<Rightarrow> session_store" where
  "session_Revoke token sm = sm\<lparr>sm_sessions := fmdrop token (sm_sessions sm)\<rparr>"

definition session_Cleanup :: "time \<Rightarrow> session_store \<Rightarrow> session_store" where
  "session_Cleanup now sm = sm\<lparr>sm_sessions := fm_keep (\<lambda>_ v. \<not> now > bs_expiry v) (sm_sessions sm)\<rparr>"

subsection \<open>Guards\<close>

record http_request =
  rq_unix :: bool
  rq_cookie :: "string option"
  rq_ceremony :: "string option"
  rq_csrf :: string
  rq_origin :: string

datatype guard = Serve | Deny nat

definition StatusUnauthorized :: nat where "StatusUnauthorized = 401"
definition StatusForbidden :: nat where "StatusForbidden = 403"

text \<open>The guard also says which token's cookie it refreshes.\<close>

definition session_middleware :: "time \<Rightarrow> time \<Rightarrow> http_request \<Rightarrow> session_store \<Rightarrow> guard \<times> string option \<times> session_store" where
  "session_middleware now now' r sm =
     (if rq_unix r then (Serve, None, sm)
      else case rq_cookie r of
        None \<Rightarrow> (Deny StatusUnauthorized, None, sm)
      | Some value \<Rightarrow>
          (case session_Validate now now' value sm of
             (False, sm') \<Rightarrow> (Deny StatusUnauthorized, None, sm')
           | (True, sm') \<Rightarrow> (Serve, Some value, sm')))"

text \<open>\<open>subtle.ConstantTimeCompare\<close> is equality.\<close>

definition csrf_middleware :: "time \<Rightarrow> http_request \<Rightarrow> session_store \<Rightarrow> guard" where
  "csrf_middleware now r sm =
     (case rq_cookie r of
        None \<Rightarrow> Deny StatusForbidden
      | Some value \<Rightarrow>
          (case session_CSRF now value sm of
             None \<Rightarrow> Deny StatusForbidden
           | Some expected \<Rightarrow>
               if length (rq_csrf r) \<noteq> length expected \<or> rq_csrf r \<noteq> expected then Deny StatusForbidden else Serve))"

text \<open>What the code reads of a \<open>url.URL\<close>.\<close>

record go_url =
  u_Scheme :: string
  u_Host :: string
  u_Hostname :: string
  u_Port :: string
  u_has_user :: bool
  u_Path :: string
  u_RawQuery :: string
  u_Fragment :: string

definition joinHostPort :: "string \<Rightarrow> string \<Rightarrow> string" where
  "joinHostPort host port =
     (if CHR '':'' \<in> set host then ''['' @ host @ '']:'' @ port else host @ '':'' @ port)"

definition default_port :: "string \<Rightarrow> string option" where
  "default_port scheme = (if scheme = ''http'' then Some ''80'' else if scheme = ''https'' then Some ''443'' else None)"

definition normalizedOrigin :: "go_url option \<Rightarrow> string option" where
  "normalizedOrigin parsed =
     (case parsed of
        None \<Rightarrow> None
      | Some u \<Rightarrow>
          if u_Scheme u = [] \<or> u_Host u = [] \<or> u_has_user u \<or> u_Path u \<noteq> [] \<or> u_RawQuery u \<noteq> [] \<or> u_Fragment u \<noteq> []
          then None
          else
            let scheme = to_lower (u_Scheme u); host = to_lower (u_Hostname u) in
            case (if u_Port u = [] then default_port scheme else Some (u_Port u)) of
              None \<Rightarrow> None
            | Some port \<Rightarrow> Some (scheme @ ''://'' @ joinHostPort host port))"

text \<open>\<open>None\<close>: the public URL is not an origin, and the server does not start.\<close>

definition origin_middleware :: "(string \<Rightarrow> go_url option) \<Rightarrow> string \<Rightarrow> (http_request \<Rightarrow> guard) option" where
  "origin_middleware parse publicURL =
     (case normalizedOrigin (parse publicURL) of
        None \<Rightarrow> None
      | Some expected \<Rightarrow> Some (\<lambda>r.
          case normalizedOrigin (parse (rq_origin r)) of
            None \<Rightarrow> Deny StatusForbidden
          | Some origin \<Rightarrow> if origin \<noteq> expected then Deny StatusForbidden else Serve))"

definition cookie_max_age :: "duration \<Rightarrow> int" where
  "cookie_max_age ttl = (ttl + second - 1) div second"

definition logout :: "http_request \<Rightarrow> session_store \<Rightarrow> session_store" where
  "logout r sm = (case rq_cookie r of None \<Rightarrow> sm | Some value \<Rightarrow> session_Revoke value sm)"

text \<open>The answer of the check handler is the CSRF token, if the session is valid.\<close>

definition check_handler :: "time \<Rightarrow> time \<Rightarrow> time \<Rightarrow> http_request \<Rightarrow> session_store \<Rightarrow> string option \<times> session_store" where
  "check_handler now now' now'' r sm =
     (case rq_cookie r of
        None \<Rightarrow> (None, sm)
      | Some value \<Rightarrow>
          (case session_Validate now now' value sm of
             (False, sm') \<Rightarrow> (None, sm')
           | (True, sm') \<Rightarrow> (Some (case session_CSRF now'' value sm' of None \<Rightarrow> [] | Some c \<Rightarrow> c), sm')))"

subsection \<open>Sliding expiry\<close>

text \<open>
  The history of a token: when it was last created or accepted, and whether it was revoked
  since.  Events say by how much the clock advances.
\<close>

datatype touch = Touched string time | Ended string

record session_sys =
  ss_store :: session_store
  ss_now :: time
  ss_log :: "touch list"

datatype session_event =
    SCreate nat "byte list option" "byte list option"
  | SValidate nat nat string
  | SRevoke nat string
  | SCleanup nat

fun touch_id :: "touch \<Rightarrow> string" where
  "touch_id (Touched token _) = token"
| "touch_id (Ended token) = token"

definition last_touch :: "string \<Rightarrow> touch list \<Rightarrow> touch option" where
  "last_touch token l = find (\<lambda>x. touch_id x = token) l"

fun session_step :: "session_sys \<Rightarrow> session_event \<Rightarrow> session_sys" where
  "session_step q (SCreate dt b cs) =
     (let now = ss_now q + int dt in
      case session_Create now b cs (ss_store q) of
        (None, sm) \<Rightarrow> \<lparr>ss_store = sm, ss_now = now, ss_log = ss_log q\<rparr>
      | (Some token, sm) \<Rightarrow> \<lparr>ss_store = sm, ss_now = now, ss_log = Touched token now # ss_log q\<rparr>)"
| "session_step q (SValidate dt dt' token) =
     (let now = ss_now q + int dt; now' = now + int dt' in
      case session_Validate now now' token (ss_store q) of
        (False, sm) \<Rightarrow> \<lparr>ss_store = sm, ss_now = now', ss_log = ss_log q\<rparr>
      | (True, sm) \<Rightarrow> \<lparr>ss_store = sm, ss_now = now', ss_log = Touched token now' # ss_log q\<rparr>)"
| "session_step q (SRevoke dt token) =
     \<lparr>ss_store = session_Revoke token (ss_store q), ss_now = ss_now q + int dt, ss_log = Ended token # ss_log q\<rparr>"
| "session_step q (SCleanup dt) =
     \<lparr>ss_store = session_Cleanup (ss_now q + int dt) (ss_store q), ss_now = ss_now q + int dt, ss_log = ss_log q\<rparr>"

definition session_init :: "duration \<Rightarrow> time \<Rightarrow> session_sys" where
  "session_init ttl start = \<lparr>ss_store = NewSessionManager ttl, ss_now = start, ss_log = []\<rparr>"

definition touched_ok :: "duration \<Rightarrow> time \<Rightarrow> browser_session option \<Rightarrow> touch option \<Rightarrow> bool" where
  "touched_ok ttl now entry l =
     (case entry of
        Some v \<Rightarrow> (case l of Some (Touched _ t) \<Rightarrow> bs_expiry v = t + ttl | _ \<Rightarrow> False)
      | None \<Rightarrow> (case l of Some (Touched _ t) \<Rightarrow> now > t + ttl | _ \<Rightarrow> True))"

definition session_inv :: "duration \<Rightarrow> session_sys \<Rightarrow> bool" where
  "session_inv ttl q =
     (sm_ttl (ss_store q) = ttl \<and>
      (\<forall>token. touched_ok ttl (ss_now q) (fmlookup (sm_sessions (ss_store q)) token) (last_touch token (ss_log q))))"

lemma last_touch_Cons: "last_touch token (x # l) = (if touch_id x = token then Some x else last_touch token l)"
  by (simp add: last_touch_def)

lemma touched_ok_fresh [simp]:
  "touched_ok ttl now (Some v) (Some (Touched token t)) = (bs_expiry v = t + ttl)"
  "touched_ok ttl now None (Some (Ended token))"
  by (simp_all add: touched_ok_def)

lemma touched_later: "\<lbrakk>touched_ok ttl now e l; now \<le> now'\<rbrakk> \<Longrightarrow> touched_ok ttl now' e l"
  by (auto simp: touched_ok_def split: option.splits touch.splits)

lemma touched_expired: "\<lbrakk>touched_ok ttl now (Some v) l; now' > bs_expiry v\<rbrakk> \<Longrightarrow> touched_ok ttl now' None l"
  by (auto simp: touched_ok_def split: option.splits touch.splits)

lemma session_inv_step:
  assumes inv: "session_inv ttl q"
  shows "session_inv ttl (session_step q e)"
proof -
  have ttl: "sm_ttl (ss_store q) = ttl" using inv by (simp add: session_inv_def)
  have ok: "touched_ok ttl (ss_now q) (fmlookup (sm_sessions (ss_store q)) token) (last_touch token (ss_log q))" for token
    using inv by (simp add: session_inv_def)
  have later: "touched_ok ttl (ss_now q + int dt) (fmlookup (sm_sessions (ss_store q)) token) (last_touch token (ss_log q))" for dt token
    by (rule touched_later [OF ok]) simp
  show ?thesis
  proof (cases e)
    case (SCreate dt b cs)
    then show ?thesis
      using later [of dt] ttl
      by (cases b; cases cs) (auto simp: session_inv_def session_Create_def Let_def last_touch_Cons)
  next
    case (SValidate dt dt' token)
    let ?now = "ss_now q + int dt" and ?s = "sm_sessions (ss_store q)"
    have later': "touched_ok ttl (?now + int dt') (fmlookup ?s tok) (last_touch tok (ss_log q))" for tok
      by (rule touched_later [OF later [of dt]]) simp
    show ?thesis
    proof (cases "fmlookup ?s token")
      case None
      with SValidate later' ttl show ?thesis
        by (auto simp: session_inv_def session_Validate_def Let_def fmdrop_idle fmdom_notI)
    next
      case (Some v)
      show ?thesis
      proof (cases "?now > bs_expiry v")
        case True
        have "touched_ok ttl (?now + int dt') None (last_touch token (ss_log q))"
        proof (rule touched_later)
          from later [of dt token] have "touched_ok ttl ?now (Some v) (last_touch token (ss_log q))" unfolding Some .
          from touched_expired [OF this True] show "touched_ok ttl ?now None (last_touch token (ss_log q))" .
        qed simp
        with SValidate Some True later' ttl show ?thesis by (simp add: session_inv_def session_Validate_def Let_def)
      next
        case False
        with SValidate Some later' ttl show ?thesis
          by (simp add: session_inv_def session_Validate_def Let_def last_touch_Cons)
      qed
    qed
  next
    case (SRevoke dt token)
    with later [of dt] ttl show ?thesis
      by (auto simp: session_inv_def session_Revoke_def last_touch_Cons)
  next
    case (SCleanup dt)
    have "touched_ok ttl (ss_now q + int dt) (fmlookup (sm_sessions (session_Cleanup (ss_now q + int dt) (ss_store q))) token)
        (last_touch token (ss_log q))" for token
      using later [of dt token] touched_expired [of ttl "ss_now q + int dt" _ "last_touch token (ss_log q)" "ss_now q + int dt"]
      by (auto simp: session_Cleanup_def split: option.splits)
    with SCleanup ttl show ?thesis by (simp add: session_inv_def session_Cleanup_def)
  qed
qed

interpretation sessions: component "session_init ttl start" session_step "session_inv ttl" for ttl start
proof unfold_locales
  show "session_inv ttl (session_init ttl start)"
    by (simp add: session_inv_def session_init_def NewSessionManager_def touched_ok_def last_touch_def)
qed (rule session_inv_step)

text \<open>
  C18. A session lives exactly as long as it is used.  In every history of creations,
  validations, revocations and cleanups, a token is accepted if and only if it was created
  or accepted before, was not revoked since its last acceptance, and no more than the
  lifetime has passed since; whatever was cleaned up or refused in between makes no
  difference.  The guard of a request with that cookie agrees.
\<close>

theorem session_accepted_iff_fresh:
  assumes "q = foldl session_step (session_init ttl start) events" and "ss_now q \<le> now"
  shows "fst (session_Validate now now' token (ss_store q)) =
      (case last_touch token (ss_log q) of Some (Touched _ t) \<Rightarrow> now \<le> t + ttl | _ \<Rightarrow> False) \<and>
    (\<not> rq_unix r \<and> rq_cookie r = Some token \<longrightarrow>
      (fst (session_middleware now now' r (ss_store q)) = Serve) = fst (session_Validate now now' token (ss_store q)))"
proof -
  have "session_inv ttl q" unfolding assms(1) by (rule sessions.run_inv)
  then have "touched_ok ttl (ss_now q) (fmlookup (sm_sessions (ss_store q)) token) (last_touch token (ss_log q))"
    by (simp add: session_inv_def)
  then show ?thesis
    using assms(2)
    by (auto simp: touched_ok_def session_Validate_def session_middleware_def split: option.splits touch.splits)
qed

theorem session_accepted_iff_fresh_witness:
  "fst (session_Validate 15 15 ''00'' (ss_store (foldl session_step (session_init 10 0)
     [SCreate 1 (Some [CHR 0x00]) (Some []), SValidate 4 0 ''00'', SCleanup 5])))"
proof -
  let ?q = "foldl session_step (session_init 10 0)
     [SCreate 1 (Some [CHR 0x00]) (Some []), SValidate 4 0 ''00'', SCleanup 5]"
  have n: "ss_now ?q \<le> 15" by code_simp
  have l: "last_touch ''00'' (ss_log ?q) = Some (Touched ''00'' 5)" by code_simp
  from session_accepted_iff_fresh [OF refl n, of 15 "''00''"] show ?thesis unfolding l by simp
qed

end
