(* ===== verification/Passkeys.thy ===== *)
theory Passkeys
  imports AuthSessions AtomicFile
begin

text \<open>
  Passkeys (\<open>pkg/auth/passkey.go\<close>): the store of credentials and its file, the setup token
  that admits the first one, the ceremonies between a begin and a finish request, and the
  handlers.  A credential is its ID and the rest that WebAuthn keeps (\<open>'c\<close>); \<open>'w\<close> is the
  library's session data and \<open>'r\<close> the body of a finish request.  The library's verdicts are
  arguments of the handlers.
\<close>

definition maxPasskeyLabelRunes :: nat where "maxPasskeyLabelRunes = 80"
definition maxCeremonies :: nat where "maxCeremonies = 64"
definition bootstrapTTL :: duration where "bootstrapTTL = 10 * minute"

datatype passkey_error = ErrPasskeyNotFound | ErrLastPasskey | ErrInvalidPasskeyID | ErrInvalidPasskeyLabel
  | PasskeyRegistered | PasskeySave stage | PasskeyStoreUnreadable | PasskeyStoreBound

record 'c credential =
  cred_ID :: string
  cred_data :: 'c

record 'c StoredCredential =
  sc_Label :: string
  sc_CreatedAt :: time
  sc_LastUsedAt :: "time option"
  sc_Credential :: "'c credential"

record PasskeyMetadata =
  pm_ID :: string
  pm_Label :: string
  pm_CreatedAt :: time
  pm_LastUsedAt :: "time option"

subsection \<open>Identifiers and labels\<close>

definition encodeCredentialID :: "string \<Rightarrow> string" where
  "encodeCredentialID cid = b64_raw_url cid"

text \<open>
  \<open>base64.RawURLEncoding\<close> decodes leniently: line breaks are skipped, and the unused bits of
  the last digit are ignored.
\<close>

definition url_digit :: "char \<Rightarrow> nat option" where
  "url_digit c =
     (if c = CHR ''-'' then Some 62 else if c = CHR ''_'' then Some 63
      else if c = CHR ''+'' \<or> c = CHR ''/'' then None else b64_digit c)"

fun b64_raw_groups :: "nat list \<Rightarrow> string option" where
  "b64_raw_groups [] = Some []"
| "b64_raw_groups [a] = None"
| "b64_raw_groups [a, b] = Some [char_of ((a * 4 + b div 16) mod 256)]"
| "b64_raw_groups [a, b, c] = Some [char_of ((a * 4 + b div 16) mod 256), char_of ((b * 16 + c div 4) mod 256)]"
| "b64_raw_groups (a # b # c # d # rest) =
     (case b64_raw_groups rest of
        None \<Rightarrow> None
      | Some bs \<Rightarrow> Some (char_of ((a * 4 + b div 16) mod 256) # char_of ((b * 16 + c div 4) mod 256)
          # char_of ((c * 64 + d) mod 256) # bs))"

definition b64_raw_decode :: "string \<Rightarrow> string option" where
  "b64_raw_decode s =
     (let digits = map url_digit (filter (\<lambda>c. byte_val c \<noteq> 10 \<and> byte_val c \<noteq> 13) s)
      in if None \<in> set digits then None else b64_raw_groups (map the digits))"

definition decodeCredentialID :: "string \<Rightarrow> string option" where
  "decodeCredentialID v = (case b64_raw_decode v of None \<Rightarrow> None | Some cid \<Rightarrow> if cid = [] then None else Some cid)"

definition validatePasskeyLabel :: "string \<Rightarrow> bool \<Rightarrow> string option" where
  "validatePasskeyLabel v allowEmpty =
     (let label = trim_space v in
      if label = [] \<and> allowEmpty then Some []
      else if label = [] \<or> rune_count label > maxPasskeyLabelRunes then None else Some label)"

subsection \<open>The store\<close>

record 'c passkeyData =
  pd_Version :: int
  pd_RPID :: string
  pd_Origin :: string
  pd_UserID :: string
  pd_Credentials :: "'c StoredCredential list"

record 'c passkey_store =
  pk_data :: "'c passkeyData"
  pk_dir :: "'c passkeyData dir"

definition pk_creds :: "'c passkey_store \<Rightarrow> 'c StoredCredential list" where
  "pk_creds s = pd_Credentials (pk_data s)"

definition set_creds :: "'c StoredCredential list \<Rightarrow> 'c passkey_store \<Rightarrow> 'c passkey_store" where
  "set_creds cs s = s\<lparr>pk_data := (pk_data s)\<lparr>pd_Credentials := cs\<rparr>\<rparr>"

definition saveLocked :: "stage option \<Rightarrow> 'c passkey_store \<Rightarrow> stage option \<times> 'c passkey_store" where
  "saveLocked fault s = (case saveData fault (pk_data s) (pk_dir s) of (e, disk, _) \<Rightarrow> (e, s\<lparr>pk_dir := disk\<rparr>))"

text \<open>\<open>raw\<close> is what reading and decoding the file gives; \<open>userID\<close> are the random bytes.\<close>

definition NewPasskeyStore :: "string \<Rightarrow> string \<Rightarrow> 'c passkeyData stored \<Rightarrow> stage option \<Rightarrow> string \<Rightarrow> 'c passkeyData dir
    \<Rightarrow> passkey_error + 'c passkey_store" where
  "NewPasskeyStore rpID origin raw fault userID disk =
     (let blank = \<lparr>pd_Version = 0, pd_RPID = [], pd_Origin = [], pd_UserID = [], pd_Credentials = []\<rparr>;
          fresh = (\<lambda>d. if pd_UserID d = []
            then case saveLocked fault \<lparr>pk_data = \<lparr>pd_Version = 1, pd_RPID = rpID, pd_Origin = origin,
                   pd_UserID = userID, pd_Credentials = []\<rparr>, pk_dir = disk\<rparr> of
                 (Some e, _) \<Rightarrow> Inl (PasskeySave e) | (None, s) \<Rightarrow> Inr s
            else Inr \<lparr>pk_data = d, pk_dir = disk\<rparr>)
      in case raw of
           Stored d \<Rightarrow>
             if pd_Credentials d \<noteq> [] \<and> (pd_RPID d \<noteq> rpID \<or> pd_Origin d \<noteq> origin) then Inl PasskeyStoreBound
             else fresh d
         | NotExist \<Rightarrow> fresh blank
         | _ \<Rightarrow> Inl PasskeyStoreUnreadable)"

definition HasCredentials :: "'c passkey_store \<Rightarrow> bool" where
  "HasCredentials s = (pk_creds s \<noteq> [])"

definition passkey_List :: "'c passkey_store \<Rightarrow> PasskeyMetadata list" where
  "passkey_List s = map (\<lambda>c. \<lparr>pm_ID = encodeCredentialID (cred_ID (sc_Credential c)), pm_Label = sc_Label c,
     pm_CreatedAt = sc_CreatedAt c, pm_LastUsedAt = sc_LastUsedAt c\<rparr>) (pk_creds s)"

definition has_id :: "string \<Rightarrow> 'c StoredCredential \<Rightarrow> bool" where
  "has_id cid c = (cred_ID (sc_Credential c) = cid)"

text \<open>The first credential with an ID, rewritten in place.\<close>

fun update_first :: "('a \<Rightarrow> bool) \<Rightarrow> ('a \<Rightarrow> 'a) \<Rightarrow> 'a list \<Rightarrow> 'a list" where
  "update_first P f [] = []"
| "update_first P f (x # xs) = (if P x then f x # xs else x # update_first P f xs)"

text \<open>\<open>Rename\<close> and \<open>Delete\<close> put the old value back when the write fails.\<close>

definition passkey_Rename :: "stage option \<Rightarrow> string \<Rightarrow> string \<Rightarrow> 'c passkey_store \<Rightarrow> passkey_error option \<times> 'c passkey_store" where
  "passkey_Rename fault encodedID v s =
     (case decodeCredentialID encodedID of
        None \<Rightarrow> (Some ErrInvalidPasskeyID, s)
      | Some cid \<Rightarrow>
          (case validatePasskeyLabel v False of
             None \<Rightarrow> (Some ErrInvalidPasskeyLabel, s)
           | Some label \<Rightarrow>
               if \<not> list_ex (has_id cid) (pk_creds s) then (Some ErrPasskeyNotFound, s)
               else case saveLocked fault (set_creds (update_first (has_id cid) (\<lambda>c. c\<lparr>sc_Label := label\<rparr>) (pk_creds s)) s) of
                 (Some e, s') \<Rightarrow> (Some (PasskeySave e), set_creds (pk_creds s) s')
               | (None, s') \<Rightarrow> (None, s')))"

definition passkey_Delete :: "stage option \<Rightarrow> string \<Rightarrow> 'c passkey_store \<Rightarrow> passkey_error option \<times> 'c passkey_store" where
  "passkey_Delete fault encodedID s =
     (case decodeCredentialID encodedID of
        None \<Rightarrow> (Some ErrInvalidPasskeyID, s)
      | Some cid \<Rightarrow>
          if \<not> list_ex (has_id cid) (pk_creds s) then (Some ErrPasskeyNotFound, s)
          else if length (pk_creds s) \<le> 1 then (Some ErrLastPasskey, s)
          else case saveLocked fault (set_creds (remove_first (has_id cid) (pk_creds s)) s) of
            (Some e, s') \<Rightarrow> (Some (PasskeySave e), set_creds (pk_creds s) s')
          | (None, s') \<Rightarrow> (None, s'))"

record 'c passkeyUser =
  pu_id :: string
  pu_credentials :: "'c credential list"

definition passkey_snapshot :: "'c passkey_store \<Rightarrow> 'c passkeyUser" where
  "passkey_snapshot s = \<lparr>pu_id = pd_UserID (pk_data s), pu_credentials = map sc_Credential (pk_creds s)\<rparr>"

text \<open>\<open>add\<close> and \<open>update\<close> report a failed write but keep the new value in memory.\<close>

definition passkey_add :: "stage option \<Rightarrow> time \<Rightarrow> string \<Rightarrow> 'c credential \<Rightarrow> 'c passkey_store \<Rightarrow> passkey_error option \<times> 'c passkey_store" where
  "passkey_add fault now label0 credential s =
     (case validatePasskeyLabel label0 True of
        None \<Rightarrow> (Some ErrInvalidPasskeyLabel, s)
      | Some label \<Rightarrow>
          if list_ex (has_id (cred_ID credential)) (pk_creds s) then (Some PasskeyRegistered, s)
          else case saveLocked fault (set_creds (pk_creds s @
                 [\<lparr>sc_Label = label, sc_CreatedAt = now, sc_LastUsedAt = None, sc_Credential = credential\<rparr>]) s) of
            (e, s') \<Rightarrow> (map_option PasskeySave e, s'))"

definition passkey_update :: "stage option \<Rightarrow> time \<Rightarrow> 'c credential \<Rightarrow> 'c passkey_store \<Rightarrow> passkey_error option \<times> 'c passkey_store" where
  "passkey_update fault now credential s =
     (if \<not> list_ex (has_id (cred_ID credential)) (pk_creds s) then (Some ErrPasskeyNotFound, s)
      else case saveLocked fault (set_creds (update_first (has_id (cred_ID credential))
             (\<lambda>c. c\<lparr>sc_Credential := credential, sc_LastUsedAt := Some now\<rparr>) (pk_creds s)) s) of
        (e, s') \<Rightarrow> (map_option PasskeySave e, s'))"

subsection \<open>The manager\<close>

record 'w ceremony =
  ce_kind :: string
  ce_label :: string
  ce_session :: 'w
  ce_expires :: time

record ('c, 'w) passkey_manager =
  km_store :: "'c passkey_store"
  km_sessions :: session_store
  km_ceremonies :: "(string, 'w ceremony) fmap"
  km_bootstrapHash :: "string option"
  km_bootstrap :: string
  km_bootstrapExpires :: time

text \<open>\<open>sha\<close> is SHA-256; a \<open>nil\<close> hash is \<open>None\<close>.  \<open>random\<close> are the 32 bytes drawn.\<close>

definition NewPasskeyManager :: "(string \<Rightarrow> string) \<Rightarrow> byte list \<Rightarrow> time \<Rightarrow> 'c passkey_store \<Rightarrow> session_store \<Rightarrow> ('c, 'w) passkey_manager" where
  "NewPasskeyManager sha random now store sessions =
     (let m = \<lparr>km_store = store, km_sessions = sessions, km_ceremonies = fmempty, km_bootstrapHash = None,
            km_bootstrap = [], km_bootstrapExpires = 0\<rparr>
      in if HasCredentials store then m
         else m\<lparr>km_bootstrap := b64_raw_url random, km_bootstrapHash := Some (sha (b64_raw_url random)),
                km_bootstrapExpires := now + bootstrapTTL\<rparr>)"

definition BootstrapToken :: "('c, 'w) passkey_manager \<Rightarrow> string \<times> ('c, 'w) passkey_manager" where
  "BootstrapToken m = (km_bootstrap m, m\<lparr>km_bootstrap := []\<rparr>)"

definition RotateBootstrapToken :: "(string \<Rightarrow> string) \<Rightarrow> byte list \<Rightarrow> time \<Rightarrow> ('c, 'w) passkey_manager
    \<Rightarrow> string option \<times> ('c, 'w) passkey_manager" where
  "RotateBootstrapToken sha random now m =
     (if HasCredentials (km_store m) then (None, m)
      else let token = b64_raw_url random in
        (Some token, m\<lparr>km_bootstrap := [], km_bootstrapHash := Some (sha token),
           km_bootstrapExpires := now + bootstrapTTL\<rparr>))"

definition passkey_authenticated :: "time \<Rightarrow> http_request \<Rightarrow> ('c, 'w) passkey_manager \<Rightarrow> bool \<times> ('c, 'w) passkey_manager" where
  "passkey_authenticated now r m =
     (case rq_cookie r of
        None \<Rightarrow> (False, m)
      | Some v \<Rightarrow> (case session_Validate now now v (km_sessions m) of (ok, sm) \<Rightarrow> (ok, m\<lparr>km_sessions := sm\<rparr>)))"

definition authorizeRegistration :: "(string \<Rightarrow> string) \<Rightarrow> time \<Rightarrow> http_request \<Rightarrow> string \<Rightarrow> ('c, 'w) passkey_manager
    \<Rightarrow> bool \<times> ('c, 'w) passkey_manager" where
  "authorizeRegistration sha now r supplied m =
     (if HasCredentials (km_store m) then passkey_authenticated now r m
      else if km_bootstrapHash m = None \<or> now > km_bootstrapExpires m \<or> km_bootstrapHash m \<noteq> Some (sha supplied)
      then (False, m)
      else (True, m\<lparr>km_bootstrapHash := None\<rparr>))"

definition putCeremony :: "byte list \<Rightarrow> time \<Rightarrow> 'w ceremony \<Rightarrow> ('c, 'w) passkey_manager \<Rightarrow> string option \<times> ('c, 'w) passkey_manager" where
  "putCeremony random now v0 m =
     (let token = b64_raw_url random; v = v0\<lparr>ce_expires := now + 5 * minute\<rparr>;
          live = fm_keep (\<lambda>_ e. \<not> now > ce_expires e) (km_ceremonies m)
      in if go_len live \<ge> maxCeremonies then (None, m\<lparr>km_ceremonies := live\<rparr>)
         else (Some token, m\<lparr>km_ceremonies := fmupd token v live\<rparr>))"

definition takeCeremony :: "time \<Rightarrow> http_request \<Rightarrow> string \<Rightarrow> ('c, 'w) passkey_manager \<Rightarrow> 'w ceremony option \<times> ('c, 'w) passkey_manager" where
  "takeCeremony now r kind m =
     (case rq_ceremony r of
        None \<Rightarrow> (None, m)
      | Some token \<Rightarrow>
          (let m' = m\<lparr>km_ceremonies := fmdrop token (km_ceremonies m)\<rparr> in
           case fmlookup (km_ceremonies m) token of
             None \<Rightarrow> (None, m')
           | Some v \<Rightarrow> if ce_kind v \<noteq> kind \<or> now > ce_expires v then (None, m') else (Some v, m')))"

subsection \<open>Handlers\<close>

text \<open>
  A handler returns the status and, for a new session, its token.  \<open>body\<close> is \<open>None\<close> when
  the JSON does not decode; \<open>wa\<close> is what the WebAuthn library returns for the begin calls.
\<close>

definition BeginRegistrationHandler :: "(string \<Rightarrow> string) \<Rightarrow> byte list \<Rightarrow> time \<Rightarrow> http_request \<Rightarrow> (string \<times> string) option
    \<Rightarrow> ('c passkeyUser \<Rightarrow> 'w option) \<Rightarrow> ('c, 'w) passkey_manager \<Rightarrow> nat \<times> ('c, 'w) passkey_manager" where
  "BeginRegistrationHandler sha random now r body wa m =
     (case body of
        None \<Rightarrow> (400, m)
      | Some (setupToken, label) \<Rightarrow>
          (case authorizeRegistration sha now r setupToken m of
             (False, m1) \<Rightarrow> (401, m1)
           | (True, m1) \<Rightarrow>
               (case wa (passkey_snapshot (km_store m1)) of
                  None \<Rightarrow> (500, m1)
                | Some session \<Rightarrow>
                    (case putCeremony random now \<lparr>ce_kind = ''register'', ce_label = label, ce_session = session, ce_expires = 0\<rparr> m1 of
                       (None, m2) \<Rightarrow> (503, m2)
                     | (Some _, m2) \<Rightarrow> (200, m2)))))"

definition create_session :: "time \<Rightarrow> byte list option \<Rightarrow> byte list option \<Rightarrow> ('c, 'w) passkey_manager
    \<Rightarrow> string option \<times> ('c, 'w) passkey_manager" where
  "create_session now b cs m =
     (case session_Create now b cs (km_sessions m) of (token, sm) \<Rightarrow> (token, m\<lparr>km_sessions := sm\<rparr>))"

definition FinishRegistrationHandler :: "stage option \<Rightarrow> byte list option \<Rightarrow> byte list option \<Rightarrow> time \<Rightarrow> http_request
    \<Rightarrow> ('c passkeyUser \<Rightarrow> 'w \<Rightarrow> 'c credential option) \<Rightarrow> ('c, 'w) passkey_manager
    \<Rightarrow> nat \<times> string option \<times> ('c, 'w) passkey_manager" where
  "FinishRegistrationHandler fault b cs now r wa m =
     (case takeCeremony now r ''register'' m of
        (None, m1) \<Rightarrow> (400, None, m1)
      | (Some v, m1) \<Rightarrow>
          (let hadCredentials = HasCredentials (km_store m1) in
           case wa (passkey_snapshot (km_store m1)) (ce_session v) of
             None \<Rightarrow> (400, None, m1)
           | Some credential \<Rightarrow>
               (case passkey_add fault now (ce_label v) credential (km_store m1) of
                  (Some _, s) \<Rightarrow> (409, None, m1\<lparr>km_store := s\<rparr>)
                | (None, s) \<Rightarrow>
                    (let m2 = m1\<lparr>km_store := s, km_bootstrap := [], km_bootstrapHash := None, km_bootstrapExpires := 0\<rparr>
                     in if hadCredentials then (200, None, m2)
                        else case create_session now b cs m2 of
                          (None, m3) \<Rightarrow> (500, None, m3)
                        | (Some token, m3) \<Rightarrow> (200, Some token, m3)))))"

definition BeginLoginHandler :: "byte list \<Rightarrow> time \<Rightarrow> 'w option \<Rightarrow> ('c, 'w) passkey_manager \<Rightarrow> nat \<times> ('c, 'w) passkey_manager" where
  "BeginLoginHandler random now wa m =
     (if \<not> HasCredentials (km_store m) then (412, m)
      else case wa of
        None \<Rightarrow> (500, m)
      | Some session \<Rightarrow>
          (case putCeremony random now \<lparr>ce_kind = ''login'', ce_label = [], ce_session = session, ce_expires = 0\<rparr> m of
             (None, m1) \<Rightarrow> (503, m1) | (Some _, m1) \<Rightarrow> (200, m1)))"

text \<open>The callback the library asks for the user of a credential.\<close>

definition login_user :: "'c passkey_store \<Rightarrow> string \<Rightarrow> string \<Rightarrow> 'c passkeyUser option" where
  "login_user s rawID userHandle =
     (let user = passkey_snapshot s in
      if pu_id user \<noteq> userHandle then None
      else if list_ex (\<lambda>c. cred_ID c = rawID) (pu_credentials user) then Some user else None)"

definition FinishLoginHandler :: "stage option \<Rightarrow> byte list option \<Rightarrow> byte list option \<Rightarrow> time \<Rightarrow> http_request
    \<Rightarrow> ((string \<Rightarrow> string \<Rightarrow> 'c passkeyUser option) \<Rightarrow> 'w \<Rightarrow> 'c credential option) \<Rightarrow> ('c, 'w) passkey_manager
    \<Rightarrow> nat \<times> string option \<times> ('c, 'w) passkey_manager" where
  "FinishLoginHandler fault b cs now r wa m =
     (case takeCeremony now r ''login'' m of
        (None, m1) \<Rightarrow> (400, None, m1)
      | (Some v, m1) \<Rightarrow>
          (case wa (login_user (km_store m1)) (ce_session v) of
             None \<Rightarrow> (401, None, m1)
           | Some credential \<Rightarrow>
               (case passkey_update fault now credential (km_store m1) of
                  (Some _, s) \<Rightarrow> (500, None, m1\<lparr>km_store := s\<rparr>)
                | (None, s) \<Rightarrow>
                    (case create_session now b cs (m1\<lparr>km_store := s\<rparr>) of
                       (None, m2) \<Rightarrow> (500, None, m2)
                     | (Some token, m2) \<Rightarrow> (200, Some token, m2)))))"

definition RenameHandler :: "stage option \<Rightarrow> string \<Rightarrow> string option \<Rightarrow> ('c, 'w) passkey_manager \<Rightarrow> nat \<times> ('c, 'w) passkey_manager" where
  "RenameHandler fault credentialID body m =
     (case body of
        None \<Rightarrow> (400, m)
      | Some label \<Rightarrow>
          (case passkey_Rename fault credentialID label (km_store m) of
             (e, s) \<Rightarrow> ((case e of
                 Some ErrInvalidPasskeyID \<Rightarrow> 400 | Some ErrInvalidPasskeyLabel \<Rightarrow> 400
               | Some ErrPasskeyNotFound \<Rightarrow> 404 | Some _ \<Rightarrow> 500 | None \<Rightarrow> 200), m\<lparr>km_store := s\<rparr>)))"

definition DeleteHandler :: "stage option \<Rightarrow> string \<Rightarrow> ('c, 'w) passkey_manager \<Rightarrow> nat \<times> ('c, 'w) passkey_manager" where
  "DeleteHandler fault credentialID m =
     (case passkey_Delete fault credentialID (km_store m) of
        (e, s) \<Rightarrow> ((case e of
            Some ErrInvalidPasskeyID \<Rightarrow> 400 | Some ErrPasskeyNotFound \<Rightarrow> 404
          | Some ErrLastPasskey \<Rightarrow> 409 | Some _ \<Rightarrow> 500 | None \<Rightarrow> 204), m\<lparr>km_store := s\<rparr>))"

definition StatusHandler :: "bool \<Rightarrow> ('c, 'w) passkey_manager option \<Rightarrow> bool \<times> bool" where
  "StatusHandler authEnabled manager =
     (authEnabled, authEnabled \<and> (case manager of None \<Rightarrow> False | Some m \<Rightarrow> \<not> HasCredentials (km_store m)))"

subsection \<open>Who may register a passkey\<close>

text \<open>
  The manager as a transition system.  \<open>kg_issued\<close> counts the setup tokens issued,
  \<open>kg_authed\<close> the registrations begun by a request with a valid session and \<open>kg_added\<close> the
  credentials that were ever added; they only observe.
\<close>

record ('c, 'w) passkey_sys =
  kg_m :: "('c, 'w) passkey_manager"
  kg_issued :: nat
  kg_authed :: nat
  kg_added :: nat

datatype ('c, 'w) passkey_event =
    KBeginRegistration "byte list" time http_request "(string \<times> string) option" "'c passkeyUser \<Rightarrow> 'w option"
  | KFinishRegistration "stage option" "byte list option" "byte list option" time http_request
      "'c passkeyUser \<Rightarrow> 'w \<Rightarrow> 'c credential option"
  | KBeginLogin "byte list" time "'w option"
  | KFinishLogin "stage option" "byte list option" "byte list option" time http_request
      "(string \<Rightarrow> string \<Rightarrow> 'c passkeyUser option) \<Rightarrow> 'w \<Rightarrow> 'c credential option"
  | KRename "stage option" string "string option"
  | KDelete "stage option" string
  | KToken
  | KRotate "byte list" time
  | KSession time time string
  | KLogout string

fun passkey_step :: "(string \<Rightarrow> string) \<Rightarrow> ('c, 'w) passkey_sys \<Rightarrow> ('c, 'w) passkey_event \<Rightarrow> ('c, 'w) passkey_sys" where
  "passkey_step sha q (KBeginRegistration random now r body wa) =
     q\<lparr>kg_m := snd (BeginRegistrationHandler sha random now r body wa (kg_m q)),
       kg_authed := kg_authed q + (case body of None \<Rightarrow> 0 | Some _ \<Rightarrow>
         if HasCredentials (km_store (kg_m q)) \<and> fst (passkey_authenticated now r (kg_m q)) then 1 else 0)\<rparr>"
| "passkey_step sha q (KFinishRegistration fault b cs now r wa) =
     (case FinishRegistrationHandler fault b cs now r wa (kg_m q) of
        (_, _, m) \<Rightarrow> q\<lparr>kg_m := m, kg_added := kg_added q + (length (pk_creds (km_store m)) - length (pk_creds (km_store (kg_m q))))\<rparr>)"
| "passkey_step sha q (KBeginLogin random now wa) = q\<lparr>kg_m := snd (BeginLoginHandler random now wa (kg_m q))\<rparr>"
| "passkey_step sha q (KFinishLogin fault b cs now r wa) =
     q\<lparr>kg_m := snd (snd (FinishLoginHandler fault b cs now r wa (kg_m q)))\<rparr>"
| "passkey_step sha q (KRename fault i body) = q\<lparr>kg_m := snd (RenameHandler fault i body (kg_m q))\<rparr>"
| "passkey_step sha q (KDelete fault i) = q\<lparr>kg_m := snd (DeleteHandler fault i (kg_m q))\<rparr>"
| "passkey_step sha q KToken = q\<lparr>kg_m := snd (BootstrapToken (kg_m q))\<rparr>"
| "passkey_step sha q (KRotate random now) =
     (case RotateBootstrapToken sha random now (kg_m q) of
        (None, m) \<Rightarrow> q\<lparr>kg_m := m\<rparr> | (Some _, m) \<Rightarrow> q\<lparr>kg_m := m, kg_issued := Suc (kg_issued q)\<rparr>)"
| "passkey_step sha q (KSession now now' token) =
     q\<lparr>kg_m := (kg_m q)\<lparr>km_sessions := snd (session_Validate now now' token (km_sessions (kg_m q)))\<rparr>\<rparr>"
| "passkey_step sha q (KLogout token) =
     q\<lparr>kg_m := (kg_m q)\<lparr>km_sessions := session_Revoke token (km_sessions (kg_m q))\<rparr>\<rparr>"

definition passkey_init :: "(string \<Rightarrow> string) \<Rightarrow> byte list \<Rightarrow> time \<Rightarrow> 'c passkey_store \<Rightarrow> session_store \<Rightarrow> ('c, 'w) passkey_sys" where
  "passkey_init sha random now store sessions =
     \<lparr>kg_m = NewPasskeyManager sha random now store sessions, kg_issued = (if HasCredentials store then 0 else 1),
      kg_authed = 0, kg_added = 0\<rparr>"

text \<open>The registrations under way.\<close>

definition registering :: "(string, 'w ceremony) fmap \<Rightarrow> nat" where
  "registering cs = go_len (fm_keep (\<lambda>_ e. ce_kind e = ''register'') cs)"

lemma fm_keep_upd:
  "fm_keep P (fmupd k v m) = (if P k v then fmupd k v (fm_keep P m) else fmdrop k (fm_keep P m))"
  by (rule fmap_ext) (auto split: option.splits)

lemma go_len_upd_le: "go_len (fmupd k v m) \<le> Suc (go_len m)"
  by (cases "go_has m k") (simp_all add: go_len_upd_new go_len_upd_old)

lemma registering_upd: "registering (fmupd k v cs) \<le> registering cs + (if ce_kind v = ''register'' then 1 else 0)"
  using go_len_upd_le [of k v "fm_keep (\<lambda>_ e. ce_kind e = ''register'') cs"]
    go_len_drop_le [of k "fm_keep (\<lambda>_ e. ce_kind e = ''register'') cs"]
  by (simp add: registering_def fm_keep_upd)

lemma fm_keep_swap: "fm_keep P (fm_keep Q m) = fm_keep Q (fm_keep P m)"
  by (rule fmap_ext) (auto split: option.splits)

lemma registering_keep: "registering (fm_keep P cs) \<le> registering cs"
  unfolding registering_def fm_keep_swap [of _ P] by (rule fm_keep_len_le)

lemma registering_drop_le: "registering (fmdrop k cs) \<le> registering cs"
  by (simp add: registering_def fm_keep_drop go_len_drop_le)

lemma registering_drop:
  assumes "fmlookup cs k = Some v" and "ce_kind v = ''register''"
  shows "Suc (registering (fmdrop k cs)) = registering cs"
proof -
  have h: "go_has (fm_keep (\<lambda>_ e. ce_kind e = ''register'') cs) k" using assms by (simp add: go_has_def)
  from go_len_drop [OF h] go_len_pos [OF h] show ?thesis by (simp add: registering_def fm_keep_drop)
qed

definition open_token :: "('c, 'w) passkey_manager \<Rightarrow> nat" where
  "open_token m = (if km_bootstrapHash m = None then 0 else 1)"

definition spent :: "('c, 'w) passkey_manager \<Rightarrow> nat" where
  "spent m = registering (km_ceremonies m) + open_token m"

definition passkey_inv :: "('c, 'w) passkey_sys \<Rightarrow> bool" where
  "passkey_inv q = (spent (kg_m q) + kg_added q \<le> kg_issued q + kg_authed q)"

lemma put_spent: "spent (snd (putCeremony random now v m)) \<le> spent m + (if ce_kind v = ''register'' then 1 else 0)"
proof -
  let ?live = "fm_keep (\<lambda>_ e. \<not> now > ce_expires e) (km_ceremonies m)"
  have "registering (fmupd (b64_raw_url random) (v\<lparr>ce_expires := now + 5 * minute\<rparr>) ?live)
      \<le> registering (km_ceremonies m) + (if ce_kind v = ''register'' then 1 else 0)"
    using registering_upd [of "b64_raw_url random" "v\<lparr>ce_expires := now + 5 * minute\<rparr>" ?live]
      registering_keep [of "\<lambda>_ e. \<not> now > ce_expires e" "km_ceremonies m"] by simp
  then show ?thesis
    using registering_keep [of "\<lambda>_ e. \<not> now > ce_expires e" "km_ceremonies m"]
    by (auto simp: putCeremony_def Let_def spent_def open_token_def)
qed

lemma take_spent:
  "takeCeremony now r kind m = (v, m') \<Longrightarrow>
     spent m' + (if v \<noteq> None \<and> kind = ''register'' then 1 else 0) \<le> spent m \<and> km_store m' = km_store m"
  using registering_drop [of "km_ceremonies m"] registering_drop_le [of _ "km_ceremonies m"]
  by (force simp: takeCeremony_def Let_def spent_def open_token_def split: option.splits if_splits)

lemma saveLocked_creds [simp]: "saveLocked fault s = (e, s') \<Longrightarrow> pk_creds s' = pk_creds s"
  by (auto simp: saveLocked_def pk_creds_def split: prod.splits)

lemma set_creds_creds [simp]: "pk_creds (set_creds cs s) = cs"
  by (simp add: set_creds_def pk_creds_def)

lemma add_creds:
  assumes "passkey_add fault now label c s = (e, s')"
  shows "(\<exists>sc. pk_creds s' = pk_creds s @ [sc] \<and> sc_Credential sc = c \<and> \<not> list_ex (has_id (cred_ID c)) (pk_creds s)) \<or>
    (s' = s \<and> e \<noteq> None)"
proof (cases "validatePasskeyLabel label True")
  case None
  with assms show ?thesis by (auto simp: passkey_add_def)
next
  case (Some l)
  show ?thesis
  proof (cases "list_ex (has_id (cred_ID c)) (pk_creds s)")
    case True
    with Some assms show ?thesis by (auto simp: passkey_add_def)
  next
    case False
    let ?sc = "\<lparr>sc_Label = l, sc_CreatedAt = now, sc_LastUsedAt = None, sc_Credential = c\<rparr>"
    obtain f s1 where "saveLocked fault (set_creds (pk_creds s @ [?sc]) s) = (f, s1)"
      by (cases "saveLocked fault (set_creds (pk_creds s @ [?sc]) s)")
    with assms Some False have "pk_creds s' = pk_creds s @ [?sc]" by (auto simp: passkey_add_def)
    with False show ?thesis by auto
  qed
qed

lemma session_spent [simp]: "spent (m\<lparr>km_sessions := s\<rparr>) = spent m" "spent (m\<lparr>km_store := t\<rparr>) = spent m"
  "spent (m\<lparr>km_bootstrap := x\<rparr>) = spent m"
  by (simp_all add: spent_def open_token_def)

lemma create_session_fields:
  "create_session now b cs m = (token, m') \<Longrightarrow> spent m' = spent m \<and> km_store m' = km_store m"
  by (auto simp: create_session_def split: prod.splits)

lemma begin_registration_spent:
  "spent (snd (BeginRegistrationHandler sha random now r body wa m)) \<le>
     spent m + (case body of None \<Rightarrow> 0 | Some _ \<Rightarrow>
       if HasCredentials (km_store m) \<and> fst (passkey_authenticated now r m) then 1 else 0)"
proof (cases body)
  case (Some tl)
  obtain setupToken label where tl: "tl = (setupToken, label)" by (cases tl)
  obtain ok m1 where a: "authorizeRegistration sha now r setupToken m = (ok, m1)"
    by (cases "authorizeRegistration sha now r setupToken m")
  have m1: "spent m1 + (if ok \<and> \<not> HasCredentials (km_store m) then 1 else 0) \<le> spent m"
    "ok \<and> HasCredentials (km_store m) \<Longrightarrow> fst (passkey_authenticated now r m)"
    using a by (auto simp: authorizeRegistration_def passkey_authenticated_def spent_def open_token_def
        split: if_splits option.splits prod.splits)
  show ?thesis
  proof (cases "ok \<and> wa (passkey_snapshot (km_store m1)) \<noteq> None")
    case False
    with m1(1) show ?thesis
      by (auto simp: BeginRegistrationHandler_def Some tl a split: bool.splits option.splits)
  next
    case True
    then obtain session where w: "wa (passkey_snapshot (km_store m1)) = Some session" by auto
    let ?c = "\<lparr>ce_kind = ''register'', ce_label = label, ce_session = session, ce_expires = 0\<rparr>"
    have "snd (BeginRegistrationHandler sha random now r body wa m) = snd (putCeremony random now ?c m1)"
      using True by (simp add: BeginRegistrationHandler_def Some tl a w split: prod.splits option.splits)
    with put_spent [of random now ?c m1] m1 True show ?thesis by (auto simp: Some split: if_splits)
  qed
qed (simp add: BeginRegistrationHandler_def)

lemma finish_registration_spent:
  assumes "FinishRegistrationHandler fault b cs now r wa m = (st, token, m')"
  shows "spent m' + (length (pk_creds (km_store m')) - length (pk_creds (km_store m))) \<le> spent m"
proof -
  obtain v m1 where t: "takeCeremony now r ''register'' m = (v, m1)" by (cases "takeCeremony now r ''register'' m")
  from take_spent [OF t] have s: "spent m1 + (if v \<noteq> None then 1 else 0) \<le> spent m" and store: "km_store m1 = km_store m" by simp_all
  show ?thesis
  proof (cases "v = None \<or> wa (passkey_snapshot (km_store m1)) (ce_session (the v)) = None")
    case True
    with assms t s store show ?thesis
      by (cases v) (auto simp: FinishRegistrationHandler_def Let_def split: if_splits)
  next
    case False
    then obtain x c where v: "v = Some x" and c: "wa (passkey_snapshot (km_store m1)) (ce_session x) = Some c" by auto
    obtain e ps where a: "passkey_add fault now (ce_label x) c (km_store m1) = (e, ps)"
      by (cases "passkey_add fault now (ce_label x) c (km_store m1)")
    have len: "length (pk_creds ps) \<le> Suc (length (pk_creds (km_store m)))"
      using add_creds [OF a] store by auto
    have reset: "spent (m1\<lparr>km_store := ps, km_bootstrap := [], km_bootstrapHash := None, km_bootstrapExpires := 0\<rparr>) \<le> spent m1"
      by (simp add: spent_def open_token_def)
    note a' = a [unfolded store] and c' = c [unfolded store]
    show ?thesis
      using assms s len reset v
      by (auto simp: FinishRegistrationHandler_def t v c' a' store Let_def split: option.splits if_splits prod.splits
          dest!: create_session_fields)
  qed
qed

lemma passkey_inv_step: "passkey_inv q \<Longrightarrow> passkey_inv (passkey_step sha q e)"
proof (cases e)
  case (KFinishRegistration fault b cs now r wa)
  assume "passkey_inv q"
  moreover obtain st token m where f: "FinishRegistrationHandler fault b cs now r wa (kg_m q) = (st, token, m)"
    by (metis prod_cases3)
  ultimately show ?thesis using finish_registration_spent [OF f] KFinishRegistration by (simp add: passkey_inv_def f)
next
  case (KBeginRegistration random now r body wa)
  assume "passkey_inv q"
  with begin_registration_spent [of sha random now r body wa "kg_m q"] KBeginRegistration show ?thesis
    by (simp add: passkey_inv_def)
next
  case (KFinishLogin fault b cs now r wa)
  assume "passkey_inv q"
  moreover have "spent (snd (snd (FinishLoginHandler fault b cs now r wa (kg_m q)))) \<le> spent (kg_m q)"
    by (auto simp: FinishLoginHandler_def split: option.splits prod.splits dest!: take_spent create_session_fields)
  ultimately show ?thesis using KFinishLogin by (simp add: passkey_inv_def)
next
  case (KBeginLogin random now wa)
  assume "passkey_inv q"
  moreover have "spent (snd (BeginLoginHandler random now wa (kg_m q))) \<le> spent (kg_m q)"
    using put_spent [of random now "\<lparr>ce_kind = ''login'', ce_label = [], ce_session = the wa, ce_expires = 0\<rparr>" "kg_m q"]
    by (cases wa) (auto simp: BeginLoginHandler_def split: prod.splits option.splits)
  ultimately show ?thesis using KBeginLogin by (simp add: passkey_inv_def)
next
  case (KRotate random now)
  assume "passkey_inv q"
  with KRotate show ?thesis
    by (auto simp: passkey_inv_def RotateBootstrapToken_def Let_def spent_def open_token_def split: if_splits)
qed (auto simp: passkey_inv_def RenameHandler_def DeleteHandler_def BootstrapToken_def split: option.splits prod.splits)

lemma passkey_inv_init: "passkey_inv (passkey_init sha random now store sessions)"
  by (simp add: passkey_inv_def passkey_init_def NewPasskeyManager_def Let_def spent_def open_token_def registering_def
      fm_keep_def)

interpretation passkeys: component "passkey_init sha random now store sessions" "passkey_step sha" passkey_inv
  for sha random now store sessions
  by unfold_locales (rule passkey_inv_init, erule passkey_inv_step)


text \<open>
  What a history never undoes: the identifiers stay distinct, and once there is a credential
  there is always one.
\<close>

definition cred_ids :: "'c passkey_store \<Rightarrow> string list" where
  "cred_ids s = map (cred_ID \<circ> sc_Credential) (pk_creds s)"

definition settled :: "('c, 'w) passkey_sys \<Rightarrow> bool" where
  "settled q = (HasCredentials (km_store (kg_m q)) \<and> distinct (cred_ids (km_store (kg_m q))))"

lemma update_first_ids: "(\<And>c. cred_ID (sc_Credential (f c)) = cred_ID (sc_Credential c) \<or> \<not> P c) \<Longrightarrow>
    map (cred_ID \<circ> sc_Credential) (update_first P f cs) = map (cred_ID \<circ> sc_Credential) cs"
  by (induction cs) auto

lemma list_ex_ids: "list_ex (has_id i) cs = (i \<in> (cred_ID \<circ> sc_Credential) ` set cs)"
  by (induction cs) (auto simp: has_id_def)

lemma creds_nonempty: "HasCredentials s = (cred_ids s \<noteq> [])"
  by (simp add: HasCredentials_def cred_ids_def)

lemma save_ids: "saveLocked fault s = (e, s') \<Longrightarrow> cred_ids s' = cred_ids s"
  by (simp add: cred_ids_def)

lemma set_creds_ids: "cred_ids (set_creds cs s) = map (cred_ID \<circ> sc_Credential) cs"
  by (simp add: cred_ids_def)

lemma rename_ids: "cred_ids (snd (passkey_Rename fault i v s)) = cred_ids s"
  by (auto simp: passkey_Rename_def set_creds_ids update_first_ids cred_ids_def [symmetric] split: option.splits prod.splits
      dest!: save_ids)

lemma update_ids: "cred_ids (snd (passkey_update fault now c s)) = cred_ids s"
proof -
  let ?f = "\<lambda>x. x\<lparr>sc_Credential := c, sc_LastUsedAt := Some now\<rparr>"
  have "map (cred_ID \<circ> sc_Credential) (update_first (has_id (cred_ID c)) ?f (pk_creds s)) = cred_ids s"
    unfolding cred_ids_def by (rule update_first_ids) (auto simp: has_id_def)
  then show ?thesis
    by (auto simp: passkey_update_def set_creds_ids split: prod.splits dest!: save_ids)
qed

lemma delete_cases:
  obtains "cred_ids (snd (passkey_Delete fault i s)) = cred_ids s"
    | P where "cred_ids (snd (passkey_Delete fault i s)) = map (cred_ID \<circ> sc_Credential) (remove_first P (pk_creds s))"
        "1 < length (pk_creds s)" "\<exists>x\<in>set (pk_creds s). P x"
proof (cases "decodeCredentialID i")
  case None
  then show ?thesis by (intro that(1)) (simp add: passkey_Delete_def)
next
  case (Some k)
  let ?s = "set_creds (remove_first (has_id k) (pk_creds s)) s"
  obtain e s' where sv: "saveLocked fault ?s = (e, s')" by (cases "saveLocked fault ?s")
  show ?thesis
  proof (cases "list_ex (has_id k) (pk_creds s) \<and> 1 < length (pk_creds s) \<and> e = None")
    case True
    then have "cred_ids (snd (passkey_Delete fault i s)) = map (cred_ID \<circ> sc_Credential) (remove_first (has_id k) (pk_creds s))"
      using save_ids [OF sv] by (simp add: passkey_Delete_def Some sv set_creds_ids)
    with True show ?thesis by (intro that(2)) (auto simp: list_ex_iff)
  next
    case False
    have r: "cred_ids (set_creds (pk_creds s) s') = cred_ids s" by (simp add: set_creds_ids cred_ids_def)
    from False show ?thesis
      by (intro that(1)) (cases e, auto simp: passkey_Delete_def Some sv r)
  qed
qed

lemma delete_ids:
  "distinct (cred_ids s) \<and> cred_ids s \<noteq> [] \<Longrightarrow>
     distinct (cred_ids (snd (passkey_Delete fault i s))) \<and> cred_ids (snd (passkey_Delete fault i s)) \<noteq> []"
proof -
  assume s: "distinct (cred_ids s) \<and> cred_ids s \<noteq> []"
  consider (same) "cred_ids (snd (passkey_Delete fault i s)) = cred_ids s"
    | (cut) P where "cred_ids (snd (passkey_Delete fault i s)) = map (cred_ID \<circ> sc_Credential) (remove_first P (pk_creds s))"
        "1 < length (pk_creds s)" "\<exists>x\<in>set (pk_creds s). P x"
    by (rule delete_cases)
  then show ?thesis
  proof cases
    case same
    with s show ?thesis by simp
  next
    case (cut P)
    have "length (remove_first P (pk_creds s)) \<noteq> 0" using remove_first_length [OF cut(3)] cut(2) by simp
    with cut(1) s show ?thesis by (auto simp: cred_ids_def intro: remove_first_distinct_map)
  qed
qed

lemma add_ids: "distinct (cred_ids s) \<Longrightarrow> distinct (cred_ids (snd (passkey_add fault now l c s))) \<and>
    (cred_ids s \<noteq> [] \<longrightarrow> cred_ids (snd (passkey_add fault now l c s)) \<noteq> [])"
proof -
  assume d: "distinct (cred_ids s)"
  obtain e s' where a: "passkey_add fault now l c s = (e, s')" by (cases "passkey_add fault now l c s")
  from add_creds [OF a] d show ?thesis
    by (auto simp: a cred_ids_def list_ex_ids)
qed

lemma create_session_store: "create_session now b cs m = (token, m') \<Longrightarrow> km_store m' = km_store m"
  by (auto simp: create_session_def split: prod.splits)

lemma take_store: "takeCeremony now r kind m = (v, m') \<Longrightarrow> km_store m' = km_store m"
  by (auto simp: takeCeremony_def Let_def split: option.splits if_splits)

lemma handlers_store:
  "km_store (snd (BeginRegistrationHandler sha random now r body wa m)) = km_store m"
  "km_store (snd (BeginLoginHandler random now wa' m)) = km_store m"
  by (auto simp: BeginRegistrationHandler_def BeginLoginHandler_def authorizeRegistration_def passkey_authenticated_def
      putCeremony_def Let_def split: option.splits prod.splits bool.splits if_splits)

lemma finish_store:
  "(\<exists>l c. km_store (snd (snd (FinishRegistrationHandler fault b cs now r wa m))) = snd (passkey_add fault now l c (km_store m))) \<or>
     km_store (snd (snd (FinishRegistrationHandler fault b cs now r wa m))) = km_store m"
proof -
  obtain v m1 where t: "takeCeremony now r ''register'' m = (v, m1)" by (cases "takeCeremony now r ''register'' m")
  note s = take_store [OF t]
  show ?thesis
  proof (cases "v = None \<or> wa (passkey_snapshot (km_store m)) (ce_session (the v)) = None")
    case True
    then show ?thesis by (auto simp: FinishRegistrationHandler_def t s Let_def split: option.splits)
  next
    case False
    then obtain x c where v: "v = Some x" "wa (passkey_snapshot (km_store m)) (ce_session x) = Some c" by auto
    have "km_store (snd (snd (FinishRegistrationHandler fault b cs now r wa m))) = snd (passkey_add fault now (ce_label x) c (km_store m))"
      by (auto simp: FinishRegistrationHandler_def t s v Let_def split: option.splits prod.splits dest!: create_session_store)
    then show ?thesis by blast
  qed
qed

lemma finish_login_store:
  "(\<exists>c. km_store (snd (snd (FinishLoginHandler fault b cs now r wa m))) = snd (passkey_update fault now c (km_store m))) \<or>
     km_store (snd (snd (FinishLoginHandler fault b cs now r wa m))) = km_store m"
proof -
  obtain v m1 where t: "takeCeremony now r ''login'' m = (v, m1)" by (cases "takeCeremony now r ''login'' m")
  note s = take_store [OF t]
  show ?thesis
  proof (cases "v = None \<or> wa (login_user (km_store m)) (ce_session (the v)) = None")
    case True
    then show ?thesis by (auto simp: FinishLoginHandler_def t s split: option.splits)
  next
    case False
    then obtain x c where v: "v = Some x" "wa (login_user (km_store m)) (ce_session x) = Some c" by auto
    have "km_store (snd (snd (FinishLoginHandler fault b cs now r wa m))) = snd (passkey_update fault now c (km_store m))"
      by (auto simp: FinishLoginHandler_def t s v split: option.splits prod.splits dest!: create_session_store)
    then show ?thesis by blast
  qed
qed

lemma settled_step: "settled q \<Longrightarrow> settled (passkey_step sha q e)"
proof -
  assume q: "settled q"
  let ?s = "km_store (kg_m q)" and ?s' = "km_store (kg_m (passkey_step sha q e))"
  have "?s' = ?s \<or> (\<exists>f t l c. ?s' = snd (passkey_add f t l c ?s)) \<or> (\<exists>f t c. ?s' = snd (passkey_update f t c ?s)) \<or>
    (\<exists>f i v. ?s' = snd (passkey_Rename f i v ?s)) \<or> (\<exists>f i. ?s' = snd (passkey_Delete f i ?s))"
  proof (cases e)
    case (KFinishRegistration fault b cs now r wa)
    with finish_store [of fault b cs now r wa "kg_m q"] show ?thesis
      by (cases "FinishRegistrationHandler fault b cs now r wa (kg_m q)") (simp; blast)
  next
    case (KFinishLogin fault b cs now r wa)
    with finish_login_store [of fault b cs now r wa "kg_m q"] show ?thesis by (simp; blast)
  next
    case (KRename f i body)
    then show ?thesis
      by (cases body; cases "passkey_Rename f i (the body) ?s") (simp_all add: RenameHandler_def, metis snd_conv)
  next
    case (KDelete f i)
    then show ?thesis
      by (cases "passkey_Delete f i ?s") (simp add: DeleteHandler_def, metis snd_conv)
  next
    case (KRotate random now)
    then show ?thesis by (simp add: RotateBootstrapToken_def Let_def)
  qed (simp_all add: handlers_store BootstrapToken_def)
  with q show ?thesis
    unfolding settled_def creds_nonempty by (elim disjE exE) (simp_all add: add_ids update_ids rename_ids delete_ids)
qed

lemma settled_run: "settled q \<Longrightarrow> settled (foldl (passkey_step sha) q events)"
  by (induction events arbitrary: q) (simp_all add: settled_step)

text \<open>
  C17. The setup mode never comes back.  From the first passkey on, through every history of
  the handlers, with whatever writes fail: there is always a passkey left, no two passkeys
  have the same identifier, no new setup token is issued, and a registration is begun only
  by a request with a valid session.
\<close>

theorem setup_never_reopens:
  assumes "HasCredentials (km_store (kg_m q))" and "distinct (cred_ids (km_store (kg_m q)))"
    and "m = kg_m (foldl (passkey_step sha) q events)"
  shows "HasCredentials (km_store m) \<and> distinct (cred_ids (km_store m)) \<and>
    fst (RotateBootstrapToken sha random now m) = None \<and>
    authorizeRegistration sha now r supplied m = passkey_authenticated now r m"
proof -
  have "settled (foldl (passkey_step sha) q events)" by (rule settled_run) (simp add: settled_def assms)
  then show ?thesis by (simp add: settled_def assms(3) RotateBootstrapToken_def authorizeRegistration_def)
qed

definition demo_passkeys :: "(nat, nat) passkey_sys" where
  "demo_passkeys = passkey_init (\<lambda>s. s) [] 0
     \<lparr>pk_data = \<lparr>pd_Version = 1, pd_RPID = ''r'', pd_Origin = ''o'', pd_UserID = ''u'', pd_Credentials =
        [\<lparr>sc_Label = [], sc_CreatedAt = 0, sc_LastUsedAt = None, sc_Credential = \<lparr>cred_ID = ''a'', cred_data = 1\<rparr>\<rparr>]\<rparr>,
      pk_dir = \<lparr>d_target = None, d_temp = None\<rparr>\<rparr> (NewSessionManager 10)"

theorem setup_never_reopens_witness:
  "fst (RotateBootstrapToken (\<lambda>s. s) [] 5 (kg_m (foldl (passkey_step (\<lambda>s. s)) demo_passkeys
     [KDelete None ''YQ'', KLogout ''x'']))) = None"
proof -
  have "HasCredentials (km_store (kg_m demo_passkeys))" "distinct (cred_ids (km_store (kg_m demo_passkeys)))"
    by (simp_all add: demo_passkeys_def passkey_init_def NewPasskeyManager_def HasCredentials_def cred_ids_def pk_creds_def Let_def)
  from setup_never_reopens [OF this refl] show ?thesis by blast
qed

subsection \<open>Failed writes\<close>

definition in_sync :: "'c passkey_store \<Rightarrow> bool" where
  "in_sync s = (no_temp (pk_dir s) \<and> d_target (pk_dir s) = Some (pk_data s))"

lemma saveLocked_outcome:
  assumes "no_temp (pk_dir s)" and "saveLocked fault s = (e, s')"
  shows "pk_data s' = pk_data s \<and> no_temp (pk_dir s') \<and> (e = None \<or> e = fault) \<and>
    d_target (pk_dir s') = (if e = None then Some (pk_data s) else d_target (pk_dir s))"
proof -
  obtain disk visited where w: "saveData fault (pk_data s) (pk_dir s) = (e, disk, visited)" and s': "s' = s\<lparr>pk_dir := disk\<rparr>"
    using assms(2) by (auto simp: saveLocked_def split: prod.splits)
  from peers_file.saved [OF assms(1) w] saveData_fails_before_rename [of fault "pk_data s" "pk_dir s" _ disk visited] w s'
  show ?thesis by (cases e) auto
qed

lemma set_creds_fields [simp]: "pk_dir (set_creds cs s) = pk_dir s" "pk_data (set_creds cs s) = (pk_data s)\<lparr>pd_Credentials := cs\<rparr>"
  by (simp_all add: set_creds_def)


definition demo_store :: "nat passkey_store" where
  "demo_store =
     (let d = \<lparr>pd_Version = 1, pd_RPID = ''r'', pd_Origin = ''o'', pd_UserID = ''u'', pd_Credentials =
        [\<lparr>sc_Label = [], sc_CreatedAt = 0, sc_LastUsedAt = None, sc_Credential = \<lparr>cred_ID = ''a'', cred_data = 1\<rparr>\<rparr>]\<rparr>
      in \<lparr>pk_data = d, pk_dir = \<lparr>d_target = Some d, d_temp = None\<rparr>\<rparr>)"


end
