(* ===== verification/WebPush.thy ===== *)
theory WebPush
  imports Identity AtomicFile ToolTracker
begin

text \<open>
  The preferences (\<open>pkg/preferences/preferences.go\<close>), the push subscriptions and the sender
  of notifications (\<open>pkg/webpush/subscriptions.go\<close>, \<open>pkg/webpush/sender.go\<close>).  What
  \<open>encoding/json\<close> makes of a file is an argument or the value stored; the library that
  encrypts and posts a notification is the argument \<open>send\<close>.
\<close>

subsection \<open>Preferences\<close>

record Terminal =
  FontSize :: int
  FontFamily :: string
  Scrollback :: int

record Sidebar =
  DefaultCollapsed :: bool
  HiddenSessions :: "string list"
  CollapseMode :: string

record Preferences =
  pf_Terminal :: Terminal
  pf_Theme :: string
  pf_CustomTheme :: "(string, string) fmap"
  pf_Sidebar :: Sidebar
  pf_DefaultView :: string
  pf_Statuses :: "string list"
  pf_AutoDismissSeconds :: int
  pf_QuickSwitcherShortcut :: string
  pf_SparklinesVisible :: bool
  pf_OverviewRefreshInterval :: int
  pf_TimestampFormat :: string
  pf_LockTimeoutMinutes :: int
  pf_LockBackgroundFaster :: bool
  pf_LockBackgroundMinutes :: int
  pf_FullscreenHideAlerts :: bool

definition default_preferences :: Preferences where
  "default_preferences = \<lparr>
     pf_Terminal = \<lparr>FontSize = 13, FontFamily = ''Space Mono'', Scrollback = 5000\<rparr>,
     pf_Theme = ''retro-blue'', pf_CustomTheme = fmempty,
     pf_Sidebar = \<lparr>DefaultCollapsed = False, HiddenSessions = [], CollapseMode = ''small''\<rparr>,
     pf_DefaultView = ''overview'', pf_Statuses = [''waiting'', ''error'', ''completed''],
     pf_AutoDismissSeconds = 0, pf_QuickSwitcherShortcut = ''ctrl+k'', pf_SparklinesVisible = True,
     pf_OverviewRefreshInterval = 5, pf_TimestampFormat = ''relative'', pf_LockTimeoutMinutes = 30,
     pf_LockBackgroundFaster = True, pf_LockBackgroundMinutes = 10, pf_FullscreenHideAlerts = True\<rparr>"

text \<open>
  A file that is written in place.  \<open>os.WriteFile\<close> opens it truncated and then writes: a
  failing open leaves it alone, a failing write, or a crash in between, leaves it damaged.
\<close>

datatype 'a plain_file = Missing | Unreadable | Damaged | Content 'a

datatype write_fault = OpenFails | WriteFails

definition write_plain :: "write_fault option \<Rightarrow> 'a \<Rightarrow> 'a plain_file \<Rightarrow> bool \<times> 'a plain_file \<times> 'a plain_file list" where
  "write_plain fault v f =
     (case fault of
        Some OpenFails \<Rightarrow> (False, f, [f])
      | Some WriteFails \<Rightarrow> (False, Damaged, [f, Damaged])
      | None \<Rightarrow> (True, Content v, [f, Damaged, Content v]))"

record preferences_store =
  pr_data :: Preferences
  pr_file :: "Preferences plain_file"

text \<open>
  \<open>load\<close> overlays the file on the defaults; the file of the model holds the whole value, as
  \<open>save\<close> marshals every field.
\<close>

definition preferences_load :: "Preferences plain_file \<Rightarrow> Preferences option option" where
  "preferences_load f =
     (case f of Missing \<Rightarrow> Some None | Content v \<Rightarrow> Some (Some v) | _ \<Rightarrow> None)"

definition NewPreferencesStore :: "Preferences plain_file \<Rightarrow> preferences_store option" where
  "NewPreferencesStore f =
     (case preferences_load f of
        None \<Rightarrow> None
      | Some None \<Rightarrow> Some \<lparr>pr_data = default_preferences, pr_file = f\<rparr>
      | Some (Some v) \<Rightarrow> Some \<lparr>pr_data = v, pr_file = f\<rparr>)"

definition preferences_Get :: "preferences_store \<Rightarrow> Preferences" where
  "preferences_Get s = pr_data s"

definition preferences_save :: "write_fault option \<Rightarrow> preferences_store \<Rightarrow> bool \<times> preferences_store \<times> Preferences plain_file list" where
  "preferences_save fault s =
     (case write_plain fault (pr_data s) (pr_file s) of (ok, f, visited) \<Rightarrow> (ok, s\<lparr>pr_file := f\<rparr>, visited))"

definition preferences_Update :: "write_fault option \<Rightarrow> Preferences \<Rightarrow> preferences_store
    \<Rightarrow> bool \<times> preferences_store \<times> Preferences plain_file list" where
  "preferences_Update fault v s = preferences_save fault (s\<lparr>pr_data := v\<rparr>)"

subsection \<open>Subscriptions\<close>

record 'k Subscription =
  sub_Endpoint :: string
  sub_Keys :: 'k

record 'k subscriptionFile =
  sf_Version :: int
  sf_Subscriptions :: "'k Subscription option list"

record 'k push_store =
  ps_subs :: "(string, 'k Subscription) fmap"
  ps_dir :: "'k subscriptionFile dir"

fun load_subs :: "'k Subscription option list \<Rightarrow> (string, 'k Subscription) fmap \<Rightarrow> (string, 'k Subscription) fmap option" where
  "load_subs [] m = Some m"
| "load_subs (None # rest) m = None"
| "load_subs (Some s # rest) m = (if sub_Endpoint s = [] then None else load_subs rest (fmupd (sub_Endpoint s) s m))"

definition push_load :: "'k subscriptionFile stored \<Rightarrow> (string, 'k Subscription) fmap option" where
  "push_load raw =
     (case raw of
        NotExist \<Rightarrow> Some fmempty
      | Stored f \<Rightarrow> if sf_Version f \<noteq> 1 then None else load_subs (sf_Subscriptions f) fmempty
      | _ \<Rightarrow> None)"

definition file_of :: "'a dir \<Rightarrow> 'a stored" where
  "file_of d = (case d_target d of None \<Rightarrow> NotExist | Some v \<Rightarrow> Stored v)"

definition NewStoreAt :: "'k subscriptionFile stored \<Rightarrow> 'k subscriptionFile dir \<Rightarrow> 'k push_store option" where
  "NewStoreAt raw d = (case push_load raw of None \<Rightarrow> None | Some m \<Rightarrow> Some \<lparr>ps_subs = m, ps_dir = d\<rparr>)"

text \<open>The value \<open>writeSubscriptions\<close> marshals, in the order of the endpoints.\<close>

definition push_file :: "(string, 'k Subscription) fmap \<Rightarrow> 'k subscriptionFile" where
  "push_file m = \<lparr>sf_Version = 1, sf_Subscriptions = map (fmlookup m) (go_keys m)\<rparr>"

definition push_write :: "stage option \<Rightarrow> (string, 'k Subscription) fmap \<Rightarrow> 'k push_store \<Rightarrow> stage option \<times> 'k push_store" where
  "push_write fault m s =
     (case writeSubscriptions fault (push_file m) (ps_dir s) of
        (None, d, _) \<Rightarrow> (None, s\<lparr>ps_subs := m, ps_dir := d\<rparr>)
      | (Some e, d, _) \<Rightarrow> (Some e, s\<lparr>ps_dir := d\<rparr>))"

datatype push_error = EndpointRequired | PushWrite stage

definition push_Add :: "stage option \<Rightarrow> 'k Subscription option \<Rightarrow> 'k push_store \<Rightarrow> push_error option \<times> 'k push_store" where
  "push_Add fault subscription s =
     (case subscription of
        None \<Rightarrow> (Some EndpointRequired, s)
      | Some sub \<Rightarrow>
          if sub_Endpoint sub = [] then (Some EndpointRequired, s)
          else case push_write fault (fmupd (sub_Endpoint sub) sub (ps_subs s)) s of
            (e, s') \<Rightarrow> (map_option PushWrite e, s'))"

definition push_Remove :: "stage option \<Rightarrow> string \<Rightarrow> 'k push_store \<Rightarrow> push_error option \<times> 'k push_store" where
  "push_Remove fault endpoint s =
     (if endpoint = [] then (Some EndpointRequired, s)
      else if \<not> go_has (ps_subs s) endpoint then (None, s)
      else case push_write fault (fmdrop endpoint (ps_subs s)) s of (e, s') \<Rightarrow> (map_option PushWrite e, s'))"

definition push_All :: "'k push_store \<Rightarrow> 'k Subscription list" where
  "push_All s = map (\<lambda>e. the (fmlookup (ps_subs s) e)) (go_keys (ps_subs s))"

definition push_Count :: "'k push_store \<Rightarrow> nat" where
  "push_Count s = go_len (ps_subs s)"

subsection \<open>Notifications\<close>

record PushPayload =
  pp_Title :: string
  pp_Body :: string
  pp_HostID :: string
  pp_HostName :: string
  pp_Session :: string
  pp_Window :: int
  pp_Pane :: string
  pp_Tool :: string
  pp_Status :: string

definition statusEnabled :: "Preferences option \<Rightarrow> string \<Rightarrow> bool" where
  "statusEnabled prefs status =
     (if status \<noteq> StatusWaiting \<and> status \<noteq> StatusError \<and> status \<noteq> StatusCompleted then False
      else case prefs of
        None \<Rightarrow> status = StatusWaiting \<or> status = StatusError
      | Some p \<Rightarrow> list_ex (\<lambda>enabled. enabled = status) (pf_Statuses p))"

definition buildPayload :: "Event option \<Rightarrow> PushPayload option" where
  "buildPayload evt =
     (case evt of
        None \<Rightarrow> None
      | Some e \<Rightarrow>
          if ev_host e = [] \<or> ev_session e = [] then None
          else
            let title =
              (if ev_status e = StatusWaiting then Some (ev_tool e @ '' needs input'')
               else if ev_status e = StatusError then Some (ev_tool e @ '' error'')
               else if ev_status e = StatusCompleted then Some (ev_tool e @ '' completed'')
               else None);
              body = ev_status e @ '' in session '' @ [char_of (34::nat)] @ ev_session e @ [char_of (34::nat)];
              body = (if ev_message e \<noteq> [] then body @ '': '' @ ev_message e else body)
            in case title of
                 None \<Rightarrow> None
               | Some t \<Rightarrow> Some \<lparr>pp_Title = t, pp_Body = body, pp_HostID = ev_host e, pp_HostName = ev_host_name e,
                   pp_Session = ev_session e, pp_Window = ev_window e, pp_Pane = ev_pane e,
                   pp_Tool = ev_tool e, pp_Status = ev_status e\<rparr>)"

text \<open>What the library returns: no error, or an error, with the status of a response if it gives one.\<close>

datatype send_outcome = Sent | SendFailed "nat option"

fun send_loop :: "(PushPayload \<Rightarrow> 'k Subscription \<Rightarrow> send_outcome) \<Rightarrow> (string \<Rightarrow> stage option) \<Rightarrow> PushPayload
    \<Rightarrow> 'k Subscription list \<Rightarrow> 'k push_store \<Rightarrow> 'k push_store" where
  "send_loop send fault p [] s = s"
| "send_loop send fault p (sub # rest) s =
     send_loop send fault p rest
       (case send p sub of
          SendFailed (Some status) \<Rightarrow>
            if status = 410 \<or> status = 404 then snd (push_Remove (fault (sub_Endpoint sub)) (sub_Endpoint sub) s) else s
        | _ \<Rightarrow> s)"

text \<open>\<open>sendAll\<close> returns what it posted, and to which endpoints.\<close>

definition sendAll :: "(PushPayload \<Rightarrow> 'k Subscription \<Rightarrow> send_outcome) \<Rightarrow> (string \<Rightarrow> stage option) \<Rightarrow> Event
    \<Rightarrow> 'k push_store \<Rightarrow> (PushPayload \<times> string list) list \<times> 'k push_store" where
  "sendAll send fault evt s =
     (let subs = push_All s in
      if subs = [] then ([], s)
      else case buildPayload (Some evt) of
        None \<Rightarrow> ([], s)
      | Some p \<Rightarrow> ([(p, map sub_Endpoint subs)], send_loop send fault p subs s))"

text \<open>The loop of \<open>Run\<close>: each event comes with the preferences at that moment and the faults of the disk.\<close>

fun sender_run :: "(PushPayload \<Rightarrow> 'k Subscription \<Rightarrow> send_outcome) \<Rightarrow> (Event \<times> Preferences option \<times> (string \<Rightarrow> stage option)) list
    \<Rightarrow> 'k push_store \<Rightarrow> (PushPayload \<times> string list) list \<times> 'k push_store" where
  "sender_run send [] s = ([], s)"
| "sender_run send ((evt, prefs, fault) # rest) s =
     (if \<not> statusEnabled prefs (ev_status evt) then sender_run send rest s
      else case sendAll send fault evt s of
        (sent, s1) \<Rightarrow> (case sender_run send rest s1 of (later, s2) \<Rightarrow> (sent @ later, s2)))"

subsection \<open>The file and the memory\<close>

text \<open>Every subscription stands under its own endpoint, and no endpoint is empty.\<close>

definition keyed :: "(string, 'k Subscription) fmap \<Rightarrow> bool" where
  "keyed m = (\<forall>e s. fmlookup m e = Some s \<longrightarrow> sub_Endpoint s = e \<and> e \<noteq> [])"

lemma keyed_upd: "\<lbrakk>keyed m; sub_Endpoint s \<noteq> []\<rbrakk> \<Longrightarrow> keyed (fmupd (sub_Endpoint s) s m)"
  by (simp add: keyed_def)

lemma keyed_drop: "keyed m \<Longrightarrow> keyed (fmdrop e m)"
  by (simp add: keyed_def)

lemma load_subs_keys:
  assumes "keyed m" and "\<And>k. k \<in> set ks \<Longrightarrow> go_has m k"
  shows "\<exists>r. load_subs (map (fmlookup m) ks) acc = Some r \<and>
    (\<forall>k. fmlookup r k = (if k \<in> set ks then fmlookup m k else fmlookup acc k))"
  using assms(2)
proof (induction ks arbitrary: acc)
  case (Cons k ks)
  have "go_has m k" by (rule Cons.prems) simp
  then obtain s where s: "fmlookup m k = Some s" by (auto simp: go_has_def)
  with assms(1) have e: "sub_Endpoint s = k" "k \<noteq> []" by (simp_all add: keyed_def)
  from Cons.IH [of "fmupd k s acc"] Cons.prems obtain r where
    "load_subs (map (fmlookup m) ks) (fmupd k s acc) = Some r"
    "\<forall>j. fmlookup r j = (if j \<in> set ks then fmlookup m j else fmlookup (fmupd k s acc) j)" by auto
  then show ?case using s e by (intro exI [of _ r]) auto
qed simp

lemma push_file_loads: "keyed m \<Longrightarrow> push_load (Stored (push_file m)) = Some m"
proof -
  assume k: "keyed m"
  obtain r where r: "load_subs (map (fmlookup m) (go_keys m)) fmempty = Some r"
    and look: "\<forall>j. fmlookup r j = (if j \<in> set (go_keys m) then fmlookup m j else fmlookup fmempty j)"
    using load_subs_keys [OF k, of "go_keys m" fmempty] by auto
  have "r = m"
  proof (rule fmap_ext)
    show "fmlookup r j = fmlookup m j" for j using look by (cases "go_has m j") (auto simp: go_has_def)
  qed
  with r show ?thesis by (simp add: push_load_def push_file_def)
qed

definition push_sync :: "'k push_store \<Rightarrow> bool" where
  "push_sync s = (keyed (ps_subs s) \<and> no_temp (ps_dir s) \<and> push_load (file_of (ps_dir s)) = Some (ps_subs s))"

lemma push_write_outcome:
  assumes sync: "push_sync s" and m: "keyed m" and w: "push_write fault m s = (e, s')"
  shows "no_temp (ps_dir s') \<and> (e = None \<or> e = fault) \<and>
    ps_subs s' = (if e = None then m else ps_subs s) \<and>
    push_load (file_of (ps_dir s')) = Some (if e = None \<or> after_rename (the e) then m else ps_subs s)"
proof -
  obtain f d v where r: "writeSubscriptions fault (push_file m) (ps_dir s) = (f, d, v)"
    by (cases "writeSubscriptions fault (push_file m) (ps_dir s)")
  have nt: "no_temp (ps_dir s)" using sync by (simp add: push_sync_def)
  note o1 = subscriptions_file.saved [OF nt r]
  have e: "e = f" "ps_dir s' = d" "ps_subs s' = (if f = None then m else ps_subs s)"
    using w r by (auto simp: push_write_def split: option.splits)
  have "push_load (file_of d) = Some (if f = None \<or> after_rename (the f) then m else ps_subs s)"
    using o1 push_file_loads [OF m] sync by (auto simp: file_of_def push_sync_def)
  with o1 e show ?thesis by simp
qed

datatype 'k push_op = PushAdd "'k Subscription option" | PushRemove string

fun push_apply :: "stage option \<Rightarrow> 'k push_op \<Rightarrow> 'k push_store \<Rightarrow> push_error option \<times> 'k push_store" where
  "push_apply fault (PushAdd sub) s = push_Add fault sub s"
| "push_apply fault (PushRemove e) s = push_Remove fault e s"

text \<open>What an operation means for the subscriptions.\<close>

fun push_effect :: "'k push_op \<Rightarrow> (string, 'k Subscription) fmap \<Rightarrow> (string, 'k Subscription) fmap" where
  "push_effect (PushAdd None) m = m"
| "push_effect (PushAdd (Some sub)) m = (if sub_Endpoint sub = [] then m else fmupd (sub_Endpoint sub) sub m)"
| "push_effect (PushRemove e) m = fmdrop e m"

lemma drop_absent: "\<not> go_has m e \<Longrightarrow> fmdrop e m = m"
  by (rule fmap_ext) (auto simp: go_has_def fmdom_notD)

lemma push_apply_cases:
  assumes "push_sync s" and "push_apply fault op s = (e, s')"
  obtains (refused) "e = Some EndpointRequired" "s' = s"
  | (nothing) "e = None" "s' = s" "push_effect op (ps_subs s) = ps_subs s"
  | (written) f where "push_write fault (push_effect op (ps_subs s)) s = (f, s')" "e = map_option PushWrite f"
      "keyed (push_effect op (ps_subs s))"
proof -
  have k: "keyed (ps_subs s)" using assms(1) by (simp add: push_sync_def)
  show thesis
  proof (cases op)
    case (PushAdd sub)
    then show thesis
      using assms(2) refused written keyed_upd [OF k]
      by (cases sub) (auto simp: push_Add_def split: if_splits prod.splits)
  next
    case (PushRemove x)
    show thesis
    proof (cases "x = [] \<or> go_has (ps_subs s) x")
      case True
      then show thesis
        using assms(2) PushRemove refused written keyed_drop [OF k]
        by (auto simp: push_Remove_def split: if_splits prod.splits)
    next
      case False
      then have "e = None" "s' = s" "push_effect op (ps_subs s) = ps_subs s"
        using assms(2) PushRemove drop_absent [of "ps_subs s" x] by (auto simp: push_Remove_def)
      then show thesis by (rule nothing)
    qed
  qed
qed

text \<open>
  C35. What a subscription change leaves.  When the file loads to the subscriptions in memory,
  adding or removing one either succeeds, with the same effect on both, or reports an error
  and leaves the memory alone; then the file is as it was too, unless the failing step came
  after the rename (the mode or the sync of the directory): the file then already holds the
  change that was refused, and a restart brings it back.
\<close>

theorem push_change_outcome:
  assumes "push_sync s" and "push_apply fault op s = (e, s')"
  shows "(case e of
      None \<Rightarrow> ps_subs s' = push_effect op (ps_subs s) \<and> push_sync s'
    | Some EndpointRequired \<Rightarrow> s' = s
    | Some (PushWrite f) \<Rightarrow> ps_subs s' = ps_subs s \<and> fault = Some f \<and>
        (if after_rename f then push_load (file_of (ps_dir s')) = Some (push_effect op (ps_subs s)) else push_sync s'))"
  using assms
proof (cases rule: push_apply_cases)
  case (written f)
  from push_write_outcome [OF assms(1) written(3,1)] written(2,3) assms(1) show ?thesis
    by (cases f) (auto simp: push_sync_def)
qed (use assms(1) in auto)

theorem push_change_outcome_witness:
  "\<exists>e (s' :: nat push_store). push_apply (Some SyncDir) (PushAdd (Some \<lparr>sub_Endpoint = ''e'', sub_Keys = 1\<rparr>))
      \<lparr>ps_subs = fmempty, ps_dir = \<lparr>d_target = None, d_temp = None\<rparr>\<rparr> = (Some (PushWrite e), s') \<and>
    ps_subs s' = fmempty \<and> push_load (file_of (ps_dir s')) = Some (fmupd ''e'' \<lparr>sub_Endpoint = ''e'', sub_Keys = 1\<rparr> fmempty)"
proof -
  let ?s = "\<lparr>ps_subs = fmempty, ps_dir = \<lparr>d_target = None, d_temp = None\<rparr>\<rparr> :: nat push_store"
  let ?op = "PushAdd (Some \<lparr>sub_Endpoint = ''e'', sub_Keys = 1 :: nat\<rparr>)"
  have sync: "push_sync ?s" by (simp add: push_sync_def keyed_def no_temp_def file_of_def push_load_def)
  obtain e s' where a: "push_apply (Some SyncDir) ?op ?s = (e, s')" by (cases "push_apply (Some SyncDir) ?op ?s")
  then have e: "e = Some (PushWrite SyncDir)"
    by (auto simp: push_Add_def push_write_def writeSubscriptions_def dir_defs)
  with push_change_outcome [OF sync a] a show ?thesis by (simp add: after_rename_def)
qed

subsection \<open>What is sent\<close>

lemma send_loop_keeps:
  assumes "\<And>p sub c. send p sub \<noteq> SendFailed (Some c)"
  shows "send_loop send fault p subs s = s"
proof (induction subs arbitrary: s)
  case (Cons sub subs)
  then show ?case
    using assms [of p sub] by (auto split: send_outcome.splits option.splits)
qed simp

text \<open>The notification an event calls for.\<close>

definition notifiable :: "Event \<times> Preferences option \<times> (string \<Rightarrow> stage option) \<Rightarrow> bool" where
  "notifiable x = (case x of (e, prefs, _) \<Rightarrow>
     ev_host e \<noteq> [] \<and> ev_session e \<noteq> [] \<and>
     ev_status e \<in> (case prefs of None \<Rightarrow> {StatusWaiting, StatusError}
       | Some p \<Rightarrow> {StatusWaiting, StatusError, StatusCompleted} \<inter> set (pf_Statuses p)))"

lemma statuses_distinct: "StatusWaiting \<noteq> StatusError" "StatusWaiting \<noteq> StatusCompleted" "StatusError \<noteq> StatusCompleted"
  by (simp_all add: StatusWaiting_def StatusError_def StatusCompleted_def)

lemma notifiable_iff:
  "notifiable (e, prefs, fault) \<longleftrightarrow> statusEnabled prefs (ev_status e) \<and> buildPayload (Some e) \<noteq> None"
  by (auto simp: notifiable_def statusEnabled_def buildPayload_def Let_def list_ex_iff statuses_distinct
      split: option.splits)

lemma push_All_empty: "push_All s = [] \<longleftrightarrow> ps_subs s = fmempty"
proof
  assume "push_All s = []"
  then have "set (go_keys (ps_subs s)) = {}" by (simp add: push_All_def)
  then have "\<not> go_has (ps_subs s) k" for k by simp
  then show "ps_subs s = fmempty" by (intro fmap_ext) (auto simp: go_has_def)
next
  assume "ps_subs s = fmempty"
  then have "set (go_keys (ps_subs s)) = {}" by simp
  then have "go_keys (ps_subs s) = []" by (simp only: set_empty)
  then show "push_All s = []" by (simp add: push_All_def)
qed

lemma push_All_endpoints: "keyed (ps_subs s) \<Longrightarrow> map sub_Endpoint (push_All s) = go_keys (ps_subs s)"
proof -
  assume k: "keyed (ps_subs s)"
  have "sub_Endpoint (the (fmlookup (ps_subs s) e)) = e" if "e \<in> set (go_keys (ps_subs s))" for e
    using that k by (auto simp: go_has_def keyed_def)
  then have "map (\<lambda>e. sub_Endpoint (the (fmlookup (ps_subs s) e))) (go_keys (ps_subs s)) = go_keys (ps_subs s)"
    by (rule map_idI)
  then show ?thesis by (simp add: push_All_def comp_def)
qed

text \<open>
  Notifications are exact.  A run of the sender posts, in order, one notification for each
  event that has a host and a session and whose status the preferences ask for (waiting and
  error when there are no preferences), each to every subscription, and nothing else.  When
  the library reports an error only without a response, as \<open>http.Client.Do\<close> documents, the
  branch that removes expired subscriptions is never taken: the subscriptions stay as they are.
\<close>

theorem notifications_exact:
  assumes "\<And>p sub c. send p sub \<noteq> SendFailed (Some c)" and "keyed (ps_subs s)" and "ps_subs s \<noteq> fmempty"
  shows "sender_run send events s =
    (map (\<lambda>(e, _, _). (the (buildPayload (Some e)), go_keys (ps_subs s))) (filter notifiable events), s)"
proof (induction events)
  case (Cons x events)
  obtain e prefs fault where x: "x = (e, prefs, fault)" by (cases x)
  have all: "push_All s \<noteq> []" "map sub_Endpoint (push_All s) = go_keys (ps_subs s)"
    using assms push_All_empty push_All_endpoints by auto
  show ?case
    using Cons notifiable_iff [of e prefs fault]
    by (auto simp: x sendAll_def Let_def all send_loop_keeps [OF assms(1)] split: option.splits)
qed simp

theorem notifications_exact_witness:
  "fst (sender_run (\<lambda>_ _. SendFailed None)
     [(\<lparr>ev_tool = ''codex'', ev_status = ''waiting'', ev_host = ''h'', ev_host_name = [], ev_session = ''s'', ev_window = 0,
        ev_pane = [], ev_message = [], ev_timestamp = 0, ev_auto_detected = False\<rparr>, None, \<lambda>_. None)]
     \<lparr>ps_subs = fmupd ''e'' \<lparr>sub_Endpoint = ''e'', sub_Keys = ()\<rparr> fmempty, ps_dir = \<lparr>d_target = None, d_temp = None\<rparr>\<rparr>) \<noteq> []"
proof -
  let ?m = "fmupd ''e'' \<lparr>sub_Endpoint = ''e'', sub_Keys = ()\<rparr> fmempty"
  have "keyed ?m" by (simp add: keyed_def)
  moreover have "fmlookup ?m ''e'' \<noteq> fmlookup fmempty ''e''" by simp
  then have "?m \<noteq> fmempty" by metis
  ultimately show ?thesis
    by (subst notifications_exact) (simp_all add: notifiable_def StatusWaiting_def)
qed

end
