(* ===== verification/ControlMode.thy ===== *)
theory ControlMode
  imports SessionManager ActivityRing ToolWatch
begin

text \<open>
  Following tmux (\<open>pkg/tmux/controlmode.go\<close>, \<open>discovery.go\<close>, and their wiring in
  \<open>pkg/commands/server/server.go\<close>): the notifications of a control-mode client, the
  debounced refresh of the sessions, the reconnects, and the polling that backs them up.
  The process is the sequence of lines it prints.  A timer of the runtime is the time it is
  due; the event \<open>CTimer\<close> says that the clock reached a time and what tmux answers then.  A
  refresh that has begun when the process ends runs to its end.
\<close>

subsection \<open>Notifications\<close>

record Notification =
  nt_Type :: string
  nt_Args :: "string list"
  nt_Raw :: string

text \<open>The line is not empty: the caller has seen its first character.\<close>

definition parseNotification :: "string \<Rightarrow> Notification option" where
  "parseNotification line =
     (let parts = split_n 2 CHR '' '' (drop 1 line) in
      if length parts = 0 \<or> parts ! 0 = [] then None
      else if length parts > 1
      then Some \<lparr>nt_Type = parts ! 0, nt_Args = GoStrings.fields (parts ! 1), nt_Raw = parts ! 1\<rparr>
      else Some \<lparr>nt_Type = parts ! 0, nt_Args = [], nt_Raw = []\<rparr>)"

text \<open>The data length is that of the raw text behind its first space, if it has one.\<close>

definition output_data_len :: "string \<Rightarrow> nat" where
  "output_data_len raw =
     (let rest = dropWhile (\<lambda>c. c \<noteq> CHR '' '') raw in if rest = [] then length raw else length rest - 1)"

definition state_change_types :: "string list" where
  "state_change_types =
     [''sessions-changed'', ''session-changed'', ''session-renamed'', ''session-window-changed'', ''window-add'',
      ''window-close'', ''window-renamed'', ''unlinked-window-add'', ''unlinked-window-close'',
      ''unlinked-window-renamed'', ''layout-change'', ''pane-mode-changed'', ''client-session-changed'',
      ''client-detached'']"

subsection \<open>The control-mode client\<close>

text \<open>The callbacks act on a world of their owner; \<open>None\<close> is a callback that was not given.\<close>

record 'w control_callbacks =
  cb_onChange :: "(tmux_exec \<Rightarrow> TSession list \<Rightarrow> 'w \<Rightarrow> 'w) option"
  cb_onOutput :: "(time \<Rightarrow> string \<Rightarrow> nat \<Rightarrow> 'w \<Rightarrow> 'w) option"
  cb_onConnect :: "('w \<Rightarrow> 'w) option"
  cb_onDisconnect :: "('w \<Rightarrow> 'w) option"
  cb_refreshDelay :: duration

definition DefaultRefreshDelay :: duration where "DefaultRefreshDelay = second div 10"
definition maxControlBackoff :: duration where "maxControlBackoff = 30 * second"

record 'w control_mode =
  cm_timer :: "time option"
  cm_world :: 'w

definition scheduleRefresh :: "duration \<Rightarrow> time \<Rightarrow> 'w control_mode \<Rightarrow> 'w control_mode" where
  "scheduleRefresh delay now cm = cm\<lparr>cm_timer := Some (now + delay)\<rparr>"

definition handleNotification :: "'w control_callbacks \<Rightarrow> time \<Rightarrow> Notification \<Rightarrow> 'w control_mode \<Rightarrow> 'w control_mode" where
  "handleNotification cb now n cm =
     (if nt_Type n \<in> set state_change_types then scheduleRefresh (cb_refreshDelay cb) now cm
      else if nt_Type n = ''output'' then
        (case cb_onOutput cb of
           None \<Rightarrow> cm
         | Some onOutput \<Rightarrow>
             if length (nt_Args n) \<ge> 1 \<and> output_data_len (nt_Raw n) > 0
             then cm\<lparr>cm_world := onOutput now (nt_Args n ! 0) (output_data_len (nt_Raw n)) (cm_world cm)\<rparr> else cm)
      else cm)"

definition doRefresh :: "'w control_callbacks \<Rightarrow> tmux_exec \<Rightarrow> 'w \<Rightarrow> 'w" where
  "doRefresh cb exec w =
     (case ListSessions exec of
        Inl _ \<Rightarrow> w
      | Inr sessions \<Rightarrow>
          let filtered = filter (\<lambda>s. ts_name s \<noteq> controlSessionName) sessions
          in (case cb_onChange cb of None \<Rightarrow> w | Some onChange \<Rightarrow> onChange exec filtered w))"

text \<open>What the read loop and the runtime's timer do with the events of one connection.\<close>

datatype control_event = CLine time string | CTimer time tmux_exec | CCancel

definition read_line :: "'w control_callbacks \<Rightarrow> time \<Rightarrow> string \<Rightarrow> 'w control_mode \<Rightarrow> 'w control_mode" where
  "read_line cb now line cm =
     (if \<not> is_prefix ''%'' line then cm
      else case parseNotification line of None \<Rightarrow> cm | Some n \<Rightarrow> handleNotification cb now n cm)"

definition timer_due :: "time \<Rightarrow> 'w control_mode \<Rightarrow> bool" where
  "timer_due now cm = (case cm_timer cm of None \<Rightarrow> False | Some due \<Rightarrow> due \<le> now)"

definition run_timer :: "'w control_callbacks \<Rightarrow> time \<Rightarrow> tmux_exec \<Rightarrow> 'w control_mode \<Rightarrow> 'w control_mode" where
  "run_timer cb now exec cm =
     (if timer_due now cm then cm\<lparr>cm_timer := None, cm_world := doRefresh cb exec (cm_world cm)\<rparr> else cm)"

datatype read_end = ReadEOF | ReadCancelled | ReadTooLong

definition maxControlLine :: nat where "maxControlLine = 1024 * 1024"

text \<open>
  \<open>CLine\<close> carries a line of the process before the scanner drops a carriage return; a line
  that does not fit the scanner's buffer ends the loop.  Once the context is cancelled the
  next line does.
\<close>

fun readLoop :: "'w control_callbacks \<Rightarrow> bool \<Rightarrow> control_event list \<Rightarrow> 'w control_mode \<Rightarrow> read_end \<times> 'w control_mode" where
  "readLoop cb done1 [] cm = (ReadEOF, cm)"
| "readLoop cb done1 (CCancel # es) cm = readLoop cb True es cm"
| "readLoop cb done1 (CTimer now exec # es) cm = readLoop cb done1 es (run_timer cb now exec cm)"
| "readLoop cb done1 (CLine now raw # es) cm =
     (if length raw \<ge> maxControlLine then (ReadTooLong, cm)
      else if done1 then (ReadCancelled, cm)
      else readLoop cb done1 es (read_line cb now (drop_cr raw) cm))"

definition call_option :: "('w \<Rightarrow> 'w) option \<Rightarrow> 'w control_mode \<Rightarrow> 'w control_mode" where
  "call_option f cm = (case f of None \<Rightarrow> cm | Some g \<Rightarrow> cm\<lparr>cm_world := g (cm_world cm)\<rparr>)"

text \<open>
  \<open>started\<close>: the pipes and the process came up.  At the end the timer is stopped.
\<close>

definition runOnce :: "'w control_callbacks \<Rightarrow> bool \<Rightarrow> control_event list \<Rightarrow> 'w control_mode \<Rightarrow> read_end option \<times> 'w control_mode" where
  "runOnce cb started es cm =
     (if \<not> started then (None, cm)
      else case readLoop cb False es (call_option (cb_onConnect cb) cm) of
        (e, cm) \<Rightarrow> (Some e, cm\<lparr>cm_timer := None\<rparr>))"

text \<open>
  The reconnects: the waits between the attempts, and the state.  Attempts end with the
  list or with a cancelled context.
\<close>

definition next_backoff :: "duration \<Rightarrow> duration" where
  "next_backoff backoff = (let b = backoff * 2 in if b > maxControlBackoff then maxControlBackoff else b)"

fun control_attempts :: "'w control_callbacks \<Rightarrow> duration \<Rightarrow> (bool \<times> control_event list) list \<Rightarrow> 'w control_mode
    \<Rightarrow> duration list \<times> 'w control_mode" where
  "control_attempts cb backoff [] cm = ([], cm)"
| "control_attempts cb backoff ((started, es) # rest) cm =
     (case runOnce cb started es cm of
        (e, cm) \<Rightarrow>
          if CCancel \<in> set es then ([], cm)
          else case control_attempts cb (next_backoff backoff) rest (call_option (cb_onDisconnect cb) cm) of
            (waits, cm) \<Rightarrow> (backoff # waits, cm))"

definition control_Run :: "'w control_callbacks \<Rightarrow> (bool \<times> control_event list) list \<Rightarrow> 'w control_mode
    \<Rightarrow> duration list \<times> 'w control_mode" where
  "control_Run cb attempts cm = control_attempts cb second attempts cm"

subsection \<open>Polling\<close>

text \<open>\<open>ds_reset\<close> is the buffer of one of the channel that carries a new interval.\<close>

record discovery =
  ds_interval :: duration
  ds_reset :: "duration option"

definition NewDiscovery :: "duration \<Rightarrow> discovery" where
  "NewDiscovery every = \<lparr>ds_interval = every, ds_reset = None\<rparr>"

definition SetInterval :: "duration \<Rightarrow> discovery \<Rightarrow> discovery" where
  "SetInterval every d = (case ds_reset d of None \<Rightarrow> d\<lparr>ds_reset := Some every\<rparr> | Some _ \<Rightarrow> d)"

text \<open>The loop takes the pending interval when it is not inside a pass.\<close>

definition take_interval :: "discovery \<Rightarrow> discovery" where
  "take_interval d = (case ds_reset d of None \<Rightarrow> d | Some i \<Rightarrow> d\<lparr>ds_interval := i, ds_reset := None\<rparr>)"

definition discover :: "(tmux_exec \<Rightarrow> TSession list \<Rightarrow> 'w \<Rightarrow> 'w) option \<Rightarrow> tmux_exec \<Rightarrow> 'w \<Rightarrow> 'w" where
  "discover onChange exec w =
     (case ListSessions exec of
        Inl _ \<Rightarrow> w
      | Inr sessions \<Rightarrow>
          let filtered = filter (\<lambda>s. ts_name s \<noteq> controlSessionName) sessions
          in (case onChange of None \<Rightarrow> w | Some f \<Rightarrow> f exec filtered w))"

subsection \<open>The wiring of a node\<close>

record node_watch =
  nw_manager :: session_manager
  nw_activity :: activity_tracker
  nw_silence :: silence
  nw_discovery :: discovery

definition node_onChange :: "tmux_exec \<Rightarrow> TSession list \<Rightarrow> node_watch \<Rightarrow> node_watch" where
  "node_onChange exec sessions w = w\<lparr>nw_manager := UpdateSessions exec sessions (nw_manager w)\<rparr>"

definition node_onOutput :: "time \<Rightarrow> string \<Rightarrow> nat \<Rightarrow> node_watch \<Rightarrow> node_watch" where
  "node_onOutput now paneID dataLen w =
     (let session = SessionForPane paneID (nw_manager w);
          w = (if session \<noteq> [] then w\<lparr>nw_activity := activity_Record now session (int dataLen) (nw_activity w)\<rparr> else w)
      in w\<lparr>nw_silence := RecordOutput now paneID (nw_silence w)\<rparr>)"

definition connectedInterval :: duration where "connectedInterval = 30 * second"

definition node_set_interval :: "duration \<Rightarrow> node_watch \<Rightarrow> node_watch" where
  "node_set_interval i w = w\<lparr>nw_discovery := SetInterval i (nw_discovery w)\<rparr>"

definition node_callbacks :: "duration \<Rightarrow> node_watch control_callbacks" where
  "node_callbacks every =
     \<lparr>cb_onChange = Some node_onChange, cb_onOutput = Some node_onOutput,
      cb_onConnect = Some (node_set_interval connectedInterval), cb_onDisconnect = Some (node_set_interval every),
      cb_refreshDelay = DefaultRefreshDelay\<rparr>"

subsection \<open>Refreshes are debounced\<close>

text \<open>A line that reports a change of the sessions, and the refresh it makes due.\<close>

definition announces_change :: "string \<Rightarrow> bool" where
  "announces_change line =
     list_ex (\<lambda>ty. line = ''%'' @ ty \<or> is_prefix (''%'' @ ty @ '' '') line) state_change_types"

fun quiet_until :: "time \<Rightarrow> control_event \<Rightarrow> bool" where
  "quiet_until due (CLine _ raw) = (\<not> announces_change (drop_cr raw))"
| "quiet_until due (CTimer now _) = (now < due)"
| "quiet_until due CCancel = True"

definition refresh_pending :: "duration \<Rightarrow> control_event list \<Rightarrow> time \<Rightarrow> bool" where
  "refresh_pending delay es due =
     (\<exists>j<length es. \<exists>t raw. es ! j = CLine t raw \<and> announces_change (drop_cr raw) \<and> due = t + delay \<and>
        (\<forall>k<length es. j < k \<longrightarrow> quiet_until due (es ! k)))"

text \<open>The events of a connection that neither ends nor is cancelled.\<close>

fun plain_event :: "control_event \<Rightarrow> bool" where
  "plain_event (CLine _ raw) = (length raw < maxControlLine)"
| "plain_event (CTimer _ _) = True"
| "plain_event CCancel = False"

fun event_step :: "'w control_callbacks \<Rightarrow> 'w control_mode \<Rightarrow> control_event \<Rightarrow> 'w control_mode" where
  "event_step cb cm (CLine now raw) = read_line cb now (drop_cr raw) cm"
| "event_step cb cm (CTimer now exec) = run_timer cb now exec cm"
| "event_step cb cm CCancel = cm"

lemma readLoop_fold: "list_all plain_event es \<Longrightarrow> readLoop cb False es cm = (ReadEOF, foldl (event_step cb) cm es)"
  by (induction cb "False" es cm rule: readLoop.induct) simp_all

lemma split_char_first:
  "split_char c s = takeWhile (\<lambda>x. x \<noteq> c) s #
     (case dropWhile (\<lambda>x. x \<noteq> c) s of [] \<Rightarrow> [] | _ # rest \<Rightarrow> split_char c rest)"
  by (induction s) (auto split: list.splits)

lemma parse_type:
  "parseNotification (CHR ''%'' # s) =
     (let ty = takeWhile (\<lambda>c. c \<noteq> CHR '' '') s in
      if ty = [] then None
      else Some (case dropWhile (\<lambda>c. c \<noteq> CHR '' '') s of
        [] \<Rightarrow> \<lparr>nt_Type = ty, nt_Args = [], nt_Raw = []\<rparr>
      | _ # rest \<Rightarrow> \<lparr>nt_Type = ty, nt_Args = GoStrings.fields rest, nt_Raw = rest\<rparr>))"
proof (cases "dropWhile (\<lambda>c. c \<noteq> CHR '' '') s")
  case Nil
  then have "split_char CHR '' '' s = [takeWhile (\<lambda>c. c \<noteq> CHR '' '') s]"
    by (subst split_char_first) (simp only: list.case)
  then show ?thesis unfolding Nil by (simp add: parseNotification_def split_n_def Let_def)
next
  case (Cons x rest)
  obtain w ws where w: "split_char CHR '' '' rest = w # ws" by (cases "split_char CHR '' '' rest") auto
  with Cons have s: "split_char CHR '' '' s = takeWhile (\<lambda>c. c \<noteq> CHR '' '') s # w # ws" by (subst split_char_first) simp
  have "split_n 2 CHR '' '' s = [takeWhile (\<lambda>c. c \<noteq> CHR '' '') s, rest]"
    using join_split [of "CHR '' ''" rest] w by (cases ws) (auto simp: split_n_def s Let_def)
  with Cons show ?thesis by (simp add: parseNotification_def Let_def)
qed

lemma type_word:
  assumes "ty \<noteq> []" and "CHR '' '' \<notin> set ty"
  shows "takeWhile (\<lambda>c. c \<noteq> CHR '' '') s = ty \<longleftrightarrow> s = ty \<or> is_prefix (ty @ '' '') s"
proof
  assume t: "takeWhile (\<lambda>c. c \<noteq> CHR '' '') s = ty"
  have s: "s = ty @ dropWhile (\<lambda>c. c \<noteq> CHR '' '') s" unfolding t [symmetric] by simp
  show "s = ty \<or> is_prefix (ty @ '' '') s"
  proof (cases "dropWhile (\<lambda>c. c \<noteq> CHR '' '') s")
    case Nil
    with s show ?thesis by simp
  next
    case (Cons x rest)
    then have "x = CHR '' ''" using hd_dropWhile [of "\<lambda>c. c \<noteq> CHR '' ''" s] by simp
    with Cons s have "s = (ty @ '' '') @ rest" by simp
    then show ?thesis by (metis is_prefix_append)
  qed
next
  assume "s = ty \<or> is_prefix (ty @ '' '') s"
  then obtain rest where s: "s = ty @ rest" and rest: "rest = [] \<or> hd rest = CHR '' ''"
    by (auto simp: is_prefix_append)
  have "takeWhile (\<lambda>c. c \<noteq> CHR '' '') (ty @ rest) = ty"
    using assms(2) rest by (induction ty) (cases rest, auto)
  then show "takeWhile (\<lambda>c. c \<noteq> CHR '' '') s = ty" unfolding s .
qed

lemma change_types_words: "list_all (\<lambda>ty. ty \<noteq> [] \<and> CHR '' '' \<notin> set ty) state_change_types"
  by (simp add: state_change_types_def)

lemma announces_iff:
  "announces_change line \<longleftrightarrow>
     (\<exists>s. line = CHR ''%'' # s \<and> takeWhile (\<lambda>c. c \<noteq> CHR '' '') s \<in> set state_change_types)"
proof -
  have w: "ty \<noteq> [] \<and> CHR '' '' \<notin> set ty" if "ty \<in> set state_change_types" for ty
    using change_types_words that by (auto simp: list_all_iff)
  have "(line = CHR ''%'' # ty \<or> is_prefix (CHR ''%'' # ty @ '' '') line) \<longleftrightarrow>
      (\<exists>s. line = CHR ''%'' # s \<and> takeWhile (\<lambda>c. c \<noteq> CHR '' '') s = ty)"
    if "ty \<in> set state_change_types" for ty
    using type_word [of ty] w [OF that] by (cases line) auto
  then show ?thesis unfolding announces_change_def list_ex_iff by auto
qed

lemma read_line_timer:
  "cm_timer (read_line cb now line cm) =
     (if announces_change line then Some (now + cb_refreshDelay cb) else cm_timer cm)"
proof (cases line)
  case Nil
  then show ?thesis by (simp add: read_line_def announces_iff)
next
  case (Cons c s)
  show ?thesis
  proof (cases "c = CHR ''%'' \<and> takeWhile (\<lambda>c. c \<noteq> CHR '' '') s \<noteq> []")
    case True
    then obtain n where n: "parseNotification line = Some n" "nt_Type n = takeWhile (\<lambda>c. c \<noteq> CHR '' '') s"
      using Cons by (auto simp: parse_type Let_def split: list.splits)
    have "announces_change line \<longleftrightarrow> nt_Type n \<in> set state_change_types"
      using True Cons n by (simp add: announces_iff)
    moreover have "''output'' \<notin> set state_change_types" by (simp add: state_change_types_def)
    ultimately show ?thesis
      using True Cons n(1) by (auto simp: read_line_def handleNotification_def scheduleRefresh_def split: option.splits)
  next
    case False
    moreover have "[] \<notin> set state_change_types" by (simp add: state_change_types_def)
    ultimately have "\<not> announces_change line" using Cons by (auto simp: announces_iff)
    with False Cons show ?thesis by (auto simp: read_line_def parse_type)
  qed
qed

lemma pending_snoc:
  "refresh_pending delay (es @ [e]) due \<longleftrightarrow>
     (\<exists>t raw. e = CLine t raw \<and> announces_change (drop_cr raw) \<and> due = t + delay) \<or>
     (refresh_pending delay es due \<and> quiet_until due e)"
  (is "?L \<longleftrightarrow> ?last \<or> ?before")
proof
  assume ?L
  then obtain j t raw where j: "j < Suc (length es)" "(es @ [e]) ! j = CLine t raw" "announces_change (drop_cr raw)"
      "due = t + delay" and q: "\<forall>k<Suc (length es). j < k \<longrightarrow> quiet_until due ((es @ [e]) ! k)"
    unfolding refresh_pending_def by auto
  show "?last \<or> ?before"
  proof (cases "j = length es")
    case True
    with j show ?thesis by auto
  next
    case False
    with j have lt: "j < length es" by simp
    have "quiet_until due (es ! k)" if "k < length es" "j < k" for k
      using q [rule_format, of k] that by (simp add: nth_append)
    moreover have "quiet_until due e" using q [rule_format, of "length es"] lt by simp
    moreover have "es ! j = CLine t raw" using j(2) lt by (simp add: nth_append)
    ultimately have ?before using j(3,4) lt unfolding refresh_pending_def by blast
    then show ?thesis ..
  qed
next
  assume "?last \<or> ?before"
  then show ?L
  proof
    assume ?last
    then show ?L unfolding refresh_pending_def by (intro exI [of _ "length es"]) auto
  next
    assume ?before
    then obtain j t raw where j: "j < length es" "es ! j = CLine t raw" "announces_change (drop_cr raw)" "due = t + delay"
      and q: "\<forall>k<length es. j < k \<longrightarrow> quiet_until due (es ! k)" and e: "quiet_until due e"
      unfolding refresh_pending_def by auto
    have "quiet_until due ((es @ [e]) ! k)" if "k < Suc (length es)" "j < k" for k
      using q e that by (cases "k = length es") (auto simp: nth_append)
    with j show ?L unfolding refresh_pending_def
      by (intro exI [of _ j]) (auto simp: nth_append)
  qed
qed

lemma timer_iff_pending:
  assumes "list_all plain_event es" and "cm_timer cm = None"
  shows "cm_timer (foldl (event_step cb) cm es) = Some due \<longleftrightarrow> refresh_pending (cb_refreshDelay cb) es due"
  using assms(1)
proof (induction es arbitrary: due rule: rev_induct)
  case Nil
  then show ?case using assms(2) by (simp add: refresh_pending_def)
next
  case (snoc e es)
  let ?s = "foldl (event_step cb) cm es"
  have IH: "cm_timer ?s = Some d \<longleftrightarrow> refresh_pending (cb_refreshDelay cb) es d" for d
    using snoc by simp
  show ?case
  proof (cases e)
    case (CLine t raw)
    then show ?thesis by (auto simp: pending_snoc read_line_timer IH)
  next
    case (CTimer t exec)
    then show ?thesis
      by (cases "cm_timer ?s") (auto simp: pending_snoc run_timer_def timer_due_def IH [symmetric])
  next
    case CCancel
    with snoc.prems show ?thesis by simp
  qed
qed

text \<open>
  C7. The sessions follow tmux's notifications.  When the clock reaches a time, a refresh runs
  exactly if a change was reported at least the refresh delay ago, no change was reported
  since, and no timer has run that refresh yet; otherwise nothing happens.  A refresh that tmux
  answers leaves exactly tmux's sessions without the one of the control client; one that fails
  changes nothing.
\<close>

theorem sessions_follow_tmux:
  assumes "list_all plain_event es" and "cm_timer cm = None"
    and "before = snd (readLoop (node_callbacks every) False es cm)"
    and "after = snd (readLoop (node_callbacks every) False (es @ [CTimer now exec]) cm)"
  shows "if \<exists>due\<le>now. refresh_pending DefaultRefreshDelay es due
    then cm_timer after = None \<and>
      (case ListSessions exec of
         Inl _ \<Rightarrow> cm_world after = cm_world before
       | Inr sessions \<Rightarrow>
           let others = filter (\<lambda>s. ts_name s \<noteq> controlSessionName) sessions in
           cm_world after = (cm_world before)\<lparr>nw_manager := UpdateSessions exec others (nw_manager (cm_world before))\<rparr> \<and>
           fm_keys (mg_sessions (nw_manager (cm_world after))) = ts_name ` set sessions - {controlSessionName})
    else after = before"
proof -
  let ?cb = "node_callbacks every"
  have before: "before = foldl (event_step ?cb) cm es" by (simp add: assms(3) readLoop_fold [OF assms(1)])
  have after: "after = run_timer ?cb now exec before"
    using assms(1) by (simp add: assms(4) before readLoop_fold)
  have delay: "cb_refreshDelay ?cb = DefaultRefreshDelay" by (simp add: node_callbacks_def)
  have due: "timer_due now before \<longleftrightarrow> (\<exists>due\<le>now. refresh_pending DefaultRefreshDelay es due)"
    unfolding timer_iff_pending [OF assms(1,2), of ?cb, unfolded delay, folded before, symmetric] timer_due_def
    by (auto split: option.splits)
  have keys: "fm_keys (session_map (map (loadSessionDetails exec) ss)) = ts_name ` set ss" for ss
    by (auto simp: fm_keys_def session_map_has image_image)
  show ?thesis
  proof (cases "timer_due now before")
    case True
    then have "after = before\<lparr>cm_timer := None, cm_world := doRefresh ?cb exec (cm_world before)\<rparr>"
      by (simp add: after run_timer_def)
    with True show ?thesis
      unfolding due [symmetric]
      by (auto simp: doRefresh_def node_callbacks_def node_onChange_def Let_def UpdateSessions_def keys split: sum.splits)
  next
    case False
    then show ?thesis unfolding due [symmetric] by (simp add: after run_timer_def)
  qed
qed


definition demo_watch :: "node_watch control_mode" where
  "demo_watch = \<lparr>cm_timer = None, cm_world = \<lparr>nw_manager = NewManager, nw_activity = fmempty,
     nw_silence = NewSilenceMonitor, nw_discovery = NewDiscovery (2 * second)\<rparr>\<rparr>"

theorem sessions_follow_tmux_witness:
  "fm_keys (mg_sessions (nw_manager (cm_world (snd (readLoop (node_callbacks second) False
     [CLine 0 ''%window-add @1'', CTimer second (\<lambda>_. Inr ''$1:main:5:0:9'')] demo_watch))))) = {''main''}"
proof -
  let ?es = "[CLine 0 ''%window-add @1'']" and ?exec = "\<lambda>_::string list. Inr ''$1:main:5:0:9'' :: string + string"
  have ls: "ListSessions ?exec = Inr [session_of_parts [''$1'', ''main'', ''5'', ''0'', ''9'']]" by code_simp
  have name: "ts_name (session_of_parts [''$1'', ''main'', ''5'', ''0'', ''9'']) = ''main''" by (simp add: session_of_parts_def)
  have "announces_change (drop_cr ''%window-add @1'')" by code_simp
  then have "refresh_pending DefaultRefreshDelay ?es (0 + DefaultRefreshDelay)" unfolding refresh_pending_def by auto
  then have due: "\<exists>due\<le> second. refresh_pending DefaultRefreshDelay ?es due"
    by (intro exI [of _ "0 + DefaultRefreshDelay"]) (auto simp: DefaultRefreshDelay_def)
  have plain: "list_all plain_event ?es" by (simp add: maxControlLine_def)
  have idle: "cm_timer demo_watch = None" by (simp add: demo_watch_def)
  from sessions_follow_tmux [OF plain idle refl refl, of second second ?exec]
  show ?thesis unfolding if_P [OF due] ls sum.case Let_def append_Cons append_Nil
    by (elim conjE) (simp only: list.set image_insert image_empty name controlSessionName_def, simp)
qed

subsection \<open>Connections and polling\<close>

text \<open>
  The waits between connections double up to the cap and are never reset, however long a
  connection lived.
\<close>

lemma reconnect_waits:
  "\<lbrakk>\<forall>a\<in>set attempts. CCancel \<notin> set (snd a); backoff = min (2 ^ k * second) maxControlBackoff\<rbrakk> \<Longrightarrow>
   fst (control_attempts cb backoff attempts cm) =
     map (\<lambda>n. min (2 ^ (k + n) * second) maxControlBackoff) [0..<length attempts]"
proof (induction attempts arbitrary: backoff k cm)
  case (Cons a attempts)
  have "next_backoff backoff = min (2 ^ Suc k * second) maxControlBackoff"
    by (auto simp: next_backoff_def Let_def Cons.prems(2) maxControlBackoff_def)
  note IH = Cons.IH [OF _ this]
  obtain started es e cm' where a: "a = (started, es)" "runOnce cb started es cm = (e, cm')"
    by (cases a; cases "runOnce cb (fst a) (snd a) cm") auto
  have "fst (control_attempts cb backoff (a # attempts) cm) =
      backoff # map (\<lambda>n. min (2 ^ (Suc k + n) * second) maxControlBackoff) [0..<length attempts]"
    using Cons.prems(1) IH [of "call_option (cb_onDisconnect cb) cm'"]
    by (simp add: a case_prod_unfold)
  also have "\<dots> = map (\<lambda>n. min (2 ^ (k + n) * second) maxControlBackoff) (0 # map Suc [0..<length attempts])"
    by (simp add: Cons.prems(2))
  also have "0 # map Suc [0..<length attempts] = [0..<length (a # attempts)]"
    by (simp add: map_Suc_upt upt_conv_Cons del: upt_Suc)
  finally show ?case .
qed simp

text \<open>An interval that is set while another waits to be taken is lost.\<close>

lemma interval_lost:
  "ds_reset d = None \<Longrightarrow>
   ds_interval (take_interval (SetInterval every (SetInterval connectedInterval d))) = connectedInterval"
  by (simp add: SetInterval_def take_interval_def)

text \<open>A poll and a refresh do the same.\<close>

lemma discover_as_refresh: "discover (cb_onChange cb) exec w = doRefresh cb exec w"
  by (simp add: discover_def doRefresh_def)

text \<open>No refresh survives its connection.\<close>

lemma runOnce_timer: "started \<Longrightarrow> cm_timer (snd (runOnce cb started es cm)) = None"
  by (simp add: runOnce_def split: prod.splits)

end
