(* ===== verification/Update.thy ===== *)
theory Update
  imports AtomicFile GoStrings
begin

text \<open>
  The self-update: \<open>pkg/commands/update/transaction.go\<close> (the journal, staging, replacement,
  rollback and recovery) and \<open>pkg/commands/update/update.go\<close> (\<open>execute\<close>, the checks of a
  release).  The files are a map from paths to contents; a content that is still being
  written is \<open>None\<close>.  Every call into the operating system is one step that may fail, and a
  run records the states it passes through, so that the process may die between any two.
\<close>

datatype transactionPhase = phaseStaged | phaseReplaced | phaseRestarted | phaseHealthy
  | phaseRollingBack | phaseRolledBack | phaseCommitted

text \<open>The time of the last write is left out: nothing reads it.\<close>

record updateTransaction =
  tx_Phase :: transactionPhase
  tx_Executable :: string
  tx_StagedPath :: string
  tx_BackupPath :: string
  tx_PreviousVersion :: string
  tx_TargetVersion :: string
  tx_Service :: string
  tx_Error :: string

record 'b machine =
  mc_files :: "(string, 'b option) fmap"
  mc_journal :: "updateTransaction dir"
  mc_clock :: nat

text \<open>
  \<open>env n\<close> is the fate of the \<open>n\<close>-th call: \<open>None\<close> when it succeeds, otherwise the message of
  its error and, for a journal write, the step of \<open>atomicWriteFile\<close> that fails.
\<close>

type_synonym fate = "nat \<Rightarrow> (stage \<times> string) option"

type_synonym 'b action = "'b machine \<Rightarrow> string option \<times> 'b machine \<times> 'b machine list"

definition succeed :: "'b action" where
  "succeed m = (None, m, [])"

definition give_up :: "string \<Rightarrow> 'b action" where
  "give_up msg m = (Some msg, m, [])"

definition and_then :: "'b action \<Rightarrow> 'b action \<Rightarrow> 'b action" where
  "and_then a b m =
     (case a m of
        (Some e, m', v) \<Rightarrow> (Some e, m', v)
      | (None, m', v) \<Rightarrow> (case b m' of (e, m'', v') \<Rightarrow> (e, m'', v @ v')))"

text \<open>\<open>on_error a h\<close>: when \<open>a\<close> fails, \<open>h\<close> cleans up, its own outcome is dropped, and the error is returned.\<close>

definition on_error :: "'b action \<Rightarrow> (string \<Rightarrow> 'b action) \<Rightarrow> 'b action" where
  "on_error a h m =
     (case a m of
        (None, m', v) \<Rightarrow> (None, m', v)
      | (Some e, m', v) \<Rightarrow> (case h e m' of (_, m'', v') \<Rightarrow> (Some e, m'', v @ v')))"

definition ignoring :: "'b action \<Rightarrow> 'b action" where
  "ignoring a m = (case a m of (_, m', v) \<Rightarrow> (None, m', v))"

definition wrapped :: "string \<Rightarrow> 'b action \<Rightarrow> 'b action" where
  "wrapped msg a m = (case a m of (e, m', v) \<Rightarrow> (map_option (\<lambda>e. msg @ '': '' @ e) e, m', v))"

definition os_call :: "fate \<Rightarrow> ('b machine \<Rightarrow> 'b machine) \<Rightarrow> ('b machine \<Rightarrow> 'b machine) \<Rightarrow> 'b action" where
  "os_call env ok bad m =
     (let m' = m\<lparr>mc_clock := Suc (mc_clock m)\<rparr> in
      case env (mc_clock m) of
        None \<Rightarrow> (None, ok m', [ok m'])
      | Some (_, msg) \<Rightarrow> (Some msg, bad m', [bad m']))"

definition put_file :: "string \<Rightarrow> 'b option \<Rightarrow> 'b machine \<Rightarrow> 'b machine" where
  "put_file p c m = m\<lparr>mc_files := fmupd p c (mc_files m)\<rparr>"

definition drop_file :: "string \<Rightarrow> 'b machine \<Rightarrow> 'b machine" where
  "drop_file p m = m\<lparr>mc_files := fmdrop p (mc_files m)\<rparr>"

definition same :: "'b machine \<Rightarrow> 'b machine" where [simp]: "same m = m"

subsection \<open>Files\<close>

definition os_rename :: "fate \<Rightarrow> string \<Rightarrow> string \<Rightarrow> 'b action" where
  "os_rename env old new m =
     (case fmlookup (mc_files m) old of
        None \<Rightarrow> give_up ''no such file or directory'' m
      | Some c \<Rightarrow> os_call env (put_file new c \<circ> drop_file old) same m)"

definition os_remove :: "fate \<Rightarrow> string \<Rightarrow> 'b action" where
  "os_remove env p m =
     (case fmlookup (mc_files m) p of
        None \<Rightarrow> give_up ''no such file or directory'' m
      | Some _ \<Rightarrow> os_call env (drop_file p) same m)"

text \<open>
  Copying creates the destination exclusively; then the copy, the sync and the close are all
  done, and the first error is returned.  A failing sync or close leaves the whole content.
\<close>

definition copyExecutable :: "fate \<Rightarrow> string \<Rightarrow> string \<Rightarrow> 'b action" where
  "copyExecutable env source destination m0 =
     (case fmlookup (mc_files m0) source of
        None \<Rightarrow> give_up ''no such file or directory'' m0
      | Some c \<Rightarrow>
          and_then (os_call env same same)
          (and_then (\<lambda>m. if go_has (mc_files m) destination then give_up ''file exists'' m
                         else os_call env (put_file destination None) same m)
          (\<lambda>m. case os_call env (put_file destination c) same m of
             (copyErr, m1, v1) \<Rightarrow>
               (case os_call env same same m1 of
                  (syncErr, m2, v2) \<Rightarrow>
                    (case os_call env same same m2 of
                       (closeErr, m3, v3) \<Rightarrow>
                         (case copyErr of Some e \<Rightarrow> Some e | None \<Rightarrow>
                            (case syncErr of Some e \<Rightarrow> Some e | None \<Rightarrow> closeErr), m3, v1 @ v2 @ v3))))) m0)"

text \<open>\<open>path\<close> is the name \<open>os.CreateTemp\<close> picks beside the executable.\<close>

definition stageExecutable :: "fate \<Rightarrow> string \<Rightarrow> string \<Rightarrow> 'b action" where
  "stageExecutable env source path =
     and_then (wrapped ''stage beside executable'' (os_call env (put_file path None) same))
     (and_then (os_call env same same)
     (and_then (os_remove env path)
     (on_error (copyExecutable env source path) (\<lambda>_. os_remove env path))))"

definition replaceWithBackup :: "fate \<Rightarrow> string \<Rightarrow> string \<Rightarrow> string \<Rightarrow> 'b action" where
  "replaceWithBackup env staged executable backup =
     (let backupTemp = backup @ ''.tmp'' in
      and_then (ignoring (os_remove env backupTemp))
      (and_then (wrapped ''backup current executable'' (copyExecutable env executable backupTemp))
      (and_then (wrapped ''publish backup'' (on_error (os_rename env backupTemp backup) (\<lambda>_. os_remove env backupTemp)))
      (wrapped ''replace executable'' (os_rename env staged executable)))))"

subsection \<open>The journal\<close>

definition tx_save :: "fate \<Rightarrow> updateTransaction \<Rightarrow> 'b action" where
  "tx_save env t m =
     (let m' = m\<lparr>mc_clock := Suc (mc_clock m)\<rparr> in
      case atomicWriteFile (map_option fst (env (mc_clock m))) t (mc_journal m') of
        (e, d, visited) \<Rightarrow>
          ((case e of None \<Rightarrow> None | Some _ \<Rightarrow> map_option snd (env (mc_clock m))),
           m'\<lparr>mc_journal := d\<rparr>, map (\<lambda>d. m'\<lparr>mc_journal := d\<rparr>) visited))"

text \<open>\<open>None\<close>: the journal cannot be read; \<open>Some None\<close>: there is none.  It is written whole, so it always decodes.\<close>

definition tx_load :: "fate \<Rightarrow> 'b machine \<Rightarrow> updateTransaction option option" where
  "tx_load env m = (case env (mc_clock m) of Some _ \<Rightarrow> None | None \<Rightarrow> Some (d_target (mc_journal m)))"

definition rollbackExecutable :: "fate \<Rightarrow> string \<Rightarrow> updateTransaction option \<Rightarrow> 'b action" where
  "rollbackExecutable env staged tx =
     (case tx of
        None \<Rightarrow> give_up ''no previous release is available''
      | Some t \<Rightarrow>
          if tx_BackupPath t = [] then give_up ''no previous release is available''
          else
            let t1 = t\<lparr>tx_Phase := phaseRollingBack\<rparr>;
                failed = (\<lambda>e. tx_save env (t1\<lparr>tx_Error := e\<rparr>))
            in and_then (tx_save env t1)
               (and_then (on_error (stageExecutable env (tx_BackupPath t) staged) failed)
               (and_then (on_error (os_rename env staged (tx_Executable t)) failed)
               (tx_save env (t1\<lparr>tx_Phase := phaseRolledBack, tx_Error := []\<rparr>)))))"

definition recoverInterrupted :: "fate \<Rightarrow> string \<Rightarrow> 'b action" where
  "recoverInterrupted env staged m =
     (let m' = m\<lparr>mc_clock := Suc (mc_clock m)\<rparr> in
      case tx_load env m of
        None \<Rightarrow> give_up ''cannot read the journal'' m'
      | Some None \<Rightarrow> succeed m'
      | Some (Some t) \<Rightarrow>
          (case tx_Phase t of
             phaseStaged \<Rightarrow>
               and_then (if tx_StagedPath t \<noteq> [] then ignoring (os_remove env (tx_StagedPath t)) else succeed)
                 (tx_save env (t\<lparr>tx_Phase := phaseRolledBack\<rparr>)) m'
           | phaseReplaced \<Rightarrow> rollbackExecutable env staged (Some t) m'
           | phaseRestarted \<Rightarrow> rollbackExecutable env staged (Some t) m'
           | phaseRollingBack \<Rightarrow> rollbackExecutable env staged (Some t) m'
           | phaseHealthy \<Rightarrow> tx_save env (t\<lparr>tx_Phase := phaseCommitted\<rparr>) m'
           | _ \<Rightarrow> succeed m'))"

text \<open>The service found on the machine: its name, the executable it runs and whether it is active.\<close>

record serviceInfo =
  sv_kind :: string
  sv_name :: string
  sv_executable :: string
  sv_active :: bool

definition restorePrevious :: "fate \<Rightarrow> string \<Rightarrow> updateTransaction option \<Rightarrow> serviceInfo option \<Rightarrow> 'b action" where
  "restorePrevious env staged tx service =
     and_then (rollbackExecutable env staged tx)
     (case service of
        None \<Rightarrow> succeed
      | Some s \<Rightarrow>
          if \<not> sv_active s then succeed
          else and_then (wrapped ''restart previous release'' (os_call env same same))
            (wrapped ''previous release did not become ready'' (os_call env same same)))"

subsection \<open>The transaction of an update\<close>

text \<open>\<open>or_else a h\<close>: when \<open>a\<close> fails, \<open>h\<close> decides the outcome.\<close>

definition or_else :: "'b action \<Rightarrow> (string \<Rightarrow> 'b action) \<Rightarrow> 'b action" where
  "or_else a h m =
     (case a m of
        (None, m', v) \<Rightarrow> (None, m', v)
      | (Some e, m', v) \<Rightarrow> (case h e m' of (e', m'', v') \<Rightarrow> (e', m'', v @ v')))"

text \<open>The previous release is put restored, and the command still fails.\<close>

definition put_back :: "fate \<Rightarrow> string \<Rightarrow> string \<Rightarrow> updateTransaction \<Rightarrow> serviceInfo option \<Rightarrow> string \<Rightarrow> 'b action" where
  "put_back env staged what t service e =
     and_then (wrapped (what @ '' and rollback failed'') (restorePrevious env staged (Some (t\<lparr>tx_Error := e\<rparr>)) service))
       (give_up (what @ ''; restored previous release: '' @ e))"

text \<open>
  The part of \<open>execute\<close> after the verified binary is staged at \<open>staged\<close>; \<open>staged'\<close> is the
  name a rollback stages at.
\<close>

definition run_transaction :: "fate \<Rightarrow> string \<Rightarrow> string \<Rightarrow> string \<Rightarrow> string \<Rightarrow> string \<Rightarrow> serviceInfo option \<Rightarrow> bool \<Rightarrow> 'b action" where
  "run_transaction env staged staged' executable previous target service noRestart =
     (let t0 = \<lparr>tx_Phase = phaseStaged, tx_Executable = executable, tx_StagedPath = staged,
            tx_BackupPath = executable @ ''.previous'', tx_PreviousVersion = previous, tx_TargetVersion = target,
            tx_Service = (case service of None \<Rightarrow> [] | Some s \<Rightarrow> sv_name s), tx_Error = []\<rparr>;
          t1 = t0\<lparr>tx_Phase := phaseReplaced, tx_StagedPath := []\<rparr>;
          t2 = t1\<lparr>tx_Phase := phaseRestarted\<rparr>;
          t3 = t2\<lparr>tx_Phase := phaseHealthy\<rparr>;
          commit = (\<lambda>t. tx_save env (t\<lparr>tx_Phase := phaseCommitted, tx_Error := []\<rparr>))
      in and_then (wrapped ''journal staged update'' (on_error (tx_save env t0) (\<lambda>_. os_remove env staged)))
         (and_then (on_error (replaceWithBackup env staged executable (tx_BackupPath t0)) (\<lambda>e. tx_save env (t0\<lparr>tx_Error := e\<rparr>)))
         (and_then (wrapped ''journal executable replacement'' (tx_save env t1))
         (case service of
            None \<Rightarrow> commit t1
          | Some s \<Rightarrow>
              if \<not> sv_active s \<or> noRestart then commit t1
              else
                and_then (or_else (os_call env same same) (put_back env staged' ''restart failed'' t1 service))
                (and_then (tx_save env t2)
                (and_then (or_else (os_call env same same) (put_back env staged' ''new service unhealthy'' t2 service))
                (and_then (tx_save env t3)
                (commit t3))))))))"

text \<open>Staging and the transaction, from the verified binary.\<close>

definition install_update :: "fate \<Rightarrow> string \<Rightarrow> string \<Rightarrow> string \<Rightarrow> string \<Rightarrow> string \<Rightarrow> string \<Rightarrow> serviceInfo option \<Rightarrow> bool \<Rightarrow> 'b action" where
  "install_update env binary staged staged' executable previous target service noRestart =
     and_then (wrapped ''stage verified executable'' (stageExecutable env binary staged))
       (run_transaction env staged staged' executable previous target service noRestart)"

subsection \<open>Reasoning about crashes\<close>

text \<open>
  \<open>crash_ok C P a Q E\<close>: from a state with \<open>P\<close>, action \<open>a\<close> passes only through states with
  \<open>C\<close> and ends in \<open>Q\<close> when it succeeds and in \<open>E\<close> when it fails.
\<close>

definition crash_ok :: "('b machine \<Rightarrow> bool) \<Rightarrow> ('b machine \<Rightarrow> bool) \<Rightarrow> 'b action \<Rightarrow> ('b machine \<Rightarrow> bool) \<Rightarrow> ('b machine \<Rightarrow> bool) \<Rightarrow> bool" where
  "crash_ok C P a Q E = (\<forall>m e m' v. P m \<longrightarrow> a m = (e, m', v) \<longrightarrow>
     (\<forall>c\<in>set v. C c) \<and> (if e = None then Q m' else E m'))"

lemma crash_okI:
  "(\<And>m e m' v. P m \<Longrightarrow> a m = (e, m', v) \<Longrightarrow> (\<forall>c\<in>set v. C c) \<and> (if e = None then Q m' else E m')) \<Longrightarrow> crash_ok C P a Q E"
  unfolding crash_ok_def by (intro allI impI)

lemma crash_okD:
  "\<lbrakk>crash_ok C P a Q E; P m; a m = (e, m', v)\<rbrakk> \<Longrightarrow> (\<forall>c\<in>set v. C c) \<and> (if e = None then Q m' else E m')"
  unfolding crash_ok_def by blast

lemma crash_ok_weaken:
  assumes "crash_ok C P a Q E" and "\<And>m. P' m \<Longrightarrow> P m" and "\<And>m. Q m \<Longrightarrow> Q' m" and "\<And>m. E m \<Longrightarrow> E' m"
  shows "crash_ok C P' a Q' E'"
proof (rule crash_okI)
  fix m e m' v assume "P' m" "a m = (e, m', v)"
  with crash_okD [OF assms(1) assms(2)] have "(\<forall>c\<in>set v. C c) \<and> (if e = None then Q m' else E m')" by blast
  with assms(3,4) show "(\<forall>c\<in>set v. C c) \<and> (if e = None then Q' m' else E' m')" by (cases e) auto
qed

lemma crash_ok_succeed: "(\<And>m. P m \<Longrightarrow> Q m) \<Longrightarrow> crash_ok C P succeed Q E"
  by (rule crash_okI) (auto simp: succeed_def)

lemma crash_ok_give_up: "(\<And>m. P m \<Longrightarrow> E m) \<Longrightarrow> crash_ok C P (give_up msg) Q E"
  by (rule crash_okI) (auto simp: give_up_def)

lemma crash_ok_then:
  assumes a: "crash_ok C P a R E" and b: "crash_ok C R b Q E"
  shows "crash_ok C P (and_then a b) Q E"
proof (rule crash_okI)
  fix m e m' v assume P: "P m" and r: "and_then a b m = (e, m', v)"
  obtain e1 m1 v1 where 1: "a m = (e1, m1, v1)" by (cases "a m")
  note o1 = crash_okD [OF a P 1]
  show "(\<forall>c\<in>set v. C c) \<and> (if e = None then Q m' else E m')"
  proof (cases e1)
    case None
    obtain e2 m2 v2 where 2: "b m1 = (e2, m2, v2)" by (cases "b m1")
    from o1 None have "R m1" by simp
    from crash_okD [OF b this 2] o1 None r 1 2 show ?thesis by (auto simp: and_then_def)
  next
    case Some
    with o1 r 1 show ?thesis by (auto simp: and_then_def)
  qed
qed

lemma crash_ok_on_error:
  assumes a: "crash_ok C P a Q F" and h: "\<And>e. crash_ok C F (h e) E E"
  shows "crash_ok C P (on_error a h) Q E"
proof (rule crash_okI)
  fix m e m' v assume P: "P m" and r: "on_error a h m = (e, m', v)"
  obtain e1 m1 v1 where 1: "a m = (e1, m1, v1)" by (cases "a m")
  note o1 = crash_okD [OF a P 1]
  show "(\<forall>c\<in>set v. C c) \<and> (if e = None then Q m' else E m')"
  proof (cases e1)
    case None
    with o1 r 1 show ?thesis by (simp add: on_error_def)
  next
    case (Some e')
    obtain e2 m2 v2 where 2: "h e' m1 = (e2, m2, v2)" by (cases "h e' m1")
    from o1 Some have "F m1" by simp
    from crash_okD [OF h this 2] o1 Some r 1 2 show ?thesis by (auto simp: on_error_def split: if_splits)
  qed
qed

lemma crash_ok_or_else:
  assumes a: "crash_ok C P a Q F" and h: "\<And>e. crash_ok C F (h e) Q E"
  shows "crash_ok C P (or_else a h) Q E"
proof (rule crash_okI)
  fix m e m' v assume P: "P m" and r: "or_else a h m = (e, m', v)"
  obtain e1 m1 v1 where 1: "a m = (e1, m1, v1)" by (cases "a m")
  note o1 = crash_okD [OF a P 1]
  show "(\<forall>c\<in>set v. C c) \<and> (if e = None then Q m' else E m')"
  proof (cases e1)
    case None
    with o1 r 1 show ?thesis by (simp add: or_else_def)
  next
    case (Some e')
    obtain e2 m2 v2 where 2: "h e' m1 = (e2, m2, v2)" by (cases "h e' m1")
    from o1 Some have "F m1" by simp
    from crash_okD [OF h this 2] o1 Some r 1 2 show ?thesis by (auto simp: or_else_def)
  qed
qed

lemma crash_ok_ignoring: "crash_ok C P a Q Q \<Longrightarrow> crash_ok C P (ignoring a) Q E"
  by (rule crash_okI) (auto simp: ignoring_def split: prod.splits if_splits dest: crash_okD)

lemma crash_ok_wrapped: "crash_ok C P a Q E \<Longrightarrow> crash_ok C P (wrapped msg a) Q E"
  by (rule crash_okI) (auto simp: wrapped_def split: prod.splits if_splits dest: crash_okD)

lemmas crash_rules = crash_ok_then crash_ok_on_error crash_ok_ignoring crash_ok_wrapped

lemma crash_ok_call:
  assumes "\<And>m n. P m \<Longrightarrow> C (ok (m\<lparr>mc_clock := n\<rparr>)) \<and> Q (ok (m\<lparr>mc_clock := n\<rparr>)) \<and>
      C (bad (m\<lparr>mc_clock := n\<rparr>)) \<and> E (bad (m\<lparr>mc_clock := n\<rparr>))"
  shows "crash_ok C P (os_call env ok bad) Q E"
proof (rule crash_okI)
  fix m e m' v assume P: "P m" and r: "os_call env ok bad m = (e, m', v)"
  note a = assms [OF P, of "Suc (mc_clock m)"]
  show "(\<forall>c\<in>set v. C c) \<and> (if e = None then Q m' else E m')"
    using r a by (cases "env (mc_clock m)") (auto simp: os_call_def Let_def)
qed

text \<open>\<open>stable P p\<close>: \<open>P\<close> does not depend on the clock or on the file at \<open>p\<close>.\<close>

definition stable :: "('b machine \<Rightarrow> bool) \<Rightarrow> string \<Rightarrow> bool" where
  "stable P p = ((\<forall>m n. P m \<longrightarrow> P (m\<lparr>mc_clock := n\<rparr>)) \<and> (\<forall>m x. P m \<longrightarrow> P (put_file p x m)) \<and> (\<forall>m. P m \<longrightarrow> P (drop_file p m)))"

lemma stableD:
  "\<lbrakk>stable P p; P m\<rbrakk> \<Longrightarrow> P (m\<lparr>mc_clock := n\<rparr>)"
  "\<lbrakk>stable P p; P m\<rbrakk> \<Longrightarrow> P (put_file p x m)"
  "\<lbrakk>stable P p; P m\<rbrakk> \<Longrightarrow> P (drop_file p m)"
  unfolding stable_def by blast+

lemma stable_touch:
  assumes "stable P p" and "P m"
  shows "P (put_file p x (m\<lparr>mc_clock := n\<rparr>))" "P (drop_file p (m\<lparr>mc_clock := n\<rparr>))"
  by (rule stableD(2) [OF assms(1)], rule stableD(1) [OF assms]) (rule stableD(3) [OF assms(1)], rule stableD(1) [OF assms])

lemma files_simps [simp]:
  "mc_files (put_file p c m) = fmupd p c (mc_files m)"
  "mc_files (drop_file p m) = fmdrop p (mc_files m)"
  "mc_journal (put_file p c m) = mc_journal m"
  "mc_journal (drop_file p m) = mc_journal m"
  by (simp_all add: put_file_def drop_file_def)

lemma crash_ok_plain_call: "stable P p \<Longrightarrow> crash_ok P P (os_call env same same) P P"
  by (rule crash_ok_call) (simp add: stableD(1))

lemma crash_ok_remove: "stable P p \<Longrightarrow> crash_ok P P (os_remove env p) P P"
proof (rule crash_okI)
  fix m e m' v assume s: "stable P p" and P: "P m" and r: "os_remove env p m = (e, m', v)"
  show "(\<forall>c\<in>set v. P c) \<and> (if e = None then P m' else P m')"
  proof (cases "fmlookup (mc_files m) p")
    case None
    with r P show ?thesis by (simp add: os_remove_def give_up_def)
  next
    case (Some c)
    have "crash_ok P P (os_call env (drop_file p) same) P P"
      by (rule crash_ok_call) (simp add: stable_touch [OF s] stableD(1) [OF s])
    from crash_okD [OF this P, of e m' v] r Some show ?thesis by (simp add: os_remove_def)
  qed
qed

lemma crash_ok_rename:
  assumes look: "\<And>m. P m \<Longrightarrow> fmlookup (mc_files m) old = Some c"
    and moved: "\<And>m n. P m \<Longrightarrow> C (put_file new c (drop_file old (m\<lparr>mc_clock := n\<rparr>))) \<and> Q (put_file new c (drop_file old (m\<lparr>mc_clock := n\<rparr>)))"
    and kept: "\<And>m n. P m \<Longrightarrow> C (m\<lparr>mc_clock := n\<rparr>) \<and> E (m\<lparr>mc_clock := n\<rparr>)"
  shows "crash_ok C P (os_rename env old new) Q E"
proof (rule crash_okI)
  fix m e m' v assume P: "P m" and r: "os_rename env old new m = (e, m', v)"
  have "crash_ok C P (os_call env (put_file new c \<circ> drop_file old) same) Q E"
    by (rule crash_ok_call) (simp add: moved kept)
  from crash_okD [OF this P, of e m' v] r look [OF P]
  show "(\<forall>c\<in>set v. C c) \<and> (if e = None then Q m' else E m')" by (simp add: os_rename_def)
qed

lemma crash_ok_copy:
  assumes s: "stable P dst" and look: "\<And>m. P m \<Longrightarrow> fmlookup (mc_files m) src = Some c"
  shows "crash_ok P P (copyExecutable env src dst) (\<lambda>m. P m \<and> fmlookup (mc_files m) dst = Some c) P"
proof (rule crash_okI)
  let ?Q = "\<lambda>m. P m \<and> fmlookup (mc_files m) dst = Some c"
  let ?create = "\<lambda>m. if go_has (mc_files m) dst then give_up ''file exists'' m
    else os_call env (put_file dst None) same m"
  let ?fill = "\<lambda>m. case os_call env (put_file dst c) same m of
             (copyErr, m1, v1) \<Rightarrow>
               (case os_call env same same m1 of
                  (syncErr, m2, v2) \<Rightarrow>
                    (case os_call env same same m2 of
                       (closeErr, m3, v3) \<Rightarrow>
                         (case copyErr of Some e \<Rightarrow> Some e | None \<Rightarrow>
                            (case syncErr of Some e \<Rightarrow> Some e | None \<Rightarrow> closeErr), m3, v1 @ v2 @ v3)))"
  note t = stable_touch [OF s] stableD(1) [OF s]
  have create: "crash_ok P P ?create P P"
  proof (rule crash_okI)
    fix m e m' v assume P: "P m" and r: "?create m = (e, m', v)"
    have "crash_ok P P (os_call env (put_file dst None) same) P P" by (rule crash_ok_call) (simp add: t)
    from crash_okD [OF this P, of e m' v] r P
    show "(\<forall>c\<in>set v. P c) \<and> (if e = None then P m' else P m')" by (auto simp: give_up_def split: if_splits)
  qed
  have fill: "crash_ok P P ?fill ?Q P"
  proof (rule crash_okI)
    fix m e m' v assume P: "P m" and r: "?fill m = (e, m', v)"
    obtain e1 m1 v1 where 1: "os_call env (put_file dst c) same m = (e1, m1, v1)" by (cases "os_call env (put_file dst c) same m")
    obtain e2 m2 v2 where 2: "os_call env same same m1 = (e2, m2, v2)" by (cases "os_call env same same m1")
    obtain e3 m3 v3 where 3: "os_call env same same m2 = (e3, m3, v3)" by (cases "os_call env same same m2")
    let ?R = "\<lambda>m. if e1 = None then ?Q m else P m"
    have "crash_ok P P (os_call env (put_file dst c) same) ?Q P" by (rule crash_ok_call) (simp add: t)
    note o1 = crash_okD [OF this P 1]
    have R: "crash_ok P ?R (os_call env same same) ?R ?R" by (rule crash_ok_call) (auto simp: stableD(1) [OF s] split: if_splits)
    from o1 have "?R m1" by simp
    note o2 = crash_okD [OF R this 2]
    from o2 have "?R m2" by simp
    note o3 = crash_okD [OF R this 3]
    have "v = v1 @ v2 @ v3" "m' = m3" "e = None \<longrightarrow> e1 = None" using r 1 2 3 by (auto split: option.splits)
    with o1 o2 o3 show "(\<forall>c\<in>set v. P c) \<and> (if e = None then ?Q m' else P m')" by (auto split: if_splits)
  qed
  fix m e m' v assume P: "P m" and r: "copyExecutable env src dst m = (e, m', v)"
  have "crash_ok P P (and_then (os_call env same same) (and_then ?create ?fill)) ?Q P"
    by (rule crash_ok_then [OF crash_ok_plain_call [OF s] crash_ok_then [OF create fill]])
  from crash_okD [OF this P, of e m' v] r look [OF P]
  show "(\<forall>c\<in>set v. P c) \<and> (if e = None then ?Q m' else P m')"
    by (simp add: copyExecutable_def)
qed

lemma crash_ok_stage:
  assumes s: "stable P path" and look: "\<And>m. P m \<Longrightarrow> fmlookup (mc_files m) source = Some c"
  shows "crash_ok P P (stageExecutable env source path) (\<lambda>m. P m \<and> fmlookup (mc_files m) path = Some c) P"
proof -
  have "crash_ok P P (os_call env (put_file path None) same) P P"
    by (rule crash_ok_call) (simp add: stable_touch [OF s] stableD(1) [OF s])
  note create = crash_ok_wrapped [OF this]
  show ?thesis
    unfolding stageExecutable_def
    by (rule crash_ok_then [OF create], rule crash_ok_then [OF crash_ok_plain_call [OF s]],
        rule crash_ok_then [OF crash_ok_remove [OF s]],
        rule crash_ok_on_error [OF crash_ok_copy [OF s look] crash_ok_remove [OF s]])
qed

lemma journal_write:
  assumes "atomicWriteFile fault v d = (e, d', visited)"
  shows "d_target d' = (if e = None then Some v else d_target d) \<and> (e = None \<or> e = fault) \<and>
    (\<forall>c\<in>set visited. d_target c = d_target d \<or> d_target c = Some v)"
  using assms by (auto simp: atomicWriteFile_def dir_defs split: if_splits)

lemma crash_ok_save:
  assumes kept: "\<And>m n d. \<lbrakk>P m; d_target d = d_target (mc_journal m)\<rbrakk> \<Longrightarrow>
      C (m\<lparr>mc_clock := n, mc_journal := d\<rparr>) \<and> E (m\<lparr>mc_clock := n, mc_journal := d\<rparr>)"
    and saved: "\<And>m n d. \<lbrakk>P m; d_target d = Some t\<rbrakk> \<Longrightarrow>
      C (m\<lparr>mc_clock := n, mc_journal := d\<rparr>) \<and> Q (m\<lparr>mc_clock := n, mc_journal := d\<rparr>)"
  shows "crash_ok C P (tx_save env t) Q E"
proof (rule crash_okI)
  fix m e m' v assume P: "P m" and r: "tx_save env t m = (e, m', v)"
  obtain f d vis where w: "atomicWriteFile (map_option fst (env (mc_clock m))) t (mc_journal m) = (f, d, vis)"
    by (cases "atomicWriteFile (map_option fst (env (mc_clock m))) t (mc_journal m)")
  note j = journal_write [OF w]
  let ?at = "\<lambda>d. m\<lparr>mc_clock := Suc (mc_clock m), mc_journal := d\<rparr>"
  have v: "v = map ?at vis" and m': "m' = ?at d" and e: "e = None \<longleftrightarrow> f = None"
    using r w j by (auto simp: tx_save_def Let_def split: option.splits)
  have "C (?at c)" if "c \<in> set vis" for c
    using j that kept [OF P, of c] saved [OF P, of c] by blast
  moreover have "if e = None then Q m' else E m'"
    using j e m' kept [OF P, of d] saved [OF P, of d] by (cases f) auto
  ultimately show "(\<forall>c\<in>set v. C c) \<and> (if e = None then Q m' else E m')" by (simp add: v)
qed

subsection \<open>The states of an update\<close>

text \<open>
  One update: its paths, the old and the new content, and the journal before it.
\<close>

record 'b update_case =
  uc_exe :: string
  uc_staged :: string
  uc_old :: 'b
  uc_new :: 'b
  uc_before :: "updateTransaction option"

definition holds_file :: "string \<Rightarrow> 'b \<Rightarrow> 'b machine \<Rightarrow> bool" where
  "holds_file p c m = (fmlookup (mc_files m) p = Some (Some c))"

abbreviation uc_backup :: "('b, 'z) update_case_scheme \<Rightarrow> string" where
  "uc_backup u \<equiv> uc_exe u @ ''.previous''"

text \<open>
  What the journal says about the files, phase by phase.  \<open>ws\<close> and \<open>wr\<close> allow the new
  executable in the phases \<open>phaseStaged\<close> and \<open>phaseRolledBack\<close>.
\<close>

definition phase_ok :: "bool \<Rightarrow> bool \<Rightarrow> 'b update_case \<Rightarrow> updateTransaction \<Rightarrow> 'b machine \<Rightarrow> bool" where
  "phase_ok ws wr u t m =
     (case tx_Phase t of
        phaseStaged \<Rightarrow> tx_StagedPath t = uc_staged u \<and> (holds_file (uc_exe u) (uc_old u) m \<or> ws)
      | phaseReplaced \<Rightarrow> holds_file (uc_backup u) (uc_old u) m
      | phaseRestarted \<Rightarrow> holds_file (uc_backup u) (uc_old u) m
      | phaseRollingBack \<Rightarrow> holds_file (uc_backup u) (uc_old u) m
      | phaseHealthy \<Rightarrow> holds_file (uc_exe u) (uc_new u) m
      | phaseCommitted \<Rightarrow> holds_file (uc_exe u) (uc_new u) m
      | phaseRolledBack \<Rightarrow> holds_file (uc_exe u) (uc_old u) m \<or> wr)"

definition intact :: "'b update_case \<Rightarrow> 'b machine \<Rightarrow> bool" where
  "intact u m = (holds_file (uc_exe u) (uc_old u) m \<or> holds_file (uc_exe u) (uc_new u) m)"

definition of_update :: "'b update_case \<Rightarrow> updateTransaction \<Rightarrow> bool" where
  "of_update u t = (tx_Executable t = uc_exe u \<and> tx_BackupPath t = uc_backup u)"

definition update_ok :: "bool \<Rightarrow> bool \<Rightarrow> 'b update_case \<Rightarrow> 'b machine \<Rightarrow> bool" where
  "update_ok ws wr u m =
     (intact u m \<and>
      (d_target (mc_journal m) = uc_before u \<and> holds_file (uc_exe u) (uc_old u) m \<or>
       (\<exists>t. d_target (mc_journal m) = Some t \<and> of_update u t \<and> phase_ok ws wr u t m)))"

text \<open>A journal at rest: no update of it is under way.\<close>

definition at_rest :: "updateTransaction option \<Rightarrow> bool" where
  "at_rest j = (case j of None \<Rightarrow> True | Some t \<Rightarrow> tx_Phase t = phaseRolledBack \<or> tx_Phase t = phaseCommitted)"

lemma holds_file_simps [simp]:
  "holds_file p c (m\<lparr>mc_clock := n\<rparr>) = holds_file p c m"
  "holds_file p c (m\<lparr>mc_journal := d\<rparr>) = holds_file p c m"
  "holds_file p c (m\<lparr>mc_clock := n, mc_journal := d\<rparr>) = holds_file p c m"
  "holds_file p c (put_file q x m) = (if p = q then x = Some c else holds_file p c m)"
  "holds_file p c (drop_file q m) = (p \<noteq> q \<and> holds_file p c m)"
  by (auto simp: holds_file_def put_file_def drop_file_def)

lemma phase_ok_simps [simp]:
  "phase_ok ws wr u t (m\<lparr>mc_clock := n\<rparr>) = phase_ok ws wr u t m"
  "phase_ok ws wr u t (m\<lparr>mc_clock := n, mc_journal := d\<rparr>) = phase_ok ws wr u t m"
  by (cases "tx_Phase t", simp_all add: phase_ok_def)+

lemma intact_simps [simp]:
  "intact u (m\<lparr>mc_clock := n\<rparr>) = intact u m"
  "intact u (m\<lparr>mc_clock := n, mc_journal := d\<rparr>) = intact u m"
  by (simp_all add: intact_def)

lemma update_ok_clock [simp]: "update_ok ws wr u (m\<lparr>mc_clock := n\<rparr>) = update_ok ws wr u m"
  by (simp add: update_ok_def)

lemma update_ok_journal: "d_target d = d_target (mc_journal m) \<Longrightarrow>
    update_ok ws wr u (m\<lparr>mc_clock := n, mc_journal := d\<rparr>) = update_ok ws wr u m"
  by (simp add: update_ok_def)

lemma update_okI:
  "\<lbrakk>intact u m; d_target (mc_journal m) = Some t; of_update u t; phase_ok ws wr u t m\<rbrakk> \<Longrightarrow> update_ok ws wr u m"
  by (simp add: update_ok_def)

lemma update_ok_files:
  assumes "update_ok ws wr u a" and "d_target (mc_journal b) = d_target (mc_journal a)"
    and "\<And>c. holds_file (uc_exe u) c b = holds_file (uc_exe u) c a"
    and "\<And>c. holds_file (uc_backup u) c b = holds_file (uc_backup u) c a"
  shows "update_ok ws wr u b"
proof -
  have "phase_ok ws wr u t b = phase_ok ws wr u t a" for t by (cases "tx_Phase t") (simp_all add: phase_ok_def assms(3,4))
  then show ?thesis using assms(1) by (simp add: update_ok_def intact_def assms(2,3))
qed

text \<open>Contents and the journal, as a predicate the rules compute with.\<close>

definition files_at :: "(string \<times> 'b) list \<Rightarrow> updateTransaction option \<Rightarrow> 'b machine \<Rightarrow> bool" where
  "files_at fs j m = (list_all (\<lambda>(p, c). holds_file p c m) fs \<and> d_target (mc_journal m) = j)"

lemma files_at_stable: "p \<notin> fst ` set fs \<Longrightarrow> stable (files_at fs j) p"
  by (force simp: stable_def files_at_def list_all_iff)

lemma files_at_save:
  assumes "\<And>m. files_at fs j m \<Longrightarrow> C m" and "\<And>m. files_at fs (Some t) m \<Longrightarrow> C m"
  shows "crash_ok C (files_at fs j) (tx_save env t) (files_at fs (Some t)) (files_at fs j)"
proof (rule crash_ok_save)
  fix m :: "'a machine" and n and d :: "updateTransaction dir"
  let ?m = "m\<lparr>mc_clock := n, mc_journal := d\<rparr>"
  assume m: "files_at fs j m"
  show "C ?m \<and> files_at fs j ?m" if "d_target d = d_target (mc_journal m)"
    using that m assms(1) [of ?m] by (simp add: files_at_def)
  show "C ?m \<and> files_at fs (Some t) ?m" if "d_target d = Some t"
    using that m assms(2) [of ?m] by (simp add: files_at_def)
qed

lemma crash_ok_strict:
  assumes "crash_ok P P a Q E" and "\<And>m. P m \<Longrightarrow> C m"
  shows "crash_ok C P a Q E"
  using assms unfolding crash_ok_def by blast

text \<open>Rolling restored, from a journal of the update in any phase that keeps the backup.\<close>

lemma rollback_ok:
  assumes t: "of_update u t" and b: "\<And>m. P m \<Longrightarrow> holds_file (uc_backup u) (uc_old u) m \<and> intact u m"
    and P: "\<And>m. P m \<Longrightarrow> update_ok ws wr u m"
    and st: "staged \<noteq> uc_exe u" "staged \<noteq> uc_backup u"
  shows "crash_ok (update_ok ws wr u) P (rollbackExecutable env staged (Some t))
    (files_at [(uc_exe u, uc_old u)] (Some (t\<lparr>tx_Phase := phaseRolledBack, tx_Error := []\<rparr>))) (update_ok ws wr u)"
proof -
  let ?t1 = "t\<lparr>tx_Phase := phaseRollingBack\<rparr>"
  let ?C = "update_ok ws wr u"
  let ?R = "\<lambda>e m. intact u m \<and> files_at [(uc_backup u, uc_old u)] (Some (?t1\<lparr>tx_Error := e\<rparr>)) m"
  let ?F = "\<lambda>m. \<exists>e. ?R e m"
  let ?e0 = "tx_Error t"
  have R: "?C m" if "?R e m" for e m
    using that t by (auto simp: update_ok_def files_at_def phase_ok_def of_update_def)
  have e0: "?t1\<lparr>tx_Error := ?e0\<rparr> = ?t1" by simp
  have R0: "?C m" if "?R ?e0 m" for m using that by (rule R)
  have stab: "stable (?R e) staged" for e
    using st by (auto simp: stable_def files_at_def intact_def)
  have 1: "crash_ok ?C P (tx_save env ?t1) (?R ?e0) ?C"
  proof (rule crash_ok_save)
    fix m n and d :: "updateTransaction dir" assume p: "P m" and d: "d_target d = d_target (mc_journal m)"
    have "?C (m\<lparr>mc_clock := n, mc_journal := d\<rparr>)"
      using P [OF p] d by (simp add: update_ok_journal)
    then show "?C (m\<lparr>mc_clock := n, mc_journal := d\<rparr>) \<and> ?C (m\<lparr>mc_clock := n, mc_journal := d\<rparr>)" by simp
  next
    fix m n and d :: "updateTransaction dir" assume p: "P m" and d: "d_target d = Some ?t1"
    have "?R ?e0 (m\<lparr>mc_clock := n, mc_journal := d\<rparr>)" using b [OF p] d by (simp add: files_at_def)
    with R show "?C (m\<lparr>mc_clock := n, mc_journal := d\<rparr>) \<and> ?R ?e0 (m\<lparr>mc_clock := n, mc_journal := d\<rparr>)" by blast
  qed
  have 2: "crash_ok ?C (?R ?e0) (stageExecutable env (tx_BackupPath t) staged)
      (\<lambda>m. ?R ?e0 m \<and> fmlookup (mc_files m) staged = Some (Some (uc_old u))) (?R ?e0)"
    by (rule crash_ok_strict [OF crash_ok_stage [OF stab] R0]) (use t in \<open>auto simp: of_update_def files_at_def holds_file_def\<close>)
  have 3: "crash_ok ?C (\<lambda>m. ?R ?e0 m \<and> fmlookup (mc_files m) staged = Some (Some (uc_old u)))
      (os_rename env staged (tx_Executable t))
      (files_at [(uc_backup u, uc_old u), (uc_exe u, uc_old u)] (Some ?t1)) (?R ?e0)"
  proof (rule crash_ok_rename)
    fix m n
    assume m: "?R ?e0 m \<and> fmlookup (mc_files m) staged = Some (Some (uc_old u))"
    let ?m' = "put_file (tx_Executable t) (Some (uc_old u)) (drop_file staged (m\<lparr>mc_clock := n\<rparr>))"
    have "files_at [(uc_backup u, uc_old u), (uc_exe u, uc_old u)] (Some ?t1) ?m'"
      using m t st by (auto simp: files_at_def of_update_def)
    moreover then have "?R ?e0 ?m'" by (auto simp: files_at_def intact_def)
    ultimately show "?C ?m' \<and> files_at [(uc_backup u, uc_old u), (uc_exe u, uc_old u)] (Some ?t1) ?m'" using R by blast
    show "?C (m\<lparr>mc_clock := n\<rparr>) \<and> ?R ?e0 (m\<lparr>mc_clock := n\<rparr>)"
      using R [of "m\<lparr>mc_clock := n\<rparr>" ?e0] m by (auto simp: files_at_def intact_def)
  qed simp
  have h: "crash_ok ?C (?R ?e0) (tx_save env (?t1\<lparr>tx_Error := e\<rparr>)) ?C ?C" for e
  proof (rule crash_ok_save)
    fix m n and d :: "updateTransaction dir" assume m: "?R ?e0 m"
    show "?C (m\<lparr>mc_clock := n, mc_journal := d\<rparr>) \<and> ?C (m\<lparr>mc_clock := n, mc_journal := d\<rparr>)"
      if "d_target d = d_target (mc_journal m)"
      using R [of "m\<lparr>mc_clock := n, mc_journal := d\<rparr>" ?e0] m that by (auto simp: files_at_def intact_def)
    show "?C (m\<lparr>mc_clock := n, mc_journal := d\<rparr>) \<and> ?C (m\<lparr>mc_clock := n, mc_journal := d\<rparr>)"
      if "d_target d = Some (?t1\<lparr>tx_Error := e\<rparr>)"
      using R [of "m\<lparr>mc_clock := n, mc_journal := d\<rparr>" e] m that by (auto simp: files_at_def intact_def)
  qed
  let ?t2 = "t\<lparr>tx_Phase := phaseRolledBack, tx_Error := []\<rparr>"
  have 4: "crash_ok ?C (files_at [(uc_backup u, uc_old u), (uc_exe u, uc_old u)] (Some ?t1)) (tx_save env ?t2)
      (files_at [(uc_exe u, uc_old u)] (Some ?t2)) ?C"
  proof (rule crash_ok_weaken [OF files_at_save])
    show "?C m" if "files_at [(uc_backup u, uc_old u), (uc_exe u, uc_old u)] (Some ?t1) m" for m
      using that R [of m ?e0] by (auto simp: files_at_def intact_def)
    then show "?C m" if "files_at [(uc_backup u, uc_old u), (uc_exe u, uc_old u)] (Some ?t1) m" for m
      using that .
    show "?C m" if "files_at [(uc_backup u, uc_old u), (uc_exe u, uc_old u)] (Some ?t2) m" for m
      using that t by (auto simp: update_ok_def files_at_def phase_ok_def of_update_def intact_def)
  qed (auto simp: files_at_def)
  have nonempty: "tx_BackupPath t \<noteq> []" using t by (simp add: of_update_def)
  have same_t2: "?t1\<lparr>tx_Phase := phaseRolledBack, tx_Error := []\<rparr> = ?t2" by simp
  show ?thesis
    unfolding rollbackExecutable_def Let_def option.case if_not_P [OF nonempty] same_t2
    by (rule crash_ok_then [OF 1 crash_ok_then [OF crash_ok_on_error [OF 2 h] crash_ok_then [OF crash_ok_on_error [OF 3 h] 4]]])
qed

subsection \<open>The update itself\<close>

lemma files_at_simps:
  "files_at ((p, c) # fs) j m = (holds_file p c m \<and> files_at fs j m)"
  "files_at [] j m = (d_target (mc_journal m) = j)"
  by (auto simp: files_at_def)

lemma replace_ok:
  assumes C: "\<And>m. files_at [(e, old), (st, new)] j m \<Longrightarrow> C m" "\<And>m. files_at [(e, new), (e @ ''.previous'', old)] j m \<Longrightarrow> C m"
    and p: "st \<noteq> e" "st \<noteq> e @ ''.previous''" "st \<noteq> e @ ''.previous.tmp''"
  shows "crash_ok C (files_at [(e, old), (st, new)] j) (replaceWithBackup env st e (e @ ''.previous''))
    (files_at [(e, new), (e @ ''.previous'', old)] j) (files_at [(e, old), (st, new)] j)"
proof -
  let ?P = "files_at [(e, old), (st, new)] j"
  let ?tmp = "(e @ ''.previous'') @ ''.tmp''"
  let ?copied = "\<lambda>m. ?P m \<and> fmlookup (mc_files m) ?tmp = Some (Some old)"
  let ?kept = "files_at [(e, old), (st, new), (e @ ''.previous'', old)] j"
  have tmp: "?tmp \<noteq> e" "?tmp \<noteq> st" "?tmp \<noteq> e @ ''.previous''" using p by auto
  have s: "stable ?P ?tmp" using tmp by (intro files_at_stable) auto
  have 1: "crash_ok C ?P (ignoring (os_remove env ?tmp)) ?P ?P"
    by (rule crash_ok_ignoring [OF crash_ok_strict [OF crash_ok_remove [OF s] C(1)]])
  have 2: "crash_ok C ?P (copyExecutable env e ?tmp) ?copied ?P"
    by (rule crash_ok_strict [OF crash_ok_copy [OF s] C(1)]) (simp add: files_at_simps holds_file_def)
  have 3: "crash_ok C ?copied (on_error (os_rename env ?tmp (e @ ''.previous'')) (\<lambda>_. os_remove env ?tmp)) ?kept ?P"
  proof (rule crash_ok_on_error)
    show "crash_ok C ?P (os_remove env ?tmp) ?P ?P" by (rule crash_ok_strict [OF crash_ok_remove [OF s] C(1)])
    show "crash_ok C ?copied (os_rename env ?tmp (e @ ''.previous'')) ?kept ?P"
    proof (rule crash_ok_rename)
      fix m n assume m: "?copied m"
      let ?m = "put_file (e @ ''.previous'') (Some old) (drop_file ?tmp (m\<lparr>mc_clock := n\<rparr>))"
      have "?kept ?m" using m p tmp by (simp add: files_at_simps)
      moreover then have "C ?m" using p tmp by (intro C(1)) (simp add: files_at_simps)
      ultimately show "C ?m \<and> ?kept ?m" by simp
      have "?P (m\<lparr>mc_clock := n\<rparr>)" using m by (simp add: files_at_simps)
      with C(1) show "C (m\<lparr>mc_clock := n\<rparr>) \<and> ?P (m\<lparr>mc_clock := n\<rparr>)" by blast
    qed simp
  qed
  have 4: "crash_ok C ?kept (os_rename env st e) (files_at [(e, new), (e @ ''.previous'', old)] j) ?P"
  proof (rule crash_ok_rename)
    fix m n assume m: "?kept m"
    let ?m = "put_file e (Some new) (drop_file st (m\<lparr>mc_clock := n\<rparr>))"
    have "files_at [(e, new), (e @ ''.previous'', old)] j ?m" using m p by (simp add: files_at_simps)
    with C(2) show "C ?m \<and> files_at [(e, new), (e @ ''.previous'', old)] j ?m" by blast
    have "?P (m\<lparr>mc_clock := n\<rparr>)" using m by (simp add: files_at_simps)
    with C(1) show "C (m\<lparr>mc_clock := n\<rparr>) \<and> ?P (m\<lparr>mc_clock := n\<rparr>)" by blast
  qed (simp add: files_at_simps holds_file_def)
  show ?thesis
    unfolding replaceWithBackup_def Let_def
    by (rule crash_ok_then [OF 1 crash_ok_then [OF crash_ok_wrapped [OF 2]
      crash_ok_then [OF crash_ok_wrapped [OF 3] crash_ok_wrapped [OF 4]]]])
qed

lemma put_back_ok:
  assumes t: "of_update u t" and b: "\<And>m. P m \<Longrightarrow> holds_file (uc_backup u) (uc_old u) m \<and> intact u m"
    and P: "\<And>m. P m \<Longrightarrow> update_ok ws wr u m"
    and st: "staged \<noteq> uc_exe u" "staged \<noteq> uc_backup u"
  shows "crash_ok (update_ok ws wr u) P (put_back env staged what t service e) Q (update_ok ws wr u)"
proof -
  let ?t = "t\<lparr>tx_Error := e\<rparr>"
  let ?t2 = "?t\<lparr>tx_Phase := phaseRolledBack, tx_Error := []\<rparr>"
  let ?restored = "files_at [(uc_exe u, uc_old u)] (Some ?t2)"
  have t': "of_update u ?t" using t by (simp add: of_update_def)
  have restored: "update_ok ws wr u m" if "?restored m" for m
    using that t by (intro update_okI [of _ _ ?t2]) (auto simp: files_at_simps intact_def of_update_def phase_ok_def)
  have call: "crash_ok (update_ok ws wr u) ?restored (os_call env same same) ?restored (update_ok ws wr u)"
    by (rule crash_ok_call) (use restored in \<open>auto simp: files_at_simps\<close>)
  have after: "crash_ok (update_ok ws wr u) ?restored
      (case service of None \<Rightarrow> succeed
        | Some s \<Rightarrow> if \<not> sv_active s then succeed
          else and_then (wrapped ''restart previous release'' (os_call env same same))
            (wrapped ''previous release did not become ready'' (os_call env same same))) ?restored (update_ok ws wr u)"
    using crash_ok_then [OF crash_ok_wrapped [OF call, of "''restart previous release''"]
        crash_ok_wrapped [OF call, of "''previous release did not become ready''"]]
    by (auto intro!: crash_ok_succeed simp del: same_def split: option.split)
  have "crash_ok (update_ok ws wr u) P (restorePrevious env staged (Some ?t) service) ?restored (update_ok ws wr u)"
    unfolding restorePrevious_def by (rule crash_ok_then [OF rollback_ok [OF t' b P st] after])
  then show ?thesis
    unfolding put_back_def by (rule crash_ok_then [OF crash_ok_wrapped crash_ok_give_up]) (rule restored)
qed

text \<open>The paths of an update are apart, and the journal before it is at rest.\<close>

definition proper :: "'b update_case \<Rightarrow> string \<Rightarrow> bool" where
  "proper u staged =
     (staged \<noteq> [] \<and> staged \<noteq> uc_exe u \<and> staged \<noteq> uc_backup u \<and> staged \<noteq> uc_exe u @ ''.previous.tmp'')"

lemma transaction_ok:
  assumes pr: "proper u (uc_staged u)" "proper u staged'"
  shows "crash_ok (update_ok True False u)
    (files_at [(uc_exe u, uc_old u), (uc_staged u, uc_new u)] (uc_before u))
    (run_transaction env (uc_staged u) staged' (uc_exe u) previous target service noRestart)
    (\<lambda>m. holds_file (uc_exe u) (uc_new u) m \<and> (\<exists>t. d_target (mc_journal m) = Some t \<and> of_update u t \<and> tx_Phase t = phaseCommitted))
    (update_ok True False u)"
proof -
  let ?C = "update_ok True False u"
  let ?e = "uc_exe u" and ?st = "uc_staged u" and ?old = "uc_old u" and ?new = "uc_new u"
  let ?Q = "\<lambda>m. holds_file ?e ?new m \<and> (\<exists>t. d_target (mc_journal m) = Some t \<and> of_update u t \<and> tx_Phase t = phaseCommitted)"
  define t0 where "t0 = \<lparr>tx_Phase = phaseStaged, tx_Executable = ?e, tx_StagedPath = ?st,
            tx_BackupPath = ?e @ ''.previous'', tx_PreviousVersion = previous, tx_TargetVersion = target,
            tx_Service = (case service of None \<Rightarrow> [] | Some s \<Rightarrow> sv_name s), tx_Error = []\<rparr>"
  define t1 where "t1 = t0\<lparr>tx_Phase := phaseReplaced, tx_StagedPath := []\<rparr>"
  define t2 where "t2 = t1\<lparr>tx_Phase := phaseRestarted\<rparr>"
  define t3 where "t3 = t2\<lparr>tx_Phase := phaseHealthy\<rparr>"
  note ts = t3_def t2_def t1_def t0_def
  have t: "of_update u t0" "of_update u t1" "of_update u t2" "of_update u t3" by (simp_all add: of_update_def ts)
  let ?P0 = "files_at [(?e, ?old), (?st, ?new)]" and ?P1 = "files_at [(?e, ?new), (uc_backup u, ?old)]"
  have st: "?st \<noteq> ?e" "?st \<noteq> uc_backup u" "?st \<noteq> ?e @ ''.previous.tmp''" "staged' \<noteq> ?e" "staged' \<noteq> uc_backup u"
    using pr by (simp_all add: proper_def)
  have c0: "?C m" if "?P0 (uc_before u) m" for m using that by (simp add: files_at_simps update_ok_def intact_def)
  have c0': "?C m" if "?P0 (Some (t0\<lparr>tx_Error := e\<rparr>)) m" for m e
    using that t by (intro update_okI) (auto simp: files_at_simps intact_def of_update_def phase_ok_def ts)
  have c0t: "?C m" if "?P0 (Some t0) m" for m using that c0' [of "[]"] by (simp add: t0_def)
  have c1: "?C m" if "?P1 (Some x) m" "x \<in> {t0, t1, t2, t3}" for m x
    using that t by (intro update_okI [of u m x]) (auto simp: files_at_simps intact_def phase_ok_def ts)
  have cc: "?C m" if "?P1 (Some (x\<lparr>tx_Phase := phaseCommitted, tx_Error := []\<rparr>)) m" "of_update u x" for m x
    using that by (intro update_okI [of u m "x\<lparr>tx_Phase := phaseCommitted, tx_Error := []\<rparr>"])
      (auto simp: files_at_simps intact_def phase_ok_def of_update_def)
  have s1: "crash_ok ?C (?P0 (uc_before u)) (on_error (tx_save env t0) (\<lambda>_. os_remove env ?st)) (?P0 (Some t0)) ?C"
  proof (rule crash_ok_on_error)
    show "crash_ok ?C (?P0 (uc_before u)) (tx_save env t0) (?P0 (Some t0)) (?P0 (uc_before u))"
      by (rule files_at_save) (rule c0, assumption, rule c0t, assumption)
    have "stable (files_at [(?e, ?old)] (uc_before u)) ?st" using st by (intro files_at_stable) auto
    then have "crash_ok ?C (files_at [(?e, ?old)] (uc_before u)) (os_remove env ?st)
        (files_at [(?e, ?old)] (uc_before u)) (files_at [(?e, ?old)] (uc_before u))"
      by (rule crash_ok_strict [OF crash_ok_remove]) (simp add: files_at_simps update_ok_def intact_def)
    then show "crash_ok ?C (?P0 (uc_before u)) (os_remove env ?st) ?C ?C"
      by (rule crash_ok_weaken) (auto simp: files_at_simps update_ok_def intact_def)
  qed
  have s2: "crash_ok ?C (?P0 (Some t0)) (on_error (replaceWithBackup env ?st ?e (tx_BackupPath t0)) (\<lambda>e. tx_save env (t0\<lparr>tx_Error := e\<rparr>)))
      (?P1 (Some t0)) ?C"
  proof (rule crash_ok_on_error)
    show "crash_ok ?C (?P0 (Some t0)) (replaceWithBackup env ?st ?e (tx_BackupPath t0)) (?P1 (Some t0)) (?P0 (Some t0))"
      using replace_ok [of ?e ?old ?st ?new "Some t0" ?C env] c0t c1 st by (simp add: t0_def)
    show "crash_ok ?C (?P0 (Some t0)) (tx_save env (t0\<lparr>tx_Error := e\<rparr>)) ?C ?C" for e
      by (rule crash_ok_weaken [OF files_at_save]) (auto intro: c0t c0')
  qed
  have save: "crash_ok ?C (?P1 (Some x)) (tx_save env y) (?P1 (Some y)) ?C" if "x \<in> {t0, t1, t2, t3}" "y \<in> {t0, t1, t2, t3}" for x y
  proof (rule crash_ok_weaken)
    show "crash_ok ?C (?P1 (Some x)) (tx_save env y) (?P1 (Some y)) (?P1 (Some x))"
      by (rule files_at_save) (use that c1 in blast)+
  qed (use that c1 in blast)+
  have commit: "crash_ok ?C (?P1 (Some x)) (tx_save env (x\<lparr>tx_Phase := phaseCommitted, tx_Error := []\<rparr>)) ?Q ?C"
    if "x \<in> {t0, t1, t2, t3}" for x
  proof -
    let ?y = "x\<lparr>tx_Phase := phaseCommitted, tx_Error := []\<rparr>"
    have x: "of_update u x" using that t by blast
    have "crash_ok ?C (?P1 (Some x)) (tx_save env ?y) (?P1 (Some ?y)) (?P1 (Some x))"
      by (rule files_at_save) (use that x c1 cc in blast)+
    then show ?thesis
      by (rule crash_ok_weaken) (use that x c1 in \<open>auto simp: files_at_simps of_update_def\<close>)
  qed
  have call: "crash_ok ?C (?P1 (Some x)) (or_else (os_call env same same) (put_back env staged' what x service)) (?P1 (Some x)) ?C"
    if "x \<in> {t0, t1, t2, t3}" for x what
  proof (rule crash_ok_or_else)
    have cx: "?C m" if "?P1 (Some x) m" for m using that \<open>x \<in> _\<close> c1 by blast
    show "crash_ok ?C (?P1 (Some x)) (os_call env same same) (?P1 (Some x)) (?P1 (Some x))"
      by (rule crash_ok_call) (use cx in \<open>auto simp: files_at_simps\<close>)
    show "crash_ok ?C (?P1 (Some x)) (put_back env staged' what x service e) (?P1 (Some x)) ?C" for e
      by (rule put_back_ok) (use that t st cx in \<open>auto simp: files_at_simps intact_def\<close>)
  qed
  have fin: "crash_ok ?C (?P1 (Some t1))
     (case service of
            None \<Rightarrow> tx_save env (t1\<lparr>tx_Phase := phaseCommitted, tx_Error := []\<rparr>)
          | Some s \<Rightarrow>
              if \<not> sv_active s \<or> noRestart then tx_save env (t1\<lparr>tx_Phase := phaseCommitted, tx_Error := []\<rparr>)
              else
                and_then (or_else (os_call env same same) (put_back env staged' ''restart failed'' t1 service))
                (and_then (tx_save env t2)
                (and_then (or_else (os_call env same same) (put_back env staged' ''new service unhealthy'' t2 service))
                (and_then (tx_save env t3)
                (tx_save env (t3\<lparr>tx_Phase := phaseCommitted, tx_Error := []\<rparr>)))))) ?Q ?C"
  proof -
    have long: "crash_ok ?C (?P1 (Some t1))
        (and_then (or_else (os_call env same same) (put_back env staged' ''restart failed'' t1 service))
                (and_then (tx_save env t2)
                (and_then (or_else (os_call env same same) (put_back env staged' ''new service unhealthy'' t2 service))
                (and_then (tx_save env t3)
                (tx_save env (t3\<lparr>tx_Phase := phaseCommitted, tx_Error := []\<rparr>)))))) ?Q ?C"
      by (rule crash_ok_then [OF call crash_ok_then [OF save crash_ok_then [OF call crash_ok_then [OF save commit]]]]) simp_all
    show ?thesis using long commit [of t1] by (auto split: option.split)
  qed
  show ?thesis
    unfolding run_transaction_def Let_def t0_def [symmetric] t1_def [symmetric] t2_def [symmetric] t3_def [symmetric]
    by (rule crash_ok_then [OF crash_ok_wrapped [OF s1] crash_ok_then [OF s2 crash_ok_then [OF crash_ok_wrapped [OF save] fin]]]) simp_all
qed

subsection \<open>Recovery\<close>

lemma recover_ok:
  assumes pr: "proper u (uc_staged u)" "proper u staged" and rest: "at_rest (uc_before u)"
  shows "crash_ok (update_ok w w u) (update_ok w w u) (recoverInterrupted env staged)
    (\<lambda>m. update_ok w w u m \<and> at_rest (d_target (mc_journal m))) (update_ok w w u)"
proof (rule crash_okI)
  let ?C = "update_ok w w u"
  let ?Q = "\<lambda>m. ?C m \<and> at_rest (d_target (mc_journal m))"
  fix m e m' v
  assume m: "?C m" and r: "recoverInterrupted env staged m = (e, m', v)"
  let ?m = "m\<lparr>mc_clock := Suc (mc_clock m)\<rparr>"
  have st: "uc_staged u \<noteq> uc_exe u" "uc_staged u \<noteq> uc_backup u" "staged \<noteq> uc_exe u" "staged \<noteq> uc_backup u"
    using pr by (simp_all add: proper_def)
  show "(\<forall>c\<in>set v. ?C c) \<and> (if e = None then ?Q m' else ?C m')"
  proof (cases "env (mc_clock m)")
    case (Some x)
    with r m show ?thesis by (auto simp: recoverInterrupted_def tx_load_def give_up_def Let_def)
  next
    case up: None
    show ?thesis
    proof (cases "d_target (mc_journal m)")
      case None
      with r m up show ?thesis by (auto simp: recoverInterrupted_def tx_load_def succeed_def Let_def at_rest_def)
    next
      case (Some t)
      let ?P = "\<lambda>m. ?C m \<and> d_target (mc_journal m) = Some t"
      have P: "?P ?m" using m Some by simp
      show ?thesis
      proof (cases "at_rest (Some t)")
        case True
        with r m up Some show ?thesis
          by (auto simp: recoverInterrupted_def tx_load_def succeed_def Let_def at_rest_def split: transactionPhase.splits)
      next
        case False
        with rest have nb: "uc_before u \<noteq> Some t" by auto
        then have inv: "intact u a \<and> of_update u t \<and> phase_ok w w u t a" if "?P a" for a
          using that by (auto simp: update_ok_def)
        then have t: "of_update u t" using P by blast
        have save: "crash_ok ?C ?P (tx_save env s) ?Q ?C"
          if "of_update u s" "at_rest (Some s)" "\<And>a. ?P a \<Longrightarrow> phase_ok w w u s a" for s
        proof (rule crash_ok_save)
          fix a n and d :: "updateTransaction dir" assume a: "?P a"
          let ?a = "a\<lparr>mc_clock := n, mc_journal := d\<rparr>"
          show "?C ?a \<and> ?C ?a" if "d_target d = d_target (mc_journal a)" using a that by (simp add: update_ok_journal)
          show "?C ?a \<and> ?Q ?a" if "d_target d = Some s"
            using a inv [OF a] that \<open>of_update u s\<close> \<open>at_rest (Some s)\<close> \<open>\<And>a. ?P a \<Longrightarrow> phase_ok w w u s a\<close>
            by (auto intro: update_okI)
        qed
        consider "tx_Phase t = phaseStaged" | "tx_Phase t = phaseHealthy"
          | "tx_Phase t \<in> {phaseReplaced, phaseRestarted, phaseRollingBack}"
          using False by (cases "tx_Phase t") (auto simp: at_rest_def)
        then show ?thesis
        proof cases
          case 1
          let ?s = "t\<lparr>tx_Phase := phaseRolledBack\<rparr>"
          have path: "tx_StagedPath t = uc_staged u" using inv [OF P] 1 by (simp add: phase_ok_def)
          have "stable ?P (uc_staged u)"
            unfolding stable_def using st by (auto intro: update_ok_files)
          then have rm: "crash_ok ?C ?P (os_remove env (uc_staged u)) ?P ?P" by (rule crash_ok_strict [OF crash_ok_remove]) simp
          have "crash_ok ?C ?P (tx_save env ?s) ?Q ?C"
            by (rule save) (use t inv 1 in \<open>auto simp: of_update_def at_rest_def phase_ok_def\<close>)
          then have "crash_ok ?C ?P (and_then (ignoring (os_remove env (uc_staged u))) (tx_save env ?s)) ?Q ?C"
            by (rule crash_ok_then [OF crash_ok_ignoring [OF rm]])
          from crash_okD [OF this P] r up Some 1 path pr show ?thesis
            by (simp add: recoverInterrupted_def tx_load_def Let_def proper_def)
        next
          case 2
          have "crash_ok ?C ?P (tx_save env (t\<lparr>tx_Phase := phaseCommitted\<rparr>)) ?Q ?C"
            by (rule save) (use t inv 2 in \<open>auto simp: of_update_def at_rest_def phase_ok_def\<close>)
          from crash_okD [OF this P] r up Some 2 show ?thesis
            by (simp add: recoverInterrupted_def tx_load_def Let_def)
        next
          case 3
          let ?s = "t\<lparr>tx_Phase := phaseRolledBack, tx_Error := []\<rparr>"
          have "holds_file (uc_backup u) (uc_old u) a \<and> intact u a" if "?P a" for a
            using inv [OF that] 3 by (auto simp: phase_ok_def)
          then have "crash_ok ?C ?P (rollbackExecutable env staged (Some t)) (files_at [(uc_exe u, uc_old u)] (Some ?s)) ?C"
            by (intro rollback_ok [OF t _ _ st(3,4)]) auto
          then have "crash_ok ?C ?P (rollbackExecutable env staged (Some t)) ?Q ?C"
            by (rule crash_ok_weaken) (use t in \<open>auto simp: files_at_simps at_rest_def intact_def of_update_def phase_ok_def intro!: update_okI [of _ _ ?s]\<close>)
          from crash_okD [OF this P] r up Some 3 show ?thesis
            by (auto simp: recoverInterrupted_def tx_load_def Let_def)
        qed
      qed
    qed
  qed
qed

lemmas machine_defs = and_then_def on_error_def ignoring_def wrapped_def os_call_def os_remove_def os_rename_def
  give_up_def succeed_def put_file_def drop_file_def tx_save_def tx_load_def stageExecutable_def copyExecutable_def

lemma save_succeeds: "fst (atomicWriteFile None t d) = None"
  by (simp add: atomicWriteFile_def dir_defs)

text \<open>Without faults the rollback and the recovery succeed.\<close>

lemma rollback_succeeds:
  assumes "tx_BackupPath t \<noteq> []" "fmlookup (mc_files m) (tx_BackupPath t) = Some (Some c)" "staged \<noteq> tx_BackupPath t"
  shows "fst (rollbackExecutable (\<lambda>_. None) staged (Some t) m) = None"
  using assms
  by (simp add: rollbackExecutable_def machine_defs Let_def go_has_def atomicWriteFile_def dir_defs)

lemma recover_succeeds:
  assumes ok: "update_ok w w u m" and pr: "proper u (uc_staged u)" "proper u staged" and rest: "at_rest (uc_before u)"
  shows "fst (recoverInterrupted (\<lambda>_. None) staged m) = None"
proof (cases "d_target (mc_journal m)")
  case None
  then show ?thesis by (simp add: recoverInterrupted_def tx_load_def succeed_def Let_def)
next
  case (Some t)
  let ?m = "m\<lparr>mc_clock := Suc (mc_clock m)\<rparr>"
  have save: "f = None" if "tx_save (\<lambda>_. None) x a = (f, r)" for x f r and a :: "'a machine"
    using that save_succeeds [of x "mc_journal a"] by (auto simp: tx_save_def Let_def split: prod.splits)
  show ?thesis
  proof (cases "tx_Phase t \<in> {phaseReplaced, phaseRestarted, phaseRollingBack}")
    case True
    with rest Some have "uc_before u \<noteq> Some t" by (auto simp: at_rest_def)
    with ok Some have u: "of_update u t" "phase_ok w w u t m" by (auto simp: update_ok_def)
    then have "fst (rollbackExecutable (\<lambda>_. None) staged (Some t) ?m) = None"
      using True pr by (intro rollback_succeeds [where c = "uc_old u"])
        (auto simp: of_update_def phase_ok_def holds_file_def proper_def)
    with Some True show ?thesis by (auto simp: recoverInterrupted_def tx_load_def Let_def)
  next
    case False
    have save_fst: "fst (tx_save (\<lambda>_. None) x a) = None" for x and a :: "'a machine"
      by (cases "tx_save (\<lambda>_. None) x a") (auto dest: save)
    from False show ?thesis using Some
      by (cases "tx_Phase t") (auto simp: recoverInterrupted_def tx_load_def Let_def succeed_def and_then_def ignoring_def
          save_fst split: prod.splits dest: save)
  qed
qed

text \<open>
  What may happen after a crash: recoveries, each with faults of its own, each run to its end
  or cut short by another crash.
\<close>

inductive recovers :: "'b update_case \<Rightarrow> 'b machine \<Rightarrow> 'b machine \<Rightarrow> bool" for u c where
  recovers_start: "recovers u c c"
| recovers_more: "\<lbrakk>recovers u c d; proper u staged; recoverInterrupted env staged d = (e, d', v); x = d' \<or> x \<in> set v\<rbrakk>
    \<Longrightarrow> recovers u c x"

lemma recovers_ok:
  assumes "recovers u c d" and "update_ok w w u c" and pr: "proper u (uc_staged u)" and rest: "at_rest (uc_before u)"
  shows "update_ok w w u d"
  using assms(1,2)
proof (induction)
  case (recovers_more d staged env e d' v x)
  from crash_okD [OF recover_ok [OF pr recovers_more.hyps(2) rest] recovers_more.IH [OF recovers_more.prems] recovers_more.hyps(3)]
  show ?case using recovers_more.hyps(4) by (auto split: if_splits)
qed

text \<open>Between the rename and the journal entry for it, the journal still says that the update is only staged.\<close>

definition rename_unrecorded :: "'b update_case \<Rightarrow> 'b machine \<Rightarrow> bool" where
  "rename_unrecorded u c =
     (holds_file (uc_exe u) (uc_new u) c \<and>
      (case d_target (mc_journal c) of None \<Rightarrow> False | Some t \<Rightarrow> tx_Phase t = phaseStaged))"

lemma window_ok:
  assumes "update_ok True False u c" and rest: "at_rest (uc_before u)"
  shows "update_ok (rename_unrecorded u c) (rename_unrecorded u c) u c"
proof (cases "d_target (mc_journal c) = uc_before u \<and> holds_file (uc_exe u) (uc_old u) c")
  case True
  with assms(1) show ?thesis by (simp add: update_ok_def)
next
  case False
  with assms(1) obtain t where t: "d_target (mc_journal c) = Some t" "of_update u t" "phase_ok True False u t c" "intact u c"
    by (auto simp: update_ok_def)
  then have "phase_ok (rename_unrecorded u c) (rename_unrecorded u c) u t c"
    by (cases "tx_Phase t") (auto simp: phase_ok_def rename_unrecorded_def intact_def)
  with t show ?thesis by (intro update_okI)
qed

lemma install_ok:
  assumes pr: "proper u (uc_staged u)" "proper u staged'" and b: "binary \<noteq> uc_staged u"
  shows "crash_ok (update_ok True False u)
    (\<lambda>m. d_target (mc_journal m) = uc_before u \<and> holds_file (uc_exe u) (uc_old u) m \<and> holds_file binary (uc_new u) m)
    (install_update env binary (uc_staged u) staged' (uc_exe u) previous target service noRestart)
    (\<lambda>m. holds_file (uc_exe u) (uc_new u) m \<and> (\<exists>t. d_target (mc_journal m) = Some t \<and> of_update u t \<and> tx_Phase t = phaseCommitted))
    (update_ok True False u)"
proof -
  let ?P = "files_at [(uc_exe u, uc_old u), (binary, uc_new u)] (uc_before u)"
  have C: "update_ok True False u m" if "?P m" for m using that by (simp add: files_at_simps update_ok_def intact_def)
  have "stable ?P (uc_staged u)" using pr b by (intro files_at_stable) (auto simp: proper_def)
  then have "crash_ok (update_ok True False u) ?P (stageExecutable env binary (uc_staged u))
      (\<lambda>m. ?P m \<and> fmlookup (mc_files m) (uc_staged u) = Some (Some (uc_new u))) ?P"
    by (rule crash_ok_strict [OF crash_ok_stage C]) (simp add: files_at_simps holds_file_def)
  then have "crash_ok (update_ok True False u) ?P (stageExecutable env binary (uc_staged u))
      (files_at [(uc_exe u, uc_old u), (uc_staged u, uc_new u)] (uc_before u)) (update_ok True False u)"
    by (rule crash_ok_weaken) (auto simp: files_at_simps holds_file_def intro: C [unfolded files_at_simps holds_file_def])
  note stage = crash_ok_wrapped [OF this]
  have "crash_ok (update_ok True False u) ?P
    (install_update env binary (uc_staged u) staged' (uc_exe u) previous target service noRestart)
    (\<lambda>m. holds_file (uc_exe u) (uc_new u) m \<and> (\<exists>t. d_target (mc_journal m) = Some t \<and> of_update u t \<and> tx_Phase t = phaseCommitted))
    (update_ok True False u)"
    unfolding install_update_def by (rule crash_ok_then [OF stage transaction_ok [OF pr]])
  then show ?thesis by (rule crash_ok_weaken) (auto simp: files_at_simps)
qed

text \<open>
  C19. An update survives crashes and failures.  Whichever call into the operating system
  fails and wherever the process dies, during the update and during any number of recoveries
  after it, the executable is always the complete old one or the complete new one, and the
  next undisturbed recovery succeeds: the journal is at rest and tells which one it is, with
  one exception.  When the process dies between the rename of the new executable and the
  journal entry for it, the recovery reports the update as rolled restored and leaves the new
  executable in place.  An update that reports success has the new one, committed.
\<close>

theorem update_survives_crashes:
  assumes pr: "proper u (uc_staged u)" "proper u staged'" "proper u staged" "binary \<noteq> uc_staged u"
    and rest: "at_rest (uc_before u)"
    and start: "d_target (mc_journal m) = uc_before u" "holds_file (uc_exe u) (uc_old u) m" "holds_file binary (uc_new u) m"
    and run: "install_update env binary (uc_staged u) staged' (uc_exe u) previous target service noRestart m = (e, m', visited)"
    and crash: "c \<in> {m, m'} \<union> set visited" and later: "recovers u c d"
  shows "(e = None \<longrightarrow> holds_file (uc_exe u) (uc_new u) m' \<and>
        map_option tx_Phase (d_target (mc_journal m')) = Some phaseCommitted) \<and>
    (holds_file (uc_exe u) (uc_old u) d \<or> holds_file (uc_exe u) (uc_new u) d) \<and>
    (case recoverInterrupted (\<lambda>_. None) staged d of (failed, r, _) \<Rightarrow>
      failed = None \<and>
      (case d_target (mc_journal r) of
         None \<Rightarrow> holds_file (uc_exe u) (uc_old u) r
       | Some t \<Rightarrow>
           Some t = uc_before u \<and> holds_file (uc_exe u) (uc_old u) r \<or>
           tx_Phase t = phaseCommitted \<and> holds_file (uc_exe u) (uc_new u) r \<or>
           tx_Phase t = phaseRolledBack \<and> (holds_file (uc_exe u) (uc_old u) r \<or>
             rename_unrecorded u c \<and> holds_file (uc_exe u) (uc_new u) r)))"
proof -
  let ?w = "rename_unrecorded u c"
  have "d_target (mc_journal m) = uc_before u \<and> holds_file (uc_exe u) (uc_old u) m \<and> holds_file binary (uc_new u) m"
    using start by simp
  note o = crash_okD [OF install_ok [OF pr(1,2,4)] this run]
  have "update_ok True False u m" using start by (simp add: update_ok_def intact_def)
  moreover have "update_ok True False u m'"
    using o by (cases e) (auto simp: intact_def phase_ok_def intro: update_okI)
  ultimately have "update_ok True False u c" using o crash by blast
  then have d: "update_ok ?w ?w u d" by (rule recovers_ok [OF later window_ok [OF _ rest] pr(1) rest])
  obtain f r v where r: "recoverInterrupted (\<lambda>_. None) staged d = (f, r, v)"
    by (cases "recoverInterrupted (\<lambda>_. None) staged d")
  have f: "f = None" using recover_succeeds [OF d pr(1,3) rest] r by simp
  then have q: "update_ok ?w ?w u r" "at_rest (d_target (mc_journal r))"
    using crash_okD [OF recover_ok [OF pr(1,3) rest] d r] by simp_all
  have "case d_target (mc_journal r) of
         None \<Rightarrow> holds_file (uc_exe u) (uc_old u) r
       | Some t \<Rightarrow>
           Some t = uc_before u \<and> holds_file (uc_exe u) (uc_old u) r \<or>
           tx_Phase t = phaseCommitted \<and> holds_file (uc_exe u) (uc_new u) r \<or>
           tx_Phase t = phaseRolledBack \<and> (holds_file (uc_exe u) (uc_old u) r \<or>
             ?w \<and> holds_file (uc_exe u) (uc_new u) r)"
    using q by (auto simp: update_ok_def at_rest_def phase_ok_def intact_def split: option.splits)
  with r f o d show ?thesis by (cases e) (auto simp: update_ok_def intact_def)
qed

definition demo_case :: "nat update_case" where
  "demo_case = \<lparr>uc_exe = ''x'', uc_staged = ''s'', uc_old = 1, uc_new = 2, uc_before = None\<rparr>"

definition demo_machine :: "nat machine" where
  "demo_machine = \<lparr>mc_files = fmupd ''b'' (Some 2) (fmupd ''x'' (Some 1) fmempty),
     mc_journal = \<lparr>d_target = None, d_temp = None\<rparr>, mc_clock = 0\<rparr>"

definition demo_install :: "string option \<times> nat machine \<times> nat machine list" where
  "demo_install = install_update (\<lambda>_. None) ''b'' ''s'' ''r'' ''x'' ''1'' ''2'' (Some \<lparr>sv_kind = [], sv_name = ''t'', sv_executable = ''x'', sv_active = True\<rparr>) False demo_machine"

lemma demo_install_succeeds: "fst demo_install = None"
  by code_simp

theorem update_survives_crashes_witness:
  "holds_file ''x'' 2 (fst (snd demo_install)) \<and>
    fst (recoverInterrupted (\<lambda>_. None) ''q'' demo_machine) = None \<and>
    fst (recoverInterrupted (\<lambda>_. None) ''q'' (fst (snd demo_install))) = None"
proof -
  obtain m' v where run: "install_update (\<lambda>_. None) ''b'' (uc_staged demo_case) ''r'' (uc_exe demo_case) ''1'' ''2''
      (Some \<lparr>sv_kind = [], sv_name = ''t'', sv_executable = ''x'', sv_active = True\<rparr>) False demo_machine = (None, m', v)" and m': "fst (snd demo_install) = m'"
    using demo_install_succeeds by (cases demo_install) (auto simp: demo_install_def demo_case_def)
  have pr: "proper demo_case (uc_staged demo_case)" "proper demo_case ''r''" "proper demo_case ''q''"
    by (simp_all add: proper_def demo_case_def)
  have start: "''b'' \<noteq> uc_staged demo_case" "at_rest (uc_before demo_case)"
    "d_target (mc_journal demo_machine) = uc_before demo_case"
    "holds_file (uc_exe demo_case) (uc_old demo_case) demo_machine" "holds_file ''b'' (uc_new demo_case) demo_machine"
    by (simp_all add: demo_case_def demo_machine_def at_rest_def holds_file_def)
  have c: "m' \<in> {demo_machine, m'} \<union> set v" "demo_machine \<in> {demo_machine, m'} \<union> set v" by simp_all
  from update_survives_crashes [OF pr start run c(1) recovers_start] update_survives_crashes [OF pr start run c(2) recovers_start]
  show ?thesis by (auto simp: m' demo_case_def split: prod.splits)
qed

text \<open>The exception is real: a crash of a run without any fault ends in it.\<close>

lemma rename_unrecorded_happens:
  "list_ex (\<lambda>c. case recoverInterrupted (\<lambda>_. None) ''q'' c of (_, r, _) \<Rightarrow>
     holds_file ''x'' 2 r \<and> map_option tx_Phase (d_target (mc_journal r)) = Some phaseRolledBack) (snd (snd demo_install))"
  by code_simp

end
