(* ===== verification/UpdateCommand.thy ===== *)
theory UpdateCommand
  imports Update
begin

text \<open>
  The command \<open>tmuxatlas update\<close> of \<open>pkg/commands/update/update.go\<close>: the choice of a
  release, the verification of what is downloaded, and \<open>execute\<close>, which leads to the
  transaction of theory \<open>Update\<close>.  The network, Sigstore, SHA-256, gzip and tar, and the
  service manager are arguments.
\<close>

subsection \<open>Releases and checksums\<close>

record releaseAsset =
  ra_Name :: string
  ra_URL :: string

record release =
  rl_Tag :: string
  rl_Assets :: "releaseAsset list"

definition maxDownloadSize :: nat where "maxDownloadSize = 200 * 2 ^ 20"

fun firstNonEmpty :: "string list \<Rightarrow> string" where
  "firstNonEmpty [] = []"
| "firstNonEmpty (v # vs) = (if v \<noteq> [] then v else firstNonEmpty vs)"

definition assetURL :: "release \<Rightarrow> string \<Rightarrow> string option" where
  "assetURL r name =
     (case find (\<lambda>a. ra_Name a = name \<and> ra_URL a \<noteq> []) (rl_Assets r) of None \<Rightarrow> None | Some a \<Rightarrow> Some (ra_URL a))"

definition normalizeVersion :: "string \<Rightarrow> string" where
  "normalizeVersion value = trim_prefix ''v'' (trim_space value)"

text \<open>The latest release must have a tag; \<open>None\<close> is a failing request or an undecodable answer.\<close>

definition latest_release :: "release option \<Rightarrow> release option" where
  "latest_release answer = (case answer of None \<Rightarrow> None | Some r \<Rightarrow> if rl_Tag r = [] then None else Some r)"

definition download :: "string option \<Rightarrow> string option" where
  "download body = (case body of None \<Rightarrow> None | Some b \<Rightarrow> if length b > maxDownloadSize then None else Some b)"

fun checksum_in :: "string \<Rightarrow> string list \<Rightarrow> string option option" where
  "checksum_in archiveName [] = None"
| "checksum_in archiveName (l # ls) =
     (case GoStrings.fields l of
        [digest, path] \<Rightarrow>
          if trim_prefix ''*'' path = archiveName
          then Some (if length digest \<noteq> 64 then None else Some (to_lower digest))
          else checksum_in archiveName ls
      | _ \<Rightarrow> checksum_in archiveName ls)"

definition checksumFor :: "string \<Rightarrow> string \<Rightarrow> string option" where
  "checksumFor checksums archiveName =
     (case checksum_in archiveName (fst (scan_lines checksums)) of Some r \<Rightarrow> r | None \<Rightarrow> None)"

definition verifyChecksum :: "(string \<Rightarrow> byte list) \<Rightarrow> string \<Rightarrow> string \<Rightarrow> bool" where
  "verifyChecksum sha content expected = (hex_encode (sha content) = to_lower expected)"

text \<open>The entries of the archive as the tar reader gives them; \<open>TarError\<close> ends them with an error.\<close>

datatype tar_item = TarEntry bool string string | TarError

fun extract_from :: "tar_item list \<Rightarrow> string option" where
  "extract_from [] = None"
| "extract_from (TarError # items) = None"
| "extract_from (TarEntry regular name content # items) =
     (if \<not> regular \<or> filepath_base name \<noteq> ''tmuxatlas'' then extract_from items
      else if length content > maxDownloadSize then None else Some content)"

definition extractBinary :: "tar_item list option \<Rightarrow> string option" where
  "extractBinary items = (case items of None \<Rightarrow> None | Some is' \<Rightarrow> extract_from is')"

subsection \<open>The command\<close>

text \<open>What the command finds in its environment.\<close>

record execute_input =
  ei_docker :: bool
  ei_goos :: string
  ei_goarch :: string
  ei_check :: bool
  ei_force :: bool
  ei_noRestart :: bool
  ei_rollback :: bool
  ei_recover :: bool
  ei_store :: bool
  ei_current :: string
  ei_latest :: "release option"
  ei_executable :: "string option"
  ei_service :: "serviceInfo option option"
  ei_resolve :: "string \<Rightarrow> string option"
  ei_fetch :: "string \<Rightarrow> string option"
  ei_tempDir :: bool
  ei_provenance :: "string \<Rightarrow> string \<Rightarrow> string \<Rightarrow> bool"
  ei_sha :: "string \<Rightarrow> byte list"
  ei_untar :: "string \<Rightarrow> tar_item list option"
  ei_binaryPath :: string
  ei_staged :: string
  ei_rollbackStaged :: string

definition validateServiceExecutable :: "(string \<Rightarrow> string option) \<Rightarrow> serviceInfo option \<Rightarrow> string \<Rightarrow> bool" where
  "validateServiceExecutable resolve service executable =
     (case service of
        None \<Rightarrow> True
      | Some s \<Rightarrow>
          (case (resolve executable, resolve (sv_executable s)) of
             (Some a, Some b) \<Rightarrow> a = b
           | _ \<Rightarrow> False))"

definition archive_name :: "execute_input \<Rightarrow> release \<Rightarrow> string" where
  "archive_name i r = ''tmuxatlas-v'' @ normalizeVersion (rl_Tag r) @ ''-'' @ ei_goos i @ ''-'' @ ei_goarch i @ ''.tar.gz''"

text \<open>From the release to the bytes of the new executable: everything that is checked on the way.\<close>

definition verified_binary :: "execute_input \<Rightarrow> release \<Rightarrow> string + string" where
  "verified_binary i r =
     (case (assetURL r (archive_name i r), assetURL r ''checksums.txt'', assetURL r ''checksums.txt.sigstore.json'') of
        (Some archiveURL, Some checksumsURL, Some bundleURL) \<Rightarrow>
          if \<not> ei_tempDir i then Inl ''create a temporary directory''
          else (case (download (ei_fetch i checksumsURL), download (ei_fetch i bundleURL)) of
            (Some checksums, Some bundle) \<Rightarrow>
              if \<not> ei_provenance i checksums bundle (rl_Tag r) then Inl ''verify checksums provenance''
              else (case checksumFor checksums (archive_name i r) of
                None \<Rightarrow> Inl ''release checksum''
              | Some expected \<Rightarrow>
                  (case download (ei_fetch i archiveURL) of
                     None \<Rightarrow> Inl ''download release''
                   | Some archive \<Rightarrow>
                       if \<not> verifyChecksum (ei_sha i) archive expected then Inl ''checksum mismatch''
                       else (case extractBinary (ei_untar i archive) of
                         None \<Rightarrow> Inl ''extract release''
                       | Some binary \<Rightarrow> Inr binary)))
          | _ \<Rightarrow> Inl ''download checksums'')
      | _ \<Rightarrow> Inl ''release asset'')"

definition execute :: "fate \<Rightarrow> execute_input \<Rightarrow> string action" where
  "execute env i =
     (if ei_docker i then
        (if \<not> ei_check i \<or> ei_rollback i \<or> ei_recover i \<or> ei_force i then give_up ''unavailable in Docker''
         else case latest_release (ei_latest i) of None \<Rightarrow> give_up ''check latest release'' | Some _ \<Rightarrow> succeed)
      else if ei_goos i \<noteq> ''darwin'' \<and> ei_goos i \<noteq> ''linux'' then give_up ''not supported''
      else if ei_goarch i \<noteq> ''amd64'' \<and> ei_goarch i \<noteq> ''arm64'' then give_up ''not supported''
      else if \<not> ei_store i then give_up ''initialize update transaction store''
      else if ei_rollback i then
        (\<lambda>m. case tx_load env m of
           None \<Rightarrow> give_up ''cannot read the journal'' (m\<lparr>mc_clock := Suc (mc_clock m)\<rparr>)
         | Some tx \<Rightarrow>
             (case ei_service i of
                None \<Rightarrow> give_up ''discover service'' (m\<lparr>mc_clock := Suc (mc_clock m)\<rparr>)
              | Some service \<Rightarrow>
                  wrapped ''rollback update''
                    (restorePrevious env (ei_rollbackStaged i) tx (if ei_noRestart i then None else service))
                    (m\<lparr>mc_clock := Suc (mc_clock m)\<rparr>)))
      else
        and_then (wrapped ''recover interrupted update'' (recoverInterrupted env (ei_rollbackStaged i)))
        (if ei_recover i then succeed
         else case latest_release (ei_latest i) of
           None \<Rightarrow> give_up ''check latest release''
         | Some r \<Rightarrow>
             if normalizeVersion (ei_current i) = normalizeVersion (rl_Tag r) \<and> \<not> ei_force i then succeed
             else if ei_check i then succeed
             else case (ei_executable i, ei_service i) of
               (Some executable, Some service) \<Rightarrow>
                 if \<not> validateServiceExecutable (ei_resolve i) service executable then give_up ''wrong service executable''
                 else (case verified_binary i r of
                   Inl e \<Rightarrow> give_up e
                 | Inr binary \<Rightarrow> (\<lambda>m.
                     install_update env (ei_binaryPath i) (ei_staged i) (ei_rollbackStaged i) executable
                       (ei_current i) (rl_Tag r) service (ei_noRestart i) (put_file (ei_binaryPath i) (Some binary) m)))
             | _ \<Rightarrow> give_up ''resolve current executable''))"

subsection \<open>Only verified executables are installed\<close>

text \<open>The content \<open>b\<close> comes from an archive whose hash a signed list of checksums names.\<close>

definition authentic :: "execute_input \<Rightarrow> string \<Rightarrow> bool" where
  "authentic i b =
     (case ei_latest i of
        None \<Rightarrow> False
      | Some r \<Rightarrow>
          (\<exists>checksums bundle archive. ei_provenance i checksums bundle (rl_Tag r) \<and>
             checksumFor checksums (archive_name i r) = Some (hex_encode (ei_sha i archive)) \<and>
             extractBinary (ei_untar i archive) = Some b))"

lemma to_lower_idem: "to_lower (to_lower s) = to_lower s"
proof -
  have "to_lower_char (to_lower_char c) = to_lower_char c" for c
    by (auto simp: to_lower_char_def byte_val_char_of)
  then show ?thesis by (simp add: to_lower_def)
qed

lemma checksum_in_lower: "checksum_in name ls = Some (Some h) \<Longrightarrow> to_lower h = h"
  by (induction ls) (auto simp: to_lower_idem split: list.splits if_splits)

lemma checksumFor_lower: "checksumFor checksums name = Some h \<Longrightarrow> to_lower h = h"
  by (auto simp: checksumFor_def dest: checksum_in_lower split: option.splits)

lemma verified_authentic:
  assumes "latest_release (ei_latest i) = Some r" and "verified_binary i r = Inr b"
  shows "authentic i b"
  using assms
  by (fastforce simp: verified_binary_def authentic_def latest_release_def verifyChecksum_def
      split: option.splits if_splits prod.splits dest: checksumFor_lower)

lemma recover_at_rest:
  assumes "at_rest (d_target (mc_journal m))"
  shows "\<exists>f. recoverInterrupted env staged m = (f, m\<lparr>mc_clock := Suc (mc_clock m)\<rparr>, [])"
  using assms
  by (auto simp: recoverInterrupted_def tx_load_def give_up_def succeed_def at_rest_def Let_def
      split: option.splits transactionPhase.splits)

definition trusted :: "execute_input \<Rightarrow> string \<Rightarrow> string \<Rightarrow> string machine \<Rightarrow> bool" where
  "trusted i x old m = (\<exists>b. holds_file x b m \<and> (b = old \<or> authentic i b))"

lemma install_trusted:
  assumes pr: "proper u (uc_staged u)" "proper u staged'" and b: "binary \<noteq> uc_staged u" "binary \<noteq> uc_exe u"
    and start: "d_target (mc_journal m) = uc_before u" "holds_file (uc_exe u) (uc_old u) m"
    and run: "install_update env binary (uc_staged u) staged' (uc_exe u) previous target service noRestart
      (put_file binary (Some (uc_new u)) m) = (e, m', visited)"
    and new: "authentic i (uc_new u)"
  shows "\<forall>c\<in>{m'} \<union> set visited. trusted i (uc_exe u) (uc_old u) c"
proof -
  have "d_target (mc_journal (put_file binary (Some (uc_new u)) m)) = uc_before u \<and>
      holds_file (uc_exe u) (uc_old u) (put_file binary (Some (uc_new u)) m) \<and>
      holds_file binary (uc_new u) (put_file binary (Some (uc_new u)) m)"
    using start b by simp
  note o = crash_okD [OF install_ok [OF pr b(1)] this run]
  have t: "trusted i (uc_exe u) (uc_old u) c" if "update_ok True False u c" for c
    using that new by (auto simp: trusted_def update_ok_def intact_def)
  have "trusted i (uc_exe u) (uc_old u) m'"
    using o new t [of m'] by (cases e) (auto simp: trusted_def)
  with o t show ?thesis by blast
qed

text \<open>
  C20. The command installs nothing unverified.  When no interrupted update is recovered and
  no rollback is asked for, the executable is at every moment of the command, whatever fails
  in it, the one that was there or one whose archive hashes to an entry for this platform in a
  list of checksums that the provenance check accepted for the release's tag.
\<close>

theorem update_installs_only_verified:
  assumes "\<not> ei_rollback i" and "at_rest (d_target (mc_journal m))"
    and "ei_executable i = Some x" and "holds_file x old m"
    and "\<forall>s\<in>{ei_staged i, ei_rollbackStaged i}. s \<notin> {[], x, x @ ''.previous'', x @ ''.previous.tmp''}"
    and "ei_binaryPath i \<notin> {x, ei_staged i}"
    and run: "execute env i m = (e, m', visited)"
  shows "\<forall>c\<in>{m'} \<union> set visited. \<exists>b. holds_file x b c \<and> (b = old \<or> authentic i b)"
proof -
  obtain f where rec: "recoverInterrupted env (ei_rollbackStaged i) m = (f, m\<lparr>mc_clock := Suc (mc_clock m)\<rparr>, [])"
    using recover_at_rest [OF assms(2)] by blast
  let ?m = "m\<lparr>mc_clock := Suc (mc_clock m)\<rparr>"
  have same: "\<forall>c\<in>{a} \<union> set []. trusted i x old c" if "a = m \<or> a = ?m" for a
    using that assms(4) by (auto simp: trusted_def)
  have "\<forall>c\<in>{m'} \<union> set visited. trusted i x old c"
  proof (cases "\<exists>r b service. latest_release (ei_latest i) = Some r \<and> verified_binary i r = Inr b \<and>
      ei_service i = Some service \<and> install_update env (ei_binaryPath i) (ei_staged i) (ei_rollbackStaged i) x
        (ei_current i) (rl_Tag r) service (ei_noRestart i) (put_file (ei_binaryPath i) (Some b) ?m) = (e, m', visited)")
    case True
    then obtain r b service where r: "latest_release (ei_latest i) = Some r" "verified_binary i r = Inr b"
      and inst: "install_update env (ei_binaryPath i) (ei_staged i) (ei_rollbackStaged i) x
        (ei_current i) (rl_Tag r) service (ei_noRestart i) (put_file (ei_binaryPath i) (Some b) ?m) = (e, m', visited)" by blast
    let ?u = "\<lparr>uc_exe = x, uc_staged = ei_staged i, uc_old = old, uc_new = b, uc_before = d_target (mc_journal m)\<rparr>"
    show ?thesis
      using install_trusted [of ?u "ei_rollbackStaged i" "ei_binaryPath i" ?m env "ei_current i" "rl_Tag r" service
          "ei_noRestart i" e m' visited i] assms(4,5,6) inst verified_authentic [OF r]
      by (simp add: proper_def)
  next
    case False
    have "(m' = m \<or> m' = ?m) \<and> visited = []"
      using run False assms(1,3)
      by (auto simp: execute_def and_then_def wrapped_def rec give_up_def succeed_def
          split: if_splits option.splits sum.splits)
    with same [of m'] show ?thesis by simp
  qed
  then show ?thesis by (simp add: trusted_def)
qed

definition demo_archive :: string where "demo_archive = ''tmuxatlas-v2-linux-amd64.tar.gz''"
definition demo_digest :: string where "demo_digest = replicate 64 CHR ''0''"
definition demo_checksums :: string where "demo_checksums = join_with '' '' [demo_digest, demo_archive]"

definition demo_input :: execute_input where
  "demo_input = \<lparr>ei_docker = False, ei_goos = ''linux'', ei_goarch = ''amd64'', ei_check = False, ei_force = False,
     ei_noRestart = False, ei_rollback = False, ei_recover = False, ei_store = True, ei_current = ''1'',
     ei_latest = Some \<lparr>rl_Tag = ''v2'', rl_Assets =
       [\<lparr>ra_Name = ''tmuxatlas-v2-linux-amd64.tar.gz'', ra_URL = ''a''\<rparr>, \<lparr>ra_Name = ''checksums.txt'', ra_URL = ''c''\<rparr>,
        \<lparr>ra_Name = ''checksums.txt.sigstore.json'', ra_URL = ''g''\<rparr>]\<rparr>,
     ei_executable = Some ''x'', ei_service = Some None, ei_resolve = Some,
     ei_fetch = (\<lambda>url. if url = ''c'' then Some demo_checksums else Some url), ei_tempDir = True,
     ei_provenance = (\<lambda>_ _ tag. tag = ''v2''), ei_sha = (\<lambda>_. replicate 32 (char_of (0 :: nat))),
     ei_untar = (\<lambda>_. Some [TarEntry True ''tmuxatlas'' ''N'']),
     ei_binaryPath = ''b'', ei_staged = ''s'', ei_rollbackStaged = ''r''\<rparr>"

definition demo_host :: "string machine" where
  "demo_host = \<lparr>mc_files = fmupd ''x'' (Some ''O'') fmempty, mc_journal = \<lparr>d_target = None, d_temp = None\<rparr>, mc_clock = 0\<rparr>"

lemma demo_fields: "GoStrings.fields demo_checksums = [demo_digest, demo_archive]"
proof -
  have "\<forall>w\<in>set [demo_digest, demo_archive]. w \<noteq> [] \<and>
      (\<forall>c\<in>set w. c \<notin> set (bytes_of [9, 10, 11, 12, 13, 32, 194, 225, 226, 227]))"
    by code_simp
  then show ?thesis unfolding demo_checksums_def by (rule fields_join)
qed

lemma demo_scan: "scan_lines demo_checksums = ([demo_checksums], True)"
proof -
  have n: "newline \<notin> set demo_checksums" "demo_checksums \<noteq> []" "length demo_checksums < scanLimit" "drop_cr demo_checksums = demo_checksums"
    by (simp_all add: newline_def demo_checksums_def demo_digest_def demo_archive_def scanLimit_def drop_cr_def char_of_def bit_simps)
  then show ?thesis by (simp add: scan_lines_def split_char_word)
qed

lemma demo_checksumFor: "checksumFor demo_checksums demo_archive = Some demo_digest"
proof -
  have "to_lower demo_digest = demo_digest" "length demo_digest = 64" "trim_prefix ''*'' demo_archive = demo_archive"
    by code_simp+
  then show ?thesis by (simp add: checksumFor_def demo_scan demo_fields)
qed

lemma demo_hash: "hex_encode (replicate 32 (char_of (0 :: nat))) = to_lower demo_digest"
  by code_simp

lemma demo_versions: "normalizeVersion ''v2'' = ''2''" "normalizeVersion ''1'' = ''1''"
proof -
  have "list_all visible ''v2''" "list_all visible ''1''" by (simp_all add: visible_letter)
  from this [THEN trim_space_visible] show "normalizeVersion ''v2'' = ''2''" "normalizeVersion ''1'' = ''1''"
    by (simp_all add: normalizeVersion_def trim_prefix_def)
qed

lemma demo_verified: "verified_binary demo_input (the (ei_latest demo_input)) = Inr ''N''"
proof -
  have base: "filepath_base ''tmuxatlas'' = ''tmuxatlas''" by code_simp
  have sums: "checksumFor demo_checksums ''tmuxatlas-v2-linux-amd64.tar.gz'' = Some demo_digest"
    using demo_checksumFor by (simp only: demo_archive_def)
  have "length demo_checksums = 96" by code_simp
  then show ?thesis
    by (simp add: verified_binary_def demo_input_def archive_name_def demo_versions assetURL_def download_def maxDownloadSize_def
        verifyChecksum_def extractBinary_def base sums demo_hash)
qed

definition demo_run :: "string option \<times> string machine \<times> string machine list" where
  "demo_run = install_update (\<lambda>_. None) ''b'' ''s'' ''r'' ''x'' ''1'' ''v2'' None False
     (put_file ''b'' (Some ''N'') (demo_host\<lparr>mc_clock := 1\<rparr>))"

lemma demo_run_installs: "holds_file ''x'' ''N'' (fst (snd demo_run))"
  by code_simp

theorem update_installs_only_verified_witness:
  "\<exists>m'. fst (snd (execute (\<lambda>_. None) demo_input demo_host)) = m' \<and> holds_file ''x'' ''N'' m' \<and>
    (\<exists>b. holds_file ''x'' b m' \<and> (b = ''O'' \<or> authentic demo_input b))"
proof -
  have "execute (\<lambda>_. None) demo_input demo_host = demo_run"
    using demo_verified
    by (simp add: execute_def demo_input_def latest_release_def demo_versions validateServiceExecutable_def
        and_then_def wrapped_def recoverInterrupted_def tx_load_def succeed_def demo_host_def Let_def demo_run_def
        split: prod.splits)
  moreover obtain e m' v where run: "demo_run = (e, m', v)" by (cases demo_run)
  ultimately have ex: "execute (\<lambda>_. None) demo_input demo_host = (e, m', v)" by simp
  have "\<forall>c\<in>{m'} \<union> set v. \<exists>b. holds_file ''x'' b c \<and> (b = ''O'' \<or> authentic demo_input b)"
    by (rule update_installs_only_verified [OF _ _ _ _ _ _ ex])
      (simp_all add: demo_input_def demo_host_def at_rest_def holds_file_def)
  then show ?thesis using demo_run_installs [unfolded run] ex by simp
qed

end
