(* ===== verification/ServiceWait.thy ===== *)
theory ServiceWait
  imports UpdateCommand
begin

text \<open>
  Waiting for the restarted service (\<open>waitForServiceHealth\<close> of
  \<open>pkg/commands/update/service.go\<close>): the poll loop, which need not end, with the times at which
  its channels become ready, and when it returns.
\<close>

subsection \<open>One probe\<close>

record service_health =
  sh_Role :: string
  sh_Version :: string
  sh_InstanceID :: string
  sh_Ready :: bool

text \<open>
  What a round finds: the answer of the probe, which may be a health report with an error, and
  whether the service manager calls the service active; \<open>rd_duration\<close> is how long it takes.
\<close>

record round =
  rd_health :: "service_health option"
  rd_error :: "string option"
  rd_active :: bool
  rd_duration :: duration

definition role_matches :: "string \<Rightarrow> round \<Rightarrow> bool" where
  "role_matches role r = (role = [] \<or> (case rd_health r of None \<Rightarrow> False | Some h \<Rightarrow> sh_Role h = role))"

definition round_ok :: "string \<Rightarrow> string \<Rightarrow> round \<Rightarrow> service_health option" where
  "round_ok role target r =
     (case rd_health r of
        None \<Rightarrow> None
      | Some h \<Rightarrow>
          if rd_error r = None \<and> rd_active r \<and> role_matches role r \<and> sh_Ready h \<and>
             normalizeVersion (sh_Version h) = normalizeVersion target
          then Some h else None)"

datatype wait_error = ContextEnded | ReadinessTimeout string | ProbeUnavailable

definition last_error :: "string \<Rightarrow> string \<Rightarrow> round \<Rightarrow> string" where
  "last_error role target r =
     (let h = (case rd_health r of None \<Rightarrow> \<lparr>sh_Role = [], sh_Version = [], sh_InstanceID = [], sh_Ready = False\<rparr> | Some h \<Rightarrow> h) in
      if \<not> rd_active r then ''service manager reports inactive''
      else case rd_error r of
        Some e \<Rightarrow> e
      | None \<Rightarrow>
          if \<not> role_matches role r
          then ''running role '' @ sh_Role h @ '' does not match configured role '' @ role
          else ''running version '' @ sh_Version h @ '' does not match installed version '' @ target)"

subsection \<open>The select\<close>

text \<open>
  The ticker fires every \<open>tick_period\<close> from the start and keeps one tick until it is received;
  \<open>last\<close> is when the loop last received one.  The loop waits until a channel is ready; of
  several, the runtime chooses one, \<open>choose n\<close> in round \<open>n\<close>.
\<close>

definition tick_period :: duration where "tick_period = 250000000"

definition next_tick :: "time \<Rightarrow> time \<Rightarrow> time" where
  "next_tick start received = start + ((received - start) div tick_period + 1) * tick_period"

datatype wake = CtxDone | DeadlineFired | Tick

record wait_env =
  we_start :: time
  we_timeout :: duration
  we_ctx_end :: "time option"
  we_rounds :: "nat \<Rightarrow> round"
  we_choose :: "nat \<Rightarrow> nat"

definition we_deadline :: "wait_env \<Rightarrow> time" where
  "we_deadline env = we_start env + max 0 (we_timeout env)"

definition channel_times :: "wait_env \<Rightarrow> time \<Rightarrow> (time \<times> wake) list" where
  "channel_times env received =
     (case we_ctx_end env of None \<Rightarrow> [] | Some t \<Rightarrow> [(t, CtxDone)]) @
     [(we_deadline env, DeadlineFired), (next_tick (we_start env) received, Tick)]"

definition select_time :: "wait_env \<Rightarrow> time \<Rightarrow> time \<Rightarrow> time" where
  "select_time env received now = max now (Min (fst ` set (channel_times env received)))"

definition select_wake :: "wait_env \<Rightarrow> nat \<Rightarrow> time \<Rightarrow> time \<Rightarrow> wake" where
  "select_wake env n received now =
     (let ready = filter (\<lambda>(t, _). t \<le> select_time env received now) (channel_times env received)
      in snd (ready ! (we_choose env n mod length ready)))"

subsection \<open>The loop\<close>

partial_function (option) wait_loop ::
    "wait_env \<Rightarrow> string \<Rightarrow> string \<Rightarrow> nat \<Rightarrow> time \<Rightarrow> (wait_error + service_health) option" where
  "wait_loop env role target n received =
     (let r = we_rounds env n; now = received + max 0 (rd_duration r) in
      case round_ok role target r of
        Some h \<Rightarrow> Some (Inr h)
      | None \<Rightarrow>
          (case select_wake env n received now of
             CtxDone \<Rightarrow> Some (Inl ContextEnded)
           | DeadlineFired \<Rightarrow> Some (Inl (ReadinessTimeout (last_error role target r)))
           | Tick \<Rightarrow> wait_loop env role target (Suc n) (select_time env received now)))"

definition waitForServiceHealth :: "wait_env \<Rightarrow> bool \<Rightarrow> string \<Rightarrow> string \<Rightarrow> (wait_error + service_health) option" where
  "waitForServiceHealth env has_probe role target =
     (if \<not> has_probe then Some (Inl ProbeUnavailable) else wait_loop env role target 0 (we_start env))"

subsection \<open>The loop returns\<close>

text \<open>The time of round \<open>n\<close> when every earlier round was woken by the ticker.\<close>

fun round_time :: "wait_env \<Rightarrow> nat \<Rightarrow> time" where
  "round_time env 0 = we_start env"
| "round_time env (Suc n) =
     select_time env (round_time env n) (round_time env n + max 0 (rd_duration (we_rounds env n)))"

definition round_wake :: "wait_env \<Rightarrow> nat \<Rightarrow> wake" where
  "round_wake env n = select_wake env n (round_time env n) (round_time env n + max 0 (rd_duration (we_rounds env n)))"

text \<open>The result of round \<open>n\<close>, when it ends the loop.\<close>

definition round_result :: "wait_env \<Rightarrow> string \<Rightarrow> string \<Rightarrow> nat \<Rightarrow> (wait_error + service_health) option" where
  "round_result env role target n =
     (case round_ok role target (we_rounds env n) of
        Some h \<Rightarrow> Some (Inr h)
      | None \<Rightarrow> (case round_wake env n of CtxDone \<Rightarrow> Some (Inl ContextEnded)
          | DeadlineFired \<Rightarrow> Some (Inl (ReadinessTimeout (last_error role target (we_rounds env n))))
          | Tick \<Rightarrow> None))"

lemma no_result: "round_result env role target n = None \<Longrightarrow> round_wake env n = Tick \<and> round_ok role target (we_rounds env n) = None"
  by (cases "round_ok role target (we_rounds env n)"; cases "round_wake env n") (simp_all add: round_result_def)

lemma wait_unfold:
  "wait_loop env role target n (round_time env n) =
     (case round_result env role target n of
        Some x \<Rightarrow> Some x | None \<Rightarrow> wait_loop env role target (Suc n) (round_time env (Suc n)))"
  by (subst wait_loop.simps)
     (simp add: round_result_def round_wake_def Let_def split: option.splits wake.splits)

lemma wait_first:
  assumes "round_result env role target (n + k) = Some x" and "\<And>m. m < k \<Longrightarrow> round_result env role target (n + m) = None"
  shows "wait_loop env role target n (round_time env n) = Some x"
  using assms
proof (induction k arbitrary: n)
  case 0
  then show ?case by (subst wait_unfold) simp
next
  case (Suc k)
  from Suc.prems(2) [of 0] have "round_result env role target n = None" by simp
  moreover have "wait_loop env role target (Suc n) (round_time env (Suc n)) = Some x"
  proof (rule Suc.IH)
    show "round_result env role target (Suc n + k) = Some x" using Suc.prems(1) by simp
    show "round_result env role target (Suc n + m) = None" if "m < k" for m
      using Suc.prems(2) [of "Suc m"] that by simp
  qed
  ultimately show ?case by (subst wait_unfold) simp
qed

text \<open>Every round that ends with a tick takes the clock past another multiple of the period.\<close>

lemma next_tick_later: "received < next_tick start received"
proof -
  have p: "0 < tick_period" by (simp add: tick_period_def)
  have "(received - start) mod tick_period < tick_period" using p by simp
  then have "received - start < ((received - start) div tick_period + 1) * tick_period"
    using div_mult_mod_eq [of "received - start" tick_period] unfolding distrib_right mult_1 by linarith
  then show ?thesis by (simp add: next_tick_def)
qed

lemma ready_wake:
  "\<exists>t. (t, select_wake env n received now) \<in> set (channel_times env received) \<and> t \<le> select_time env received now"
proof -
  let ?ts = "channel_times env received" and ?now = "select_time env received now"
  let ?ready = "filter (\<lambda>(t, _). t \<le> ?now) ?ts"
  have "fst ` set ?ts \<noteq> {}" by (simp add: channel_times_def)
  then have "Min (fst ` set ?ts) \<in> fst ` set ?ts" by (intro Min_in) simp_all
  then obtain p where "p \<in> set ?ts" "fst p = Min (fst ` set ?ts)" by (metis imageE)
  then have "p \<in> set ?ready" by (auto simp: select_time_def)
  then have "?ready \<noteq> []" by (metis empty_iff list.set(1))
  then have "we_choose env n mod length ?ready < length ?ready" by simp
  then have "?ready ! (we_choose env n mod length ?ready) \<in> set ?ready" by (rule nth_mem)
  then show ?thesis unfolding select_wake_def Let_def by (auto simp: case_prod_beta) (metis prod.collapse)
qed

lemma tick_advances:
  assumes "round_wake env n = Tick"
  shows "next_tick (we_start env) (round_time env n) \<le> round_time env (Suc n)"
  using ready_wake [of env n "round_time env n" "round_time env n + max 0 (rd_duration (we_rounds env n))"] assms
  by (auto simp: round_wake_def channel_times_def split: option.splits)

lemma rounds_pass:
  assumes "\<And>m. m < n \<Longrightarrow> round_wake env m = Tick"
  shows "we_start env + int n * tick_period \<le> round_time env n"
  using assms
proof (induction n)
  case (Suc n)
  then have "we_start env + int n * tick_period \<le> round_time env n" by simp
  then have "int n * tick_period \<le> round_time env n - we_start env" by simp
  then have "int n \<le> (round_time env n - we_start env) div tick_period"
    by (metis tick_period_def zdiv_mono1 nonzero_mult_div_cancel_right zero_less_numeral zero_neq_numeral)
  then have "(int n + 1) * tick_period \<le> ((round_time env n - we_start env) div tick_period + 1) * tick_period"
    by (intro mult_right_mono) (simp_all add: tick_period_def)
  with tick_advances [OF Suc.prems [of n]] show ?case by (simp add: next_tick_def algebra_simps)
qed simp

text \<open>Once the deadline has passed, a round in which the runtime takes the first ready channel returns.\<close>

lemma first_ready:
  assumes "we_choose env n = 0" and "we_deadline env \<le> round_time env n"
  shows "round_wake env n \<noteq> Tick"
proof -
  let ?now = "round_time env n + max 0 (rd_duration (we_rounds env n))"
  have "we_deadline env \<le> select_time env (round_time env n) ?now" using assms(2) by (simp add: select_time_def)
  then show ?thesis
    using assms(1) by (simp add: round_wake_def select_wake_def Let_def channel_times_def split: option.splits)
qed

text \<open>
  C36. The wait for the service ends.  If the runtime's choice among ready channels is fair -
  after any round there is one in which it does not prefer the ticker - the loop returns: with
  the health report of the first round in which the probe succeeded, the service was active and
  ready, had the configured role and the installed version; or, when the context or the timeout
  ended it, with an error, and then no earlier round had succeeded.
\<close>

theorem service_wait_returns:
  assumes fair: "\<And>m. \<exists>n\<ge>m. we_choose env n = 0"
  shows "\<exists>n. (\<forall>m. m < n \<longrightarrow> round_ok role target (we_rounds env m) = None) \<and>
    (round_ok role target (we_rounds env n) = None \<longrightarrow> round_wake env n \<noteq> Tick) \<and>
    waitForServiceHealth env True role target =
      (case round_ok role target (we_rounds env n) of
         Some h \<Rightarrow> Some (Inr h)
       | None \<Rightarrow> Some (Inl (if round_wake env n = CtxDone then ContextEnded
           else ReadinessTimeout (last_error role target (we_rounds env n)))))"
proof -
  have "\<exists>n. round_result env role target n \<noteq> None"
  proof (rule ccontr)
    assume "\<nexists>n. round_result env role target n \<noteq> None"
    then have tick: "round_wake env n = Tick" for n using no_result [of env role target n] by blast
    let ?k = "nat (we_deadline env - we_start env)"
    obtain n where n: "?k \<le> n" "we_choose env n = 0" using fair by blast
    have "we_start env + int n * tick_period \<le> round_time env n" by (rule rounds_pass) (rule tick)
    moreover have "we_deadline env - we_start env \<le> int n" using n(1) by linarith
    moreover have "int n \<le> int n * tick_period" by (simp add: tick_period_def)
    ultimately have "we_deadline env \<le> round_time env n" by linarith
    from first_ready [OF n(2) this] tick show False by blast
  qed
  then obtain n where n: "round_result env role target n \<noteq> None"
    and before: "\<And>m. m < n \<Longrightarrow> round_result env role target m = None"
    using exists_least_iff [of "\<lambda>n. round_result env role target n \<noteq> None"] by blast
  then obtain x where x: "round_result env role target n = Some x" by blast
  have "wait_loop env role target 0 (round_time env 0) = Some x"
    by (rule wait_first [where k = n]) (use x before in simp_all)
  then have w: "waitForServiceHealth env True role target = round_result env role target n"
    by (simp add: waitForServiceHealth_def x)
  have ok: "round_ok role target (we_rounds env m) = None" if "m < n" for m
    using no_result [OF before [OF that]] by simp
  show ?thesis
    by (rule exI [of _ n]) (use w n ok in \<open>auto simp: round_result_def split: option.splits wake.splits\<close>)
qed

definition demo_wait :: wait_env where
  "demo_wait = \<lparr>we_start = 0, we_timeout = 600000000, we_ctx_end = None,
     we_rounds = (\<lambda>n. \<lparr>rd_health = Some \<lparr>sh_Role = ''hub'', sh_Version = (if n < 2 then ''v1'' else ''v2''), sh_InstanceID = [],
       sh_Ready = True\<rparr>, rd_error = None, rd_active = True, rd_duration = 1000\<rparr>),
     we_choose = (\<lambda>_. 0)\<rparr>"

theorem service_wait_returns_witness:
  "waitForServiceHealth demo_wait True ''hub'' ''2'' \<noteq> None"
proof -
  have "\<And>m. \<exists>n\<ge>m. we_choose demo_wait n = 0" by (auto simp: demo_wait_def)
  from service_wait_returns [OF this, of "''hub''" "''2''"] obtain n where
    "waitForServiceHealth demo_wait True ''hub'' ''2'' =
      (case round_ok ''hub'' ''2'' (we_rounds demo_wait n) of
         Some h \<Rightarrow> Some (Inr h)
       | None \<Rightarrow> Some (Inl (if round_wake demo_wait n = CtxDone then ContextEnded
           else ReadinessTimeout (last_error ''hub'' ''2'' (we_rounds demo_wait n)))))" by (elim exE conjE)
  then show ?thesis by (simp split: option.split)
qed

end
