(* ===== verification/EnvFile.thy ===== *)
theory EnvFile
  imports GoStrings AtomicFile
begin

text \<open>
  The user's environment file (\<open>pkg/paths/env.go\<close>): \<open>LoadEnv\<close> sets the variables it names
  that the process does not have, \<open>SaveEnvValue\<close> rewrites one of them.  The process
  environment is a map, the file its text.
\<close>

definition env_prefix :: string where "env_prefix = ''TMUXATLAS_''"

datatype env_error = ExpectedKeyValue nat | UnsupportedVariable nat | SetenvFailed nat | LineTooLong
  | UnsupportedKey | NotOneLine | EnvUnreadable | EnvWrite stage

text \<open>\<open>strings.Cut(line, "=")\<close>.\<close>

fun cut_at :: "char \<Rightarrow> string \<Rightarrow> (string \<times> string) option" where
  "cut_at c [] = None"
| "cut_at c (x # xs) = (if x = c then Some ([], xs) else map_option (\<lambda>(a, b). (x # a, b)) (cut_at c xs))"

definition unquote_value :: "string \<Rightarrow> string" where
  "unquote_value v =
     (if length v \<ge> 2 \<and> (hd v = char_of (34 :: nat) \<and> last v = char_of (34 :: nat) \<or>
          hd v = char_of (39 :: nat) \<and> last v = char_of (39 :: nat))
      then butlast (tl v) else v)"

text \<open>\<open>os.Setenv\<close> refuses a zero byte; the key has no equals sign and is not empty.\<close>

definition setenv_ok :: "string \<Rightarrow> string \<Rightarrow> bool" where
  "setenv_ok key value = (char_of (0 :: nat) \<notin> set key \<and> char_of (0 :: nat) \<notin> set value)"

text \<open>What a line asks for: \<open>None\<close> nothing, an error, or a key and a value.\<close>

definition env_line :: "nat \<Rightarrow> string \<Rightarrow> env_error + (string \<times> string) option" where
  "env_line n text =
     (let line = trim_space text in
      if line = [] \<or> is_prefix ''#'' line then Inr None
      else case cut_at CHR ''='' line of
        None \<Rightarrow> Inl (ExpectedKeyValue n)
      | Some (k, v) \<Rightarrow>
          (let key = trim_space k in
           if key = [] then Inl (ExpectedKeyValue n)
           else if \<not> is_prefix env_prefix key then Inl (UnsupportedVariable n)
           else Inr (Some (key, unquote_value (trim_space v)))))"

fun load_lines :: "nat \<Rightarrow> string list \<Rightarrow> (string, string) fmap \<Rightarrow> env_error option \<times> (string, string) fmap" where
  "load_lines n [] env = (None, env)"
| "load_lines n (text # rest) env =
     (case env_line n text of
        Inl e \<Rightarrow> (Some e, env)
      | Inr None \<Rightarrow> load_lines (Suc n) rest env
      | Inr (Some (key, value)) \<Rightarrow>
          if go_has env key then load_lines (Suc n) rest env
          else if \<not> setenv_ok key value then (Some (SetenvFailed n), env)
          else load_lines (Suc n) rest (fmupd key value env))"

text \<open>\<open>None\<close>: there is no file.\<close>

definition LoadEnv :: "string option \<Rightarrow> (string, string) fmap \<Rightarrow> env_error option \<times> (string, string) fmap" where
  "LoadEnv content env =
     (case content of
        None \<Rightarrow> (None, env)
      | Some raw \<Rightarrow>
          (case scan_lines raw of
             (ls, ok) \<Rightarrow> (case load_lines 1 ls env of
                 (Some e, env') \<Rightarrow> (Some e, env')
               | (None, env') \<Rightarrow> (if ok then None else Some LineTooLong, env'))))"

definition trim_suffix_char :: "char \<Rightarrow> string \<Rightarrow> string" where
  "trim_suffix_char c s = (if s \<noteq> [] \<and> last s = c then butlast s else s)"

definition env_output :: "string \<Rightarrow> string \<Rightarrow> string \<Rightarrow> string list" where
  "env_output key value raw =
     filter (\<lambda>line. \<not> (line = [] \<or> is_prefix (key @ ''='') (trim_space line)))
       (split_char newline (trim_suffix_char newline raw)) @ [key @ ''='' @ value]"

text \<open>The steps of the replacement; this one does not sync the file.\<close>

definition replace_env :: "stage option \<Rightarrow> 'a \<Rightarrow> 'a dir \<Rightarrow> 'a run" where
  "replace_env fault v =
     attempt fault CreateTemp make_temp keep
     (attempt fault ChmodTemp keep drop_temp
     (attempt fault WriteTemp (fill_temp v) drop_temp
     (attempt fault CloseTemp keep drop_temp
     (attempt fault RenameTemp publish drop_temp finished))))"

definition SaveEnvValue :: "stage option \<Rightarrow> bool \<Rightarrow> string \<Rightarrow> string \<Rightarrow> string dir \<Rightarrow> env_error option \<times> string dir" where
  "SaveEnvValue fault readable key value d =
     (if \<not> is_prefix env_prefix key \<or> (\<exists>c\<in>set key. c \<in> {CHR ''='', char_of (13 :: nat), newline}) then (Some UnsupportedKey, d)
      else if \<exists>c\<in>set value. c \<in> {char_of (13 :: nat), newline} then (Some NotOneLine, d)
      else if \<not> readable then (Some EnvUnreadable, d)
      else
        let raw = (case d_target d of None \<Rightarrow> [] | Some t \<Rightarrow> t) in
        case replace_env fault (join_with [newline] (env_output key value raw) @ [newline]) d of
          (e, d', _) \<Rightarrow> (map_option EnvWrite e, d'))"

interpretation env_file: atomic_save replace_env
proof unfold_locales
  fix d d' :: "'a dir" and fault v e visited
  assume d: "no_temp d" and s: "replace_env fault v d = (e, d', visited)"
  show "no_temp d' \<and> (e = None \<or> e = fault) \<and>
      d_target d' = (if e = None \<or> after_rename (the e) then Some v else d_target d)"
    using d s by (auto simp: replace_env_def dir_defs split: if_splits)
  show "d_target c = d_target d \<or> d_target c = Some v" if "c \<in> set visited" for c
    using d s that by (auto simp: replace_env_def dir_defs split: if_splits)
next
  fix d d' :: "'a dir" and v e visited
  show "replace_env None v d = (e, d', visited) \<Longrightarrow> e = None" by (auto simp: replace_env_def dir_defs)
qed

subsection \<open>What is saved is loaded\<close>

text \<open>The environments agree but for one variable.\<close>

definition agree_but :: "string \<Rightarrow> (string, string) fmap \<Rightarrow> (string, string) fmap \<Rightarrow> bool" where
  "agree_but key e f = (\<forall>k. k \<noteq> key \<longrightarrow> fmlookup e k = fmlookup f k)"

text \<open>Leaving out lines that only assign \<open>key\<close> changes nothing for the other variables.\<close>

lemma load_lines_but:
  assumes "load_lines n ls e = (None, e')" and "agree_but key e f"
    and "\<And>m l. l \<in> set ls \<Longrightarrow> \<not> kp l \<Longrightarrow> env_line m l = Inr None \<or> (\<exists>v. env_line m l = Inr (Some (key, v)))"
    and "\<And>m l v. l \<in> set ls \<Longrightarrow> kp l \<Longrightarrow> env_line m l \<noteq> Inr (Some (key, v))"
  shows "\<exists>f'. load_lines m (filter kp ls) f = (None, f') \<and> agree_but key e' f' \<and> fmlookup f' key = fmlookup f key"
  using assms
proof (induction ls arbitrary: n m e f)
  case (Cons l ls)
  have IH: "\<lbrakk>load_lines n' ls e1 = (None, e'); agree_but key e1 f1\<rbrakk> \<Longrightarrow>
      \<exists>f'. load_lines m' (filter kp ls) f1 = (None, f') \<and> agree_but key e' f' \<and> fmlookup f' key = fmlookup f1 key" for n' m' e1 f1
    using Cons.IH [of n' e1 f1 m'] Cons.prems(3,4) by simp
  show ?case
  proof (cases "kp l")
    case False
    then have "env_line n l = Inr None \<or> (\<exists>v. env_line n l = Inr (Some (key, v)))" using Cons.prems(3) by simp
    then obtain e1 where "load_lines (Suc n) ls e1 = (None, e')" "agree_but key e1 f"
      using Cons.prems(1,2) by (auto simp: agree_but_def split: if_splits)
    from IH [OF this] False show ?thesis by simp
  next
    case True
    have same: "env_line m l = Inr x" if "env_line n l = Inr x" for x
      using that by (auto simp: env_line_def Let_def split: if_splits option.splits)
    show ?thesis
    proof (cases "env_line n l")
      case (Inl e)
      with Cons.prems(1) show ?thesis by simp
    next
      case (Inr x)
      show ?thesis
      proof (cases x)
        case None
        with Inr Cons.prems(1,2) True same [OF Inr] IH show ?thesis by simp
      next
        case (Some kv)
        obtain k v where kv: "kv = (k, v)" by (cases kv)
        with Inr Some True Cons.prems(4) have k: "k \<noteq> key" by auto
        have has: "go_has f k = go_has e k" using Cons.prems(2) k by (simp add: go_has_def agree_but_def fmdom_notI flip: fmlookup_dom_iff)
        have upd: "agree_but key (fmupd k v e) (fmupd k v f)" "fmlookup (fmupd k v f) key = fmlookup f key"
          using Cons.prems(2) k by (simp_all add: agree_but_def)
        show ?thesis
        proof (cases "go_has e k")
          case True
          with Inr Some kv Cons.prems(1,2) \<open>kp l\<close> same [OF Inr] IH has show ?thesis by simp
        next
          case False
          with Inr Some kv Cons.prems(1) have s: "setenv_ok k v" "load_lines (Suc n) ls (fmupd k v e) = (None, e')"
            by (auto split: if_splits)
          from IH [OF s(2) upd(1)] False Inr Some kv \<open>kp l\<close> same [OF Inr] has s(1) upd(2) show ?thesis by simp
        qed
      qed
    qed
  qed
qed simp

lemma load_lines_append:
  "load_lines n (a @ b) env = (case load_lines n a env of
      (Some e, env') \<Rightarrow> (Some e, env') | (None, env') \<Rightarrow> load_lines (n + length a) b env')"
  by (induction a arbitrary: n env) (auto split: sum.splits option.splits prod.splits)

lemma cut_at_first: "c \<notin> set a \<Longrightarrow> cut_at c (a @ c # b) = Some (a, b)"
  by (induction a) auto

text \<open>A setting that its own line gives back: no blanks around it, no quotes around the value.\<close>

definition plain_setting :: "string \<Rightarrow> string \<Rightarrow> bool" where
  "plain_setting key value =
     (trim_space key = key \<and> trim_space value = value \<and> trim_space (key @ ''='' @ value) = key @ ''='' @ value \<and>
      unquote_value value = value \<and> setenv_ok key value)"

text \<open>Every line that assigns the key has no blank before the equals sign, and all lines fit the scanner.\<close>

definition tidy_file :: "string \<Rightarrow> string \<Rightarrow> bool" where
  "tidy_file key raw =
     (char_of (13 :: nat) \<notin> set raw \<and>
      list_all (\<lambda>l. length l < scanLimit \<and>
        (case env_line 1 l of Inr (Some (k, v)) \<Rightarrow> k = key \<longrightarrow> is_prefix (key @ ''='') (trim_space l) | _ \<Rightarrow> True))
        (split_char newline (trim_suffix_char newline raw)))"

lemma key_line:
  assumes "is_prefix env_prefix key" and "CHR ''='' \<notin> set key" and "trim_space key = key"
    and "trim_space l = key @ CHR ''='' # rest"
  shows "env_line n l = Inr (Some (key, unquote_value (trim_space rest)))"
proof -
  obtain k where k: "key = CHR ''T'' # k" using assms(1) by (auto simp: env_prefix_def is_prefix_append)
  then have "\<not> is_prefix ''#'' (trim_space l)" "trim_space l \<noteq> []" "key \<noteq> []" using assms(4) by auto
  with assms show ?thesis by (simp add: env_line_def cut_at_first)
qed

lemma env_line_any: "env_line n l = Inr x \<longleftrightarrow> env_line m l = Inr x"
  by (auto simp: env_line_def Let_def split: if_splits option.splits)

lemma scanned_lines:
  assumes "snd (scan_lines raw)" and "char_of (13 :: nat) \<notin> set raw" and "\<not> kp []"
  shows "filter kp (fst (scan_lines raw)) = filter kp (split_char newline (trim_suffix_char newline raw))"
proof -
  let ?ws = "split_char newline raw"
  have mem: "set l \<subseteq> set raw" if "l \<in> set ?ws" for l
    using that by (rule split_char_sub)
  have "snd (scan_from ?ws)" using assms(1) by (simp add: scan_lines_def split: prod.splits)
  then have f: "fst (scan_from ?ws) = (if last ?ws = [] then butlast ?ws else ?ws)" by (rule scan_from_ok) simp
  have cr: "drop_cr l = l" if "l \<in> set ?ws" for l using mem [OF that] assms(2) by (intro drop_cr_id) auto
  then have all: "map drop_cr (fst (scan_from ?ws)) = fst (scan_from ?ws)"
    unfolding f by (intro map_idI) (auto dest: in_set_butlastD cr split: if_splits)
  then have l: "fst (scan_lines raw) = (if last ?ws = [] then butlast ?ws else ?ws)"
    using f by (cases "scan_from ?ws") (simp add: scan_lines_def)
  show ?thesis
  proof (cases "raw = [] \<or> last raw \<noteq> newline")
    case True
    show ?thesis
    proof (cases "raw = []")
      case True
      with l assms(3) show ?thesis by (simp add: trim_suffix_char_def)
    next
      case False
      with True have "last ?ws \<noteq> []" by (simp add: last_split_char)
      with l True False show ?thesis by (simp add: trim_suffix_char_def)
    qed
  next
    case False
    then obtain r where "raw = r @ [newline]" by (metis append_butlast_last_id)
    with l show ?thesis by (simp add: trim_suffix_char_def split_char_snoc)
  qed
qed

text \<open>
  C40. What is saved is loaded.  After a save that succeeds, loading the file gives the new
  value to a process that does not set the variable itself, and gives every other variable
  the value the old file gave it.  The old file must load, without carriage returns or lines
  too long for the scanner, and must not assign the variable with a blank before the equals
  sign: such a line survives the save and wins over the new one.  The value must have no
  blanks or quotes around it, as the file format has no escapes.
\<close>

theorem env_save_load:
  assumes "no_temp d" and save: "SaveEnvValue fault True key value d = (None, d')"
    and old: "LoadEnv (d_target d) env = (None, env1)"
    and set: "plain_setting key value" "length (key @ ''='' @ value) < scanLimit"
    and tidy: "tidy_file key (case d_target d of None \<Rightarrow> [] | Some t \<Rightarrow> t)"
  shows "case LoadEnv (d_target d') env of (e, env2) \<Rightarrow>
    e = None \<and> agree_but key env1 env2 \<and>
    fmlookup env2 key = (if go_has env key then fmlookup env key else Some value)"
proof -
  let ?raw = "case d_target d of None \<Rightarrow> [] | Some t \<Rightarrow> t"
  let ?lines = "split_char newline (trim_suffix_char newline ?raw)"
  let ?kp = "\<lambda>l. \<not> (l = [] \<or> is_prefix (key @ ''='') (trim_space l))"
  let ?text = "join_with [newline] (env_output key value ?raw) @ [newline]"
  have key: "is_prefix env_prefix key" "CHR ''='' \<notin> set key" "newline \<notin> set key" "char_of (13 :: nat) \<notin> set key"
    and val: "newline \<notin> set value" "char_of (13 :: nat) \<notin> set value"
    using save by (auto simp: SaveEnvValue_def split: if_splits)
  have written: "d_target d' = Some ?text"
  proof -
    obtain e d1 v where r: "replace_env fault ?text d = (e, d1, v)" by (cases "replace_env fault ?text d")
    with save have "e = None" "d' = d1" by (auto simp: SaveEnvValue_def Let_def split: if_splits)
    with env_file.success [OF assms(1)] r show ?thesis by blast
  qed
  have mem: "set l \<subseteq> set ?raw \<and> newline \<notin> set l" if "l \<in> set ?lines" for l
  proof -
    have "set l \<subseteq> set (trim_suffix_char newline ?raw)" using that by (rule split_char_sub)
    moreover have "set (trim_suffix_char newline ?raw) \<subseteq> set ?raw"
      by (auto simp: trim_suffix_char_def dest: in_set_butlastD)
    ultimately show ?thesis using that split_char_no_sep by blast
  qed
  have eq: "newline \<noteq> CHR ''=''" "char_of (13 :: nat) \<noteq> CHR ''=''"
    by (simp_all add: newline_def char_of_def bit_simps)
  have fits: "length l < scanLimit \<and> newline \<notin> set l \<and> char_of (13 :: nat) \<notin> set l"
    if "l \<in> set (env_output key value ?raw)" for l
  proof (cases "l = key @ ''='' @ value")
    case True
    with key val set(2) eq show ?thesis by auto
  next
    case False
    with that have "l \<in> set ?lines" by (auto simp: env_output_def)
    with mem [of l] tidy show ?thesis by (auto simp: tidy_file_def list_all_iff)
  qed
  have scan: "scan_lines ?text = (env_output key value ?raw, True)"
    by (rule scan_joined) (use fits in \<open>auto simp: env_output_def\<close>)
  have "\<exists>f'. load_lines 1 (filter ?kp ?lines) env = (None, f') \<and> agree_but key env1 f' \<and> fmlookup f' key = fmlookup env key"
  proof (cases "d_target d")
    case None
    with old show ?thesis by (simp add: LoadEnv_def trim_suffix_char_def agree_but_def)
  next
    case (Some t)
    have l: "load_lines 1 (fst (scan_lines t)) env = (None, env1)" "snd (scan_lines t)"
      using old Some by (auto simp: LoadEnv_def split: prod.splits option.splits if_splits)
    have f: "filter ?kp (fst (scan_lines t)) = filter ?kp ?lines"
      using scanned_lines [OF l(2), of ?kp] tidy Some by (simp add: tidy_file_def)
    have "env_line m x \<noteq> Inr (Some (key, v))" if x: "x \<in> set (fst (scan_lines t))" "?kp x" for m x v
    proof
      assume "env_line m x = Inr (Some (key, v))"
      then have e: "env_line 1 x = Inr (Some (key, v))" using env_line_any by blast
      have "x \<in> set (filter ?kp (fst (scan_lines t)))" using x by simp
      then have "x \<in> set ?lines" unfolding f by simp
      with tidy e have "is_prefix (key @ ''='') (trim_space x)" by (auto simp: tidy_file_def list_all_iff)
      with x(2) show False by simp
    qed
    moreover have "env_line m x = Inr None \<or> (\<exists>v. env_line m x = Inr (Some (key, v)))" if "\<not> ?kp x" for m x
    proof (cases "x = []")
      case True
      have "trim_space [] = []" by (rule trim_space_visible) simp
      with True show ?thesis by (simp add: env_line_def)
    next
      case False
      with that obtain rest where "trim_space x = key @ CHR ''='' # rest" by (auto simp: is_prefix_append)
      from key_line [OF key(1,2) _ this] set show ?thesis by (auto simp: plain_setting_def)
    qed
    moreover have "agree_but key env env" by (simp add: agree_but_def)
    ultimately have "\<exists>f'. load_lines 1 (filter ?kp (fst (scan_lines t))) env = (None, f') \<and> agree_but key env1 f' \<and>
        fmlookup f' key = fmlookup env key"
      by (intro load_lines_but [OF l(1)]) auto
    then show ?thesis unfolding f .
  qed
  then obtain f' where f': "load_lines 1 (filter ?kp ?lines) env = (None, f')" "agree_but key env1 f'"
    "fmlookup f' key = fmlookup env key" by blast
  have setting: "env_line n (key @ CHR ''='' # value) = Inr (Some (key, value))" for n
  proof -
    have "trim_space key = key" "trim_space (key @ ''='' @ value) = key @ CHR ''='' # value"
      "unquote_value (trim_space value) = value"
      using set(1) by (simp_all add: plain_setting_def)
    with key_line [OF key(1,2)] show ?thesis by simp
  qed
  have has: "go_has f' key = go_has env key" using f'(3) by (simp add: go_has_def flip: fmlookup_dom_iff)
  have "load_lines 1 (env_output key value ?raw) env = (None, if go_has env key then f' else fmupd key value f')"
    using f'(1) has set(1) by (simp add: env_output_def load_lines_append setting plain_setting_def)
  then have "LoadEnv (d_target d') env = (None, if go_has env key then f' else fmupd key value f')"
    by (simp add: LoadEnv_def written scan)
  with f'(2,3) show ?thesis by (simp add: agree_but_def)
qed

theorem env_save_load_witness:
  "(let d' = snd (SaveEnvValue None True ''TMUXATLAS_A'' ''v'' \<lparr>d_target = None, d_temp = None\<rparr>) in
     fmlookup (snd (LoadEnv (d_target d') fmempty)) ''TMUXATLAS_A'' = Some ''v'')"
proof -
  let ?d = "\<lparr>d_target = None, d_temp = None\<rparr> :: string dir"
  have "list_all visible ''TMUXATLAS_A''" "list_all visible ''v''" "list_all visible (''TMUXATLAS_A'' @ ''='' @ ''v'')"
    by (simp_all add: visible_letter) (simp add: visible_def byte_val_def)
  from this [THEN trim_space_visible] have plain: "plain_setting ''TMUXATLAS_A'' ''v''"
    by (simp add: plain_setting_def unquote_value_def setenv_ok_def char_of_def bit_simps)
  have empty: "trim_space [] = []" by (rule trim_space_visible) simp
  have tidy: "tidy_file ''TMUXATLAS_A'' (case d_target ?d of None \<Rightarrow> [] | Some t \<Rightarrow> t)"
    by (simp add: tidy_file_def trim_suffix_char_def scanLimit_def env_line_def empty)
  have "fst (SaveEnvValue None True ''TMUXATLAS_A'' ''v'' ?d) = None"
    by (simp add: SaveEnvValue_def env_prefix_def newline_def replace_env_def dir_defs Let_def char_of_def bit_simps)
  then obtain d' where save: "SaveEnvValue None True ''TMUXATLAS_A'' ''v'' ?d = (None, d')"
    by (cases "SaveEnvValue None True ''TMUXATLAS_A'' ''v'' ?d") auto
  have "LoadEnv (d_target ?d) fmempty = (None, fmempty)" by (simp add: LoadEnv_def)
  from env_save_load [OF _ save this plain _ tidy] save show ?thesis
    by (auto simp: no_temp_def scanLimit_def split: prod.splits)
qed

text \<open>A blank before the equals sign is enough for the old value to survive a save and to win.\<close>

lemma spaced_key_survives:
  "env_output ''TMUXATLAS_A'' ''2'' ''TMUXATLAS_A =1'' = [''TMUXATLAS_A =1'', ''TMUXATLAS_A=2'']"
proof -
  have "trim_space ''TMUXATLAS_A =1'' = ''TMUXATLAS_A =1''"
    by (rule trim_space_edges) (simp add: visible_letter)
  then show ?thesis
    by (simp add: env_output_def trim_suffix_char_def newline_def char_of_def bit_simps)
qed

end
