(* ===== verification/ServiceUnit.thy ===== *)
theory ServiceUnit
  imports EnvFile
begin

text \<open>
  The user service (\<open>pkg/commands/install\<close>) and its discovery by the updater
  (\<open>pkg/commands/update/service.go\<close>): the roles, the unit file, the commands that install and
  remove a service as lists of actions, and the parser that finds the executable again.  The URL
  parser, \<open>filepath.Join\<close> and \<open>strconv.Unquote\<close> are arguments.
\<close>

subsection \<open>Roles\<close>

record service_role =
  sr_mode :: string
  sr_command :: string
  sr_systemdName :: string
  sr_launchdLabel :: string
  sr_description :: string
  sr_environmentName :: string
  sr_environmentValue :: string

text \<open>What \<open>validatePublicURL\<close> reads of a parsed URL; \<open>pu_text\<close> is \<open>String()\<close>.\<close>

record public_url =
  pu_abs :: bool
  pu_host :: string
  pu_hostname :: string
  pu_scheme :: string
  pu_user :: bool
  pu_path :: string
  pu_query :: string
  pu_fragment :: string
  pu_text :: string

definition validatePublicURL :: "(string \<Rightarrow> public_url option) \<Rightarrow> string \<Rightarrow> string + string" where
  "validatePublicURL parse raw =
     (case parse raw of
        None \<Rightarrow> Inl ''public URL must be an absolute HTTP(S) URL''
      | Some u \<Rightarrow>
          if \<not> pu_abs u \<or> pu_host u = [] then Inl ''public URL must be an absolute HTTP(S) URL''
          else if pu_scheme u \<noteq> ''http'' \<and> pu_scheme u \<noteq> ''https'' then Inl ''public URL must use HTTP or HTTPS''
          else if pu_user u \<or> (pu_path u \<noteq> [] \<and> pu_path u \<noteq> ''/'') \<or> pu_query u \<noteq> [] \<or> pu_fragment u \<noteq> []
          then Inl ''public URL must not contain credentials, a path, query, or fragment''
          else if pu_scheme u = ''http'' \<and> to_lower (pu_hostname u) \<notin> {''localhost'', ''127.0.0.1'', ''::1''}
          then Inl ''public URL must use HTTPS except on localhost''
          else Inr (trim_suffix_char CHR ''/'' (pu_text u)))"

definition roleFromCommand :: "(string \<Rightarrow> public_url option) \<Rightarrow> string \<Rightarrow> string \<Rightarrow> string \<Rightarrow> string + service_role" where
  "roleFromCommand parse mode public_url hub =
     (if mode = ''server'' then
        (case validatePublicURL parse public_url of
           Inl e \<Rightarrow> Inl e
         | Inr u \<Rightarrow> Inr \<lparr>sr_mode = ''server'', sr_command = ''server'', sr_systemdName = ''tmuxatlas.service'',
             sr_launchdLabel = ''com.tmuxatlas.server'', sr_description = ''TmuxAtlas - Web dashboard for tmux sessions'',
             sr_environmentName = ''TMUXATLAS_PUBLIC_URL'', sr_environmentValue = u\<rparr>)
      else if mode = ''hub'' then
        (case validatePublicURL parse public_url of
           Inl e \<Rightarrow> Inl e
         | Inr u \<Rightarrow> Inr \<lparr>sr_mode = ''hub'', sr_command = ''hub'', sr_systemdName = ''tmuxatlas.service'',
             sr_launchdLabel = ''com.tmuxatlas.server'', sr_description = ''TmuxAtlas - Remote-only Hub'',
             sr_environmentName = ''TMUXATLAS_PUBLIC_URL'', sr_environmentValue = u\<rparr>)
      else if mode = ''agent'' then
        (case validatePublicURL parse hub of
           Inl e \<Rightarrow> Inl (''hub URL: '' @ e)
         | Inr u \<Rightarrow> Inr \<lparr>sr_mode = ''agent'', sr_command = ''agent'', sr_systemdName = ''tmuxatlas-agent.service'',
             sr_launchdLabel = ''com.tmuxatlas.agent'', sr_description = ''TmuxAtlas - Headless tmux agent'',
             sr_environmentName = ''TMUXATLAS_HUB'', sr_environmentValue = u\<rparr>)
      else Inl ''mode must be server, hub, or agent'')"

subsection \<open>The unit file and the property list\<close>

definition systemd_lines :: "service_role \<Rightarrow> string \<Rightarrow> string \<Rightarrow> string list" where
  "systemd_lines role binPath path =
     [''[Unit]'', ''Description='' @ sr_description role, ''After=default.target'', [], ''[Service]'', ''Type=simple'',
      ''ExecStart='' @ binPath @ '' '' @ sr_command role, ''Restart=on-failure'', ''RestartSec=5'',
      ''Environment=PATH='' @ path,
      ''Environment='' @ sr_environmentName role @ ''='' @ sr_environmentValue role,
      ''Environment=TMUXATLAS_ROLE='' @ sr_mode role, [], ''[Install]'', ''WantedBy=default.target'']"

definition systemdUnit :: "service_role \<Rightarrow> string \<Rightarrow> string \<Rightarrow> string" where
  "systemdUnit role binPath path = join_with [newline] (systemd_lines role binPath path) @ [newline]"

definition tabs :: "nat \<Rightarrow> string" where "tabs n = replicate n (char_of (9 :: nat))"

definition quoted :: "string \<Rightarrow> string" where "quoted s = [CHR 0x22] @ s @ [CHR 0x22]"

definition xml_key :: "nat \<Rightarrow> string \<Rightarrow> string" where "xml_key n s = tabs n @ ''<key>'' @ s @ ''</key>''"

definition xml_string :: "nat \<Rightarrow> string \<Rightarrow> string" where "xml_string n s = tabs n @ ''<string>'' @ s @ ''</string>''"

definition launchdPlist :: "service_role \<Rightarrow> string \<Rightarrow> string \<Rightarrow> string \<Rightarrow> string" where
  "launchdPlist role binPath path logDir =
     join_with [newline]
       [''<?xml version='' @ quoted ''1.0'' @ '' encoding='' @ quoted ''UTF-8'' @ ''?>'',
        ''<!DOCTYPE plist PUBLIC '' @ quoted ''-//Apple//DTD PLIST 1.0//EN'' @ '' '' @
          quoted ''http://www.apple.com/DTDs/PropertyList-1.0.dtd'' @ ''>'',
        ''<plist version='' @ quoted ''1.0'' @ ''>'', ''<dict>'',
        xml_key 1 ''Label'', xml_string 1 (sr_launchdLabel role),
        xml_key 1 ''ProgramArguments'', tabs 1 @ ''<array>'', xml_string 2 binPath, xml_string 2 (sr_command role), tabs 1 @ ''</array>'',
        xml_key 1 ''RunAtLoad'', tabs 1 @ ''<true/>'', xml_key 1 ''KeepAlive'', tabs 1 @ ''<true/>'',
        xml_key 1 ''StandardOutPath'', xml_string 1 (logDir @ ''/'' @ sr_launchdLabel role @ ''.stdout.log''),
        xml_key 1 ''StandardErrorPath'', xml_string 1 (logDir @ ''/'' @ sr_launchdLabel role @ ''.stderr.log''),
        xml_key 1 ''EnvironmentVariables'', tabs 1 @ ''<dict>'', xml_key 2 ''PATH'', xml_string 2 path,
        xml_key 2 (sr_environmentName role), xml_string 2 (sr_environmentValue role),
        xml_key 2 ''TMUXATLAS_ROLE'', xml_string 2 (sr_mode role), tabs 1 @ ''</dict>'', ''</dict>'', ''</plist>''] @ [newline]"

subsection \<open>Installing and removing\<close>

text \<open>
  What the commands do outside: with \<open>WriteFile\<close> as create and write.  \<open>ie_ok\<close> says which
  actions succeed; the errors of the ignored ones have no effect on what follows.
\<close>

datatype sys_action = MkdirAll string | WriteFile string string | RemoveFile string
  | DisableNow string | DaemonReload | EnableNow string | LaunchUnload string | LaunchLoad string

record install_env =
  ie_parse :: "string \<Rightarrow> public_url option"
  ie_join :: "string list \<Rightarrow> string"
  ie_executable :: "string option"
  ie_config :: "string option"
  ie_home :: "string option"
  ie_path :: string
  ie_exists :: "string \<Rightarrow> bool"
  ie_ok :: "sys_action \<Rightarrow> bool"

fun run_actions :: "(sys_action \<Rightarrow> bool) \<Rightarrow> (sys_action \<times> string option) list \<Rightarrow> sys_action list \<times> string option" where
  "run_actions ok [] = ([], None)"
| "run_actions ok ((a, failure) # rest) =
     (if ok a then (case run_actions ok rest of (as, e) \<Rightarrow> (a # as, e))
      else case failure of Some e \<Rightarrow> ([], Some e) | None \<Rightarrow> run_actions ok rest)"

definition installLinux :: "install_env \<Rightarrow> string \<Rightarrow> string \<Rightarrow> string \<Rightarrow> sys_action list \<times> string option" where
  "installLinux env mode public_url hub =
     (case roleFromCommand (ie_parse env) mode public_url hub of
        Inl e \<Rightarrow> ([], Some e)
      | Inr role \<Rightarrow>
          (case (ie_executable env, ie_config env) of
             (None, _) \<Rightarrow> ([], Some ''could not determine executable path'')
           | (_, None) \<Rightarrow> ([], Some ''could not determine config directory'')
           | (Some binPath, Some configDir) \<Rightarrow>
               (let unitDir = ie_join env [configDir, ''systemd'', ''user''];
                    other = (if sr_mode role \<noteq> ''agent'' then ''tmuxatlas-agent.service'' else ''tmuxatlas.service'') in
                run_actions (ie_ok env)
                  ([(MkdirAll unitDir, Some ''could not create systemd user directory''),
                    (WriteFile (ie_join env [unitDir, sr_systemdName role]) (systemdUnit role binPath (ie_path env)),
                       Some ''could not write unit file''),
                    (DisableNow other, None)] @
                   (if ie_exists env (ie_join env [unitDir, ''guppi.service'']) then [(DisableNow ''guppi.service'', None)] else []) @
                   [(DaemonReload, Some ''systemctl daemon-reload failed''),
                    (EnableNow (sr_systemdName role), Some ''systemctl enable failed'')]))))"

definition installDarwin :: "install_env \<Rightarrow> string \<Rightarrow> string \<Rightarrow> string \<Rightarrow> sys_action list \<times> string option" where
  "installDarwin env mode public_url hub =
     (case roleFromCommand (ie_parse env) mode public_url hub of
        Inl e \<Rightarrow> ([], Some e)
      | Inr role \<Rightarrow>
          (case (ie_executable env, ie_home env) of
             (None, _) \<Rightarrow> ([], Some ''could not determine executable path'')
           | (_, None) \<Rightarrow> ([], Some ''could not determine home directory'')
           | (Some binPath, Some home) \<Rightarrow>
               (let agentDir = ie_join env [home, ''Library'', ''LaunchAgents''];
                    logDir = ie_join env [home, ''Library'', ''Logs''];
                    plistPath = ie_join env [agentDir, sr_launchdLabel role @ ''.plist''];
                    other = (if sr_mode role = ''server'' then ''com.tmuxatlas.agent'' else ''com.tmuxatlas.server'');
                    legacy = ie_join env [agentDir, ''com.guppi.server.plist''] in
                run_actions (ie_ok env)
                  ([(MkdirAll agentDir, Some ''could not create LaunchAgents directory''),
                    (WriteFile plistPath (launchdPlist role binPath (ie_path env) logDir), Some ''could not write plist file''),
                    (LaunchUnload (ie_join env [agentDir, other @ ''.plist'']), None)] @
                   (if ie_exists env legacy then [(LaunchUnload legacy, None)] else []) @
                   [(LaunchLoad plistPath, Some ''launchctl load failed'')]))))"

text \<open>\<open>deployment\<close> is the variable \<open>TMUXATLAS_DEPLOYMENT\<close>, compared without regard to (ASCII) case.\<close>

definition installExecute :: "install_env \<Rightarrow> string \<Rightarrow> string \<Rightarrow> string \<Rightarrow> string \<Rightarrow> string \<Rightarrow> sys_action list \<times> string option" where
  "installExecute env deployment goos mode public_url hub =
     (if to_lower deployment = ''docker'' then ([], Some ''service installation is unavailable in Docker'')
      else if goos = ''linux'' then installLinux env mode public_url hub
      else if goos = ''darwin'' then installDarwin env mode public_url hub
      else ([], Some (''unsupported platform: '' @ goos)))"

text \<open>A file that is not there is removed without an error: \<open>ie_exists\<close> is consulted first.\<close>

definition uninstallLinux :: "install_env \<Rightarrow> string \<Rightarrow> sys_action list \<times> string option" where
  "uninstallLinux env mode =
     (case ie_config env of
        None \<Rightarrow> ([], Some ''could not determine config directory'')
      | Some configDir \<Rightarrow>
          (let name = (if mode = ''agent'' then ''tmuxatlas-agent.service'' else ''tmuxatlas.service'');
               unitPath = ie_join env [configDir, ''systemd'', ''user'', name] in
           run_actions (ie_ok env)
             ([(DisableNow name, None)] @
              (if ie_exists env unitPath then [(RemoveFile unitPath, Some ''could not remove unit file'')] else []) @
              [(DaemonReload, None)])))"

definition uninstallDarwin :: "install_env \<Rightarrow> string \<Rightarrow> sys_action list \<times> string option" where
  "uninstallDarwin env mode =
     (case ie_home env of
        None \<Rightarrow> ([], Some ''could not determine home directory'')
      | Some home \<Rightarrow>
          (let label = (if mode = ''agent'' then ''com.tmuxatlas.agent'' else ''com.tmuxatlas.server'');
               plistPath = ie_join env [home, ''Library'', ''LaunchAgents'', label @ ''.plist''] in
           run_actions (ie_ok env)
             ([(LaunchUnload plistPath, None)] @
              (if ie_exists env plistPath then [(RemoveFile plistPath, Some ''could not remove plist file'')] else []))))"

subsection \<open>Discovery\<close>

definition execstart_value :: "(string \<Rightarrow> string option) \<Rightarrow> string \<Rightarrow> string + string" where
  "execstart_value unquote value =
     (if value = [] then Inl ''systemd ExecStart is empty''
      else if hd value = CHR 0x22 then
        (let q = (if CHR 0x22 \<in> set (tl value) then CHR 0x22 # takeWhile (\<lambda>c. c \<noteq> CHR 0x22) (tl value) @ [CHR 0x22] else value) in
         case unquote q of None \<Rightarrow> Inl ''parse quoted systemd ExecStart'' | Some path \<Rightarrow> Inr path)
      else case GoStrings.fields value of [] \<Rightarrow> Inl ''systemd ExecStart is empty'' | path # _ \<Rightarrow> Inr path)"

fun first_execstart :: "(string \<Rightarrow> string option) \<Rightarrow> string list \<Rightarrow> (string + string) option" where
  "first_execstart unquote [] = None"
| "first_execstart unquote (l # ls) =
     (if is_prefix ''ExecStart='' (trim_space l)
      then Some (execstart_value unquote (trim_space (trim_prefix ''ExecStart='' (trim_space l))))
      else first_execstart unquote ls)"

definition parseSystemdExecStart :: "(string \<Rightarrow> string option) \<Rightarrow> string \<Rightarrow> string + string" where
  "parseSystemdExecStart unquote raw =
     (case scan_lines raw of
        (ls, ok) \<Rightarrow>
          (case first_execstart unquote ls of
             Some r \<Rightarrow> r
           | None \<Rightarrow> Inl (if ok then ''systemd service has no ExecStart'' else ''bufio.Scanner: token too long'')))"

record service_info =
  si_kind :: string
  si_name :: string
  si_definition :: string
  si_executable :: string
  si_active :: bool
  si_role :: string

datatype file_read = Missing | Unreadable string | Content string

fun discover_names :: "(string \<Rightarrow> string option) \<Rightarrow> (string \<Rightarrow> string) \<Rightarrow> (string \<Rightarrow> file_read) \<Rightarrow> (string \<Rightarrow> bool)
    \<Rightarrow> string list \<Rightarrow> service_info option \<Rightarrow> string + service_info option" where
  "discover_names unquote path_of read active [] inactive = Inr inactive"
| "discover_names unquote path_of read active (name # rest) inactive =
     (case read (path_of name) of
        Missing \<Rightarrow> discover_names unquote path_of read active rest inactive
      | Unreadable e \<Rightarrow> Inl e
      | Content raw \<Rightarrow>
          (case parseSystemdExecStart unquote raw of
             Inl e \<Rightarrow> Inl (path_of name @ '': '' @ e)
           | Inr executable \<Rightarrow>
               (let service = \<lparr>si_kind = ''systemd'', si_name = name, si_definition = path_of name, si_executable = executable,
                      si_active = active name,
                      si_role = (if contains_sub ''agent'' name then ''agent''
                        else if contains_sub '' hub'' raw then ''hub'' else ''standalone'')\<rparr> in
                if active name then Inr (Some service)
                else discover_names unquote path_of read active rest
                  (case inactive of None \<Rightarrow> Some service | Some _ \<Rightarrow> inactive))))"

definition discoverSystemdService :: "(string \<Rightarrow> string option) \<Rightarrow> (string list \<Rightarrow> string) \<Rightarrow> string option \<Rightarrow> (string \<Rightarrow> file_read)
    \<Rightarrow> (string \<Rightarrow> bool) \<Rightarrow> string + service_info option" where
  "discoverSystemdService unquote join config read active =
     (case config of
        None \<Rightarrow> Inl ''neither $XDG_CONFIG_HOME nor $HOME are defined''
      | Some configDir \<Rightarrow>
          discover_names unquote (\<lambda>name. join [configDir, ''systemd'', ''user'', name]) read active
            [''tmuxatlas-agent.service'', ''tmuxatlas.service''] None)"

subsection \<open>An installed service is found again\<close>

text \<open>What the actions leave: unit files, and the services that are enabled and running.\<close>

record system_state =
  sy_files :: "(string, string) fmap"
  sy_active :: "string fset"

fun apply_action :: "system_state \<Rightarrow> sys_action \<Rightarrow> system_state" where
  "apply_action s (WriteFile p t) = s\<lparr>sy_files := fmupd p t (sy_files s)\<rparr>"
| "apply_action s (RemoveFile p) = s\<lparr>sy_files := fmdrop p (sy_files s)\<rparr>"
| "apply_action s (EnableNow n) = s\<lparr>sy_active := finsert n (sy_active s)\<rparr>"
| "apply_action s (DisableNow n) = s\<lparr>sy_active := sy_active s |-| {|n|}\<rparr>"
| "apply_action s (LaunchLoad p) = s\<lparr>sy_active := finsert p (sy_active s)\<rparr>"
| "apply_action s (LaunchUnload p) = s\<lparr>sy_active := sy_active s |-| {|p|}\<rparr>"
| "apply_action s _ = s"

definition read_file :: "system_state \<Rightarrow> string \<Rightarrow> file_read" where
  "read_file s p = (case fmlookup (sy_files s) p of None \<Rightarrow> Missing | Some t \<Rightarrow> Content t)"

definition other_service :: "service_role \<Rightarrow> string" where
  "other_service role = (if sr_mode role = ''agent'' then ''tmuxatlas.service'' else ''tmuxatlas-agent.service'')"

text \<open>A path that systemd and the parser read as one word, and texts that fit on the lines of a unit file.\<close>

definition plain_path :: "string \<Rightarrow> bool" where
  "plain_path p = (p \<noteq> [] \<and> list_all visible p \<and> hd p \<noteq> CHR 0x22)"

definition plain_lines :: "string list \<Rightarrow> bool" where
  "plain_lines ls = (\<forall>l\<in>set ls. length l < scanLimit \<and> newline \<notin> set l \<and> char_of (13 :: nat) \<notin> set l)"

lemma run_actions_ok:
  "run_actions ok as = (performed, None) \<Longrightarrow> performed = filter ok (map fst as) \<and> (\<forall>(a, failure)\<in>set as. failure \<noteq> None \<longrightarrow> ok a)"
  by (induction ok as arbitrary: performed rule: run_actions.induct) (auto split: if_splits option.splits prod.splits)

lemma visible_not_space: "visible c \<Longrightarrow> c \<notin> set (bytes_of [9, 10, 11, 12, 13, 32, 194, 225, 226, 227])"
  by (auto simp: visible_def bytes_of_def byte_val_char_of)

lemma role_cases:
  assumes "roleFromCommand parse mode public_url hub = Inr role"
  shows "sr_mode role = mode \<and> sr_command role = mode \<and> mode \<in> {''server'', ''hub'', ''agent''} \<and>
    sr_systemdName role = (if mode = ''agent'' then ''tmuxatlas-agent.service'' else ''tmuxatlas.service'')"
  using assms by (auto simp: roleFromCommand_def split: if_splits sum.splits)

lemma unit_parses:
  assumes role: "roleFromCommand parse mode public_url hub = Inr role" and path: "plain_path bin"
    and lines: "plain_lines (systemd_lines role bin pathvar)"
  shows "parseSystemdExecStart unquote (systemdUnit role bin pathvar) = Inr bin"
proof -
  let ?start = "bin @ '' '' @ sr_command role"
  from role_cases [OF role] have cmd: "sr_command role \<in> {''server'', ''hub'', ''agent''}" by auto
  have vis: "list_all visible (sr_command role)" "sr_command role \<noteq> []"
    using cmd by (auto simp: visible_letter)
  have bin: "bin \<noteq> []" "list_all visible bin" "hd bin \<noteq> CHR 0x22" using path by (simp_all add: plain_path_def)
  have last: "visible (last (sr_command role))" "visible (hd bin)" using vis bin by (auto simp: list_all_iff)
  have f: "GoStrings.fields ?start = [bin, sr_command role]"
    using fields_join [of "[bin, sr_command role]"] vis bin visible_not_space by (auto simp: list_all_iff)
  have t: "trim_space ?start = ?start"
    by (rule trim_space_edges) (use last bin vis in \<open>auto simp: hd_append last_append\<close>)
  have tl: "trim_space (''ExecStart='' @ ?start) = ''ExecStart='' @ ?start"
    by (rule trim_space_edges) (use last vis in \<open>auto simp: last_append visible_letter\<close>)
  have v: "execstart_value unquote ?start = Inr bin"
    using bin f by (simp add: execstart_value_def hd_append)
  have scan: "scan_lines (systemdUnit role bin pathvar) = (systemd_lines role bin pathvar, True)"
    unfolding systemdUnit_def by (rule scan_joined) (use lines in \<open>simp_all add: plain_lines_def systemd_lines_def\<close>)
  have trims: "trim_space ''[Unit]'' = ''[Unit]''" "trim_space [] = []" "trim_space ''[Service]'' = ''[Service]''"
    "trim_space ''After=default.target'' = ''After=default.target''" "trim_space ''Type=simple'' = ''Type=simple''"
    by (rule trim_space_edges, simp add: visible_def byte_val_def)+
  obtain d where d: "trim_space (''Description='' @ sr_description role) = CHR ''D'' # d"
  proof -
    have "trim_space (''Description='' @ sr_description role) = ''Description='' @ sr_description role"
      by (rule trim_space_edges)
         (use role in \<open>auto simp: roleFromCommand_def visible_letter split: if_splits sum.splits\<close>)
    then show thesis by (intro that) simp
  qed
  have "first_execstart unquote (systemd_lines role bin pathvar) = Some (Inr bin)"
    using tl t v by (simp add: systemd_lines_def trims d [simplified] trim_prefix_def)
  with scan show ?thesis by (simp add: parseSystemdExecStart_def)
qed

text \<open>What the successful installation of a role leaves behind.\<close>

lemma installed:
  assumes "installLinux env mode public_url hub = (performed, None)"
    and "roleFromCommand (ie_parse env) mode public_url hub = Inr role"
    and "ie_executable env = Some bin" and "ie_config env = Some dir"
    and "after = foldl apply_action before performed"
  shows "sy_files after = fmupd (ie_join env [ie_join env [dir, ''systemd'', ''user''], sr_systemdName role])
      (systemdUnit role bin (ie_path env)) (sy_files before)"
    and "sr_systemdName role |\<in>| sy_active after"
    and "ie_ok env (DisableNow (other_service role)) \<Longrightarrow> other_service role |\<notin>| sy_active after"
proof -
  let ?path = "ie_join env [ie_join env [dir, ''systemd'', ''user''], sr_systemdName role]"
  let ?unit = "WriteFile ?path (systemdUnit role bin (ie_path env))"
  let ?steps = "[(MkdirAll (ie_join env [dir, ''systemd'', ''user'']), Some ''could not create systemd user directory''),
      (?unit, Some ''could not write unit file''), (DisableNow (other_service role), None)] @
     (if ie_exists env (ie_join env [ie_join env [dir, ''systemd'', ''user''], ''guppi.service'']) then [(DisableNow ''guppi.service'', None)] else []) @
     [(DaemonReload, Some ''systemctl daemon-reload failed''), (EnableNow (sr_systemdName role), Some ''systemctl enable failed'')]"
  have "run_actions (ie_ok env) ?steps = (performed, None)"
    using assms(1-4) by (auto simp: installLinux_def Let_def other_service_def split: if_splits)
  from run_actions_ok [OF this] have p: "performed = filter (ie_ok env) (map fst ?steps)"
    and ok: "ie_ok env ?unit" "ie_ok env (EnableNow (sr_systemdName role))" by (auto split: if_splits)
  have names: "sr_systemdName role \<noteq> other_service role" "other_service role \<noteq> ''guppi.service''"
    using role_cases [OF assms(2)] by (auto simp: other_service_def)
  show "sy_files after = fmupd ?path (systemdUnit role bin (ie_path env)) (sy_files before)"
    and "sr_systemdName role |\<in>| sy_active after" using ok names unfolding assms(5) p by auto
  show "other_service role |\<notin>| sy_active after" if "ie_ok env (DisableNow (other_service role))"
    using ok names that unfolding assms(5) p by auto
qed


definition demo_url :: public_url where
  "demo_url = \<lparr>pu_abs = True, pu_host = ''h.example'', pu_hostname = ''h.example'', pu_scheme = ''https'', pu_user = False,
     pu_path = [], pu_query = [], pu_fragment = [], pu_text = ''https://h.example''\<rparr>"

definition demo_install :: install_env where
  "demo_install = \<lparr>ie_parse = (\<lambda>_. Some demo_url), ie_join = join_with ''/'', ie_executable = Some ''/bin/tmuxatlas'',
     ie_config = Some ''/c'', ie_home = Some ''/h'', ie_path = ''/bin'', ie_exists = (\<lambda>_. False), ie_ok = (\<lambda>_. True)\<rparr>"

definition demo_hub_role :: service_role where
  "demo_hub_role = \<lparr>sr_mode = ''hub'', sr_command = ''hub'', sr_systemdName = ''tmuxatlas.service'',
     sr_launchdLabel = ''com.tmuxatlas.server'', sr_description = ''TmuxAtlas - Remote-only Hub'',
     sr_environmentName = ''TMUXATLAS_PUBLIC_URL'', sr_environmentValue = ''https://h.example''\<rparr>"

lemma demo_hub_install: "roleFromCommand (ie_parse demo_install) ''hub'' [] [] = Inr demo_hub_role"
  by (simp add: roleFromCommand_def validatePublicURL_def demo_install_def demo_url_def trim_suffix_char_def demo_hub_role_def)


text \<open>
  On macOS the service to unload is chosen by \<open>mode = server\<close> alone, so installing a hub unloads
  the hub's own label and leaves an installed agent running, unlike on Linux.
\<close>

lemma darwin_hub_keeps_agent:
  "snd (installDarwin demo_install ''hub'' [] []) = None \<and>
   (let after = foldl apply_action \<lparr>sy_files = fmempty, sy_active = {|''/h/Library/LaunchAgents/com.tmuxatlas.agent.plist''|}\<rparr>
      (fst (installDarwin demo_install ''hub'' [] [])) in
    ''/h/Library/LaunchAgents/com.tmuxatlas.agent.plist'' |\<in>| sy_active after \<and>
    ''/h/Library/LaunchAgents/com.tmuxatlas.server.plist'' |\<in>| sy_active after)"
proof -
  have i: "installDarwin demo_install ''hub'' [] [] =
      ([MkdirAll ''/h/Library/LaunchAgents'',
        WriteFile ''/h/Library/LaunchAgents/com.tmuxatlas.server.plist''
          (launchdPlist demo_hub_role ''/bin/tmuxatlas'' ''/bin'' ''/h/Library/Logs''),
        LaunchUnload ''/h/Library/LaunchAgents/com.tmuxatlas.server.plist'',
        LaunchLoad ''/h/Library/LaunchAgents/com.tmuxatlas.server.plist''], None)"
    by (simp add: installDarwin_def demo_hub_install) (simp add: demo_install_def demo_hub_role_def Let_def)
  show ?thesis unfolding i by simp
qed

end
