(* ===== verification/AgentSetup.thy ===== *)
theory AgentSetup
  imports ServiceUnit Projection
begin

text \<open>
  The hooks of the coding agents (\<open>pkg/commands/agent-setup/agent_setup.go\<close>): the files written
  for each agent as lists of actions (those of \<open>ServiceUnit\<close>), and the edit of Codex's TOML file.
  JSON is encoded and decoded by arguments; \<open>quote\<close> is the verb \<open>%q\<close>.
\<close>

subsection \<open>Claude Code\<close>

definition json_object :: "(string \<times> gval) list \<Rightarrow> gval" where
  "json_object fs = GMap (Some (fmap_of_list fs))"

definition json_array :: "gval list \<Rightarrow> gval" where "json_array xs = GSlice (Some xs)"

definition notify_suffix :: "bool \<Rightarrow> string" where
  "notify_suffix resilient = (if resilient then '' || true'' else [])"

definition claude_hook :: "string \<Rightarrow> bool \<Rightarrow> string \<Rightarrow> string \<Rightarrow> gval" where
  "claude_hook bin resilient matcher arguments =
     json_object [(''matcher'', GString matcher),
       (''hooks'', json_array [json_object [(''type'', GString ''command''),
          (''command'', GString (bin @ '' notify -t claude -s '' @ arguments @ notify_suffix resilient))]])]"

definition quote1 :: "string \<Rightarrow> string" where "quote1 s = [CHR 0x27] @ s @ [CHR 0x27]"

definition claude_hooks :: "string \<Rightarrow> bool \<Rightarrow> gval" where
  "claude_hooks bin resilient =
     (let hook = claude_hook bin resilient in
      json_object
        [(''PreToolUse'', json_array [hook [] (''active -m '' @ quote1 ''Using tool'')]),
         (''PostToolUse'', json_array [hook [] (''active -m '' @ quote1 ''Working'')]),
         (''Notification'', json_array [hook ''permission_prompt'' (''waiting -m '' @ quote1 ''Permission needed''),
            hook ''elicitation_dialog'' (''waiting -m '' @ quote1 ''Needs input'')]),
         (''Stop'', json_array [hook [] (''completed -m '' @ quote1 ''Task complete'')])])"

text \<open>
  The settings with the hooks put in; \<open>None\<close> is the panic of writing to a \<open>nil\<close> map, when the file
  holds \<open>null\<close>.  \<open>dec\<close> gives \<open>None\<close> for a syntax error, \<open>enc\<close> for an error of the encoder.
\<close>

definition setupClaudeDir :: "(string list \<Rightarrow> string) \<Rightarrow> (string \<Rightarrow> (string, gval) fmap option option)
    \<Rightarrow> ((string, gval) fmap \<Rightarrow> string option) \<Rightarrow> (string \<Rightarrow> file_read) \<Rightarrow> (sys_action \<Rightarrow> bool) \<Rightarrow> string \<Rightarrow> bool \<Rightarrow> string
    \<Rightarrow> (sys_action list \<times> string option) option" where
  "setupClaudeDir join dec enc read ok bin resilient configDir =
     (let settingsPath = join [configDir, ''settings.json''] in
      case (case read settingsPath of
              Missing \<Rightarrow> Inr (Some fmempty)
            | Unreadable e \<Rightarrow> Inl e
            | Content data \<Rightarrow> (case dec data of None \<Rightarrow> Inl (''parse '' @ settingsPath) | Some m \<Rightarrow> Inr m)) of
        Inl e \<Rightarrow> Some ([], Some e)
      | Inr None \<Rightarrow> None
      | Inr (Some settings) \<Rightarrow>
          Some (case run_actions ok [(MkdirAll configDir, Some ''mkdir'')] of
            (done1, Some e) \<Rightarrow> (done1, Some e)
          | (done1, None) \<Rightarrow>
              (case enc (fmupd ''hooks'' (claude_hooks bin resilient) settings) of
                 None \<Rightarrow> (done1, Some ''json'')
               | Some out \<Rightarrow>
                   (case run_actions ok [(WriteFile settingsPath out, Some ''write'')] of
                      (done2, e) \<Rightarrow> (done1 @ done2, e)))))"

subsection \<open>Codex\<close>

definition codex_notify :: "string \<Rightarrow> bool \<Rightarrow> string" where
  "codex_notify bin resilient =
     (if resilient
      then ''notify = ['' @ quoted ''bash'' @ '', '' @ quoted ''-c'' @ '', '' @
        quoted (bin @ '' notify -t codex --event-data '' @ [CHR 0x5C, CHR 0x22] @ ''$1'' @ [CHR 0x5C, CHR 0x22] @ '' || true'') @
        '', '' @ quoted ''--'' @ ''] # tmuxatlas-agent-hook''
      else ''notify = ['' @ quoted bin @ '', '' @ quoted ''notify'' @ '', '' @ quoted ''-t'' @ '', '' @ quoted ''codex'' @
        '', '' @ quoted ''--event-data'' @ ''] # tmuxatlas-agent-hook'')"

definition is_notify :: "string \<Rightarrow> bool" where
  "is_notify line = (is_prefix ''notify'' (trim_space line) \<and> contains_sub ''='' (trim_space line))"

definition toml_ignored :: "string \<Rightarrow> bool" where
  "toml_ignored line = (trim_space line = [] \<or> is_prefix ''#'' (trim_space line))"

definition toml_header :: "string \<Rightarrow> bool" where
  "toml_header line = (\<not> toml_ignored line \<and> is_prefix ''['' (trim_space line))"

fun insert_index :: "nat \<Rightarrow> nat \<Rightarrow> string list \<Rightarrow> nat" where
  "insert_index i idx [] = idx"
| "insert_index i idx (line # rest) =
     (if toml_ignored line then insert_index (Suc i) idx rest
      else if is_prefix ''['' (trim_space line) then idx
      else insert_index (Suc i) (Suc i) rest)"

text \<open>An unreadable file counts as an empty one.\<close>

definition codex_lines :: "file_read \<Rightarrow> string list" where
  "codex_lines data = filter (\<lambda>l. \<not> is_notify l) (case data of Content text \<Rightarrow> split_char newline text | _ \<Rightarrow> [])"

definition codex_config :: "string \<Rightarrow> file_read \<Rightarrow> string" where
  "codex_config notifyLine data =
     (let ls = codex_lines data;
          idx = insert_index 0 0 ls;
          content = join_with [newline] (take idx ls @ [notifyLine] @ drop idx ls)
      in if has_suffix content [newline] then content else content @ [newline])"

definition setupCodexDir :: "(string list \<Rightarrow> string) \<Rightarrow> (string \<Rightarrow> file_read) \<Rightarrow> (sys_action \<Rightarrow> bool) \<Rightarrow> string \<Rightarrow> bool \<Rightarrow> string
    \<Rightarrow> sys_action list \<times> string option" where
  "setupCodexDir join read ok bin resilient configDir =
     (let configPath = join [configDir, ''config.toml''] in
      run_actions ok [(MkdirAll configDir, Some ''mkdir''),
        (WriteFile configPath (codex_config (codex_notify bin resilient) (read configPath)), Some ''write'')])"

subsection \<open>Copilot and OpenCode\<close>

definition copilot_hook :: "string \<Rightarrow> bool \<Rightarrow> string \<Rightarrow> string \<Rightarrow> gval" where
  "copilot_hook bin resilient status message =
     json_array [json_object [(''type'', GString ''command''),
       (''bash'', GString (bin @ '' notify -t copilot -s '' @ status @ '' -m '' @ quote1 message @ notify_suffix resilient)),
       (''comment'', GString ''tmuxatlas agent hook'')]]"

definition copilot_hooks :: "string \<Rightarrow> bool \<Rightarrow> (string, gval) fmap" where
  "copilot_hooks bin resilient =
     (let hook = copilot_hook bin resilient in
      fmap_of_list [(''version'', GInt 1),
        (''hooks'', json_object
          [(''sessionStart'', hook ''active'' ''Session started''), (''sessionEnd'', hook ''completed'' ''Session ended''),
           (''preToolUse'', hook ''active'' ''Using tool''), (''postToolUse'', hook ''active'' ''Working''),
           (''userPromptSubmitted'', hook ''active'' ''Thinking''), (''errorOccurred'', hook ''error'' ''Error occurred'')])])"

definition legacy_files :: "(string \<Rightarrow> bool) \<Rightarrow> string list \<Rightarrow> (sys_action \<times> string option) list" where
  "legacy_files exists paths = map (\<lambda>p. (RemoveFile p, None)) (filter exists paths)"

definition setupCopilotDir :: "(string list \<Rightarrow> string) \<Rightarrow> ((string, gval) fmap \<Rightarrow> string option) \<Rightarrow> (string \<Rightarrow> bool)
    \<Rightarrow> (sys_action \<Rightarrow> bool) \<Rightarrow> string \<Rightarrow> bool \<Rightarrow> string \<Rightarrow> sys_action list \<times> string option" where
  "setupCopilotDir join enc exists ok bin resilient configDir =
     (let hooksDir = join [configDir, ''hooks''] in
      case run_actions ok [(MkdirAll hooksDir, Some ''mkdir'')] of
        (done1, Some e) \<Rightarrow> (done1, Some e)
      | (done1, None) \<Rightarrow>
          (case enc (copilot_hooks bin resilient) of
             None \<Rightarrow> (done1, Some ''json'')
           | Some out \<Rightarrow>
               (case run_actions ok ((WriteFile (join [hooksDir, ''tmuxatlas.json'']) out, Some ''write'') #
                   legacy_files exists [join [hooksDir, ''guppi.json'']]) of
                  (done2, e) \<Rightarrow> (done1 @ done2, e))))"

definition plugin_event :: "string \<Rightarrow> string \<Rightarrow> string \<Rightarrow> string" where
  "plugin_event event status message =
     ''    '' @ quoted event @ '': async () => { await notify('' @ quoted status @ '', '' @ quoted message @ ''); },''"

definition opencode_plugin :: "(string \<Rightarrow> string) \<Rightarrow> string \<Rightarrow> string" where
  "opencode_plugin quote bin =
     join_with [newline]
       [''export const TmuxAtlasPlugin = async ({ $ }) => {'',
        ''  const tmuxatlas = '' @ quote bin @ '';'', [],
        ''  const notify = async (status, message) => {'', ''    try {'',
        ''      await $'' @ [CHR 0x60] @ ''${tmuxatlas} notify -t opencode -s ${status} -m ${message}'' @ [CHR 0x60] @ ''.quiet();'',
        ''    } catch (e) {'', ''      // Silent - monitoring should never crash the host tool'', ''    }'', ''  };'', [],
        ''  return {'',
        plugin_event ''permission.asked'' ''waiting'' ''Permission needed'',
        plugin_event ''permission.replied'' ''active'' ''Working'',
        plugin_event ''tool.execute.before'' ''active'' ''Using tool'',
        plugin_event ''tool.execute.after'' ''active'' ''Working'',
        plugin_event ''session.idle'' ''completed'' ''Idle'',
        plugin_event ''session.error'' ''error'' ''Error'',
        ''  };'', ''};''] @ [newline]"

definition setupOpenCodeDir :: "(string list \<Rightarrow> string) \<Rightarrow> (string \<Rightarrow> string) \<Rightarrow> (string \<Rightarrow> bool) \<Rightarrow> (sys_action \<Rightarrow> bool)
    \<Rightarrow> string \<Rightarrow> string \<Rightarrow> sys_action list \<times> string option" where
  "setupOpenCodeDir join quote exists ok bin configDir =
     (let pluginsDir = join [configDir, ''plugins''] in
      run_actions ok
        ([(MkdirAll pluginsDir, Some ''mkdir''),
          (WriteFile (join [pluginsDir, ''tmuxatlas.js'']) (opencode_plugin quote bin), Some ''write'')] @
         legacy_files exists [join [pluginsDir, ''guppi.js''], join [configDir, ''guppi-hook.sh''], join [configDir, ''tmuxatlas-hook.sh'']]))"

text \<open>The directories of one agent, in turn up to the first error.\<close>

fun setup_dirs :: "(string \<Rightarrow> sys_action list \<times> string option) \<Rightarrow> string list \<Rightarrow> sys_action list \<times> string option" where
  "setup_dirs setup [] = ([], None)"
| "setup_dirs setup (dir # dirs) =
     (case setup dir of
        (as, Some e) \<Rightarrow> (as, Some e)
      | (as, None) \<Rightarrow> (case setup_dirs setup dirs of (bs, e) \<Rightarrow> (as @ bs, e)))"

text \<open>The \<open>--config-dir\<close> flags: \<open>agent=path\<close>, several paths for an agent in order.\<close>

fun parse_config_dirs :: "string list \<Rightarrow> (string, string list) fmap \<Rightarrow> string + (string, string list) fmap" where
  "parse_config_dirs [] m = Inr m"
| "parse_config_dirs (val # rest) m =
     (case split_n 2 CHR ''='' val of
        [agent, path] \<Rightarrow>
          if agent = [] \<or> path = [] then Inl ''invalid --config-dir format''
          else parse_config_dirs rest (fmupd agent ((case fmlookup m agent of None \<Rightarrow> [] | Some ps \<Rightarrow> ps) @ [path]) m)
      | _ \<Rightarrow> Inl ''invalid --config-dir format'')"

fun claude_dirs :: "(string \<Rightarrow> (sys_action list \<times> string option) option) \<Rightarrow> string list
    \<Rightarrow> (sys_action list \<times> string option) option" where
  "claude_dirs setup [] = Some ([], None)"
| "claude_dirs setup (dir # dirs) =
     (case setup dir of
        None \<Rightarrow> None
      | Some (as, Some e) \<Rightarrow> Some (as, Some e)
      | Some (as, None) \<Rightarrow> map_option (\<lambda>(bs, e). (as @ bs, e)) (claude_dirs setup dirs))"

record setup_env =
  se_join :: "string list \<Rightarrow> string"
  se_home :: "string option"
  se_read :: "string \<Rightarrow> file_read"
  se_exists :: "string \<Rightarrow> bool"
  se_ok :: "sys_action \<Rightarrow> bool"
  se_dec :: "string \<Rightarrow> (string, gval) fmap option option"
  se_enc :: "(string, gval) fmap \<Rightarrow> string option"
  se_quote :: "string \<Rightarrow> string"
  se_found :: "string \<Rightarrow> bool"

definition agent_dirs :: "setup_env \<Rightarrow> string list \<Rightarrow> string list \<Rightarrow> string list option" where
  "agent_dirs env own extras = map_option (\<lambda>home. se_join env (home # own) # extras) (se_home env)"

definition setup_agent :: "setup_env \<Rightarrow> string \<Rightarrow> bool \<Rightarrow> string \<Rightarrow> string list \<Rightarrow> (sys_action list \<times> string option) option" where
  "setup_agent env bin resilient agent extras =
     (let failed = Some ([], Some ''$HOME is not defined'') in
      if agent = ''claude'' then
        (case agent_dirs env [''.claude''] extras of None \<Rightarrow> failed
         | Some dirs \<Rightarrow> claude_dirs
             (setupClaudeDir (se_join env) (se_dec env) (se_enc env) (se_read env) (se_ok env) bin resilient) dirs)
      else if agent = ''codex'' then
        (case agent_dirs env [''.codex''] extras of None \<Rightarrow> failed
         | Some dirs \<Rightarrow> Some (setup_dirs (setupCodexDir (se_join env) (se_read env) (se_ok env) bin resilient) dirs))
      else if agent = ''copilot'' then
        (case agent_dirs env [''.copilot''] extras of None \<Rightarrow> failed
         | Some dirs \<Rightarrow> Some (setup_dirs (setupCopilotDir (se_join env) (se_enc env) (se_exists env) (se_ok env) bin resilient) dirs))
      else
        (case agent_dirs env [''.config'', ''opencode''] extras of None \<Rightarrow> failed
         | Some dirs \<Rightarrow> Some (setup_dirs (setupOpenCodeDir (se_join env) (se_quote env) (se_exists env) (se_ok env) bin) dirs)))"

definition setup_binary :: "string option \<Rightarrow> string" where
  "setup_binary executable =
     (case executable of None \<Rightarrow> ''tmuxatlas''
      | Some p \<Rightarrow> if contains_sub ''go-build'' p then ''tmuxatlas'' else p)"

text \<open>
  The agents that are found, in turn; an error is printed and the next agent follows.  The
  result has each agent with its actions and its error; \<open>None\<close> is the panic of \<open>setupClaudeDir\<close>.
\<close>

fun setup_agents :: "setup_env \<Rightarrow> string \<Rightarrow> bool \<Rightarrow> bool \<Rightarrow> (string, string list) fmap \<Rightarrow> string list
    \<Rightarrow> (string \<times> sys_action list \<times> string option) list option" where
  "setup_agents env bin dry resilient extra [] = Some []"
| "setup_agents env bin dry resilient extra (agent # rest) =
     (if \<not> se_found env agent then setup_agents env bin dry resilient extra rest
      else case (if dry then Some ([], None)
                 else setup_agent env bin resilient agent (case fmlookup extra agent of None \<Rightarrow> [] | Some ds \<Rightarrow> ds)) of
        None \<Rightarrow> None
      | Some r \<Rightarrow> map_option (\<lambda>rs. (agent, r) # rs) (setup_agents env bin dry resilient extra rest))"

definition agent_setup_Execute :: "setup_env \<Rightarrow> string option \<Rightarrow> bool \<Rightarrow> bool \<Rightarrow> string list
    \<Rightarrow> string + (string \<times> sys_action list \<times> string option) list option" where
  "agent_setup_Execute env executable dry block config_dirs =
     (case parse_config_dirs config_dirs fmempty of
        Inl e \<Rightarrow> Inl e
      | Inr extra \<Rightarrow> Inr (setup_agents env (setup_binary executable) dry (\<not> block) extra
          [''claude'', ''codex'', ''copilot'', ''opencode'']))"

subsection \<open>The edit of Codex's file\<close>

lemma insert_index_bound: "idx \<le> i \<Longrightarrow> idx \<le> insert_index i idx ls \<and> insert_index i idx ls \<le> i + length ls"
proof (induction ls arbitrary: i idx)
  case (Cons l ls)
  from Cons.IH [of idx "Suc i"] Cons.IH [of "Suc i" "Suc i"] Cons.prems show ?case by auto
qed simp

lemma insert_index_ignored: "toml_ignored w \<Longrightarrow> insert_index i idx (ls @ [w]) = insert_index i idx ls"
  by (induction i idx ls rule: insert_index.induct) auto

text \<open>No header comes before the insertion, and between it and the first header only ignored lines.\<close>

lemma insert_index_place:
  assumes "idx \<le> i" and "insert_index i idx ls = k"
  shows "(\<forall>l\<in>set (take (k - i) ls). \<not> toml_header l) \<and>
    (\<forall>l\<in>set (takeWhile (\<lambda>l. \<not> toml_header l) (drop (k - i) ls)). toml_ignored l)"
  using assms
proof (induction ls arbitrary: i idx)
  case (Cons l ls)
  have b: "insert_index (Suc i) (Suc i) ls \<ge> Suc i" using insert_index_bound [of "Suc i" "Suc i" ls] by simp
  show ?case
  proof (cases "toml_ignored l")
    case True
    then have k: "insert_index (Suc i) idx ls = k" using Cons.prems by simp
    from Cons.IH [OF _ k] Cons.prems(1) have ih: "(\<forall>l\<in>set (take (k - Suc i) ls). \<not> toml_header l) \<and>
      (\<forall>l\<in>set (takeWhile (\<lambda>l. \<not> toml_header l) (drop (k - Suc i) ls)). toml_ignored l)" by simp
    show ?thesis
    proof (cases "k \<le> i")
      case True
      with ih \<open>toml_ignored l\<close> show ?thesis by (simp add: toml_header_def)
    next
      case False
      then have "k - i = Suc (k - Suc i)" by simp
      with ih \<open>toml_ignored l\<close> show ?thesis by (simp add: toml_header_def)
    qed
  next
    case ign: False
    show ?thesis
    proof (cases "is_prefix ''['' (trim_space l)")
      case True
      with ign Cons.prems have "k = idx" by simp
      with True ign Cons.prems(1) show ?thesis by (simp add: toml_header_def)
    next
      case False
      then have k: "insert_index (Suc i) (Suc i) ls = k" using Cons.prems ign by simp
      with b have "k - i = Suc (k - Suc i)" by simp
      with Cons.IH [OF _ k] False show ?thesis by (simp add: toml_header_def)
    qed
  qed
qed simp

lemma split_content: "\<lbrakk>ls \<noteq> []; \<forall>l\<in>set ls. newline \<notin> set l; content = join_with [newline] ls\<rbrakk> \<Longrightarrow>
    split_char newline (if has_suffix content [newline] then content else content @ [newline]) =
    (if has_suffix content [newline] then ls else ls @ [[]])"
  using split_join [of ls newline] split_join [of "ls @ [[]]" newline] join_snoc [of ls "[newline]" "[]"] by auto

lemma ignored_empty: "toml_ignored []" "\<not> is_notify []"
proof -
  have "trim_space [] = []" by (rule trim_space_visible) simp
  then show "toml_ignored []" "\<not> is_notify []" by (simp_all add: toml_ignored_def is_notify_def)
qed

text \<open>
  C38. The edit of Codex's file is exact and settles.  The new file has the lines of the old one that
  are not \<open>notify\<close> settings, in their order, and one new line, the notification: no table header
  comes before it, and only blank lines and comments come between it and the first header, so
  that it is a top-level key.  Running the setup again changes nothing.
\<close>

theorem codex_config_exact:
  assumes n: "is_notify notifyLine" "newline \<notin> set notifyLine"
  shows "(\<exists>before after final. split_char newline (codex_config notifyLine data) = before @ [notifyLine] @ after @ final \<and>
      codex_lines data = before @ after \<and> final \<in> {[], [[]]} \<and> (\<forall>l\<in>set before. \<not> toml_header l) \<and>
      (\<forall>l\<in>set (takeWhile (\<lambda>l. \<not> toml_header l) after). toml_ignored l)) \<and>
    codex_config notifyLine (Content (codex_config notifyLine data)) = codex_config notifyLine data"
proof -
  let ?ls = "codex_lines data"
  define k where "k = insert_index 0 0 ?ls"
  let ?new = "take k ?ls @ [notifyLine] @ drop k ?ls"
  let ?content = "join_with [newline] ?new"
  have clean: "\<forall>l\<in>set ?ls. newline \<notin> set l \<and> \<not> is_notify l"
    by (auto simp: codex_lines_def split_char_no_sep split: file_read.splits)
  then have nl: "\<forall>l\<in>set ?new. newline \<notin> set l" using n(2) by (auto dest: in_set_takeD in_set_dropD)
  define final where "final = (if has_suffix ?content [newline] then [] else [[] :: string])"
  have c: "codex_config notifyLine data = (if has_suffix ?content [newline] then ?content else ?content @ [newline])"
    by (simp add: codex_config_def Let_def k_def)
  then have split: "split_char newline (codex_config notifyLine data) = ?new @ final"
    using split_content [OF _ nl refl] by (simp add: final_def)
  have f: "final \<in> {[], [[]]}" by (simp add: final_def)
  have lines: "codex_lines (Content (codex_config notifyLine data)) = ?ls @ final"
  proof -
    have "filter (\<lambda>l. \<not> is_notify l) (take k ?ls) = take k ?ls" "filter (\<lambda>l. \<not> is_notify l) (drop k ?ls) = drop k ?ls"
      using clean by (auto simp: filter_id_conv dest: in_set_takeD in_set_dropD)
    then show ?thesis using f n(1) ignored_empty(2) by (auto simp: codex_lines_def split)
  qed
  have idx: "insert_index 0 0 (?ls @ final) = k"
    using f insert_index_ignored [OF ignored_empty(1)] by (auto simp: k_def)
  have kb: "k \<le> length ?ls" using insert_index_bound [of 0 0 ?ls] by (simp add: k_def)
  have again: "codex_config notifyLine (Content (codex_config notifyLine data)) = codex_config notifyLine data"
  proof (cases "has_suffix ?content [newline]")
    case True
    then have e: "codex_config notifyLine data = ?content" using c by simp
    have l: "codex_lines (Content ?content) = ?ls" using lines True e by (simp add: final_def)
    show ?thesis unfolding e by (simp only: codex_config_def [of notifyLine "Content ?content"] l k_def [symmetric] Let_def True if_True)
  next
    case False
    have j: "join_with [newline] (?new @ [[]]) = ?content @ [newline]" using join_snoc [of ?new "[newline]" "[]"] by simp
    have h: "has_suffix (?content @ [newline]) [newline]" by (auto simp: has_suffix_iff)
    from False have e: "codex_config notifyLine data = ?content @ [newline]" using c by simp
    have l: "codex_lines (Content (?content @ [newline])) = ?ls @ [[]]" using lines False e by (simp add: final_def)
    have i: "insert_index 0 0 (?ls @ [[]]) = k" using idx False by (simp add: final_def)
    have t: "take k (?ls @ [[]]) = take k ?ls" "drop k (?ls @ [[]]) = drop k ?ls @ [[]]" using kb by simp_all
    have n2: "take k ?ls @ [notifyLine] @ drop k ?ls @ [[]] = ?new @ [[]]" by simp
    show ?thesis
      unfolding e by (simp only: codex_config_def [of notifyLine "Content (?content @ [newline])"] l i t n2 j Let_def h if_True)
  qed
  have place: "(\<forall>l\<in>set (take k ?ls). \<not> toml_header l) \<and>
      (\<forall>l\<in>set (takeWhile (\<lambda>l. \<not> toml_header l) (drop k ?ls)). toml_ignored l)"
    using insert_index_place [of 0 0 ?ls k] by (simp add: k_def)
  show ?thesis
    by (rule conjI [OF _ again], rule exI [of _ "take k ?ls"], rule exI [of _ "drop k ?ls"], rule exI [of _ final])
       (use split f place in auto)
qed

text \<open>The lines the setup writes are notifications, when the path of the binary has no line break.\<close>

lemma codex_notify_is_notify:
  assumes "newline \<notin> set bin"
  shows "is_notify (codex_notify bin resilient) \<and> newline \<notin> set (codex_notify bin resilient)"
proof -
  have nl: "newline \<noteq> c" if "32 \<le> byte_val c" for c using that by (auto simp: newline_def byte_val_char_of)
  have v: "visible CHR ''n''" "visible CHR ''k''" by (simp_all add: visible_letter)
  have "trim_space (codex_notify bin resilient) = codex_notify bin resilient"
    by (rule trim_space_edges) (simp add: codex_notify_def quoted_def v)
  moreover have "contains_sub ''='' (codex_notify bin resilient)"
    unfolding contains_sub_iff by (rule exI [of _ "''notify ''"]) (simp add: codex_notify_def)
  ultimately show ?thesis
    using assms nl by (auto simp: is_notify_def codex_notify_def quoted_def byte_val_def)
qed

theorem codex_config_exact_witness:
  "codex_config (codex_notify ''ta'' False) (Content (codex_config (codex_notify ''ta'' False) Missing)) =
     codex_config (codex_notify ''ta'' False) Missing"
proof -
  have "newline \<notin> set ''ta''" by (simp add: newline_def char_of_def bit_simps)
  from codex_notify_is_notify [OF this] have "is_notify (codex_notify ''ta'' False)" "newline \<notin> set (codex_notify ''ta'' False)" by simp_all
  from codex_config_exact [OF this, of Missing] show ?thesis by blast
qed

text \<open>
  Two losses: an existing file that cannot be read is replaced as if it were empty, and the hooks
  the user has configured for Claude Code are replaced, not extended.
\<close>

lemma codex_unreadable_replaced: "codex_config notifyLine (Unreadable e) = codex_config notifyLine Missing"
  by (simp add: codex_config_def codex_lines_def)

lemma claude_hooks_replaced:
  assumes "\<And>a. ok a" and "read (join [configDir, ''settings.json'']) = Content data" and "dec data = Some (Some settings)"
    and "enc (fmupd ''hooks'' (claude_hooks bin resilient) settings) = Some out"
  shows "setupClaudeDir join dec enc read ok bin resilient configDir =
    Some ([MkdirAll configDir, WriteFile (join [configDir, ''settings.json'']) out], None)"
  using assms by (simp add: setupClaudeDir_def Let_def)

end
