(* ===== verification/LocalApi.thy ===== *)
theory LocalApi
  imports PeerManager
begin

text \<open>
  From an agent's hook to the tracker: the command \<open>notify\<close> that a hook runs
  (\<open>pkg/commands/notify/notify.go\<close>) and the handlers of the local socket it talks to
  (\<open>pkg/server/local.go\<close>).  Flags, environment, the answers of tmux, the JSON codec and the
  random codes are arguments.
\<close>

subsection \<open>What a hook reports\<close>

definition clip :: "nat \<Rightarrow> string \<Rightarrow> string" where
  "clip n message = (if length message > n then take n message @ ''...'' else message)"

text \<open>The hook event on the standard input: its name and, for \<open>Stop\<close>, the agent's last message.\<close>

definition stdin_report :: "string \<Rightarrow> string option \<Rightarrow> string \<times> string" where
  "stdin_report name last_message =
     (if name = ''SessionStart'' then (''active'', ''Session started'')
      else if name = ''Stop''
      then (''completed'', case last_message of None \<Rightarrow> ''Task complete''
              | Some msg \<Rightarrow> if msg = [] then ''Task complete'' else clip 100 msg)
      else (''active'', if name \<noteq> [] then name else ''Working''))"

definition parseStdinEvent :: "(string \<Rightarrow> (string \<times> string option) option) \<Rightarrow> string \<Rightarrow> string option
    \<Rightarrow> string + string \<times> string \<times> string" where
  "parseStdinEvent dec tool input =
     (case input of
        None \<Rightarrow> Inl ''failed to read stdin''
      | Some data \<Rightarrow>
          if data = [] then Inl ''no input on stdin''
          else case dec data of
            None \<Rightarrow> Inl ''failed to parse stdin JSON''
          | Some (name, last_message) \<Rightarrow> Inr (tool, stdin_report name last_message))"

definition parseCodexEventData :: "(string \<Rightarrow> (string \<times> string) option) \<Rightarrow> string \<Rightarrow> string + string \<times> string" where
  "parseCodexEventData dec data =
     (case dec data of
        None \<Rightarrow> Inl ''failed to parse codex event JSON''
      | Some (kind, last_message) \<Rightarrow>
          if kind = ''agent-turn-complete''
          then Inr (''completed'', if last_message \<noteq> [] then clip 200 last_message else ''Task complete'')
          else Inr (''active'', if kind = [] then ''Event received'' else kind))"

text \<open>\<open>object\<close>: the data parses as a JSON object.\<close>

definition parseEventData :: "(string \<Rightarrow> (string \<times> string) option) \<Rightarrow> (string \<Rightarrow> bool) \<Rightarrow> string \<Rightarrow> string
    \<Rightarrow> string + string \<times> string" where
  "parseEventData dec object tool data =
     (if tool = ''codex'' then parseCodexEventData dec data
      else if object data then Inr (''active'', ''Event received'')
      else Inl ''failed to parse event JSON'')"

subsection \<open>Where the hook runs\<close>

text \<open>The output of \<open>tmux display-message\<close>, \<open>None\<close> when it fails.\<close>

definition queryPaneContext :: "string option \<Rightarrow> string \<times> int" where
  "queryPaneContext output =
     (case output of
        None \<Rightarrow> ([], 0)
      | Some text \<Rightarrow>
          (case split_n 2 (char_of (9 :: nat)) (trim_space text) of
             [session, window] \<Rightarrow> (session, fst (atoi window))
           | _ \<Rightarrow> ([], 0)))"

definition tmux_query :: "string option \<Rightarrow> string" where
  "tmux_query output = (case output of None \<Rightarrow> [] | Some text \<Rightarrow> trim_space text)"

record tmux_context =
  tc_TMUX_PANE :: string
  tc_pane_output :: "string option"
  tc_session_output :: "string option"
  tc_window_output :: "string option"

definition detectTmuxContext :: "tmux_context \<Rightarrow> string \<times> int \<times> string" where
  "detectTmuxContext tc =
     (let fallback = (trim_space (tmux_query (tc_session_output tc)), fst (atoi (tmux_query (tc_window_output tc))),
            trim_space (tc_TMUX_PANE tc)) in
      if tc_TMUX_PANE tc \<noteq> [] then
        (case queryPaneContext (tc_pane_output tc) of
           (session, window) \<Rightarrow> if session \<noteq> [] then (session, window, tc_TMUX_PANE tc) else fallback)
      else fallback)"

subsection \<open>The command\<close>

text \<open>A flag that is not set is \<open>None\<close> where the command asks for it, and otherwise its zero value.\<close>

record notify_flags =
  nf_tool :: string
  nf_status :: "string option"
  nf_message :: "string option"
  nf_event_data :: "string option"
  nf_stdin :: bool
  nf_session :: string
  nf_window :: "int option"
  nf_pane :: string

record notify_input =
  ni_codex :: "string \<Rightarrow> (string \<times> string) option"
  ni_object :: "string \<Rightarrow> bool"
  ni_hook :: "string \<Rightarrow> (string \<times> string option) option"
  ni_input :: "string option"
  ni_context :: tmux_context

definition or_flag :: "string option \<Rightarrow> string \<Rightarrow> string" where
  "or_flag flag derived = (case flag of Some v \<Rightarrow> v | None \<Rightarrow> derived)"

text \<open>The tool, status and message after the event data and the standard input have been read.\<close>

definition notify_report :: "notify_input \<Rightarrow> notify_flags \<Rightarrow> string + string \<times> string \<times> string" where
  "notify_report i nf =
     (let given = (or_flag (nf_status nf) [], or_flag (nf_message nf) []) in
      case (case nf_event_data nf of
              None \<Rightarrow> Inr given
            | Some data \<Rightarrow>
                (case parseEventData (ni_codex i) (ni_object i) (nf_tool nf) data of
                   Inl e \<Rightarrow> Inl (''event-data parse: '' @ e)
                 | Inr (status, message) \<Rightarrow> Inr (or_flag (nf_status nf) status, or_flag (nf_message nf) message))) of
        Inl e \<Rightarrow> Inl e
      | Inr (status, message) \<Rightarrow>
          if \<not> nf_stdin nf then Inr (nf_tool nf, status, message)
          else (case parseStdinEvent (ni_hook i) (nf_tool nf) (ni_input i) of
             Inl e \<Rightarrow> Inl (''stdin parse: '' @ e)
           | Inr (tool, status', message') \<Rightarrow> Inr (tool, or_flag (nf_status nf) status', or_flag (nf_message nf) message')))"

definition notify_place :: "notify_input \<Rightarrow> notify_flags \<Rightarrow> string \<times> int \<times> string" where
  "notify_place i nf =
     (let window = (case nf_window nf of None \<Rightarrow> 0 | Some w \<Rightarrow> w) in
      if nf_session nf = [] \<or> nf_pane nf = [] then
        (case detectTmuxContext (ni_context i) of
           (session, auto, pane) \<Rightarrow>
             (if nf_session nf = [] then session else nf_session nf,
              case nf_window nf of None \<Rightarrow> auto | Some w \<Rightarrow> w,
              if nf_pane nf = [] then pane else nf_pane nf))
      else (nf_session nf, window, nf_pane nf))"

definition notify_event :: "notify_input \<Rightarrow> notify_flags \<Rightarrow> string + Event" where
  "notify_event i nf =
     (case notify_report i nf of
        Inl e \<Rightarrow> Inl e
      | Inr (tool, status, message) \<Rightarrow>
          if status = [] then Inl ''--status is required''
          else (case notify_place i nf of
            (session, window, pane) \<Rightarrow>
              if session = [] then Inl ''could not detect tmux session; pass --session explicitly''
              else Inr \<lparr>ev_tool = tool, ev_status = status, ev_host = [], ev_host_name = [], ev_session = session,
                ev_window = window, ev_pane = pane, ev_message = message, ev_timestamp = 0, ev_auto_detected = False\<rparr>))"

subsection \<open>The local socket\<close>

definition localToolEventBodyLimit :: nat where "localToolEventBodyLimit = 4096"

text \<open>
  \<open>POST /api/tool-event\<close>: the status code and the tracker.  \<open>body\<close> is \<open>None\<close> when it cannot be
  read; \<open>mgr\<close> is \<open>None\<close> without a peer manager.
\<close>

definition localToolEventHandler :: "(string \<Rightarrow> Event option) \<Rightarrow> 's manager option \<Rightarrow> time \<Rightarrow> string \<Rightarrow> string option
    \<Rightarrow> tracker \<Rightarrow> nat \<times> tracker" where
  "localToolEventHandler dec mgr now verb body t =
     (if verb \<noteq> ''POST'' then (405, t)
      else case body of
        None \<Rightarrow> (400, t)
      | Some text \<Rightarrow>
          if length text > localToolEventBodyLimit then (413, t)
          else case dec text of
            None \<Rightarrow> (400, t)
          | Some event \<Rightarrow>
              if ev_tool event = [] \<or> ev_status event = [] \<or> ev_session event = [] then (400, t)
              else (204, tracker_record now
                (case mgr of
                   None \<Rightarrow> event
                 | Some m \<Rightarrow> if ev_host event = [] then event\<lparr>ev_host := m_localID m, ev_host_name := m_localName m\<rparr> else event) t))"

text \<open>\<open>POST /api/peers/revoke\<close>: \<open>name\<close> is the decoded body, \<open>None\<close> when it does not decode or is too long.\<close>

definition localRevokeHandler :: "stage option \<Rightarrow> string \<Rightarrow> string option \<Rightarrow> 's manager
    \<Rightarrow> (nat \<times> (string \<times> string) option) \<times> 's manager" where
  "localRevokeHandler fault verb name mgr =
     (if verb \<noteq> ''POST'' then ((405, None), mgr)
      else case name of
        None \<Rightarrow> ((400, None), mgr)
      | Some n \<Rightarrow>
          if n = [] then ((400, None), mgr)
          else case RevokePeer fault n mgr of
            (Inl _, mgr') \<Rightarrow> ((409, None), mgr')
          | (Inr peer, mgr') \<Rightarrow> ((200, Some (peer_Name peer, peer_Fingerprint peer)), mgr'))"

text \<open>
  The command with the service it talks to; \<open>up\<close>: the socket answers.  The first component is
  the error the command exits with.
\<close>

definition notify_Execute :: "notify_input \<Rightarrow> (Event \<Rightarrow> string) \<Rightarrow> (string \<Rightarrow> Event option) \<Rightarrow> 's manager option \<Rightarrow> time \<Rightarrow> bool
    \<Rightarrow> notify_flags \<Rightarrow> tracker \<Rightarrow> string option \<times> tracker" where
  "notify_Execute i enc dec mgr now up nf t =
     (case notify_event i nf of
        Inl e \<Rightarrow> (Some e, t)
      | Inr evt \<Rightarrow>
          if \<not> up then (Some ''failed to notify TmuxAtlas'', t)
          else (case localToolEventHandler dec mgr now ''POST'' (Some (enc evt)) t of
             (code, t') \<Rightarrow> (if code \<noteq> 204 then Some (''TmuxAtlas returned status '' @ dec_digits code) else None, t')))"

subsection \<open>A hook reaches the tracker\<close>

lemma notify_event_complete:
  "notify_event i nf = Inr evt \<Longrightarrow> ev_status evt \<noteq> [] \<and> ev_session evt \<noteq> [] \<and> ev_host evt = []"
  by (auto simp: notify_event_def split: sum.splits prod.splits if_splits)

lemma notify_tool:
  assumes "notify_event i nf = Inr evt"
  shows "ev_tool evt = nf_tool nf"
proof -
  have "fst r = nf_tool nf" if "notify_report i nf = Inr r" for r
    using that by (cases r)
      (auto simp: notify_report_def parseStdinEvent_def Let_def split: option.splits sum.splits if_splits prod.splits)
  then show ?thesis using assms by (auto simp: notify_event_def split: sum.splits if_splits prod.splits)
qed


definition demo_notify :: notify_flags where
  "demo_notify = \<lparr>nf_tool = ''codex'', nf_status = Some ''waiting'', nf_message = None, nf_event_data = None, nf_stdin = False,
     nf_session = ''main'', nf_window = Some 1, nf_pane = ''%4''\<rparr>"

definition demo_notify_input :: notify_input where
  "demo_notify_input = \<lparr>ni_codex = (\<lambda>_. None), ni_object = (\<lambda>_. False), ni_hook = (\<lambda>_. None), ni_input = None,
     ni_context = \<lparr>tc_TMUX_PANE = [], tc_pane_output = None, tc_session_output = None, tc_window_output = None\<rparr>\<rparr>"

definition demo_notify_event :: Event where
  "demo_notify_event = \<lparr>ev_tool = ''codex'', ev_status = ''waiting'', ev_host = [], ev_host_name = [], ev_session = ''main'',
     ev_window = 1, ev_pane = ''%4'', ev_message = [], ev_timestamp = 0, ev_auto_detected = False\<rparr>"

definition demo_local :: "nat manager" where
  "demo_local = NewHubManager 0 ''v1'' \<lparr>id_Name = ''n'', id_PublicKey = [], id_PrivateKey = []\<rparr> None"


end
