(* ===== verification/PeerClient.thy ===== *)
theory PeerClient
  imports PeerHub AuthSessions Dispatch
begin

text \<open>
  The node's side of the peer protocol (\<open>pkg/peer/client.go\<close>, the guard of
  \<open>pkg/peer/pty_manager.go\<close>): the hub's address, the waits between attempts, the handshake,
  and what the node does with the hub's messages.  Messages read and the success of writes
  are arguments, as are the JSON codec and \<open>url.Parse\<close>; \<open>None\<close> is a read that fails.
\<close>

subsection \<open>The address of the hub\<close>

definition hasScheme :: "string \<Rightarrow> bool" where
  "hasScheme addr =
     list_ex (\<lambda>p. length addr > length p \<and> take (length p) addr = p) [''ws://'', ''wss://'', ''http://'', ''https://'']"

datatype url_error = UnsupportedScheme | ParseHubURL | HostRequired | NotBare

definition hubWebSocketURL :: "(string \<Rightarrow> go_url option) \<Rightarrow> string \<Rightarrow> string \<Rightarrow> url_error + go_url" where
  "hubWebSocketURL parse hubURL path =
     (if \<not> hasScheme hubURL \<and> contains_sub ''://'' hubURL then Inl UnsupportedScheme
      else case parse (if hasScheme hubURL then hubURL else ''wss://'' @ hubURL) of
        None \<Rightarrow> Inl ParseHubURL
      | Some u \<Rightarrow>
          (case (if u_Scheme u = ''https'' then Some ''wss'' else if u_Scheme u = ''http'' then Some ''ws''
                 else if u_Scheme u = ''wss'' \<or> u_Scheme u = ''ws'' then Some (u_Scheme u) else None) of
             None \<Rightarrow> Inl UnsupportedScheme
           | Some scheme \<Rightarrow>
               if u_Host u = [] then Inl HostRequired
               else if u_has_user u \<or> (u_Path u \<noteq> [] \<and> u_Path u \<noteq> ''/'') \<or> u_RawQuery u \<noteq> [] \<or> u_Fragment u \<noteq> []
               then Inl NotBare
               else Inr (u\<lparr>u_Scheme := scheme, u_Path := path\<rparr>)))"

subsection \<open>The waits between attempts\<close>

definition maxBackoff :: duration where "maxBackoff = 30 * second"

text \<open>The loop of \<open>Run\<close>: for each attempt the time it lasted, the wait that follows it.\<close>

fun run_waits :: "duration \<Rightarrow> duration list \<Rightarrow> duration list" where
  "run_waits backoff [] = []"
| "run_waits backoff (lasted # rest) =
     (let wait = (if lasted > 30 * second then second else backoff);
          doubled = wait * 2
      in wait # run_waits (if doubled > maxBackoff then maxBackoff else doubled) rest)"

text \<open>The attempts that ended within thirty seconds, up to the one before the wait, the first attempt aside.\<close>

definition short_streak :: "duration list \<Rightarrow> nat \<Rightarrow> nat" where
  "short_streak lasted n = length (takeWhile (\<lambda>d. d \<le> 30 * second) (rev (drop 1 (take (Suc n) lasted))))"

lemma double_capped:
  "min (min (2 ^ k * second) maxBackoff * 2) maxBackoff = min (2 ^ Suc k * second) maxBackoff"
proof -
  have "(0 :: int) < 2 ^ k * second" by simp
  then show ?thesis by (simp add: min_def maxBackoff_def)
qed

lemma take_while_snoc:
  "length (takeWhile P (ys @ [d])) =
     (if length (takeWhile P ys) = length ys then length ys + (if P d then 1 else 0) else length (takeWhile P ys))"
  by (induction ys) auto

lemma run_waits_from:
  assumes "backoff = min (2 ^ k * second) maxBackoff" and "n < length ds"
  shows "run_waits backoff ds ! n =
    (let s = length (takeWhile (\<lambda>d. d \<le> 30 * second) (rev (take (Suc n) ds)))
     in min (2 ^ (if s = Suc n then k + n else s) * second) maxBackoff)"
  using assms
proof (induction ds arbitrary: backoff k n)
  case (Cons d ds)
  let ?short = "\<lambda>d. d \<le> 30 * second"
  define k' where "k' = (if d > 30 * second then 0 else k)"
  have one: "min (2 ^ 0 * second) maxBackoff = second" by (simp add: maxBackoff_def)
  have wait: "(if d > 30 * second then second else backoff) = min (2 ^ k' * second) maxBackoff"
    using one by (simp add: k'_def Cons.prems(1))
  have rest: "run_waits backoff (d # ds) = min (2 ^ k' * second) maxBackoff # run_waits (min (2 ^ Suc k' * second) maxBackoff) ds"
    unfolding run_waits.simps Let_def wait using double_capped [of k'] by (auto simp: min_def split: if_splits)
  show ?case
  proof (cases n)
    case 0
    with rest show ?thesis by (simp add: k'_def Let_def)
  next
    case (Suc j)
    let ?s = "length (takeWhile ?short (rev (take (Suc j) ds)))"
    have j: "j < length ds" using Suc Cons.prems by simp
    have le: "?s \<le> Suc j" by (rule order_trans [OF length_takeWhile_le]) simp
    have tk: "length (takeWhile ?short (rev (take (Suc n) (d # ds)))) =
        (if ?s = Suc j then (if ?short d then Suc (Suc j) else Suc j) else ?s)"
      using j Suc by (simp add: take_while_snoc)
    from Cons.IH [OF refl j, of "Suc k'"] le show ?thesis
      unfolding rest Suc nth_Cons_Suc tk [unfolded Suc] Let_def by (auto simp: k'_def)
  qed
qed simp

text \<open>
  The node waits as an exponential backoff should.  The wait after an attempt is one second
  doubled once for every attempt in a row that ended within thirty seconds, never more than
  thirty seconds, and starts over at one second after an attempt that lasted longer.
\<close>

theorem backoff_closed_form:
  assumes "n < length lasted"
  shows "run_waits second lasted ! n = min (2 ^ short_streak lasted n * second) maxBackoff"
proof (cases lasted)
  case (Cons d ds)
  have one: "second = min (2 ^ 0 * second) maxBackoff" by (simp add: maxBackoff_def)
  have two: "min (2 ^ 1 * second) maxBackoff = (if second * 2 > maxBackoff then maxBackoff else second * 2)"
    by (simp add: maxBackoff_def)
  show ?thesis
  proof (cases n)
    case 0
    with Cons one show ?thesis by (simp add: short_streak_def)
  next
    case (Suc j)
    then have j: "j < length ds" using assms Cons by simp
    have le: "length (takeWhile (\<lambda>d. d \<le> 30 * second) (rev (take (Suc j) ds))) \<le> Suc j"
      by (rule order_trans [OF length_takeWhile_le]) simp
    from run_waits_from [OF refl j, of 1] Cons Suc show ?thesis
      by (auto simp: Let_def short_streak_def two [symmetric] split: if_splits)
  qed
qed (use assms in simp)

theorem backoff_closed_form_witness:
  "run_waits second [second, second, 40 * second, second] ! 3 = 2 * second"
  by (subst backoff_closed_form) (simp_all add: short_streak_def maxBackoff_def)

subsection \<open>The handshake\<close>

definition MsgChallenge :: string where "MsgChallenge = ''challenge''"
definition MsgAuthOK :: string where "MsgAuthOK = ''auth-ok''"
definition MsgAuthFail :: string where "MsgAuthFail = ''auth-fail''"
definition MsgHelloAck :: string where "MsgHelloAck = ''runtime-hello-ack''"
definition MsgRuntimeRequest :: string where "MsgRuntimeRequest = ''runtime-request''"
definition MsgPeerState :: string where "MsgPeerState = ''peer-state''"
definition MsgPeerConnected :: string where "MsgPeerConnected = ''peer-connected''"
definition MsgPeerDisconnected :: string where "MsgPeerDisconnected = ''peer-disconnected''"
definition MsgPTYOpen :: string where "MsgPTYOpen = ''pty-open''"
definition MsgRequestState :: string where "MsgRequestState = ''request-state''"

lemmas hub_msg_types = MsgChallenge_def MsgAuthOK_def MsgAuthFail_def MsgHelloAck_def MsgRuntimeRequest_def
  MsgPeerState_def MsgPeerConnected_def MsgPeerDisconnected_def MsgPTYOpen_def MsgRequestState_def MsgRuntimeError_def

record PTYOpenPayload =
  po_StreamID :: string
  po_AttachToken :: string
  po_Generation :: u64
  po_Target :: SessionTarget
  po_Cols :: "16 word"
  po_Rows :: "16 word"

text \<open>
  The codec of the node; the encoder of a result can fail, as the result is raw JSON.  A
  notice of a peer is the pair of its ID and name.
\<close>

record 's node_codec =
  nd_challenge :: "string \<Rightarrow> string option"
  nd_ack :: "string \<Rightarrow> HelloAckPayload option"
  nd_request :: "string \<Rightarrow> RuntimeRequest option"
  nd_hosts :: "string \<Rightarrow> 's HostInfo list option"
  nd_notice :: "string \<Rightarrow> (string \<times> string) option"
  nd_open :: "string \<Rightarrow> PTYOpenPayload option"
  ne_auth :: "string \<times> string \<Rightarrow> string"
  ne_hello :: "HelloPayload \<Rightarrow> string"
  ne_state :: "TSession list \<times> string \<Rightarrow> string"
  ne_ack :: "RuntimeAck \<Rightarrow> string"
  ne_error :: "RuntimeError \<Rightarrow> string"
  ne_result :: "RuntimeResult \<Rightarrow> string option"

record ('s, 'd) client =
  cl_hubURL :: string
  cl_identity :: identity
  cl_mgr :: "'s manager"
  cl_instanceID :: string
  cl_generation :: u64
  cl_capabilities :: "string fset"
  cl_dispatcher :: "dispatcher option"
  cl_cache :: "'d outcome_cache"

datatype client_error = ReadChallenge | ExpectedChallenge | ParseChallenge | DecodeChallenge | SignChallenge
  | SendAuth | ReadAuthResult | AuthenticationFailed | UnexpectedMessage | SendHello | ReadHelloAck
  | NegotiationFailed | ExpectedHelloAck | ParseHelloAck | InvalidHelloAck

text \<open>The answer to the challenge: the public key and the encoded signature.\<close>

definition answer_challenge :: "(string \<Rightarrow> string \<Rightarrow> string) \<Rightarrow> 's node_codec \<Rightarrow> identity \<Rightarrow> Message option
    \<Rightarrow> client_error + string \<times> string" where
  "answer_challenge sign nd ident received =
     (case received of
        None \<Rightarrow> Inl ReadChallenge
      | Some msg \<Rightarrow>
          if msg_type msg \<noteq> MsgChallenge then Inl ExpectedChallenge
          else case nd_challenge nd (msg_payload msg) of
            None \<Rightarrow> Inl ParseChallenge
          | Some challenge \<Rightarrow>
              (case b64_decode_strict challenge of
                 None \<Rightarrow> Inl DecodeChallenge
               | Some bytes \<Rightarrow>
                   (case Sign sign (Some ident) bytes of
                      Inl _ \<Rightarrow> Inl SignChallenge
                    | Inr signature \<Rightarrow> Inr (id_PublicKey ident, b64_encode signature))))"

definition auth_result :: "Message option \<Rightarrow> client_error option" where
  "auth_result received =
     (case received of
        None \<Rightarrow> Some ReadAuthResult
      | Some msg \<Rightarrow> if msg_type msg = MsgAuthFail then Some AuthenticationFailed
                    else if msg_type msg \<noteq> MsgAuthOK then Some UnexpectedMessage else None)"

definition node_hello :: "string \<Rightarrow> ('s, 'd) client \<Rightarrow> HelloPayload" where
  "node_hello version c =
     \<lparr>h_MinVersion = RuntimeProtocolMin, h_MaxVersion = RuntimeProtocolMax, h_Capabilities = RuntimeCapabilities,
      h_BuildVersion = version, h_AgentInstanceID = cl_instanceID c\<rparr>"

definition negotiated :: "'s node_codec \<Rightarrow> Message option \<Rightarrow> ('s, 'd) client \<Rightarrow> client_error + ('s, 'd) client" where
  "negotiated nd received c =
     (case received of
        None \<Rightarrow> Inl ReadHelloAck
      | Some msg \<Rightarrow>
          if msg_type msg = MsgRuntimeError then Inl NegotiationFailed
          else if msg_type msg \<noteq> MsgHelloAck then Inl ExpectedHelloAck
          else case nd_ack nd (msg_payload msg) of
            None \<Rightarrow> Inl ParseHelloAck
          | Some ack \<Rightarrow>
              if hello_ack_Validate ack \<noteq> None \<or> a_AgentInstanceID ack \<noteq> cl_instanceID c then Inl InvalidHelloAck
              else
                let caps = fset_of_list (a_Capabilities ack) in
                Inr (c\<lparr>cl_generation := a_Generation ack, cl_capabilities := caps,
                  cl_dispatcher := Some \<lparr>d_Generation = a_Generation ack, d_HostID = m_localID (cl_mgr c),
                    d_Capabilities = caps, d_has_executor = True, d_has_cache = True\<rparr>\<rparr>))"

text \<open>
  The handshake of \<open>connectAndRun\<close>: what was written, and the error or the client.  The
  first message read is the challenge, the second the result, the third the acknowledgement;
  \<open>written i\<close> tells whether the \<open>i\<close>-th write succeeds.
\<close>

definition client_handshake :: "(string \<Rightarrow> string \<Rightarrow> string) \<Rightarrow> 's node_codec \<Rightarrow> string \<Rightarrow> (nat \<Rightarrow> bool)
    \<Rightarrow> Message option \<Rightarrow> Message option \<Rightarrow> Message option \<Rightarrow> ('s, 'd) client
    \<Rightarrow> Message list \<times> (client_error + ('s, 'd) client)" where
  "client_handshake sign nd version written m1 m2 m3 c =
     (case answer_challenge sign nd (cl_identity c) m1 of
        Inl e \<Rightarrow> ([], Inl e)
      | Inr payload \<Rightarrow>
          (let auth = \<lparr>msg_type = MsgAuth, msg_payload = ne_auth nd payload\<rparr>;
               hello = \<lparr>msg_type = MsgHello, msg_payload = ne_hello nd (node_hello version c)\<rparr> in
           if \<not> written 0 then ([], Inl SendAuth)
           else case auth_result m2 of
             Some e \<Rightarrow> ([auth], Inl e)
           | None \<Rightarrow> if \<not> written 1 then ([auth], Inl SendHello) else ([auth, hello], negotiated nd m3 c)))"

subsection \<open>The hub's messages\<close>

text \<open>What the handler starts beside its own state: a request, a PTY, a state update.\<close>

datatype node_effect = StartRequest RuntimeRequest | StartPTY PTYOpenPayload | StateUpdate

definition announce_host :: "time \<Rightarrow> 's HostInfo \<Rightarrow> 's manager \<Rightarrow> 's manager" where
  "announce_host now host m =
     (if IsLocal (hi_ID host) m then m
      else
        let m' = UpdatePeerSessions now (hi_ID host) (hi_Sessions host) m in
        if hi_Online host \<and> \<not> PeerManager.HasHost (hi_ID host) m' then RegisterPeer now (hi_ID host) (hi_Name host) [] None m' else m')"

definition handleHubMessage :: "'s node_codec \<Rightarrow> time \<Rightarrow> Message \<Rightarrow> ('s, 'd) client \<Rightarrow> ('s, 'd) client \<times> node_effect list" where
  "handleHubMessage nd now msg c =
     (let kind = msg_type msg; payload = msg_payload msg in
      if kind = MsgRuntimeRequest then
        (case nd_request nd payload of None \<Rightarrow> (c, []) | Some request \<Rightarrow> (c, [StartRequest request]))
      else if kind = MsgPeerState then
        (case nd_hosts nd payload of
           None \<Rightarrow> (c, []) | Some hosts \<Rightarrow> (c\<lparr>cl_mgr := fold (announce_host now) hosts (cl_mgr c)\<rparr>, []))
      else if kind = MsgPeerConnected then
        (case nd_notice nd payload of
           None \<Rightarrow> (c, []) | Some (i, name) \<Rightarrow> (c\<lparr>cl_mgr := RegisterPeer now i name [] None (cl_mgr c)\<rparr>, []))
      else if kind = MsgPeerDisconnected then
        (case nd_notice nd payload of
           None \<Rightarrow> (c, []) | Some (i, _) \<Rightarrow> (c\<lparr>cl_mgr := UnregisterPeer now i (cl_mgr c)\<rparr>, []))
      else if kind = MsgPTYOpen then
        (case nd_open nd payload of None \<Rightarrow> (c, []) | Some request \<Rightarrow> (c, [StartPTY request]))
      else if kind = MsgRequestState then (c, [StateUpdate])
      else (c, []))"

text \<open>The answer to a request: its acknowledgement when it was accepted, then its outcome.\<close>

definition request_replies :: "'s node_codec \<Rightarrow> RuntimeAck \<Rightarrow> outcome \<Rightarrow> Message list" where
  "request_replies nd ack result =
     (if k_Accepted ack then [\<lparr>msg_type = MsgRuntimeAck, msg_payload = ne_ack nd ack\<rparr>] else []) @
     (case result of
        OError e \<Rightarrow> [\<lparr>msg_type = MsgRuntimeError, msg_payload = ne_error nd e\<rparr>]
      | OResult r \<Rightarrow> (case ne_result nd r of
            None \<Rightarrow> [] | Some payload \<Rightarrow> [\<lparr>msg_type = MsgRuntimeResult, msg_payload = payload\<rparr>]))"

text \<open>The guard of \<open>PTYManager.Open\<close>.\<close>

definition pty_open_accepted :: "PTYOpenPayload \<Rightarrow> ('s, 'd) client \<Rightarrow> bool" where
  "pty_open_accepted request c =
     (\<not> (po_StreamID request = [] \<or> po_AttachToken request = [] \<or> po_Generation request = 0 \<or>
         po_Cols request = 0 \<or> po_Rows request = 0 \<or> target_Validate (po_Target request) \<noteq> None \<or>
         st_HostID (po_Target request) \<noteq> m_localID (cl_mgr c) \<or> po_Generation request \<noteq> cl_generation c))"

text \<open>Handling one request; with no dispatcher yet, or while an execution is awaited, nothing is sent.\<close>

definition handleRuntimeRequest :: "(invalid \<Rightarrow> string) \<Rightarrow> time \<Rightarrow> time \<Rightarrow> time \<Rightarrow> (outcome \<Rightarrow> nat)
    \<Rightarrow> (string \<Rightarrow> SessionTarget \<Rightarrow> string \<Rightarrow> 'd option) \<Rightarrow> (string \<Rightarrow> SessionTarget \<Rightarrow> string \<Rightarrow> string option)
    \<Rightarrow> 's node_codec \<Rightarrow> RuntimeRequest \<Rightarrow> ('s, 'd) client \<Rightarrow> Message list \<times> ('s, 'd) client" where
  "handleRuntimeRequest describe now start finish osize digest execute nd request c =
     (case cl_dispatcher c of
        None \<Rightarrow> ([], c)
      | Some d \<Rightarrow>
          (case Dispatch describe now start finish osize digest execute d request (cl_cache c) of
             (ack, result, cache) \<Rightarrow>
               (case result of None \<Rightarrow> [] | Some o1 \<Rightarrow> request_replies nd ack o1, c\<lparr>cl_cache := cache\<rparr>)))"

text \<open>The state update the node sends after the handshake and on every change.\<close>

definition sendStateUpdate :: "tmux_exec \<Rightarrow> 's node_codec \<Rightarrow> string \<Rightarrow> session_manager \<Rightarrow> Message \<times> session_manager" where
  "sendStateUpdate exec nd version mg =
     (case GetSessions exec mg of
        (mg', sessions) \<Rightarrow> (\<lparr>msg_type = MsgStateUpdate, msg_payload = ne_state nd (sessions, version)\<rparr>, mg'))"

text \<open>The samples of the node leave it under its own ID.\<close>

definition stamp_activity :: "string \<Rightarrow> activity_snapshot list \<Rightarrow> activity_snapshot list" where
  "stamp_activity localID snapshots = map (\<lambda>s. if as_host s = [] then s\<lparr>as_host := localID\<rparr> else s) snapshots"

end
