(* ===== verification/PeerLink.thy ===== *)
theory PeerLink
  imports PeerClient "HOL-Library.Countable"
begin

text \<open>
  The two ends of the peer protocol together: a node of \<open>PeerClient\<close> and the hub of
  \<open>PeerHub\<close>.  A paired node gets through the handshake, and a request the hub sends it is
  answered.  The codecs of the two ends must agree on what one end sends the other.
\<close>

subsection \<open>The handshake of a paired node\<close>

text \<open>The encoders of the hub, and what the codecs promise each other.\<close>

record hub_encoders =
  he_challenge :: "string \<Rightarrow> string"
  he_ack :: "HelloAckPayload \<Rightarrow> string"

definition codecs_agree :: "'s peer_codec \<Rightarrow> hub_encoders \<Rightarrow> 's node_codec \<Rightarrow> bool" where
  "codecs_agree dec he nd =
     ((\<forall>p. dec_auth dec (ne_auth nd p) = Some p) \<and> (\<forall>h. dec_hello dec (ne_hello nd h) = Some h) \<and>
      (\<forall>s. nd_challenge nd (he_challenge he s) = Some s) \<and> (\<forall>a. nd_ack nd (he_ack he a) = Some a) \<and>
      (\<forall>r p. ne_result nd r = Some p \<longrightarrow> dec_result dec p = Some r) \<and> (\<forall>e. dec_error dec (ne_error nd e) = Some e))"

text \<open>An identity with the key pair of a seed.\<close>

definition holds_keys :: "(string \<Rightarrow> string) \<Rightarrow> string \<Rightarrow> identity \<Rightarrow> bool" where
  "holds_keys pub_of seed i =
     (length seed = 32 \<and> NormalizeName (id_Name i) = Inr (id_Name i) \<and> id_PublicKey i = b64_encode (pub_of seed) \<and>
      id_PrivateKey i = b64_encode (seed @ pub_of seed))"

definition sound_signatures :: "(string \<Rightarrow> string) \<Rightarrow> (string \<Rightarrow> string \<Rightarrow> string) \<Rightarrow> (string \<Rightarrow> string \<Rightarrow> string \<Rightarrow> bool) \<Rightarrow> bool" where
  "sound_signatures pub_of sign check =
     (\<forall>seed. length seed = 32 \<longrightarrow> length (pub_of seed) = 32 \<and>
        (\<forall>m. length (sign (seed @ pub_of seed) m) = 64 \<and> check (pub_of seed) m (sign (seed @ pub_of seed) m)))"

text \<open>What the two programs say of themselves is short enough for the other end.\<close>

definition well_named :: "string \<Rightarrow> string \<Rightarrow> ('s, 'd) client \<Rightarrow> bool" where
  "well_named version hub_version node =
     (validateRuntimeID ''agent_instance_id'' (cl_instanceID node) = None \<and>
      validateBoundedText ''build_version'' version maxBuildLength = None \<and>
      validateBoundedText ''build_version'' hub_version maxBuildLength = None)"

lemma decode_encode_strict: "b64_decode_strict (b64_encode bs) = Some bs"
  by (simp add: b64_decode_strict_def b64_encode_clean b64_groups_encode)

lemma keys_sign:
  assumes "sound_signatures pub_of sign check" and "holds_keys pub_of seed i"
  shows "\<exists>s. Sign sign (Some i) m = Inr s \<and> length s = 64 \<and> Verify check (id_PublicKey i) m s"
proof -
  have l: "length seed = 32" "length (pub_of seed) = 32" using assms by (auto simp: holds_keys_def sound_signatures_def)
  have keys: "ParsePublicKey (id_PublicKey i) = Inr (pub_of seed)" "ParsePrivateKey (id_PrivateKey i) = Inr (seed @ pub_of seed)"
    unfolding parse_key_iff using assms(2) l by (simp_all add: holds_keys_def)
  have "identity_Validate (Some i) = None"
    unfolding identity_valid_iff using assms(2) l by (auto simp: holds_keys_def)
  with keys assms(1) l show ?thesis by (simp add: Sign_def Verify_def sound_signatures_def)
qed

lemma own_capabilities: "intersectCapabilities RuntimeCapabilities RuntimeCapabilities = RuntimeCapabilities"
  by (simp add: intersectCapabilities_def)

lemma runtime_capabilities_valid: "validateCapabilities RuntimeCapabilities = None"
  by (simp add: validate_capabilities_iff RuntimeCapabilities_def CapabilityStateSync_def CapabilitySessionActions_def
      CapabilityRequestResults_def CapabilityPTYControl_def validateBoundedText_visible visible_letter)

definition agreed :: "string \<Rightarrow> u64 \<Rightarrow> ('s, 'd) client \<Rightarrow> HelloAckPayload" where
  "agreed hub_version generation node =
     \<lparr>a_Version = RuntimeProtocolMax, a_Capabilities = RuntimeCapabilities, a_BuildVersion = hub_version,
      a_Generation = generation, a_AgentInstanceID = cl_instanceID node\<rparr>"

lemma node_negotiates:
  assumes "well_named version hub_version node"
  shows "NegotiateHello (node_hello version node) g hub_version = Inr (agreed hub_version g node)"
proof -
  have "hello_Validate (node_hello version node) = None"
    using assms runtime_capabilities_valid
    by (simp add: hello_Validate_def node_hello_def well_named_def RuntimeProtocolMin_def RuntimeProtocolMax_def)
  then show ?thesis
    by (simp add: NegotiateHello_def node_hello_def agreed_def own_capabilities RuntimeProtocolMin_def RuntimeProtocolMax_def Let_def)
qed

text \<open>The node's state after the acknowledgement.\<close>

definition connected_node :: "u64 \<Rightarrow> ('s, 'd) client \<Rightarrow> ('s, 'd) client" where
  "connected_node g node =
     node\<lparr>cl_generation := g, cl_capabilities := fset_of_list RuntimeCapabilities,
       cl_dispatcher := Some \<lparr>d_Generation = g, d_HostID = m_localID (cl_mgr node),
         d_Capabilities = fset_of_list RuntimeCapabilities, d_has_executor = True, d_has_cache = True\<rparr>\<rparr>"

lemma node_accepts:
  assumes "well_named version hub_version node" and "g \<noteq> 0"
    and "nd_ack nd payload = Some (agreed hub_version g node)"
  shows "negotiated nd (Some \<lparr>msg_type = MsgHelloAck, msg_payload = payload\<rparr>) node = Inr (connected_node g node)"
proof -
  have "hello_ack_Validate (agreed hub_version g node) = None"
    using assms runtime_capabilities_valid
    by (simp add: hello_ack_Validate_def agreed_def well_named_def RuntimeProtocolMin_def RuntimeProtocolMax_def)
  with assms(3) show ?thesis
    by (simp add: negotiated_def hub_msg_types Let_def connected_node_def) (simp add: agreed_def)
qed

text \<open>The hub admits a connection it has just negotiated.\<close>

lemma admit_fresh:
  assumes ok: "hub_ok hub" and k: "fmlookup (m_conns (hb_mgr hub)) c = Some k"
    and o: "fmlookup (hb_owner hub) c = Some (peer, build)" and i: "pc_HostID k = peer_Fingerprint peer"
    and top: "pc_Generation k = go_get 0 (m_generations (hb_mgr hub)) (pc_HostID k)"
    and new: "c |\<notin>| m_started (hb_mgr hub)" and auth: "authorized (peer_PublicKey peer) (hb_mgr hub)"
  shows "\<exists>hub'. hub_admit now c hub = (None, hub') \<and> IsCurrent c (hb_mgr hub') \<and> fmlookup (m_conns (hb_mgr hub')) c = Some k"
proof -
  let ?m = "hb_mgr hub"
  have free: "hst_Conn h = None \<or> hst_Conn h \<noteq> Some c \<and> hst_Generation h < pc_Generation k"
    if "fmlookup (m_hosts ?m) (peer_Fingerprint peer) = Some h" for h
  proof (cases "hst_Conn h")
    case (Some c')
    with hub_okD(4) [OF ok that] obtain k' where s: "c' |\<in>| m_started ?m" and k': "fmlookup (m_conns ?m) c' = Some k'"
      "pc_HostID k' = pc_HostID k" "pc_Generation k' = hst_Generation h" by (auto simp: host_ok_def i)
    from s new have "c' \<noteq> c" by auto
    with hub_okD(3) [OF ok k'(1) k k'(2)] have "pc_Generation k' \<noteq> pc_Generation k" by blast
    moreover have "unat (pc_Generation k') \<le> unat (pc_Generation k)"
      using hub_okD(2) [OF ok k'(1)] by (simp add: conn_ok_def top k'(2))
    ultimately show ?thesis using k'(3) Some \<open>c' \<noteq> c\<close>
      by (simp add: word_less_nat_alt word_unat_eq_iff le_neq_implies_less)
  qed simp
  show ?thesis
    using free auth
    by (cases "fmlookup (m_hosts ?m) (peer_Fingerprint peer)")
      (auto simp: hub_admit_def o Let_def ActivateAuthorizedPeer_def activatePeerLocked_def k UpdatePeerVersion_def
        update_host_def IsCurrent_def close_conn_lookup i split: option.splits if_splits)
qed

lemma negotiated_hub:
  assumes "ReserveGeneration (peer_Fingerprint peer) (hb_mgr hub) = (g, mgr)"
    and "dec_hello dec payload = Some (node_hello version node)" and "well_named version hub_version node"
  shows "hub_negotiate dec hub_version peer \<lparr>msg_type = MsgHello, msg_payload = payload\<rparr> hub =
    (Inr (hb_next hub), hub\<lparr>hb_mgr := mgr\<lparr>m_conns := fmupd (hb_next hub)
        (newPeerConnection (peer_Fingerprint peer) g RuntimeCapabilities (cl_instanceID node) 64) (m_conns mgr)\<rparr>,
      hb_next := Suc (hb_next hub), hb_owner := fmupd (hb_next hub) (peer, version) (hb_owner hub)\<rparr>)"
  using assms node_negotiates [OF assms(3), of g]
  by (simp add: hub_negotiate_def Let_def agreed_def) (simp add: node_hello_def)


text \<open>Codecs that agree: a payload is as long as the number of what it stands for.\<close>

instance error_code :: countable
  by countable_datatype

definition unary :: "'a :: countable \<Rightarrow> string" where
  "unary x = replicate (to_nat x) CHR ''x''"

definition of_unary :: "string \<Rightarrow> 'a :: countable" where
  "of_unary p = from_nat (length p)"

lemma of_unary [simp]: "of_unary (unary x) = x"
  by (simp add: unary_def of_unary_def)

definition demo_node_codec :: "nat node_codec" where
  "demo_node_codec = \<lparr>nd_challenge = (\<lambda>p. Some (of_unary p)),
     nd_ack = (\<lambda>p. case of_unary p of (v, cs, b, g, a) \<Rightarrow> Some \<lparr>a_Version = v, a_Capabilities = cs, a_BuildVersion = b,
       a_Generation = g, a_AgentInstanceID = a\<rparr>),
     nd_request = (\<lambda>_. None), nd_hosts = (\<lambda>_. None), nd_notice = (\<lambda>_. None), nd_open = (\<lambda>_. None),
     ne_auth = unary,
     ne_hello = (\<lambda>h. unary (h_MinVersion h, h_MaxVersion h, h_Capabilities h, h_BuildVersion h, h_AgentInstanceID h)),
     ne_state = (\<lambda>_. []), ne_ack = (\<lambda>_. []),
     ne_error = (\<lambda>e. unary (e_RequestID e, e_Generation e, e_Code e, e_Message e)),
     ne_result = (\<lambda>r. Some (unary (rr_RequestID r, rr_Generation r, rr_Result r)))\<rparr>"

definition demo_hub_codec :: "nat peer_codec" where
  "demo_hub_codec = \<lparr>dec_auth = (\<lambda>p. Some (of_unary p)),
     dec_hello = (\<lambda>p. case of_unary p of (l, h, cs, b, a) \<Rightarrow> Some \<lparr>h_MinVersion = l, h_MaxVersion = h, h_Capabilities = cs,
       h_BuildVersion = b, h_AgentInstanceID = a\<rparr>),
     dec_ack = (\<lambda>_. None),
     dec_result = (\<lambda>p. case of_unary p of (i, g, r) \<Rightarrow> Some \<lparr>rr_RequestID = i, rr_Generation = g, rr_Result = r\<rparr>),
     dec_error = (\<lambda>p. case of_unary p of (i, g, c, m) \<Rightarrow> Some \<lparr>e_RequestID = i, e_Generation = g, e_Code = c, e_Message = m\<rparr>),
     dec_state = (\<lambda>_. None), dec_event = (\<lambda>_. None), dec_tool = (\<lambda>_. None), dec_activity = (\<lambda>_. None),
     dec_stats = (\<lambda>_. None)\<rparr>"

definition demo_encoders :: hub_encoders where
  "demo_encoders = \<lparr>he_challenge = unary,
     he_ack = (\<lambda>a. unary (a_Version a, a_Capabilities a, a_BuildVersion a, a_Generation a, a_AgentInstanceID a))\<rparr>"

lemma demo_codecs_agree: "codecs_agree demo_hub_codec demo_encoders demo_node_codec"
  by (simp add: codecs_agree_def demo_hub_codec_def demo_encoders_def demo_node_codec_def)

definition demo_node :: "(nat, nat) client" where
  "demo_node = \<lparr>cl_hubURL = ''hub'', cl_identity = \<lparr>id_Name = ''hub'', id_PublicKey = b64_encode demo_seed,
       id_PrivateKey = b64_encode (demo_seed @ demo_seed)\<rparr>,
     cl_mgr = NewHubManager 0 ''v1'' \<lparr>id_Name = ''hub'', id_PublicKey = b64_encode demo_seed, id_PrivateKey = []\<rparr> (Some empty_peers),
     cl_instanceID = ''a1'', cl_generation = 0, cl_capabilities = {||}, cl_dispatcher = None,
     cl_cache = \<lparr>cache_config = DefaultOutcomeCacheConfig, cache_entries = fmempty\<rparr>\<rparr>"

lemma demo_node_named: "well_named ''v1'' ''v2'' demo_node"
  by (simp add: well_named_def demo_node_def validateRuntimeID_visible validateBoundedText_visible visible_letter maxBuildLength_def)


subsection \<open>A request and its answer\<close>

text \<open>The hub handles a list of messages of one connection; \<open>None\<close> is a panic.\<close>

fun hub_receives :: "'s peer_codec \<Rightarrow> time \<Rightarrow> string \<Rightarrow> nat \<Rightarrow> Message list \<Rightarrow> 's hub \<Rightarrow> 's hub option" where
  "hub_receives dec now peerID c [] hub = Some hub"
| "hub_receives dec now peerID c (msg # rest) hub =
     (case handlePeerMessage dec now peerID c msg hub of
        None \<Rightarrow> None | Some hub' \<Rightarrow> hub_receives dec now peerID c rest hub')"

text \<open>The request waits on the connection for an outcome on the channel.\<close>

definition awaits :: "RuntimeRequest \<Rightarrow> nat \<Rightarrow> connection \<Rightarrow> bool" where
  "awaits request ch k =
     (fmlookup (rt_pending (pc_requests k)) (r_RequestID request) = Some \<lparr>pr_generation = r_Generation request, pr_chan = ch\<rparr> \<and>
      \<not> go_has (rt_outcomes (pc_requests k)) ch)"

text \<open>The results of the executor, and the texts of validation errors, are what the hub takes.\<close>

definition deliverable :: "'s node_codec \<Rightarrow> (invalid \<Rightarrow> string) \<Rightarrow> (string \<Rightarrow> SessionTarget \<Rightarrow> string \<Rightarrow> string option) \<Rightarrow> bool" where
  "deliverable nd describe execute =
     ((\<forall>e. validateBoundedOptionalText ''message'' (describe e) 256 = None) \<and>
      (\<forall>op t p r. execute op t p = Some r \<longrightarrow> r = [] \<or> length r \<le> maxPayloadSize \<and> json_valid r) \<and>
      (\<forall>r. json_valid (rr_Result r) \<longrightarrow> ne_result nd r \<noteq> None))"

definition outcome_deliverable :: "outcome \<Rightarrow> bool" where
  "outcome_deliverable o1 =
     (case o1 of OResult r \<Rightarrow> result_Validate r = None | OError e \<Rightarrow> e_RequestID e \<noteq> [] \<and> ValidateCorrelated e = None)"

lemma reply_completes:
  assumes codec: "codecs_agree dec he nd" and cur: "IsCurrent c (hb_mgr hub)"
    and k: "fmlookup (m_conns (hb_mgr hub)) c = Some k" and wait: "awaits request ch k"
    and o1: "outcome_id o1 = (r_RequestID request, r_Generation request)" "outcome_deliverable o1"
    and enc: "\<And>r. json_valid (rr_Result r) \<Longrightarrow> ne_result nd r \<noteq> None"
  shows "hub_receives dec now peerID c (request_replies nd ack o1) hub =
    Some (on_requests c (\<lambda>t. snd (complete (r_RequestID request) (r_Generation request) o1 t)) hub)"
proof (cases o1)
  case (OResult r)
  with o1 have v: "result_Validate r = None" by (simp add: outcome_deliverable_def)
  then have "json_valid (rr_Result r)" by (auto simp: result_Validate_def split: option.splits if_splits)
  with enc obtain p where p: "ne_result nd r = Some p" by blast
  with codec have "dec_result dec p = Some r" by (simp add: codecs_agree_def)
  with OResult p o1 v cur show ?thesis
    by (simp add: request_replies_def handlePeerMessage_def msg_types CompleteResult_def)
next
  case (OError e)
  with codec have "dec_error dec (ne_error nd e) = Some e" by (simp add: codecs_agree_def)
  with OError o1 cur show ?thesis
    by (simp add: request_replies_def handlePeerMessage_def msg_types CompleteError_def outcome_deliverable_def)
qed

lemma completed:
  assumes "fmlookup (m_conns (hb_mgr hub)) c = Some k" and "awaits request ch k"
  shows "\<exists>k'. fmlookup (m_conns (hb_mgr (on_requests c (\<lambda>t. snd (complete (r_RequestID request) (r_Generation request) o1 t)) hub))) c
      = Some k' \<and> fmlookup (rt_outcomes (pc_requests k')) ch = Some o1 \<and>
      fmlookup (rt_pending (pc_requests k')) (r_RequestID request) = None"
  using assms by (simp add: on_requests_def complete_def awaits_def deliver_once_def)

lemma error_deliverable:
  assumes "validateRuntimeID ''request_id'' (r_RequestID request) = None" and "r_Generation request \<noteq> 0"
    and "\<And>t. code \<noteq> UnknownCode t" and "validateBoundedOptionalText ''message'' message 256 = None"
  shows "outcome_deliverable (errorOutcome request code message) \<and>
    outcome_id (errorOutcome request code message) = (r_RequestID request, r_Generation request)"
proof -
  have "r_RequestID request \<noteq> []" using assms(1) by (auto simp: validateRuntimeID_def validateBoundedText_def)
  moreover have "(case code of UnknownCode _ \<Rightarrow> Some UnknownErrorCode | _ \<Rightarrow> validateBoundedOptionalText ''message'' message 256) = None"
  proof (cases code)
    case (UnknownCode t)
    with assms(3) show ?thesis by blast
  qed (simp_all add: assms(4))
  ultimately show ?thesis
    using assms(1,2) by (simp cong: error_code.case_cong
        add: outcome_deliverable_def errorOutcome_def ValidateCorrelated_def validateCode_def)
qed

lemma short_message: "\<lbrakk>length m \<le> 256; list_all visible (filter (\<lambda>c. c \<noteq> CHR '' '') m)\<rbrakk> \<Longrightarrow> validateBoundedOptionalText ''message'' m 256 = None"
proof -
  assume a: "length m \<le> 256" "list_all visible (filter (\<lambda>c. c \<noteq> CHR '' '') m)"
  have "char_of (0 :: nat) \<noteq> CHR '' ''" by (simp add: char_of_def bit_simps)
  with a visible_not_nul [of "char_of (0 :: nat)"] show ?thesis
    by (auto simp: validateBoundedOptionalText_def list_all_iff)
qed

lemma guard_deliverable:
  assumes "validateRuntimeID ''request_id'' (r_RequestID request) = None" and "r_Generation request \<noteq> 0"
    and "\<And>e. validateBoundedOptionalText ''message'' (describe e) 256 = None"
    and "dispatch_guard describe now d request = Some o1"
  shows "outcome_deliverable o1 \<and> outcome_id o1 = (r_RequestID request, r_Generation request)"
proof -
  have m: "validateBoundedOptionalText ''message'' [] 256 = None"
    "validateBoundedOptionalText ''message'' ''target host does not match this Agent'' 256 = None"
    "validateBoundedOptionalText ''message'' ''runtime executor unavailable'' 256 = None"
    by (simp_all add: short_message visible_letter)
  show ?thesis
    using assms(4) error_deliverable [OF assms(1,2)] m assms(3)
    by (auto simp: dispatch_guard_def split: option.splits if_splits)
qed

lemma executed_deliverable:
  assumes "validateRuntimeID ''request_id'' (r_RequestID request) = None" and "r_Generation request \<noteq> 0"
    and "\<And>r. executed = Some r \<Longrightarrow> r = [] \<or> length r \<le> maxPayloadSize \<and> json_valid r"
  shows "outcome_deliverable (executed_outcome request executed) \<and>
    outcome_id (executed_outcome request executed) = (r_RequestID request, r_Generation request)"
proof (cases executed)
  case None
  have "validateBoundedOptionalText ''message'' ''target operation failed'' 256 = None"
    by (simp add: short_message visible_letter)
  with None error_deliverable [OF assms(1,2)] show ?thesis by (simp add: executed_outcome_def)
next
  case (Some r)
  let ?ok = "''{'' @ [CHR 0x22] @ ''ok'' @ [CHR 0x22] @ '':true}''"
  have j: "json_valid ?ok" by code_simp
  have "length ?ok \<le> maxPayloadSize" by (simp add: maxPayloadSize_def)
  with Some assms(1,2) assms(3) [OF Some] j show ?thesis
    by (auto simp: executed_outcome_def outcome_deliverable_def result_Validate_def)
qed

text \<open>The outcome the dispatcher gives to a request it has not seen.\<close>

lemma dispatch_fresh:
  assumes id: "validateRuntimeID ''request_id'' (r_RequestID request) = None" "r_Generation request \<noteq> 0"
    and good: "deliverable nd describe execute"
    and new: "fmlookup (cache_entries cache) (r_RequestID request) = None"
  shows "\<exists>ack o1 cache'. Dispatch describe t1 t2 t3 osize digest execute d request cache = (ack, Some o1, cache') \<and>
    outcome_deliverable o1 \<and> outcome_id o1 = (r_RequestID request, r_Generation request)"
proof (cases "dispatch_guard describe t1 d request")
  case (Some o1)
  with guard_deliverable [OF id _ Some] good show ?thesis by (auto simp: Dispatch_def deliverable_def)
next
  case None
  let ?x = "executed_outcome request (execute (r_Operation request) (r_Target request) (r_Payload request))"
  let ?dg = "digest (r_Operation request) (r_Target request) (r_Payload request)"
  have m: "validateBoundedOptionalText ''message'' [] 256 = None"
    "validateBoundedOptionalText ''message'' ''invalid request payload'' 256 = None"
    "validateBoundedOptionalText ''message'' ''terminal outcome exceeds configured bound'' 256 = None"
    by (simp_all add: short_message visible_letter)
  have e: "outcome_deliverable (errorOutcome request code msg) \<and>
      outcome_id (errorOutcome request code msg) = (r_RequestID request, r_Generation request)"
    if "code \<in> {ErrorExecutionFailed, ErrorResourceExhausted}"
      "msg \<in> {[], ''invalid request payload'', ''terminal outcome exceeds configured bound''}" for code msg
    using error_deliverable [OF id, of code msg] m that by auto
  have x: "outcome_deliverable ?x \<and> outcome_id ?x = (r_RequestID request, r_Generation request)"
    by (rule executed_deliverable [OF id]) (use good in \<open>auto simp: deliverable_def\<close>)
  have b: "outcome_deliverable (bounded_outcome osize request c ?x) \<and>
      outcome_id (bounded_outcome osize request c ?x) = (r_RequestID request, r_Generation request)" for c :: "'c outcome_cache"
    using x e by (simp add: bounded_outcome_def)
  show ?thesis
    using None new e b
    by (cases ?dg) (auto simp: Dispatch_def cache_Do_def cache_begin_def cache_finish_def Let_def split: option.splits)
qed


definition waiting_request :: RuntimeRequest where
  "waiting_request = \<lparr>r_RequestID = ''r1'', r_Generation = 1, r_Deadline = 90, r_Operation = ''new'',
     r_Target = \<lparr>st_HostID = ''n'', st_Session = ''s''\<rparr>, r_Payload = ''{}''\<rparr>"

definition waiting_conn :: connection where
  "waiting_conn = (newPeerConnection ''n'' 1 RuntimeCapabilities ''a1'' 64)
     \<lparr>pc_requests := snd (Register waiting_request NewRequestTracker)\<rparr>"

definition waiting_hub :: "nat hub" where
  "waiting_hub = demo_start\<lparr>hb_mgr := (hb_mgr demo_start)\<lparr>m_conns := fmupd 0 waiting_conn fmempty,
     m_hosts := fmupd ''n'' ((new_host ''n'' ''n'' [] 1)\<lparr>hst_Conn := Some 0, hst_Generation := 1\<rparr>) fmempty\<rparr>\<rparr>"


end
