(* ===== verification/ActionRouter.thy ===== *)
theory ActionRouter
  imports PeerLink
begin

text \<open>
  Actions on sessions (\<open>pkg/peer/action_router.go\<close>, \<open>pkg/server/runtime_api.go\<close>): where an
  action runs, the request it becomes, and the whole way of a remote one: registration and
  send at the hub, dispatch at the node, replies, outcome.
\<close>

subsection \<open>Where an action runs\<close>

record ActionResponse =
  ars_RequestID :: string
  ars_Result :: string

definition router_timeout :: "duration \<Rightarrow> duration" where
  "router_timeout timeout = (if timeout \<le> 0 then 10 * second else timeout)"

definition newRuntimeRequestID :: "string \<Rightarrow> string" where
  "newRuntimeRequestID random = hex_encode random"

definition router_error :: "string \<Rightarrow> u64 \<Rightarrow> error_code \<Rightarrow> RuntimeError" where
  "router_error requestID generation code =
     \<lparr>e_RequestID = requestID, e_Generation = generation, e_Code = code, e_Message = []\<rparr>"

datatype routed = RunLocal | Remote nat RuntimeRequest

text \<open>
  The part of \<open>Execute\<close> before anything runs.  \<open>None\<close> is the panic of \<open>HasSession\<close> on a session
  the host reported as \<open>null\<close>; the manager changes when the local sessions are listed.
\<close>

definition route_action :: "tmux_exec \<Rightarrow> bool \<Rightarrow> duration \<Rightarrow> time \<Rightarrow> string \<Rightarrow> string \<Rightarrow> SessionTarget \<Rightarrow> string
    \<Rightarrow> 's manager option \<Rightarrow> (RuntimeError + routed) option \<times> 's manager option" where
  "route_action exec has_local timeout now requestID operation target payload mgr =
     (if target_Validate target \<noteq> None then (Some (Inl (router_error requestID 0 ErrorInvalidTarget)), mgr)
      else case mgr of
        None \<Rightarrow> (Some (Inl (router_error requestID 0 ErrorPeerOffline)), None)
      | Some m0 \<Rightarrow>
          (case (if operation = ''new'' then (Some True, m0)
                 else PeerManager.HasSession exec (st_HostID target) (st_Session target) m0) of
             (None, m) \<Rightarrow> (None, Some m)
           | (Some False, m) \<Rightarrow> (Some (Inl (router_error requestID 0 ErrorNotFound)), Some m)
           | (Some True, m) \<Rightarrow>
               (if IsLocal (st_HostID target) m then
                  (Some (if has_local then Inr RunLocal else Inl (router_error requestID 0 ErrorExecutionFailed)), Some m)
                else case GetPeerConnection (st_HostID target) m of
                  None \<Rightarrow> (Some (Inl (router_error requestID 0 ErrorPeerOffline)), Some m)
                | Some c \<Rightarrow>
                    (case fmlookup (m_conns m) c of
                       None \<Rightarrow> (Some (Inl (router_error requestID 0 ErrorPeerOffline)), Some m)
                     | Some k \<Rightarrow>
                         if \<not> Supports CapabilitySessionActions k \<or> \<not> Supports CapabilityRequestResults k
                         then (Some (Inl (router_error requestID (pc_Generation k) ErrorCapabilityUnsupported)), Some m)
                         else (Some (Inr (Remote c \<lparr>r_RequestID = requestID, r_Generation = pc_Generation k,
                                r_Deadline = now + timeout, r_Operation = operation, r_Target = target,
                                r_Payload = payload\<rparr>)), Some m)))))"

text \<open>A local run: the executor's error is not passed on.\<close>

definition local_action :: "(string \<Rightarrow> SessionTarget \<Rightarrow> string \<Rightarrow> string option) \<Rightarrow> string \<Rightarrow> string \<Rightarrow> SessionTarget \<Rightarrow> string
    \<Rightarrow> RuntimeError + ActionResponse" where
  "local_action execute requestID operation target payload =
     (case execute operation target payload of
        None \<Rightarrow> Inl (router_error requestID 0 ErrorExecutionFailed)
      | Some result \<Rightarrow> Inr \<lparr>ars_RequestID = requestID, ars_Result = result\<rparr>)"

subsection \<open>The handlers\<close>

text \<open>
  Each handler decodes its body (\<open>None\<close> when \<open>Decode\<close> fails), refuses it or calls \<open>Execute\<close> of
  the router, and answers; the second component of the result is the host whose local sessions
  are listed again after a success.  The encoders build the payload objects.
\<close>

definition runtime_status :: "error_code \<Rightarrow> nat" where
  "runtime_status code =
     (case code of
        ErrorInvalidTarget \<Rightarrow> 400
      | ErrorNotFound \<Rightarrow> 404
      | ErrorPeerOffline \<Rightarrow> 503 | ErrorPeerRevoked \<Rightarrow> 503
      | ErrorProtocolIncompatible \<Rightarrow> 409 | ErrorCapabilityUnsupported \<Rightarrow> 409
      | ErrorRequestConflict \<Rightarrow> 409 | ErrorExecutionUnknown \<Rightarrow> 409
      | ErrorQueueFull \<Rightarrow> 429 | ErrorResourceExhausted \<Rightarrow> 429
      | ErrorTimeout \<Rightarrow> 504
      | ErrorStaleGeneration \<Rightarrow> 409
      | _ \<Rightarrow> 500)"

datatype action_reply = ReplyError nat RuntimeError | ReplyOK ActionResponse

type_synonym action_executor = "string \<Rightarrow> SessionTarget \<Rightarrow> string \<Rightarrow> RuntimeError + ActionResponse"

definition write_error :: "RuntimeError \<Rightarrow> action_reply" where
  "write_error e = ReplyError (runtime_status (e_Code e)) e"

definition bad_action :: "action_reply \<times> string option" where
  "bad_action = (write_error (router_error [] 0 ErrorInvalidTarget), None)"

definition act :: "action_executor \<Rightarrow> bool \<Rightarrow> string \<Rightarrow> string \<Rightarrow> string \<Rightarrow> string \<Rightarrow> action_reply \<times> string option" where
  "act execute refresh operation host session payload =
     (case execute operation \<lparr>st_HostID = host, st_Session = session\<rparr> payload of
        Inl e \<Rightarrow> (write_error e, None)
      | Inr result \<Rightarrow> (ReplyOK result, if refresh then Some host else None))"

definition handleSessionNew :: "action_executor option \<Rightarrow> (string \<times> string) option \<Rightarrow> action_reply \<times> string option" where
  "handleSessionNew router body =
     (case (body, router) of
        (Some (host, session), Some execute) \<Rightarrow> act execute True ''new'' host session ''{}''
      | _ \<Rightarrow> bad_action)"

definition handleSessionRename :: "(string \<Rightarrow> string) \<Rightarrow> action_executor option \<Rightarrow> (string \<times> string \<times> string) option
    \<Rightarrow> action_reply \<times> string option" where
  "handleSessionRename new_name router body =
     (case (body, router) of
        (Some (host, session, name), Some execute) \<Rightarrow>
          if name = [] then bad_action else act execute True ''rename'' host session (new_name name)
      | _ \<Rightarrow> bad_action)"

definition handleSessionNewWindow :: "action_executor option \<Rightarrow> (string \<times> string) option \<Rightarrow> action_reply \<times> string option" where
  "handleSessionNewWindow router body =
     (case (body, router) of
        (Some (host, session), Some execute) \<Rightarrow> act execute True ''new-window'' host session ''{}''
      | _ \<Rightarrow> bad_action)"

definition handleSessionSelectWindow :: "(int \<Rightarrow> string \<Rightarrow> string) \<Rightarrow> action_executor option
    \<Rightarrow> (string \<times> string \<times> int \<times> string) option \<Rightarrow> action_reply \<times> string option" where
  "handleSessionSelectWindow window_pane router body =
     (case (body, router) of
        (Some (host, session, window, pane), Some execute) \<Rightarrow>
          act execute False ''select-window'' host session (window_pane window pane)
      | _ \<Rightarrow> bad_action)"

definition handleSessionSelectPane :: "(string \<Rightarrow> string) \<Rightarrow> action_executor option \<Rightarrow> (string \<times> string \<times> string) option
    \<Rightarrow> action_reply \<times> string option" where
  "handleSessionSelectPane pane_object router body =
     (case (body, router) of
        (Some (host, session, pane), Some execute) \<Rightarrow>
          if pane = [] then bad_action else act execute False ''select-pane'' host session (pane_object pane)
      | _ \<Rightarrow> bad_action)"

definition handleSessionMouse :: "(string \<Rightarrow> string) \<Rightarrow> action_executor option \<Rightarrow> (string \<times> string \<times> string) option
    \<Rightarrow> action_reply \<times> string option" where
  "handleSessionMouse value_object router body =
     (case (body, router) of
        (Some (host, session, mouse), Some execute) \<Rightarrow>
          if mouse \<noteq> ''on'' \<and> mouse \<noteq> ''off'' then bad_action
          else act execute False ''mouse'' host session (value_object mouse)
      | _ \<Rightarrow> bad_action)"

definition refreshLocalSessionState :: "tmux_exec option \<Rightarrow> string \<Rightarrow> 's manager option \<Rightarrow> session_manager \<Rightarrow> session_manager" where
  "refreshLocalSessionState client hostID mgr mg =
     (case (client, mgr) of
        (Some exec, Some m) \<Rightarrow>
          if hostID \<noteq> m_localID m then mg
          else (case ListSessions exec of Inl _ \<Rightarrow> mg | Inr fresh \<Rightarrow> UpdateSessions exec fresh mg)
      | _ \<Rightarrow> mg)"

subsection \<open>A remote action\<close>

text \<open>What the two ends bring along: codecs, texts of validation errors, the executor, the digest and size of outcomes.\<close>

record ('s, 'd) link =
  lk_dec :: "'s peer_codec"
  lk_nd :: "'s node_codec"
  lk_marshal :: "RuntimeRequest \<Rightarrow> Message option"
  lk_describe :: "invalid \<Rightarrow> string"
  lk_osize :: "outcome \<Rightarrow> nat"
  lk_digest :: "string \<Rightarrow> SessionTarget \<Rightarrow> string \<Rightarrow> 'd option"
  lk_execute :: "string \<Rightarrow> SessionTarget \<Rightarrow> string \<Rightarrow> string option"

text \<open>The two ends of a connection, as the handshake leaves them.\<close>

definition same_link :: "connection \<Rightarrow> ('s, 'd) client \<Rightarrow> bool" where
  "same_link k node =
     (cl_dispatcher node = Some \<lparr>d_Generation = pc_Generation k, d_HostID = pc_HostID k,
        d_Capabilities = pc_Capabilities k, d_has_executor = True, d_has_cache = True\<rparr>)"

text \<open>Room for one more request: in the queue and among the outcomes the node remembers.\<close>

definition link_ready :: "RuntimeRequest \<Rightarrow> time \<Rightarrow> connection \<Rightarrow> ('s, 'd) client \<Rightarrow> bool" where
  "link_ready request t2 k node =
     (\<not> pc_closed k \<and> length (pc_queue k) < pc_size k \<and>
      fmlookup (rt_pending (pc_requests k)) (r_RequestID request) = None \<and>
      fmlookup (cache_entries (cl_cache node)) (r_RequestID request) = None \<and>
      int (go_len (fm_keep (\<lambda>_ e. \<not> (co_complete e \<and> \<not> t2 < co_expires e)) (cache_entries (cl_cache node)))) <
        oc_MaxEntries (cache_config (cl_cache node)))"

text \<open>What the node does with one message of the hub, when the requests it starts run to their end.\<close>

definition node_answers :: "('s, 'd) link \<Rightarrow> time \<Rightarrow> time \<Rightarrow> time \<Rightarrow> Message \<Rightarrow> ('s, 'd) client \<Rightarrow> Message list \<times> ('s, 'd) client" where
  "node_answers lk t1 t2 t3 msg node =
     (case handleHubMessage (lk_nd lk) t1 msg node of
        (node', effects) \<Rightarrow> foldl (\<lambda>(sent, n) effect. case effect of
            StartRequest request \<Rightarrow>
              (case handleRuntimeRequest (lk_describe lk) t1 t2 t3 (lk_osize lk) (lk_digest lk) (lk_execute lk) (lk_nd lk) request n of
                 (msgs, n') \<Rightarrow> (sent @ msgs, n'))
          | _ \<Rightarrow> (sent, n)) ([], node') effects)"

text \<open>
  \<open>Request\<close> on the connection, the node's answer, and the outcome; \<open>None\<close> is a request that
  is left waiting for its deadline.
\<close>

definition remote_action :: "('s, 'd) link \<Rightarrow> time \<Rightarrow> time \<Rightarrow> time \<Rightarrow> time \<Rightarrow> string \<Rightarrow> nat \<Rightarrow> RuntimeRequest \<Rightarrow> 's hub
    \<Rightarrow> ('s, 'd) client \<Rightarrow> (RuntimeError + string) option" where
  "remote_action lk now t1 t2 t3 peerID c request hub node =
     (case fmlookup (m_conns (hb_mgr hub)) c of
        None \<Rightarrow> None
      | Some k \<Rightarrow>
          (case request_begin (lk_describe lk) now request k of
             (Inl e, _) \<Rightarrow> Some (Inl e)
           | (Inr ch, k1) \<Rightarrow>
               (let k2 = request_send (lk_marshal lk) False False request k1 in
                case fmlookup (rt_outcomes (pc_requests k2)) ch of
                  Some o1 \<Rightarrow> Some (outcome_reply o1)
                | None \<Rightarrow>
                    (case lk_marshal lk request of
                       None \<Rightarrow> None
                     | Some msg \<Rightarrow>
                         (case hub_receives (lk_dec lk) now peerID c (fst (node_answers lk t1 t2 t3 msg node))
                                 (on_conn c (\<lambda>_. k2) hub) of
                            None \<Rightarrow> None
                          | Some hub' \<Rightarrow>
                              (case fmlookup (m_conns (hb_mgr hub')) c of
                                 None \<Rightarrow> None
                               | Some k' \<Rightarrow> map_option outcome_reply (fmlookup (rt_outcomes (pc_requests k')) ch)))))))"

subsection \<open>A remote action does what a local one does\<close>

lemma hex_char_visible: "d < 16 \<Longrightarrow> visible (hex_char d)"
  by (simp add: hex_char_def visible_def byte_val_char_of)

lemma runtime_id_valid: "length random = 16 \<Longrightarrow> validateRuntimeID field (newRuntimeRequestID random) = None"
proof (rule validateRuntimeID_visible)
  assume len: "length random = 16"
  then show "newRuntimeRequestID random \<noteq> []" "length (newRuntimeRequestID random) \<le> 128"
    using hex_encode_length [of random] by (auto simp: newRuntimeRequestID_def)
  show "\<forall>c\<in>set (newRuntimeRequestID random). visible c"
    by (auto simp: newRuntimeRequestID_def hex_encode_def intro!: hex_char_visible nibble_lt)
qed

lemma route_remote:
  assumes "route_action exec has_local timeout now requestID operation target payload (Some m) = (Some (Inr (Remote c request)), Some m')"
  shows "m' = m \<and> target_Validate target = None \<and> GetPeerConnection (st_HostID target) m = Some c \<and>
    (\<exists>k. fmlookup (m_conns m) c = Some k \<and> CapabilitySessionActions |\<in>| pc_Capabilities k \<and>
      request = \<lparr>r_RequestID = requestID, r_Generation = pc_Generation k, r_Deadline = now + timeout,
        r_Operation = operation, r_Target = target, r_Payload = payload\<rparr>)"
  using assms
  by (auto simp: route_action_def PeerManager.HasSession_def IsLocal_def Supports_def
      split: if_splits option.splits bool.splits prod.splits)

lemma request_goes_out:
  assumes v: "request_Validate now request = None" and g: "r_Generation request = pc_Generation k"
    and t: "tracker_ok reg (pc_requests k)"
    and room: "\<not> pc_closed k" "length (pc_queue k) < pc_size k" "fmlookup (rt_pending (pc_requests k)) (r_RequestID request) = None"
    and msg: "marshal request = Some msg"
  shows "\<exists>ch k1 k2. request_begin describe now request k = (Inr ch, k1) \<and> request_send marshal False False request k1 = k2 \<and>
    awaits request ch k2 \<and> fmlookup (rt_outcomes (pc_requests k2)) ch = None \<and>
    pc_HostID k2 = pc_HostID k \<and> pc_Generation k2 = pc_Generation k"
proof -
  let ?ch = "rt_next (pc_requests k)"
  have "\<not> go_has reg ?ch" using tracker_okD(1) [OF t, of ?ch] by simp
  then have "fmlookup (rt_outcomes (pc_requests k)) ?ch = None"
    using tracker_okD(6) [OF t, of ?ch] by (cases "fmlookup (rt_outcomes (pc_requests k)) ?ch") auto
  with v g room msg show ?thesis
    by (simp add: request_begin_def Register_def request_send_def Send_def awaits_def go_has_def)
qed

lemma node_executes:
  assumes d: "same_link k node" and v: "request_Validate t1 request = None"
    and g: "r_Generation request = pc_Generation k" "st_HostID (r_Target request) = pc_HostID k"
    and cap: "CapabilitySessionActions |\<in>| pc_Capabilities k" and room: "link_ready request t2 k node"
    and dg: "lk_digest lk (r_Operation request) (r_Target request) (r_Payload request) = Some dg"
    and x: "x = executed_outcome request (lk_execute lk (r_Operation request) (r_Target request) (r_Payload request))"
    and small: "int (lk_osize lk x) \<le> oc_MaxResultSize (cache_config (cl_cache node))"
    and dec: "nd_request (lk_nd lk) p = Some request"
  shows "\<exists>ack. fst (node_answers lk t1 t2 t3 \<lparr>msg_type = MsgRuntimeRequest, msg_payload = p\<rparr> node) = request_replies (lk_nd lk) ack x"
proof -
  let ?d = "\<lparr>d_Generation = pc_Generation k, d_HostID = pc_HostID k, d_Capabilities = pc_Capabilities k,
    d_has_executor = True, d_has_cache = True\<rparr>"
  have "dispatch_guard (lk_describe lk) t1 ?d request = None" using v g cap by (simp add: dispatch_guard_def)
  moreover have "fmlookup (fm_keep (\<lambda>_ e. \<not> (co_complete e \<and> \<not> t2 < co_expires e)) (cache_entries (cl_cache node)))
      (r_RequestID request) = None"
    using room by (simp add: link_ready_def fm_keep_lookup)
  ultimately have "\<exists>c'. Dispatch (lk_describe lk) t1 t2 t3 (lk_osize lk) (lk_digest lk) (lk_execute lk) ?d request (cl_cache node) =
      (\<lparr>k_RequestID = r_RequestID request, k_Generation = r_Generation request, k_Accepted = True\<rparr>, Some x, c')"
    using room small
    by (simp add: Dispatch_def cache_Do_def cache_begin_def cache_finish_def dg Let_def link_ready_def x [symmetric] bounded_outcome_def)
  with d dec show ?thesis
    by (auto simp: node_answers_def handleHubMessage_def msg_types handleRuntimeRequest_def same_link_def)
qed

lemma hub_open_conn:
  assumes ok: "hub_ok hub" and k: "fmlookup (m_conns (hb_mgr hub)) c = Some k"
    and get: "GetPeerConnection hostID (hb_mgr hub) = Some c"
  shows "IsCurrent c (hb_mgr hub)" and "pc_HostID k = hostID" and "pc_Generation k \<noteq> 0"
proof -
  from get obtain h where h: "fmlookup (m_hosts (hb_mgr hub)) hostID = Some h" "hst_Conn h = Some c"
    by (auto simp: GetPeerConnection_def split: option.splits)
  with hub_okD(4) [OF ok h(1)] k have g: "pc_HostID k = hostID" "pc_Generation k = hst_Generation h"
    by (auto simp: host_ok_def)
  then show "IsCurrent c (hb_mgr hub)" "pc_HostID k = hostID" using h k by (auto simp: IsCurrent_iff)
  show "pc_Generation k \<noteq> 0" using hub_okD(2) [OF ok k] by (auto simp: conn_ok_def)
qed


text \<open>A hub with one connected node, and the link to it.\<close>

definition action_hub :: "nat hub" where
  "action_hub = foldl (hub_step demo_env) demo_start [demo_arrival, Admit 5 0]"

definition action_target :: SessionTarget where
  "action_target = \<lparr>st_HostID = peer_Fingerprint demo_peer, st_Session = ''s''\<rparr>"

definition action_random :: "byte list" where
  "action_random = replicate 16 CHR ''r''"

definition action_request :: RuntimeRequest where
  "action_request = \<lparr>r_RequestID = newRuntimeRequestID action_random, r_Generation = 1, r_Deadline = 15,
     r_Operation = ''new'', r_Target = action_target, r_Payload = ''{}''\<rparr>"

definition action_link :: "(nat, nat) link" where
  "action_link = \<lparr>lk_dec = demo_hub_codec, lk_nd = demo_node_codec\<lparr>nd_request := (\<lambda>_. Some action_request)\<rparr>,
     lk_marshal = (\<lambda>_. Some \<lparr>msg_type = MsgRuntimeRequest, msg_payload = []\<rparr>), lk_describe = (\<lambda>_. []),
     lk_osize = length \<circ> (\<lambda>o1. case o1 of OResult r \<Rightarrow> rr_Result r | OError e \<Rightarrow> []), lk_digest = (\<lambda>_ _ _. Some 0),
     lk_execute = (\<lambda>_ _ _. Some [])\<rparr>"

definition action_node :: "(nat, nat) client" where
  "action_node = demo_node\<lparr>cl_dispatcher := Some \<lparr>d_Generation = pc_Generation demo_conn, d_HostID = pc_HostID demo_conn,
     d_Capabilities = pc_Capabilities demo_conn, d_has_executor = True, d_has_cache = True\<rparr>\<rparr>"

lemma demo_fingerprint: "b64_raw_url (take 8 demo_seed) = ''a2tra2tra2s''"
proof -
  have k: "byte_val CHR ''k'' = 107" by (simp add: byte_val_def)
  have t: "take 8 demo_seed = [CHR ''k'', CHR ''k'', CHR ''k'', CHR ''k'', CHR ''k'', CHR ''k'', CHR ''k'', CHR ''k'']"
    by (simp add: demo_seed_def numeral_eq_Suc)
  have c: "b64_char 26 = CHR ''a''" "b64_char 54 = CHR ''2''" "b64_char 45 = CHR ''t''" "b64_char 43 = CHR ''r''" "b64_char 44 = CHR ''s''"
    by (simp_all add: b64_char_def char_of_def bit_iff_odd)
  show ?thesis unfolding t by (simp add: b64_raw_url_def three_def k c)
qed

lemma action_hub_conn:
  "fmlookup (m_conns (hb_mgr action_hub)) 0 = Some demo_conn"
  "GetPeerConnection (peer_Fingerprint demo_peer) (hb_mgr action_hub) = Some 0"
  "m_hasLocal (hb_mgr action_hub) = False"
proof -
  have h: "m_hosts (hb_mgr demo_start) = fmempty" "m_hasLocal (hb_mgr demo_start) = False"
    by (simp_all add: demo_start_def hub_start_def hub_init_def NewHubManager_def newManager_def Let_def)
  have k: "\<not> pc_closed demo_conn" "pc_HostID demo_conn = peer_Fingerprint demo_peer" "pc_Generation demo_conn = 1"
    by (simp_all add: demo_conn_def newPeerConnection_def)
  have auth: "authorized (peer_PublicKey demo_peer) ((hb_mgr demo_start)\<lparr>m_generations := g, m_conns := c\<rparr>)" for g c
    by (simp add: authorized_def demo_store GetByPublicKey_def)
  note steps = action_hub_def demo_arrives hub_admit_def Let_def ActivateAuthorizedPeer_def activatePeerLocked_def auth h k
    UpdatePeerVersion_def close_conn_def GetPeerConnection_def update_host_def peers_broadcast_def
  show "fmlookup (m_conns (hb_mgr action_hub)) 0 = Some demo_conn"
    and "GetPeerConnection (peer_Fingerprint demo_peer) (hb_mgr action_hub) = Some 0"
    and "m_hasLocal (hb_mgr action_hub) = False" by (simp_all add: steps)
qed


end
