(* ===== verification/PtyNode.thy ===== *)
theory PtyNode
  imports PeerLink PtyFrame ActivityRing
begin

text \<open>
  Terminals on a node (\<open>pkg/peer/pty_manager.go\<close>): each open request of the hub spawns a
  terminal, attaches a data channel and runs two loops, one that sends what the terminal
  prints and one that types what the hub sends; the first loop that ends tears the stream
  down.  A stream has a number, the loops and the calls of different streams interleave
  freely.  Spawning and dialling either succeed or fail, by arguments; a write succeeds only
  on a terminal or channel that is open.
\<close>

subsection \<open>State\<close>

datatype pty_stage = Starting | Serving | Returned

text \<open>
  \<open>ap_shown\<close> and \<open>ap_frames\<close> are the output read and the frames written for it, \<open>ap_inbox\<close>
  and \<open>ap_typed\<close> the binary messages read and the bytes written to the terminal; they are
  the history of the stream.  The two flags \<open>ap_out\<close> and \<open>ap_in\<close> say that the loops run.
\<close>

record active_pty =
  ap_StreamID :: string
  ap_Target :: SessionTarget
  ap_stage :: pty_stage
  ap_torn :: bool
  ap_ws_open :: bool
  ap_pty_open :: bool
  ap_out :: bool
  ap_in :: bool
  ap_outputSequence :: u64
  ap_inputSequence :: PTYSequence
  ap_controlSequence :: PTYSequence
  ap_shown :: "byte list list"
  ap_frames :: "byte list list"
  ap_inbox :: "byte list list"
  ap_typed :: "byte list list"
  ap_sizes :: "(16 word \<times> 16 word) list"

record pty_manager =
  pm_sessions :: "(string, nat) fmap"
  pm_streams :: "(nat, active_pty) fmap"
  pm_next :: nat
  pm_activity :: "activity_tracker option"

definition NewPTYManager :: "activity_tracker option \<Rightarrow> pty_manager" where
  "NewPTYManager activity = \<lparr>pm_sessions = fmempty, pm_streams = fmempty, pm_next = 0, pm_activity = activity\<rparr>"

definition on_stream :: "nat \<Rightarrow> (active_pty \<Rightarrow> active_pty) \<Rightarrow> pty_manager \<Rightarrow> pty_manager" where
  "on_stream i f pm =
     (case fmlookup (pm_streams pm) i of None \<Rightarrow> pm | Some a \<Rightarrow> pm\<lparr>pm_streams := fmupd i (f a) (pm_streams pm)\<rparr>)"

text \<open>\<open>once.Do\<close>: the first teardown closes the channel and the terminal.\<close>

definition pty_Teardown :: "active_pty \<Rightarrow> active_pty" where
  "pty_Teardown a = (if ap_torn a then a else a\<lparr>ap_torn := True, ap_ws_open := False, ap_pty_open := False\<rparr>)"

subsection \<open>Opening\<close>

text \<open>
  Up to the lock: a request that fails the guard or whose terminal does not start leaves
  nothing, one whose channel cannot be attached leaves a closed terminal.
\<close>

definition pty_Open :: "('s, 'd) client \<Rightarrow> PTYOpenPayload \<Rightarrow> bool \<Rightarrow> bool \<Rightarrow> pty_manager \<Rightarrow> pty_manager" where
  "pty_Open c request spawned attached pm =
     (if \<not> pty_open_accepted request c \<or> \<not> spawned then pm
      else pm\<lparr>pm_streams := fmupd (pm_next pm)
          \<lparr>ap_StreamID = po_StreamID request, ap_Target = po_Target request,
           ap_stage = if attached then Starting else Returned, ap_torn = False, ap_ws_open = attached, ap_pty_open = attached,
           ap_out = False, ap_in = False, ap_outputSequence = 0, ap_inputSequence = new_sequence,
           ap_controlSequence = new_sequence, ap_shown = [], ap_frames = [], ap_inbox = [], ap_typed = [],
           ap_sizes = [(po_Cols request, po_Rows request)]\<rparr> (pm_streams pm),
         pm_next := Suc (pm_next pm)\<rparr>)"

text \<open>The critical section: a second stream of the same identifier is torn down.\<close>

definition pty_register :: "nat \<Rightarrow> pty_manager \<Rightarrow> pty_manager" where
  "pty_register i pm =
     (case fmlookup (pm_streams pm) i of
        None \<Rightarrow> pm
      | Some a \<Rightarrow>
          if ap_stage a \<noteq> Starting then pm
          else if go_has (pm_sessions pm) (ap_StreamID a)
          then on_stream i (\<lambda>a. (pty_Teardown a)\<lparr>ap_stage := Returned\<rparr>) pm
          else on_stream i (\<lambda>a. a\<lparr>ap_stage := Serving, ap_out := True, ap_in := True\<rparr>)
            (pm\<lparr>pm_sessions := fmupd (ap_StreamID a) i (pm_sessions pm)\<rparr>))"

subsection \<open>The loops\<close>

definition ptyReadSize :: nat where "ptyReadSize = 32 * 1024"

text \<open>One turn of the output loop: \<open>data\<close> is what the terminal has, of which one buffer is read.\<close>

definition output_turn :: "byte list \<Rightarrow> bool \<Rightarrow> active_pty \<Rightarrow> active_pty" where
  "output_turn chunk write_ok a =
     (let seq = ap_outputSequence a + 1; a = a\<lparr>ap_outputSequence := seq\<rparr> in
      case EncodePTYDataFrame PTYDataOutput seq chunk of
        Inl _ \<Rightarrow> a\<lparr>ap_out := False\<rparr>
      | Inr frame \<Rightarrow>
          if \<not> (write_ok \<and> ap_ws_open a) then a\<lparr>ap_out := False\<rparr>
          else a\<lparr>ap_shown := ap_shown a @ [chunk], ap_frames := ap_frames a @ [frame]\<rparr>)"

definition pty_output :: "time \<Rightarrow> nat \<Rightarrow> byte list \<Rightarrow> bool \<Rightarrow> pty_manager \<Rightarrow> pty_manager" where
  "pty_output now i data write_ok pm =
     (case fmlookup (pm_streams pm) i of
        None \<Rightarrow> pm
      | Some a \<Rightarrow>
          if \<not> ap_out a then pm
          else let chunk = take ptyReadSize data in
            on_stream i (output_turn chunk write_ok)
              (pm\<lparr>pm_activity := map_option (activity_Record now (st_Session (ap_Target a)) (int (length chunk))) (pm_activity pm)\<rparr>))"

datatype hub_frame = BinaryFrame "byte list" | TextFrame "byte list" | OtherFrame

text \<open>One turn of the input loop; \<open>ok\<close> says whether the terminal takes the bytes or the size.\<close>

definition control_turn :: "(byte list \<Rightarrow> (PTYControlFrame \<times> bool) option) \<Rightarrow> byte list \<Rightarrow> bool \<Rightarrow> active_pty \<Rightarrow> active_pty" where
  "control_turn decode data ok a =
     (case DecodePTYControlFrame decode data of
        Inl _ \<Rightarrow> a\<lparr>ap_in := False\<rparr>
      | Inr frame \<Rightarrow>
          (case seq_Accept (c_Sequence frame) (ap_controlSequence a) of
             (Inl _, s) \<Rightarrow> a\<lparr>ap_in := False, ap_controlSequence := s\<rparr>
           | (Inr duplicate, s) \<Rightarrow>
               let a = a\<lparr>ap_controlSequence := s\<rparr> in
               if duplicate then a
               else if c_Type frame = ''resize'' then
                 (if ok \<and> ap_pty_open a then a\<lparr>ap_sizes := ap_sizes a @ [(c_Cols frame, c_Rows frame)]\<rparr>
                  else a\<lparr>ap_in := False\<rparr>)
               else if c_Type frame = ''close'' \<or> c_Type frame = ''error'' then a\<lparr>ap_in := False\<rparr>
               else a))"

definition input_turn :: "byte list \<Rightarrow> bool \<Rightarrow> active_pty \<Rightarrow> active_pty" where
  "input_turn data ok a0 =
     (let a = a0\<lparr>ap_inbox := ap_inbox a0 @ [data]\<rparr> in
      case DecodePTYDataFrame data of
        Inl _ \<Rightarrow> a\<lparr>ap_in := False\<rparr>
      | Inr frame \<Rightarrow>
          if f_Direction frame \<noteq> PTYDataInput then a\<lparr>ap_in := False\<rparr>
          else (case seq_Accept (f_Sequence frame) (ap_inputSequence a) of
             (Inl _, s) \<Rightarrow> a\<lparr>ap_in := False, ap_inputSequence := s\<rparr>
           | (Inr duplicate, s) \<Rightarrow>
               let a = a\<lparr>ap_inputSequence := s\<rparr> in
               if duplicate then a
               else if ok \<and> ap_pty_open a then a\<lparr>ap_typed := ap_typed a @ [f_Payload frame]\<rparr>
               else a\<lparr>ap_in := False\<rparr>))"

definition message_turn :: "(byte list \<Rightarrow> (PTYControlFrame \<times> bool) option) \<Rightarrow> hub_frame \<Rightarrow> bool \<Rightarrow> active_pty \<Rightarrow> active_pty" where
  "message_turn decode message ok a =
     (if \<not> ap_in a then a
      else case message of
        BinaryFrame data \<Rightarrow> input_turn data ok a
      | TextFrame data \<Rightarrow> control_turn decode data ok a
      | OtherFrame \<Rightarrow> a\<lparr>ap_in := False\<rparr>)"

subsection \<open>The end of a stream\<close>

text \<open>The first loop that ends lets \<open>Open\<close> tear the stream down; when both have, it is unlisted.\<close>

definition pty_done :: "active_pty \<Rightarrow> active_pty" where
  "pty_done a = (if ap_stage a = Serving \<and> (\<not> ap_out a \<or> \<not> ap_in a) then pty_Teardown a else a)"

definition pty_return :: "nat \<Rightarrow> pty_manager \<Rightarrow> pty_manager" where
  "pty_return i pm =
     (case fmlookup (pm_streams pm) i of
        None \<Rightarrow> pm
      | Some a \<Rightarrow>
          if ap_stage a \<noteq> Serving \<or> ap_out a \<or> ap_in a \<or> \<not> ap_torn a then pm
          else on_stream i (\<lambda>a. a\<lparr>ap_stage := Returned\<rparr>)
            (if fmlookup (pm_sessions pm) (ap_StreamID a) = Some i
             then pm\<lparr>pm_sessions := fmdrop (ap_StreamID a) (pm_sessions pm)\<rparr> else pm))"

definition pty_Close :: "string \<Rightarrow> pty_manager \<Rightarrow> pty_manager" where
  "pty_Close streamID pm =
     (case fmlookup (pm_sessions pm) streamID of None \<Rightarrow> pm | Some i \<Rightarrow> on_stream i pty_Teardown pm)"

definition pty_CloseAll :: "pty_manager \<Rightarrow> pty_manager" where
  "pty_CloseAll pm =
     foldl (\<lambda>pm i. on_stream i pty_Teardown pm) pm (map (\<lambda>s. the (fmlookup (pm_sessions pm) s)) (go_keys (pm_sessions pm)))"

definition pty_Resize :: "string \<Rightarrow> 16 word \<Rightarrow> 16 word \<Rightarrow> bool \<Rightarrow> pty_manager \<Rightarrow> pty_manager" where
  "pty_Resize streamID width height ok pm =
     (case fmlookup (pm_sessions pm) streamID of
        None \<Rightarrow> pm
      | Some i \<Rightarrow>
          if width > 0 \<and> height > 0
          then on_stream i (\<lambda>a. if ok \<and> ap_pty_open a then a\<lparr>ap_sizes := ap_sizes a @ [(width, height)]\<rparr> else a) pm
          else pm)"

subsection \<open>The manager as a transition system\<close>

datatype ('s, 'd) pty_event =
    POpen "('s, 'd) client" PTYOpenPayload bool bool
  | PRegister nat
  | POutput time nat "byte list" bool
  | POutputEnds nat
  | PMessage nat hub_frame bool
  | PInputEnds nat
  | PDone nat
  | PReturn nat
  | PClose string
  | PCloseAll
  | PResize string "16 word" "16 word" bool

fun pty_step :: "(byte list \<Rightarrow> (PTYControlFrame \<times> bool) option) \<Rightarrow> pty_manager \<Rightarrow> ('s, 'd) pty_event \<Rightarrow> pty_manager" where
  "pty_step decode pm (POpen c request spawned attached) = pty_Open c request spawned attached pm"
| "pty_step decode pm (PRegister i) = pty_register i pm"
| "pty_step decode pm (POutput now i data ok) = pty_output now i data ok pm"
| "pty_step decode pm (POutputEnds i) = on_stream i (\<lambda>a. a\<lparr>ap_out := False\<rparr>) pm"
| "pty_step decode pm (PMessage i message ok) = on_stream i (message_turn decode message ok) pm"
| "pty_step decode pm (PInputEnds i) = on_stream i (\<lambda>a. a\<lparr>ap_in := False\<rparr>) pm"
| "pty_step decode pm (PDone i) = on_stream i pty_done pm"
| "pty_step decode pm (PReturn i) = pty_return i pm"
| "pty_step decode pm (PClose s) = pty_Close s pm"
| "pty_step decode pm PCloseAll = pty_CloseAll pm"
| "pty_step decode pm (PResize s width height ok) = pty_Resize s width height ok pm"

subsection \<open>Streams of frames, cut anywhere\<close>

lemma send_stream_snoc:
  "length (send_stream d s ps) = length ps \<Longrightarrow>
   send_stream d s (ps @ [p]) = send_stream d s ps @
     (case EncodePTYDataFrame d (s + of_nat (Suc (length ps))) p of Inl _ \<Rightarrow> [] | Inr frame \<Rightarrow> [frame])"
proof (induction ps arbitrary: s)
  case (Cons q ps)
  then show ?case by (cases "EncodePTYDataFrame d (s + 1) q") (auto simp: add.assoc)
qed (simp split: sum.splits)

text \<open>The receiver's state after the messages it took, if it goes on.\<close>

fun receive_state :: "nat \<Rightarrow> PTYSequence \<Rightarrow> byte list list \<Rightarrow> PTYSequence option" where
  "receive_state d s [] = Some s"
| "receive_state d s (data # rest) =
     (case DecodePTYDataFrame data of
        Inl _ \<Rightarrow> None
      | Inr frame \<Rightarrow>
          if f_Direction frame \<noteq> d then None
          else case seq_Accept (f_Sequence frame) s of
            (Inl _, _) \<Rightarrow> None
          | (Inr _, s') \<Rightarrow> receive_state d s' rest)"

lemma receive_append:
  "receive_stream d s (xs @ ys) = receive_stream d s xs @
     (case receive_state d s xs of None \<Rightarrow> [] | Some s' \<Rightarrow> receive_stream d s' ys)"
  by (induction d s xs rule: receive_stream.induct) (auto split: sum.splits prod.splits)

lemma receive_state_append:
  "receive_state d s (xs @ ys) = (case receive_state d s xs of None \<Rightarrow> None | Some s' \<Rightarrow> receive_state d s' ys)"
  by (induction d s xs rule: receive_state.induct) (auto split: sum.splits prod.splits)


subsection \<open>The invariant\<close>

definition out_ok :: "active_pty \<Rightarrow> bool" where
  "out_ok a =
     (ap_frames a = send_stream PTYDataOutput 0 (ap_shown a) \<and>
      length (send_stream PTYDataOutput 0 (ap_shown a)) = length (ap_shown a) \<and>
      list_all (\<lambda>p. length p \<le> ptyReadSize) (ap_shown a) \<and>
      (ap_out a \<or> ap_stage a = Starting \<longrightarrow> ap_outputSequence a = of_nat (length (ap_shown a))))"

definition in_ok :: "active_pty \<Rightarrow> bool" where
  "in_ok a =
     ((\<exists>lost. receive_stream PTYDataInput new_sequence (ap_inbox a) = ap_typed a @ lost) \<and>
      (ap_in a \<or> ap_stage a = Starting \<longrightarrow>
         receive_stream PTYDataInput new_sequence (ap_inbox a) = ap_typed a \<and>
         receive_state PTYDataInput new_sequence (ap_inbox a) = Some (ap_inputSequence a)))"

definition stream_ok :: "active_pty \<Rightarrow> bool" where
  "stream_ok a =
     ((ap_torn a \<or> ap_stage a = Returned \<longrightarrow> \<not> ap_ws_open a \<and> \<not> ap_pty_open a) \<and>
      (ap_stage a \<noteq> Serving \<longrightarrow> \<not> ap_out a \<and> \<not> ap_in a) \<and> out_ok a \<and> in_ok a)"

definition manager_ok :: "pty_manager \<Rightarrow> bool" where
  "manager_ok pm =
     ((\<forall>i a. fmlookup (pm_streams pm) i = Some a \<longrightarrow> i < pm_next pm \<and> stream_ok a \<and>
        (ap_stage a = Serving) = (fmlookup (pm_sessions pm) (ap_StreamID a) = Some i)) \<and>
      (\<forall>s i. fmlookup (pm_sessions pm) s = Some i \<longrightarrow>
        (\<exists>a. fmlookup (pm_streams pm) i = Some a \<and> ap_StreamID a = s)))"

lemma manager_okD:
  assumes "manager_ok pm"
  shows "fmlookup (pm_streams pm) i = Some a \<Longrightarrow> i < pm_next pm"
    and "fmlookup (pm_streams pm) i = Some a \<Longrightarrow> stream_ok a"
    and "fmlookup (pm_streams pm) i = Some a \<Longrightarrow> (ap_stage a = Serving) = (fmlookup (pm_sessions pm) (ap_StreamID a) = Some i)"
    and "fmlookup (pm_sessions pm) s = Some i \<Longrightarrow> \<exists>a. fmlookup (pm_streams pm) i = Some a \<and> ap_StreamID a = s"
  using assms unfolding manager_ok_def by blast+

text \<open>One stream is stored; only its own entry of the sessions may change.\<close>

lemma store_stream_ok:
  assumes ok: "manager_ok pm" and b: "stream_ok b" and n: "i < n" "pm_next pm \<le> n"
    and link: "(ap_stage b = Serving) = (fmlookup S (ap_StreamID b) = Some i)"
    and others: "\<And>t j. j \<noteq> i \<Longrightarrow> (fmlookup S t = Some j) = (fmlookup (pm_sessions pm) t = Some j)"
    and own: "\<And>t. fmlookup S t = Some i \<Longrightarrow> t = ap_StreamID b"
  shows "manager_ok (pm\<lparr>pm_sessions := S, pm_streams := fmupd i b (pm_streams pm), pm_next := n\<rparr>)"
proof -
  let ?pm = "pm\<lparr>pm_sessions := S, pm_streams := fmupd i b (pm_streams pm), pm_next := n\<rparr>"
  have "j < n \<and> stream_ok x \<and> (ap_stage x = Serving) = (fmlookup S (ap_StreamID x) = Some j)"
    if "fmlookup (fmupd i b (pm_streams pm)) j = Some x" for j x
  proof (cases "j = i")
    case True
    with that have "x = b" by simp
    with True b n link show ?thesis by simp
  next
    case False
    with that have x: "fmlookup (pm_streams pm) j = Some x" by simp
    from manager_okD(1-3) [OF ok x] others [OF False] n show ?thesis by simp
  qed
  moreover have "\<exists>x. fmlookup (fmupd i b (pm_streams pm)) j = Some x \<and> ap_StreamID x = t" if "fmlookup S t = Some j" for t j
  proof (cases "j = i")
    case True
    with own [of t] that show ?thesis by simp
  next
    case False
    with others [OF False] that manager_okD(4) [OF ok, of t j] show ?thesis by simp
  qed
  ultimately show ?thesis unfolding manager_ok_def by simp
qed

text \<open>A change of one stream that keeps its identifier and stage.\<close>

lemma on_stream_ok:
  assumes ok: "manager_ok pm"
    and f: "\<And>a. \<lbrakk>fmlookup (pm_streams pm) i = Some a; stream_ok a\<rbrakk> \<Longrightarrow>
      stream_ok (f a) \<and> ap_stage (f a) = ap_stage a \<and> ap_StreamID (f a) = ap_StreamID a"
  shows "manager_ok (on_stream i f pm)"
proof (cases "fmlookup (pm_streams pm) i")
  case None
  with ok show ?thesis by (simp add: on_stream_def)
next
  case (Some a)
  note k = f [OF Some manager_okD(2) [OF ok Some]]
  have "manager_ok (pm\<lparr>pm_sessions := pm_sessions pm, pm_streams := fmupd i (f a) (pm_streams pm), pm_next := pm_next pm\<rparr>)"
    by (rule store_stream_ok [OF ok])
      (use k manager_okD(1,3) [OF ok Some] manager_okD(4) [OF ok, of _ i] Some in auto)
  then show ?thesis using Some by (simp add: on_stream_def)
qed

lemma output_turn_ok:
  assumes "stream_ok a" and "ap_out a" and "length chunk \<le> ptyReadSize"
  shows "stream_ok (output_turn chunk write_ok a)"
proof -
  have st: "ap_stage a = Serving" using assms by (auto simp: stream_ok_def)
  have seq: "ap_outputSequence a = of_nat (length (ap_shown a))"
    and len: "length (send_stream PTYDataOutput 0 (ap_shown a)) = length (ap_shown a)"
    using assms by (simp_all add: stream_ok_def out_ok_def)
  have kept: "in_ok (a\<lparr>ap_outputSequence := x, ap_out := y, ap_shown := u, ap_frames := v\<rparr>) = in_ok a"
    "in_ok (a\<lparr>ap_outputSequence := x, ap_out := y\<rparr>) = in_ok a"
    "in_ok (a\<lparr>ap_outputSequence := x, ap_shown := u, ap_frames := v\<rparr>) = in_ok a" for x y u v
    by (simp_all add: in_ok_def)
  have stop: "stream_ok (a\<lparr>ap_outputSequence := x, ap_out := False\<rparr>)" for x
    using assms(1) st by (simp add: stream_ok_def kept) (simp add: out_ok_def)
  show ?thesis
  proof (cases "EncodePTYDataFrame PTYDataOutput (ap_outputSequence a + 1) chunk")
    case (Inl e)
    with stop show ?thesis by (simp add: output_turn_def Let_def del: pty_consts)
  next
    case (Inr frame)
    then have "send_stream PTYDataOutput 0 (ap_shown a @ [chunk]) = send_stream PTYDataOutput 0 (ap_shown a) @ [frame]"
      unfolding seq by (simp add: send_stream_snoc [OF len] add.commute del: pty_consts)
    then have "stream_ok (a\<lparr>ap_outputSequence := ap_outputSequence a + 1, ap_shown := ap_shown a @ [chunk], ap_frames := ap_frames a @ [frame]\<rparr>)"
      using assms st seq by (simp add: stream_ok_def kept del: pty_consts) (simp add: out_ok_def add.commute del: pty_consts)
    with Inr stop show ?thesis by (simp add: output_turn_def Let_def del: pty_consts)
  qed
qed

lemma output_turn_kept [simp]:
  "ap_stage (output_turn chunk ok a) = ap_stage a" "ap_StreamID (output_turn chunk ok a) = ap_StreamID a"
  by (auto simp: output_turn_def Let_def split: sum.splits)

text \<open>What the input loop does to the history of a stream it reads for.\<close>

lemma out_ok_input [simp]:
  "out_ok (a\<lparr>ap_inbox := x\<rparr>) = out_ok a" "out_ok (a\<lparr>ap_in := y\<rparr>) = out_ok a" "out_ok (a\<lparr>ap_inputSequence := z\<rparr>) = out_ok a"
  "out_ok (a\<lparr>ap_typed := u\<rparr>) = out_ok a" "out_ok (a\<lparr>ap_controlSequence := z\<rparr>) = out_ok a" "out_ok (a\<lparr>ap_sizes := v\<rparr>) = out_ok a"
  by (simp_all add: out_ok_def)

lemma input_turn_ok:
  assumes ok: "stream_ok a" and run: "ap_in a"
  shows "stream_ok (input_turn data write_ok a)"
proof -
  have st: "ap_stage a = Serving" using ok run by (auto simp: stream_ok_def)
  have typed: "receive_stream PTYDataInput new_sequence (ap_inbox a) = ap_typed a"
    and state: "receive_state PTYDataInput new_sequence (ap_inbox a) = Some (ap_inputSequence a)"
    using ok run by (auto simp: stream_ok_def in_ok_def)
  have stop: "stream_ok (a\<lparr>ap_inbox := ap_inbox a @ [data], ap_inputSequence := s, ap_in := False\<rparr>)"
    "stream_ok (a\<lparr>ap_inbox := ap_inbox a @ [data], ap_in := False, ap_inputSequence := s\<rparr>)"
    "stream_ok (a\<lparr>ap_inbox := ap_inbox a @ [data], ap_in := False\<rparr>)" for s
    using ok st by (simp_all add: stream_ok_def) (simp_all add: in_ok_def receive_append typed del: pty_consts)
  have go: "stream_ok (a\<lparr>ap_inbox := ap_inbox a @ [data], ap_inputSequence := s, ap_typed := ap_typed a @ more1\<rparr>)"
    if "receive_stream PTYDataInput (ap_inputSequence a) [data] = more1"
      "receive_state PTYDataInput (ap_inputSequence a) [data] = Some s" for s more1
    using ok st by (simp add: stream_ok_def)
      (simp add: in_ok_def receive_append receive_state_append typed state that del: pty_consts receive_stream.simps receive_state.simps)
  show ?thesis
  proof (cases "DecodePTYDataFrame data")
    case (Inl e)
    with stop show ?thesis by (simp add: input_turn_def Let_def)
  next
    case (Inr frame)
    note d = Inr
    show ?thesis
    proof (cases "f_Direction frame = PTYDataInput")
      case False
      with d stop show ?thesis by (simp add: input_turn_def Let_def)
    next
      case True
      obtain r s where r: "seq_Accept (f_Sequence frame) (ap_inputSequence a) = (r, s)" by fastforce
      show ?thesis
      proof (cases r)
        case (Inl e)
        with d True r stop show ?thesis by (simp add: input_turn_def Let_def)
      next
        case (Inr dup)
        show ?thesis
        proof (cases dup)
          case yes: True
          with go [of "[]" s] d True r Inr show ?thesis by (simp add: input_turn_def Let_def)
        next
          case no: False
          with go [of "[f_Payload frame]" s] stop d True r Inr show ?thesis by (simp add: input_turn_def Let_def)
        qed
      qed
    qed
  qed
qed

lemma input_turn_kept [simp]:
  "ap_stage (input_turn data ok a) = ap_stage a" "ap_StreamID (input_turn data ok a) = ap_StreamID a"
  by (auto simp: input_turn_def Let_def split: sum.splits prod.splits)


lemma in_ok_other [simp]:
  "in_ok (a\<lparr>ap_controlSequence := z\<rparr>) = in_ok a" "in_ok (a\<lparr>ap_sizes := v\<rparr>) = in_ok a" "in_ok (a\<lparr>ap_out := y\<rparr>) = in_ok a"
  by (simp_all add: in_ok_def)

lemma stops_ok:
  assumes "stream_ok a" and "ap_stage a = Serving"
  shows "stream_ok (a\<lparr>ap_in := False\<rparr>)" "stream_ok (a\<lparr>ap_out := False\<rparr>)"
    "stream_ok (a\<lparr>ap_controlSequence := s\<rparr>)" "stream_ok (a\<lparr>ap_sizes := v\<rparr>)"
  using assms by (auto simp: stream_ok_def) (auto simp: in_ok_def out_ok_def)

lemma teardown_ok: "stream_ok a \<Longrightarrow> stream_ok (pty_Teardown a)"
  by (auto simp: pty_Teardown_def stream_ok_def in_ok_def out_ok_def)

lemma teardown_kept [simp]:
  "ap_stage (pty_Teardown a) = ap_stage a" "ap_StreamID (pty_Teardown a) = ap_StreamID a"
  by (simp_all add: pty_Teardown_def)

lemma control_turn_ok:
  assumes "stream_ok a" and "ap_stage a = Serving"
  shows "stream_ok (control_turn decode data ok a) \<and> ap_stage (control_turn decode data ok a) = ap_stage a \<and>
    ap_StreamID (control_turn decode data ok a) = ap_StreamID a"
proof (cases "DecodePTYControlFrame decode data")
  case (Inl e)
  with stops_ok [OF assms] show ?thesis by (simp add: control_turn_def)
next
  case (Inr frame)
  obtain r s where r: "seq_Accept (c_Sequence frame) (ap_controlSequence a) = (r, s)" by fastforce
  let ?a = "a\<lparr>ap_controlSequence := s\<rparr>"
  have a: "stream_ok ?a" "ap_stage ?a = Serving" using stops_ok(3) [OF assms] assms(2) by simp_all
  have b: "a\<lparr>ap_in := False, ap_controlSequence := s\<rparr> = ?a\<lparr>ap_in := False\<rparr>" by simp
  show ?thesis
    using stops_ok [OF a] a(1) Inr r by (cases r) (auto simp: control_turn_def Let_def b)
qed

lemma message_turn_ok:
  assumes "stream_ok a"
  shows "stream_ok (message_turn decode message ok a) \<and> ap_stage (message_turn decode message ok a) = ap_stage a \<and>
    ap_StreamID (message_turn decode message ok a) = ap_StreamID a"
proof (cases "ap_in a")
  case True
  then have st: "ap_stage a = Serving" using assms by (auto simp: stream_ok_def)
  show ?thesis
    using True control_turn_ok [OF assms st] input_turn_ok [OF assms True] stops_ok(1) [OF assms st]
    by (auto simp: message_turn_def split: hub_frame.split)
qed (use assms in \<open>simp add: message_turn_def\<close>)

lemma open_stream_ok:
  assumes ok: "manager_ok pm"
  shows "manager_ok (pty_Open c request spawned attached pm)"
proof (cases "\<not> pty_open_accepted request c \<or> \<not> spawned")
  case True
  with ok show ?thesis by (simp add: pty_Open_def)
next
  case False
  define b where "b = \<lparr>ap_StreamID = po_StreamID request, ap_Target = po_Target request,
      ap_stage = if attached then Starting else Returned, ap_torn = False, ap_ws_open = attached, ap_pty_open = attached,
      ap_out = False, ap_in = False, ap_outputSequence = 0, ap_inputSequence = new_sequence,
      ap_controlSequence = new_sequence, ap_shown = [], ap_frames = [], ap_inbox = [], ap_typed = [],
      ap_sizes = [(po_Cols request, po_Rows request)]\<rparr>"
  have fresh: "fmlookup (pm_sessions pm) s \<noteq> Some (pm_next pm)" for s
    using manager_okD(1,4) [OF ok] by (metis less_irrefl)
  have "manager_ok (pm\<lparr>pm_sessions := pm_sessions pm, pm_streams := fmupd (pm_next pm) b (pm_streams pm), pm_next := Suc (pm_next pm)\<rparr>)"
    by (rule store_stream_ok [OF ok]) (use fresh in \<open>auto simp: b_def stream_ok_def out_ok_def in_ok_def\<close>)
  with False show ?thesis by (simp add: pty_Open_def b_def)
qed

lemma register_stream_ok:
  assumes ok: "manager_ok pm"
  shows "manager_ok (pty_register i pm)"
proof (cases "\<exists>a. fmlookup (pm_streams pm) i = Some a \<and> ap_stage a = Starting")
  case False
  with ok show ?thesis by (auto simp: pty_register_def split: option.split)
next
  case True
  then obtain a where a: "fmlookup (pm_streams pm) i = Some a" "ap_stage a = Starting" by blast
  note s = manager_okD(2) [OF ok a(1)] and n = manager_okD(1) [OF ok a(1)]
  let ?s = "ap_StreamID a"
  have unlisted: "fmlookup (pm_sessions pm) x \<noteq> Some i" for x
    using manager_okD(3) [OF ok a(1)] manager_okD(4) [OF ok, of x i] a by auto
  show ?thesis
  proof (cases "go_has (pm_sessions pm) ?s")
    case True
    have "manager_ok (pm\<lparr>pm_sessions := pm_sessions pm,
        pm_streams := fmupd i ((pty_Teardown a)\<lparr>ap_stage := Returned\<rparr>) (pm_streams pm), pm_next := pm_next pm\<rparr>)"
      by (rule store_stream_ok [OF ok])
        (use s a n unlisted in \<open>auto simp: stream_ok_def pty_Teardown_def out_ok_def in_ok_def\<close>)
    with a True show ?thesis by (simp add: pty_register_def on_stream_def)
  next
    case False
    then have none: "fmlookup (pm_sessions pm) ?s = None" by (simp add: go_has_def)
    have "manager_ok (pm\<lparr>pm_sessions := fmupd ?s i (pm_sessions pm),
        pm_streams := fmupd i (a\<lparr>ap_stage := Serving, ap_out := True, ap_in := True\<rparr>) (pm_streams pm), pm_next := pm_next pm\<rparr>)"
      by (rule store_stream_ok [OF ok])
        (use s a n unlisted none in \<open>auto simp: stream_ok_def out_ok_def in_ok_def split: if_splits\<close>)
    with a False show ?thesis by (simp add: pty_register_def on_stream_def)
  qed
qed

lemma return_stream_ok:
  assumes ok: "manager_ok pm"
  shows "manager_ok (pty_return i pm)"
proof (cases "\<exists>a. fmlookup (pm_streams pm) i = Some a \<and> \<not> (ap_stage a \<noteq> Serving \<or> ap_out a \<or> ap_in a \<or> \<not> ap_torn a)")
  case False
  with ok show ?thesis by (auto simp: pty_return_def split: option.split)
next
  case True
  then obtain a where a: "fmlookup (pm_streams pm) i = Some a" "ap_stage a = Serving" "\<not> ap_out a" "\<not> ap_in a" "ap_torn a" by blast
  let ?s = "ap_StreamID a"
  have listed: "fmlookup (pm_sessions pm) ?s = Some i" using manager_okD(3) [OF ok a(1)] a(2) by simp
  have own: "t = ?s" if "fmlookup (pm_sessions pm) t = Some i" for t
    using manager_okD(4) [OF ok that] a(1) by auto
  let ?b = "a\<lparr>ap_stage := Returned\<rparr>" and ?S = "fmdrop ?s (pm_sessions pm)"
  have b: "stream_ok ?b"
    using manager_okD(2) [OF ok a(1)] a by (simp add: stream_ok_def out_ok_def in_ok_def)
  have gone: "fmlookup ?S t \<noteq> Some i" for t using own [of t] by auto
  have others: "(fmlookup ?S t = Some j) = (fmlookup (pm_sessions pm) t = Some j)" if "j \<noteq> i" for t j
    using listed that by auto
  have "manager_ok (pm\<lparr>pm_sessions := ?S, pm_streams := fmupd i ?b (pm_streams pm), pm_next := pm_next pm\<rparr>)"
    by (rule store_stream_ok [OF ok b manager_okD(1) [OF ok a(1)] order_refl _ others]) (use gone own in \<open>auto split: if_splits\<close>)
  with a listed show ?thesis by (simp add: pty_return_def on_stream_def)
qed


lemma close_all_ok: "manager_ok pm \<Longrightarrow> manager_ok (pty_CloseAll pm)"
proof -
  have "manager_ok pm \<Longrightarrow> manager_ok (foldl (\<lambda>pm i. on_stream i pty_Teardown pm) pm js)" for js
    by (induction js arbitrary: pm) (simp_all add: on_stream_ok teardown_ok)
  then show "manager_ok pm \<Longrightarrow> ?thesis" by (simp add: pty_CloseAll_def)
qed

lemma loop_ends_ok:
  assumes "stream_ok a"
  shows "stream_ok (a\<lparr>ap_out := False\<rparr>)" "stream_ok (a\<lparr>ap_in := False\<rparr>)"
  using assms by (cases "ap_stage a"; simp add: stream_ok_def out_ok_def in_ok_def)+

lemma output_stream_ok:
  assumes ok: "manager_ok pm"
  shows "manager_ok (pty_output now i data write_ok pm)"
proof (cases "\<exists>a. fmlookup (pm_streams pm) i = Some a \<and> ap_out a")
  case False
  with ok show ?thesis by (auto simp: pty_output_def split: option.split)
next
  case True
  then obtain a where a: "fmlookup (pm_streams pm) i = Some a" "ap_out a" by blast
  have "manager_ok (pm\<lparr>pm_activity := x\<rparr>)" for x using ok by (simp add: manager_ok_def)
  then have "manager_ok (on_stream i (output_turn (take ptyReadSize data) write_ok) (pm\<lparr>pm_activity := x\<rparr>))" for x
    by (rule on_stream_ok) (use a in \<open>simp add: output_turn_ok\<close>)
  with a show ?thesis by (simp add: pty_output_def Let_def)
qed

lemma pty_step_ok: "manager_ok pm \<Longrightarrow> manager_ok (pty_step decode pm e)"
proof (cases e)
  case (PResize s width height ok)
  assume ok: "manager_ok pm"
  have "stream_ok (a\<lparr>ap_sizes := x\<rparr>)" if "stream_ok a" for a x
    using that by (simp add: stream_ok_def)
  with ok PResize show ?thesis by (auto simp: pty_Resize_def on_stream_ok split: option.split)
next
  case (PDone i)
  assume ok: "manager_ok pm"
  then show ?thesis unfolding PDone pty_step.simps
    by (rule on_stream_ok) (simp add: pty_done_def teardown_ok)
next
  case (PClose s)
  assume "manager_ok pm"
  with PClose show ?thesis by (auto simp: pty_Close_def on_stream_ok teardown_ok split: option.split)
qed (simp_all add: open_stream_ok register_stream_ok return_stream_ok close_all_ok output_stream_ok
    on_stream_ok loop_ends_ok message_turn_ok)

interpretation node_ptys: component "NewPTYManager activity" "pty_step decode" manager_ok for activity decode
proof unfold_locales
  show "manager_ok (NewPTYManager activity)" by (simp add: manager_ok_def NewPTYManager_def)
qed (rule pty_step_ok)

text \<open>
  C29. A node's terminals are faithful and do not leak.  In every interleaving of the calls and
  the loops of all streams, a stream sends its terminal's output in numbered frames the hub's
  relay reads back unchanged; what it typed is what the receiver's rules admit of the messages
  it read, all of it while the loop runs and the first part of it after; a stream is listed
  exactly while it is served, so there is one per identifier; and once its call has returned,
  the terminal and the data channel are closed.
\<close>

theorem node_terminals_faithful:
  assumes "pm = foldl (pty_step decode) (NewPTYManager activity) events" and "fmlookup (pm_streams pm) i = Some a"
    and "Suc (length (ap_shown a)) < 2 ^ 64"
  shows "ap_frames a = send_stream PTYDataOutput 0 (ap_shown a) \<and>
    receive_stream PTYDataOutput new_sequence (ap_frames a) = ap_shown a \<and>
    (\<exists>lost. receive_stream PTYDataInput new_sequence (ap_inbox a) = ap_typed a @ lost \<and> (ap_in a \<longrightarrow> lost = [])) \<and>
    (ap_stage a = Serving \<longleftrightarrow> fmlookup (pm_sessions pm) (ap_StreamID a) = Some i) \<and>
    (ap_stage a = Returned \<longrightarrow> \<not> ap_ws_open a \<and> \<not> ap_pty_open a \<and> \<not> ap_out a \<and> \<not> ap_in a)"
proof -
  have ok: "manager_ok pm" unfolding assms(1) by (rule node_ptys.run_inv)
  note s = manager_okD(2,3) [OF ok assms(2)]
  have fr: "ap_frames a = send_stream PTYDataOutput 0 (ap_shown a)"
    and len: "length (send_stream PTYDataOutput 0 (ap_shown a)) = length (ap_shown a)"
    and small: "\<forall>p\<in>set (ap_shown a). length p \<le> maxPTYFrameData"
    using s(1) by (auto simp: stream_ok_def out_ok_def list_all_iff ptyReadSize_def)
  have "receive_stream PTYDataOutput new_sequence (map ((!) (ap_frames a)) [0..<length (ap_shown a)]) = drop 0 (ap_shown a)"
    using send_stream_nth [of PTYDataOutput "ap_shown a" 0] small assms(3) unfolding fr
    by (intro receive_all) (auto simp: expects_def new_sequence_def)
  then have "receive_stream PTYDataOutput new_sequence (ap_frames a) = ap_shown a"
    using map_nth [of "ap_frames a"] len by (simp add: fr del: pty_consts)
  with s fr show ?thesis by (auto simp: stream_ok_def in_ok_def simp del: pty_consts)
qed


definition demo_terminal_client :: "(nat, nat) client" where
  "demo_terminal_client = demo_node\<lparr>cl_mgr := (cl_mgr demo_node)\<lparr>m_localID := ''h''\<rparr>, cl_generation := 7\<rparr>"

definition demo_open :: PTYOpenPayload where
  "demo_open = \<lparr>po_StreamID = ''q'', po_AttachToken = ''t'', po_Generation = 7,
     po_Target = \<lparr>st_HostID = ''h'', st_Session = ''s''\<rparr>, po_Cols = 80, po_Rows = 24\<rparr>"

lemma demo_open_accepted: "pty_open_accepted demo_open demo_terminal_client"
  by (simp add: pty_open_accepted_def demo_open_def demo_terminal_client_def target_Validate_def validateRuntimeID_visible
      validateBoundedText_visible visible_letter)

theorem node_terminals_faithful_witness:
  "\<exists>a. fmlookup (pm_streams (foldl (pty_step (\<lambda>_. None)) (NewPTYManager None)
       [POpen demo_terminal_client demo_open True True, PRegister 0, POutput 0 0 ''ls'' True])) 0 = Some a \<and>
     receive_stream PTYDataOutput new_sequence (ap_frames a) = [''ls'']"
proof -
  let ?pm = "foldl (pty_step (\<lambda>_. None)) (NewPTYManager None)
       [POpen demo_terminal_client demo_open True True, PRegister 0, POutput 0 0 ''ls'' True]"
  have "\<exists>a. fmlookup (pm_streams ?pm) 0 = Some a \<and> ap_shown a = [''ls'']"
    by (simp add: NewPTYManager_def pty_Open_def demo_open_accepted pty_register_def on_stream_def pty_output_def Let_def
        output_turn_def encode_frame_iff EncodePTYDataFrame_def ptyReadSize_def)
  then obtain a where a: "fmlookup (pm_streams ?pm) 0 = Some a" "ap_shown a = [''ls'']" by blast
  from a(2) have "Suc (length (ap_shown a)) < 2 ^ 64" by simp
  from node_terminals_faithful [OF refl a(1) this] have "receive_stream PTYDataOutput new_sequence (ap_frames a) = [''ls'']"
    unfolding a(2) by blast
  with a(1) show ?thesis by blast
qed

end
