(* ===== verification/PtyRelay.thy ===== *)
theory PtyRelay
  imports PeerManager PtyFrame
begin

text \<open>
  The relay of terminal streams between a browser and a node (\<open>pkg/peer/pty_relay.go\<close>, the
  owners of \<open>pkg/peer/connection.go\<close>, \<open>handleRemoteSession\<close> of \<open>pkg/server/server.go\<close>).
  A stream is registered for a browser, announced to the node and attached when the node
  opens its data channel with the stream's credentials; it ends by a timeout, with either
  end, or with the control connection.  Registration, teardown and the closing of the
  connection are cut at their critical sections and interleave freely.  The random stream
  identifiers and tokens are arguments.
\<close>

subsection \<open>State\<close>

datatype registration = Checked | Owned | Registered

datatype teardown = Up | Cancelled | Unlisted | Released | TornDown

datatype socket = Browser nat | PeerSocket nat

record pty_owner =
  ow_StreamID :: string
  ow_HostID :: string
  ow_Generation :: u64
  ow_Target :: SessionTarget
  ow_AttachToken :: string
  ow_conn :: nat
  ow_ready :: bool
  ow_PeerWS :: "nat option"
  ow_stage :: registration
  ow_down :: teardown

text \<open>What a control connection keeps for its streams; \<open>qc_closing\<close> are the owners it still has to tear down.\<close>

record pty_conn =
  qc_HostID :: string
  qc_Generation :: u64
  qc_closed :: bool
  qc_cancelled :: bool
  qc_ptys :: "(string, nat) fmap"
  qc_closing :: "nat list"

text \<open>The history, newest first.\<close>

datatype relay_log = Attached nat nat nat string string u64 string string | Ended nat | ConnEnded nat

record pty_relay =
  rl_pending :: "(string, nat) fmap"
  rl_active :: "(string, nat) fmap"
  rl_owners :: "(nat, pty_owner) fmap"
  rl_conns :: "(nat, pty_conn) fmap"
  rl_closed :: "socket fset"
  rl_next :: nat
  rl_log :: "relay_log list"

definition NewPTYRelay :: pty_relay where
  "NewPTYRelay = \<lparr>rl_pending = fmempty, rl_active = fmempty, rl_owners = fmempty, rl_conns = fmempty, rl_closed = {||},
     rl_next = 0, rl_log = []\<rparr>"

definition on_owner :: "nat \<Rightarrow> (pty_owner \<Rightarrow> pty_owner) \<Rightarrow> pty_relay \<Rightarrow> pty_relay" where
  "on_owner i f r = (case fmlookup (rl_owners r) i of None \<Rightarrow> r | Some ow \<Rightarrow> r\<lparr>rl_owners := fmupd i (f ow) (rl_owners r)\<rparr>)"

definition on_pty_conn :: "nat \<Rightarrow> (pty_conn \<Rightarrow> pty_conn) \<Rightarrow> pty_relay \<Rightarrow> pty_relay" where
  "on_pty_conn c f r = (case fmlookup (rl_conns r) c of None \<Rightarrow> r | Some k \<Rightarrow> r\<lparr>rl_conns := fmupd c (f k) (rl_conns r)\<rparr>)"

definition with_owner :: "nat \<Rightarrow> (pty_owner \<Rightarrow> pty_relay \<Rightarrow> pty_relay) \<Rightarrow> pty_relay \<Rightarrow> pty_relay" where
  "with_owner i f r = (case fmlookup (rl_owners r) i of None \<Rightarrow> r | Some ow \<Rightarrow> f ow r)"

subsection \<open>Registration\<close>

text \<open>
  The first part of \<open>RegisterPending\<close>, up to the test of the connection's flag; \<open>ownPTY\<close> then
  stores the owner, and \<open>RegisterPending\<close> lists it.
\<close>

definition register_check :: "nat \<Rightarrow> SessionTarget \<Rightarrow> string \<Rightarrow> string \<Rightarrow> pty_relay \<Rightarrow> pty_relay" where
  "register_check c target stream token r =
     (case fmlookup (rl_conns r) c of
        None \<Rightarrow> r
      | Some k \<Rightarrow>
          if qc_closed k then r
          else r\<lparr>rl_owners := fmupd (rl_next r)
              \<lparr>ow_StreamID = stream, ow_HostID = qc_HostID k, ow_Generation = qc_Generation k, ow_Target = target,
               ow_AttachToken = token, ow_conn = c, ow_ready = False, ow_PeerWS = None, ow_stage = Checked, ow_down = Up\<rparr>
              (rl_owners r), rl_next := Suc (rl_next r)\<rparr>)"

definition ownPTY :: "nat \<Rightarrow> pty_relay \<Rightarrow> pty_relay" where
  "ownPTY i = with_owner i (\<lambda>ow r.
     if ow_stage ow \<noteq> Checked then r
     else on_pty_conn (ow_conn ow) (\<lambda>k. k\<lparr>qc_ptys := fmupd (ow_StreamID ow) i (qc_ptys k)\<rparr>)
       (on_owner i (\<lambda>ow. ow\<lparr>ow_stage := Owned\<rparr>) r))"

definition publish_pending :: "nat \<Rightarrow> pty_relay \<Rightarrow> pty_relay" where
  "publish_pending i = with_owner i (\<lambda>ow r.
     if ow_stage ow \<noteq> Owned then r
     else on_owner i (\<lambda>ow. ow\<lparr>ow_stage := Registered\<rparr>) (r\<lparr>rl_pending := fmupd (ow_StreamID ow) i (rl_pending r)\<rparr>))"

subsection \<open>Attachment\<close>

text \<open>The owner's context ends with its own cancellation or with its connection's.\<close>

definition ctx_ended :: "pty_owner \<Rightarrow> pty_relay \<Rightarrow> bool" where
  "ctx_ended ow r =
     (ow_down ow \<noteq> Up \<or> (case fmlookup (rl_conns r) (ow_conn ow) of None \<Rightarrow> False | Some k \<Rightarrow> qc_cancelled k))"

definition CompletePending :: "string \<Rightarrow> string \<Rightarrow> u64 \<Rightarrow> string \<Rightarrow> string \<Rightarrow> nat \<Rightarrow> pty_relay \<Rightarrow> bool \<times> pty_relay" where
  "CompletePending streamID hostID generation token session peerWS r =
     (case fmlookup (rl_pending r) streamID of
        None \<Rightarrow> (False, r)
      | Some i \<Rightarrow>
          (case fmlookup (rl_owners r) i of
             None \<Rightarrow> (False, r)
           | Some ow \<Rightarrow>
               if ow_HostID ow \<noteq> hostID \<or> ow_Generation ow \<noteq> generation \<or> ow_AttachToken ow \<noteq> token \<or>
                  st_Session (ow_Target ow) \<noteq> session then (False, r)
               else if ctx_ended ow r then (False, r)
               else (True, r\<lparr>rl_pending := fmdrop streamID (rl_pending r), rl_active := fmupd streamID i (rl_active r),
                      rl_owners := fmupd i (ow\<lparr>ow_PeerWS := Some peerWS, ow_ready := True\<rparr>) (rl_owners r),
                      rl_log := Attached i peerWS (ow_conn ow) streamID hostID generation token session # rl_log r\<rparr>)))"

definition parse_uint :: "nat \<Rightarrow> string \<Rightarrow> nat option" where
  "parse_uint width s =
     (if s = [] \<or> \<not> list_all (\<lambda>c. 48 \<le> byte_val c \<and> byte_val c \<le> 57) s \<or> dec_value s \<ge> 2 ^ width then None
      else Some (dec_value s))"

text \<open>The query's values; a missing one is empty.  The result is the status, if the request is refused.\<close>

record attach_query =
  aq_stream :: string
  aq_host :: string
  aq_token :: string
  aq_session :: string
  aq_generation :: string

definition HandlePeerPTY :: "bool \<Rightarrow> attach_query \<Rightarrow> pty_relay \<Rightarrow> nat option \<times> pty_relay" where
  "HandlePeerPTY upgraded q r =
     (case parse_uint 64 (aq_generation q) of
        None \<Rightarrow> (Some 400, r)
      | Some generation \<Rightarrow>
          if aq_stream q = [] \<or> aq_host q = [] \<or> aq_token q = [] \<or> aq_session q = [] \<or> generation = 0 then (Some 400, r)
          else if \<not> upgraded then (None, r)
          else
            let w = rl_next r; r' = r\<lparr>rl_next := Suc w\<rparr> in
            case CompletePending (aq_stream q) (aq_host q) (of_nat generation) (aq_token q) (aq_session q) w r' of
              (True, r'') \<Rightarrow> (None, r'')
            | (False, r'') \<Rightarrow> (None, r''\<lparr>rl_closed := finsert (PeerSocket w) (rl_closed r'')\<rparr>))"

subsection \<open>Teardown\<close>

text \<open>\<open>once.Do\<close>: the first call cancels; the rest of the call follows in its own steps.\<close>

definition teardown_begin :: "nat \<Rightarrow> pty_relay \<Rightarrow> pty_relay" where
  "teardown_begin i = with_owner i (\<lambda>ow r.
     if ow_down ow \<noteq> Up then r
     else (on_owner i (\<lambda>ow. ow\<lparr>ow_down := Cancelled\<rparr>) r)\<lparr>rl_log := Ended i # rl_log r\<rparr>)"

definition teardown_unlist :: "nat \<Rightarrow> pty_relay \<Rightarrow> pty_relay" where
  "teardown_unlist i = with_owner i (\<lambda>ow r.
     if ow_down ow \<noteq> Cancelled then r
     else on_owner i (\<lambda>ow. ow\<lparr>ow_down := Unlisted\<rparr>)
       (r\<lparr>rl_pending := fmdrop (ow_StreamID ow) (rl_pending r), rl_active := fmdrop (ow_StreamID ow) (rl_active r)\<rparr>))"

definition teardown_release :: "nat \<Rightarrow> pty_relay \<Rightarrow> pty_relay" where
  "teardown_release i = with_owner i (\<lambda>ow r.
     if ow_down ow \<noteq> Unlisted then r
     else on_pty_conn (ow_conn ow) (\<lambda>k. k\<lparr>qc_ptys := fmdrop (ow_StreamID ow) (qc_ptys k)\<rparr>)
       (on_owner i (\<lambda>ow. ow\<lparr>ow_down := Released\<rparr>) r))"

definition teardown_close :: "nat \<Rightarrow> pty_relay \<Rightarrow> pty_relay" where
  "teardown_close i = with_owner i (\<lambda>ow r.
     if ow_down ow \<noteq> Released then r
     else (on_owner i (\<lambda>ow. ow\<lparr>ow_down := TornDown\<rparr>) r)
       \<lparr>rl_closed := finsert (Browser i) (case ow_PeerWS ow of None \<Rightarrow> rl_closed r | Some w \<Rightarrow> finsert (PeerSocket w) (rl_closed r))\<rparr>)"

text \<open>The timer of the registration, when it fires.\<close>

definition attach_timer :: "nat \<Rightarrow> pty_relay \<Rightarrow> pty_relay" where
  "attach_timer i = with_owner i (\<lambda>ow r. if ow_stage ow = Registered \<and> \<not> ow_ready ow then teardown_begin i r else r)"

text \<open>
  \<open>CloseWith\<close> as far as the streams go: the flag, the cancellation, the owners taken out of
  the map, and then their teardown one after the other.
\<close>

definition pty_close_flag :: "nat \<Rightarrow> pty_relay \<Rightarrow> pty_relay" where
  "pty_close_flag c = on_pty_conn c (\<lambda>k. k\<lparr>qc_closed := True\<rparr>)"

definition pty_close_cancel :: "nat \<Rightarrow> pty_relay \<Rightarrow> pty_relay" where
  "pty_close_cancel c r =
     (case fmlookup (rl_conns r) c of
        None \<Rightarrow> r
      | Some k \<Rightarrow> if \<not> qc_closed k \<or> qc_cancelled k then r
                  else (on_pty_conn c (\<lambda>k. k\<lparr>qc_cancelled := True\<rparr>) r)\<lparr>rl_log := ConnEnded c # rl_log r\<rparr>)"

definition pty_close_take :: "nat \<Rightarrow> pty_relay \<Rightarrow> pty_relay" where
  "pty_close_take c = on_pty_conn c (\<lambda>k.
     if \<not> qc_cancelled k then k
     else k\<lparr>qc_closing := qc_closing k @ map (\<lambda>s. the (fmlookup (qc_ptys k) s)) (go_keys (qc_ptys k)), qc_ptys := fmempty\<rparr>)"

definition pty_close_next :: "nat \<Rightarrow> pty_relay \<Rightarrow> pty_relay" where
  "pty_close_next c r =
     (case fmlookup (rl_conns r) c of
        None \<Rightarrow> r
      | Some k \<Rightarrow> (case qc_closing k of
            [] \<Rightarrow> r | i # rest \<Rightarrow> teardown_begin i (on_pty_conn c (\<lambda>k. k\<lparr>qc_closing := rest\<rparr>) r)))"

subsection \<open>The browser's request\<close>

definition parse_dimension :: "string \<Rightarrow> nat \<Rightarrow> nat" where
  "parse_dimension s preset = (case parse_uint 16 s of Some v \<Rightarrow> if v > 0 then v else preset | None \<Rightarrow> preset)"

text \<open>The tests before the upgrade: the status of the refusal, or the connection and the target.\<close>

definition remote_session_guard :: "tmux_exec \<Rightarrow> string \<Rightarrow> string \<Rightarrow> 's manager \<Rightarrow> (nat + nat \<times> SessionTarget) option \<times> 's manager" where
  "remote_session_guard exec hostID sessionName m =
     (if sessionName = [] then (Some (Inl 400), m)
      else case GetPeerConnection hostID m of
        None \<Rightarrow> (Some (Inl 502), m)
      | Some c \<Rightarrow>
          (let target = \<lparr>st_HostID = hostID, st_Session = sessionName\<rparr> in
           if target_Validate target \<noteq> None then (Some (Inl 404), m)
           else case PeerManager.HasSession exec hostID sessionName m of
             (None, m') \<Rightarrow> (None, m')
           | (Some False, m') \<Rightarrow> (Some (Inl 404), m')
           | (Some True, m') \<Rightarrow>
               (case fmlookup (m_conns m') c of
                  None \<Rightarrow> (Some (Inl 409), m')
                | Some k \<Rightarrow> if \<not> Supports CapabilityPTYControl k then (Some (Inl 409), m') else (Some (Inr (c, target)), m'))))"

subsection \<open>The relay as a transition system\<close>

datatype relay_event =
    OpenConn string u64
  | RegisterCheck nat SessionTarget string string
  | OwnPTY nat
  | Publish nat
  | Attach bool attach_query
  | TimerFires nat
  | TearDown nat
  | TearUnlist nat
  | TearRelease nat
  | TearClose nat
  | CloseFlag nat
  | CloseCancel nat
  | CloseTake nat
  | CloseNext nat

fun relay_step :: "pty_relay \<Rightarrow> relay_event \<Rightarrow> pty_relay" where
  "relay_step r (OpenConn host generation) = r\<lparr>rl_conns := fmupd (rl_next r)
     \<lparr>qc_HostID = host, qc_Generation = generation, qc_closed = False, qc_cancelled = False, qc_ptys = fmempty, qc_closing = []\<rparr>
     (rl_conns r), rl_next := Suc (rl_next r)\<rparr>"
| "relay_step r (RegisterCheck c target stream token) = register_check c target stream token r"
| "relay_step r (OwnPTY i) = ownPTY i r"
| "relay_step r (Publish i) = publish_pending i r"
| "relay_step r (Attach upgraded q) = snd (HandlePeerPTY upgraded q r)"
| "relay_step r (TimerFires i) = attach_timer i r"
| "relay_step r (TearDown i) = teardown_begin i r"
| "relay_step r (TearUnlist i) = teardown_unlist i r"
| "relay_step r (TearRelease i) = teardown_release i r"
| "relay_step r (TearClose i) = teardown_close i r"
| "relay_step r (CloseFlag c) = pty_close_flag c r"
| "relay_step r (CloseCancel c) = pty_close_cancel c r"
| "relay_step r (CloseTake c) = pty_close_take c r"
| "relay_step r (CloseNext c) = pty_close_next c r"

subsection \<open>Attachments are exact\<close>

text \<open>No attachment follows the end of its owner or of its connection, or another attachment of its owner.\<close>

fun timely :: "relay_log list \<Rightarrow> bool" where
  "timely [] = True"
| "timely (x # l) =
     (timely l \<and> (case x of
        Attached i w c _ _ _ _ _ \<Rightarrow> Ended i \<notin> set l \<and> ConnEnded c \<notin> set l \<and>
          (\<forall>y\<in>set l. case y of Attached j v _ _ _ _ _ _ \<Rightarrow> j \<noteq> i \<and> v \<noteq> w | _ \<Rightarrow> True)
      | _ \<Rightarrow> True))"

definition owner_ok :: "pty_relay \<Rightarrow> nat \<Rightarrow> pty_owner \<Rightarrow> bool" where
  "owner_ok r i ow =
     (i < rl_next r \<and> (ow_ready ow = (ow_PeerWS ow \<noteq> None)) \<and> (ow_stage ow \<noteq> Registered \<longrightarrow> ow_PeerWS ow = None) \<and>
      (Ended i \<in> set (rl_log r)) = (ow_down ow \<noteq> Up) \<and>
      (ow_down ow = TornDown \<longrightarrow> Browser i |\<in>| rl_closed r \<and>
        (case ow_PeerWS ow of None \<Rightarrow> True | Some w \<Rightarrow> PeerSocket w |\<in>| rl_closed r)) \<and>
      (\<exists>k. fmlookup (rl_conns r) (ow_conn ow) = Some k \<and> qc_HostID k = ow_HostID ow \<and> qc_Generation k = ow_Generation ow))"

definition attached_ok :: "pty_relay \<Rightarrow> relay_log \<Rightarrow> bool" where
  "attached_ok r x =
     (case x of
        Attached i w c stream host generation token session \<Rightarrow>
          w < rl_next r \<and> (case fmlookup (rl_owners r) i of
             None \<Rightarrow> False
           | Some ow \<Rightarrow> ow_PeerWS ow = Some w \<and> ow_conn ow = c \<and> ow_StreamID ow = stream \<and> ow_HostID ow = host \<and>
               ow_Generation ow = generation \<and> ow_AttachToken ow = token \<and> st_Session (ow_Target ow) = session)
      | _ \<Rightarrow> True)"

definition relay_ok :: "pty_relay \<Rightarrow> bool" where
  "relay_ok r =
     (timely (rl_log r) \<and> (\<forall>x\<in>set (rl_log r). attached_ok r x) \<and>
      (\<forall>i ow. fmlookup (rl_owners r) i = Some ow \<longrightarrow> owner_ok r i ow) \<and>
      (\<forall>s i. fmlookup (rl_pending r) s = Some i \<longrightarrow> (\<exists>ow. fmlookup (rl_owners r) i = Some ow \<and>
         ow_StreamID ow = s \<and> ow_stage ow = Registered \<and> ow_PeerWS ow = None)) \<and>
      (\<forall>c. ConnEnded c \<in> set (rl_log r) \<longleftrightarrow> (\<exists>k. fmlookup (rl_conns r) c = Some k \<and> qc_cancelled k)) \<and>
      (\<forall>c k. fmlookup (rl_conns r) c = Some k \<longrightarrow> c < rl_next r) \<and>
      (\<forall>i. Ended i \<in> set (rl_log r) \<longrightarrow> go_has (rl_owners r) i))"

lemma relay_okD:
  assumes "relay_ok r"
  shows "timely (rl_log r)" and "x \<in> set (rl_log r) \<Longrightarrow> attached_ok r x"
    and "fmlookup (rl_owners r) i = Some ow \<Longrightarrow> owner_ok r i ow"
    and "fmlookup (rl_pending r) s = Some i \<Longrightarrow> \<exists>ow. fmlookup (rl_owners r) i = Some ow \<and>
         ow_StreamID ow = s \<and> ow_stage ow = Registered \<and> ow_PeerWS ow = None"
    and "ConnEnded c \<in> set (rl_log r) \<longleftrightarrow> (\<exists>k. fmlookup (rl_conns r) c = Some k \<and> qc_cancelled k)"
    and "fmlookup (rl_conns r) c = Some k \<Longrightarrow> c < rl_next r"
    and "Ended i \<in> set (rl_log r) \<Longrightarrow> go_has (rl_owners r) i"
  using assms unfolding relay_ok_def by blast+

lemma relay_okI:
  assumes "timely (rl_log r)" and "\<And>x. x \<in> set (rl_log r) \<Longrightarrow> attached_ok r x"
    and "\<And>i ow. fmlookup (rl_owners r) i = Some ow \<Longrightarrow> owner_ok r i ow"
    and "\<And>s i. fmlookup (rl_pending r) s = Some i \<Longrightarrow> \<exists>ow. fmlookup (rl_owners r) i = Some ow \<and>
         ow_StreamID ow = s \<and> ow_stage ow = Registered \<and> ow_PeerWS ow = None"
    and "\<And>c. ConnEnded c \<in> set (rl_log r) \<longleftrightarrow> (\<exists>k. fmlookup (rl_conns r) c = Some k \<and> qc_cancelled k)"
    and "\<And>c k. fmlookup (rl_conns r) c = Some k \<Longrightarrow> c < rl_next r"
    and "\<And>i. Ended i \<in> set (rl_log r) \<Longrightarrow> go_has (rl_owners r) i"
  shows "relay_ok r"
  unfolding relay_ok_def using assms by blast

text \<open>Steps that write one owner beside what the invariant speaks of, with the log as it is.\<close>

definition same_owner :: "pty_owner \<Rightarrow> pty_owner \<Rightarrow> bool" where
  "same_owner a b =
     (ow_StreamID b = ow_StreamID a \<and> ow_HostID b = ow_HostID a \<and> ow_Generation b = ow_Generation a \<and>
      ow_Target b = ow_Target a \<and> ow_AttachToken b = ow_AttachToken a \<and> ow_conn b = ow_conn a \<and>
      ow_ready b = ow_ready a \<and> ow_PeerWS b = ow_PeerWS a \<and> (ow_stage a = Registered \<longrightarrow> ow_stage b = Registered))"

definition same_pty_conn :: "pty_conn \<Rightarrow> pty_conn \<Rightarrow> bool" where
  "same_pty_conn a b =
     (qc_HostID b = qc_HostID a \<and> qc_Generation b = qc_Generation a \<and> qc_cancelled b = qc_cancelled a)"

lemma same_refl [simp]: "same_owner a a" "same_pty_conn b b" "rel_option same_owner x x" "rel_option same_pty_conn y y"
  by (simp_all add: same_owner_def same_pty_conn_def option.rel_refl)

lemma relay_ok_quiet:
  assumes ok: "relay_ok r" and log: "rl_log r' = rl_log r" and nxt: "rl_next r' = rl_next r"
    and owners: "\<And>i. rel_option same_owner (fmlookup (rl_owners r) i) (fmlookup (rl_owners r') i)"
    and conns: "\<And>c. rel_option same_pty_conn (fmlookup (rl_conns r) c) (fmlookup (rl_conns r') c)"
    and grow: "rl_closed r |\<subseteq>| rl_closed r'"
    and own: "\<And>i ow. \<lbrakk>fmlookup (rl_owners r') i = Some ow; fmlookup (rl_owners r) i \<noteq> Some ow\<rbrakk> \<Longrightarrow>
        (ow_stage ow \<noteq> Registered \<longrightarrow> ow_PeerWS ow = None) \<and> (Ended i \<in> set (rl_log r)) = (ow_down ow \<noteq> Up) \<and>
        (ow_down ow = TornDown \<longrightarrow> Browser i |\<in>| rl_closed r' \<and>
          (case ow_PeerWS ow of None \<Rightarrow> True | Some w \<Rightarrow> PeerSocket w |\<in>| rl_closed r'))"
    and pend: "\<And>s i. fmlookup (rl_pending r') s = Some i \<Longrightarrow> fmlookup (rl_pending r) s = Some i \<or>
        (\<exists>ow. fmlookup (rl_owners r') i = Some ow \<and> ow_StreamID ow = s \<and> ow_stage ow = Registered \<and> ow_PeerWS ow = None)"
  shows "relay_ok r'"
proof (rule relay_okI)
  have o: "\<exists>a. fmlookup (rl_owners r) i = Some a \<and> same_owner a ow" if "fmlookup (rl_owners r') i = Some ow" for i ow
    using owners [of i] that by (cases "fmlookup (rl_owners r) i") auto
  have o': "\<exists>b. fmlookup (rl_owners r') i = Some b \<and> same_owner a b" if "fmlookup (rl_owners r) i = Some a" for i a
    using owners [of i] that by (cases "fmlookup (rl_owners r') i") auto
  have c: "\<exists>a. fmlookup (rl_conns r) i = Some a \<and> same_pty_conn a k" if "fmlookup (rl_conns r') i = Some k" for i k
    using conns [of i] that by (cases "fmlookup (rl_conns r) i") auto
  have c': "\<exists>b. fmlookup (rl_conns r') i = Some b \<and> same_pty_conn a b" if "fmlookup (rl_conns r) i = Some a" for i a
    using conns [of i] that by (cases "fmlookup (rl_conns r') i") auto
  show "timely (rl_log r')" using relay_okD(1) [OF ok] log by simp
  show "attached_ok r' x" if "x \<in> set (rl_log r')" for x
    using relay_okD(2) [OF ok, of x] that o' nxt log
    by (fastforce simp: attached_ok_def same_owner_def split: relay_log.splits option.splits)
  show "owner_ok r' i ow" if "fmlookup (rl_owners r') i = Some ow" for i ow
  proof -
    from o [OF that] obtain a where a: "fmlookup (rl_owners r) i = Some a" "same_owner a ow" by blast
    from relay_okD(3) [OF ok a(1)] obtain k where k: "i < rl_next r" "ow_ready a = (ow_PeerWS a \<noteq> None)"
      "fmlookup (rl_conns r) (ow_conn a) = Some k" "qc_HostID k = ow_HostID a" "qc_Generation k = ow_Generation a"
      unfolding owner_ok_def by blast
    have "(ow_stage ow \<noteq> Registered \<longrightarrow> ow_PeerWS ow = None) \<and> (Ended i \<in> set (rl_log r)) = (ow_down ow \<noteq> Up) \<and>
        (ow_down ow = TornDown \<longrightarrow> Browser i |\<in>| rl_closed r' \<and>
          (case ow_PeerWS ow of None \<Rightarrow> True | Some w \<Rightarrow> PeerSocket w |\<in>| rl_closed r'))"
    proof (cases "fmlookup (rl_owners r) i = Some ow")
      case True
      from relay_okD(3) [OF ok True] grow show ?thesis by (auto simp: owner_ok_def split: option.splits)
    qed (rule own [OF that])
    with c' [OF k(3)] k a(2) show ?thesis
      unfolding owner_ok_def log nxt same_owner_def same_pty_conn_def by metis
  qed
  show "\<exists>ow. fmlookup (rl_owners r') i = Some ow \<and> ow_StreamID ow = s \<and> ow_stage ow = Registered \<and> ow_PeerWS ow = None"
    if "fmlookup (rl_pending r') s = Some i" for s i
    using pend [OF that] relay_okD(4) [OF ok, of s i] o' unfolding same_owner_def by metis
  show "ConnEnded i \<in> set (rl_log r') \<longleftrightarrow> (\<exists>k. fmlookup (rl_conns r') i = Some k \<and> qc_cancelled k)" for i
    using relay_okD(5) [OF ok, of i] c [of i] c' [of i] unfolding log same_pty_conn_def by metis
  show "i < rl_next r'" if "fmlookup (rl_conns r') i = Some k" for i k
    using c [OF that] relay_okD(6) [OF ok] nxt by metis
  show "go_has (rl_owners r') i" if "Ended i \<in> set (rl_log r')" for i
    using relay_okD(7) [OF ok, of i] that o' log by (auto simp: go_has_def)
qed

lemmas relay_ops = on_owner_def on_pty_conn_def with_owner_def

lemma owner_fact:
  assumes "relay_ok r" and "fmlookup (rl_owners r) i = Some ow"
  shows "ow_stage ow \<noteq> Registered \<Longrightarrow> ow_PeerWS ow = None" and "(Ended i \<in> set (rl_log r)) = (ow_down ow \<noteq> Up)"
    and "ow_down ow = TornDown \<Longrightarrow> Browser i |\<in>| rl_closed r" and "i < rl_next r" and "ow_ready ow = (ow_PeerWS ow \<noteq> None)"
    and "\<lbrakk>ow_down ow = TornDown; ow_PeerWS ow = Some w\<rbrakk> \<Longrightarrow> PeerSocket w |\<in>| rl_closed r"
    and "\<exists>k. fmlookup (rl_conns r) (ow_conn ow) = Some k \<and> qc_HostID k = ow_HostID ow \<and> qc_Generation k = ow_Generation ow"
  using relay_okD(3) [OF assms] by (auto simp: owner_ok_def)

lemma quiet_owner:
  assumes ok: "relay_ok r" and ow: "fmlookup (rl_owners r) i = Some ow" and same: "same_owner ow ow'"
    and conns: "\<And>c. rel_option same_pty_conn (fmlookup (rl_conns r) c) (fmlookup cs c)" and grow: "rl_closed r |\<subseteq>| cl"
    and stage: "ow_stage ow' \<noteq> Registered \<Longrightarrow> ow_PeerWS ow = None" and down: "(ow_down ow' \<noteq> Up) = (ow_down ow \<noteq> Up)"
    and torn: "ow_down ow' = TornDown \<Longrightarrow> Browser i |\<in>| cl \<and> (\<forall>w. ow_PeerWS ow = Some w \<longrightarrow> PeerSocket w |\<in>| cl)"
    and pend: "\<And>s j. fmlookup p s = Some j \<Longrightarrow> fmlookup (rl_pending r) s = Some j \<or>
        j = i \<and> s = ow_StreamID ow \<and> ow_stage ow' = Registered \<and> ow_PeerWS ow = None"
  shows "relay_ok (r\<lparr>rl_owners := fmupd i ow' (rl_owners r), rl_pending := p, rl_active := a, rl_conns := cs, rl_closed := cl\<rparr>)"
proof (rule relay_ok_quiet [OF ok])
  have ws: "ow_PeerWS ow' = ow_PeerWS ow" "ow_StreamID ow' = ow_StreamID ow" using same by (simp_all add: same_owner_def)
  show "rel_option same_owner (fmlookup (rl_owners r) j)
      (fmlookup (rl_owners (r\<lparr>rl_owners := fmupd i ow' (rl_owners r), rl_pending := p, rl_active := a, rl_conns := cs, rl_closed := cl\<rparr>)) j)" for j
    using ow same by auto
  show "(ow_stage x \<noteq> Registered \<longrightarrow> ow_PeerWS x = None) \<and> (Ended j \<in> set (rl_log r)) = (ow_down x \<noteq> Up) \<and>
        (ow_down x = TornDown \<longrightarrow> Browser j |\<in>| rl_closed (r\<lparr>rl_owners := fmupd i ow' (rl_owners r), rl_pending := p,
            rl_active := a, rl_conns := cs, rl_closed := cl\<rparr>) \<and>
          (case ow_PeerWS x of None \<Rightarrow> True | Some w \<Rightarrow> PeerSocket w |\<in>| rl_closed (r\<lparr>rl_owners := fmupd i ow' (rl_owners r),
            rl_pending := p, rl_active := a, rl_conns := cs, rl_closed := cl\<rparr>)))"
    if "fmlookup (rl_owners (r\<lparr>rl_owners := fmupd i ow' (rl_owners r), rl_pending := p, rl_active := a, rl_conns := cs,
        rl_closed := cl\<rparr>)) j = Some x" "fmlookup (rl_owners r) j \<noteq> Some x" for j x
  proof -
    from that have j: "j = i" "x = ow'" by (simp_all split: if_splits)
    show ?thesis
      unfolding j using stage torn down owner_fact(2) [OF ok ow] by (cases "ow_PeerWS ow") (auto simp: ws)
  qed
  show "fmlookup (rl_pending r) s = Some j \<or> (\<exists>x. fmlookup (rl_owners (r\<lparr>rl_owners := fmupd i ow' (rl_owners r), rl_pending := p,
          rl_active := a, rl_conns := cs, rl_closed := cl\<rparr>)) j = Some x \<and> ow_StreamID x = s \<and> ow_stage x = Registered \<and> ow_PeerWS x = None)"
    if "fmlookup (rl_pending (r\<lparr>rl_owners := fmupd i ow' (rl_owners r), rl_pending := p, rl_active := a, rl_conns := cs,
        rl_closed := cl\<rparr>)) s = Some j" for s j
    using pend [of s j] that ws by auto
qed (use conns grow in simp_all)

text \<open>Every such step is an instance: the fields it leaves alone are written with their own values.\<close>

lemma quiet_owner_as:
  assumes "relay_ok r" and "fmlookup (rl_owners r) i = Some ow" and "same_owner ow ow'"
    and "r' = r\<lparr>rl_owners := fmupd i ow' (rl_owners r), rl_pending := p, rl_active := a, rl_conns := cs, rl_closed := cl\<rparr>"
    and "\<And>c. rel_option same_pty_conn (fmlookup (rl_conns r) c) (fmlookup cs c)" and "rl_closed r |\<subseteq>| cl"
    and "ow_stage ow' \<noteq> Registered \<Longrightarrow> ow_PeerWS ow = None" and "(ow_down ow' \<noteq> Up) = (ow_down ow \<noteq> Up)"
    and "ow_down ow' = TornDown \<Longrightarrow> Browser i |\<in>| cl \<and> (\<forall>w. ow_PeerWS ow = Some w \<longrightarrow> PeerSocket w |\<in>| cl)"
    and "\<And>s j. fmlookup p s = Some j \<Longrightarrow> fmlookup (rl_pending r) s = Some j \<or>
        j = i \<and> s = ow_StreamID ow \<and> ow_stage ow' = Registered \<and> ow_PeerWS ow = None"
  shows "relay_ok r'"
  unfolding assms(4) by (rule quiet_owner [OF assms(1-3,5-10)])

lemma quiet_steps:
  assumes ok: "relay_ok r"
  shows "relay_ok (ownPTY i r)" and "relay_ok (publish_pending i r)" and "relay_ok (teardown_unlist i r)"
    and "relay_ok (teardown_release i r)" and "relay_ok (teardown_close i r)" and "relay_ok (pty_close_flag c r)"
    and "relay_ok (pty_close_take c r)"
proof -
  note split = option.splits if_splits
  show "relay_ok (pty_close_flag c r)"
    by (rule relay_ok_quiet [OF ok]) (auto simp: pty_close_flag_def relay_ops same_pty_conn_def split: split)
  show "relay_ok (pty_close_take c r)"
    by (rule relay_ok_quiet [OF ok]) (auto simp: pty_close_take_def relay_ops same_pty_conn_def split: split)
  show "relay_ok (ownPTY i r)"
  proof (cases "\<exists>ow. fmlookup (rl_owners r) i = Some ow \<and> ow_stage ow = Checked")
    case True
    then obtain ow where ow: "fmlookup (rl_owners r) i = Some ow" "ow_stage ow = Checked" by blast
    note f = owner_fact [OF ok ow(1)]
    from f(7) obtain k where k: "fmlookup (rl_conns r) (ow_conn ow) = Some k" by blast
    show ?thesis
      by (rule quiet_owner_as [OF ok ow(1), where ow' = "ow\<lparr>ow_stage := Owned\<rparr>" and p = "rl_pending r" and a = "rl_active r" and
            cl = "rl_closed r" and cs = "fmupd (ow_conn ow) (k\<lparr>qc_ptys := fmupd (ow_StreamID ow) i (qc_ptys k)\<rparr>) (rl_conns r)"])
        (use f ow k in \<open>auto simp: ownPTY_def relay_ops same_owner_def same_pty_conn_def\<close>)
  qed (use ok in \<open>auto simp: ownPTY_def with_owner_def split: option.splits\<close>)
  show "relay_ok (publish_pending i r)"
  proof (cases "\<exists>ow. fmlookup (rl_owners r) i = Some ow \<and> ow_stage ow = Owned")
    case True
    then obtain ow where ow: "fmlookup (rl_owners r) i = Some ow" "ow_stage ow = Owned" by blast
    note f = owner_fact [OF ok ow(1)]
    show ?thesis
      by (rule quiet_owner_as [OF ok ow(1), where ow' = "ow\<lparr>ow_stage := Registered\<rparr>" and a = "rl_active r" and cl = "rl_closed r"
            and cs = "rl_conns r" and p = "fmupd (ow_StreamID ow) i (rl_pending r)"])
        (use f ow in \<open>simp_all add: publish_pending_def relay_ops same_owner_def split: if_splits\<close>)
  qed (use ok in \<open>auto simp: publish_pending_def with_owner_def split: option.splits\<close>)
  show "relay_ok (teardown_unlist i r)"
  proof (cases "\<exists>ow. fmlookup (rl_owners r) i = Some ow \<and> ow_down ow = Cancelled")
    case True
    then obtain ow where ow: "fmlookup (rl_owners r) i = Some ow" "ow_down ow = Cancelled" by blast
    note f = owner_fact [OF ok ow(1)]
    show ?thesis
      by (rule quiet_owner_as [OF ok ow(1), where ow' = "ow\<lparr>ow_down := Unlisted\<rparr>" and a = "fmdrop (ow_StreamID ow) (rl_active r)"
            and cl = "rl_closed r" and cs = "rl_conns r" and p = "fmdrop (ow_StreamID ow) (rl_pending r)"])
        (use f ow in \<open>simp_all add: teardown_unlist_def relay_ops same_owner_def split: if_splits\<close>)
  qed (use ok in \<open>auto simp: teardown_unlist_def with_owner_def split: option.splits\<close>)
  show "relay_ok (teardown_release i r)"
  proof (cases "\<exists>ow. fmlookup (rl_owners r) i = Some ow \<and> ow_down ow = Unlisted")
    case True
    then obtain ow where ow: "fmlookup (rl_owners r) i = Some ow" "ow_down ow = Unlisted" by blast
    note f = owner_fact [OF ok ow(1)]
    from f(7) obtain k where k: "fmlookup (rl_conns r) (ow_conn ow) = Some k" by blast
    show ?thesis
      by (rule quiet_owner_as [OF ok ow(1), where ow' = "ow\<lparr>ow_down := Released\<rparr>" and p = "rl_pending r" and a = "rl_active r" and
            cl = "rl_closed r" and cs = "fmupd (ow_conn ow) (k\<lparr>qc_ptys := fmdrop (ow_StreamID ow) (qc_ptys k)\<rparr>) (rl_conns r)"])
        (use f ow k in \<open>auto simp: teardown_release_def relay_ops same_owner_def same_pty_conn_def\<close>)
  qed (use ok in \<open>auto simp: teardown_release_def with_owner_def split: option.splits\<close>)
  show "relay_ok (teardown_close i r)"
  proof (cases "\<exists>ow. fmlookup (rl_owners r) i = Some ow \<and> ow_down ow = Released")
    case True
    then obtain ow where ow: "fmlookup (rl_owners r) i = Some ow" "ow_down ow = Released" by blast
    note f = owner_fact [OF ok ow(1)]
    show ?thesis
      by (rule quiet_owner_as [OF ok ow(1), where ow' = "ow\<lparr>ow_down := TornDown\<rparr>" and p = "rl_pending r" and a = "rl_active r" and
            cs = "rl_conns r" and cl = "finsert (Browser i) (case ow_PeerWS ow of None \<Rightarrow> rl_closed r | Some w \<Rightarrow> finsert (PeerSocket w) (rl_closed r))"])
        (use f ow in \<open>auto simp: teardown_close_def relay_ops same_owner_def split: option.splits\<close>)
  qed (use ok in \<open>auto simp: teardown_close_def with_owner_def split: option.splits\<close>)
qed

lemma begin_ok:
  assumes ok: "relay_ok r"
  shows "relay_ok (teardown_begin i r)"
proof (cases "\<exists>ow. fmlookup (rl_owners r) i = Some ow \<and> ow_down ow = Up")
  case True
  then obtain ow where ow: "fmlookup (rl_owners r) i = Some ow" "ow_down ow = Up" by blast
  have e: "teardown_begin i r = r\<lparr>rl_owners := fmupd i (ow\<lparr>ow_down := Cancelled\<rparr>) (rl_owners r), rl_log := Ended i # rl_log r\<rparr>"
    using ow by (simp add: teardown_begin_def relay_ops)
  show ?thesis
    unfolding e
  proof (rule relay_okI)
    let ?r = "r\<lparr>rl_owners := fmupd i (ow\<lparr>ow_down := Cancelled\<rparr>) (rl_owners r), rl_log := Ended i # rl_log r\<rparr>"
    show "timely (rl_log ?r)" using relay_okD(1) [OF ok] by simp
    show "attached_ok ?r x" if "x \<in> set (rl_log ?r)" for x
      using relay_okD(2) [OF ok, of x] that ow
      by (auto simp: attached_ok_def split: relay_log.splits option.splits)
    show "owner_ok ?r j a" if "fmlookup (rl_owners ?r) j = Some a" for j a
    proof (cases "j = i")
      case True
      with that have a: "a = ow\<lparr>ow_down := Cancelled\<rparr>" by simp
      from relay_okD(3) [OF ok ow(1)] show ?thesis unfolding a True owner_ok_def by (simp split: option.splits)
    next
      case False
      with that have "fmlookup (rl_owners r) j = Some a" by simp
      from relay_okD(3) [OF ok this] False show ?thesis unfolding owner_ok_def by (simp split: option.splits)
    qed
    show "\<exists>a. fmlookup (rl_owners ?r) j = Some a \<and> ow_StreamID a = s \<and> ow_stage a = Registered \<and> ow_PeerWS a = None"
      if "fmlookup (rl_pending ?r) s = Some j" for s j
      using relay_okD(4) [OF ok, of s j] that ow by (cases "j = i") simp_all
    show "ConnEnded c \<in> set (rl_log ?r) \<longleftrightarrow> (\<exists>k. fmlookup (rl_conns ?r) c = Some k \<and> qc_cancelled k)" for c
      using relay_okD(5) [OF ok, of c] by simp
    show "c < rl_next ?r" if "fmlookup (rl_conns ?r) c = Some k" for c k
      using relay_okD(6) [OF ok] that by simp
    show "go_has (rl_owners ?r) j" if "Ended j \<in> set (rl_log ?r)" for j
      using relay_okD(7) [OF ok, of j] that ow by (auto simp: go_has_def)
  qed
qed (use ok in \<open>auto simp: teardown_begin_def with_owner_def split: option.splits\<close>)

lemma cancel_ok:
  assumes ok: "relay_ok r"
  shows "relay_ok (pty_close_cancel c r)"
proof (cases "\<exists>k. fmlookup (rl_conns r) c = Some k \<and> qc_closed k \<and> \<not> qc_cancelled k")
  case True
  then obtain k where k: "fmlookup (rl_conns r) c = Some k" "qc_closed k" "\<not> qc_cancelled k" by blast
  have e: "pty_close_cancel c r = r\<lparr>rl_conns := fmupd c (k\<lparr>qc_cancelled := True\<rparr>) (rl_conns r), rl_log := ConnEnded c # rl_log r\<rparr>"
    using k by (simp add: pty_close_cancel_def on_pty_conn_def)
  show ?thesis
    unfolding e
  proof (rule relay_okI)
    let ?r = "r\<lparr>rl_conns := fmupd c (k\<lparr>qc_cancelled := True\<rparr>) (rl_conns r), rl_log := ConnEnded c # rl_log r\<rparr>"
    show "timely (rl_log ?r)" using relay_okD(1) [OF ok] by simp
    show "attached_ok ?r x" if "x \<in> set (rl_log ?r)" for x
      using relay_okD(2) [OF ok, of x] that by (auto simp: attached_ok_def split: relay_log.splits option.splits)
    show "owner_ok ?r j a" if "fmlookup (rl_owners ?r) j = Some a" for j a
      using relay_okD(3) [OF ok, of j a] that k by (auto simp: owner_ok_def)
    show "\<exists>a. fmlookup (rl_owners ?r) j = Some a \<and> ow_StreamID a = s \<and> ow_stage a = Registered \<and> ow_PeerWS a = None"
      if "fmlookup (rl_pending ?r) s = Some j" for s j
      using relay_okD(4) [OF ok, of s j] that by simp
    show "ConnEnded d \<in> set (rl_log ?r) \<longleftrightarrow> (\<exists>k. fmlookup (rl_conns ?r) d = Some k \<and> qc_cancelled k)" for d
      using relay_okD(5) [OF ok, of d] by auto
    show "d < rl_next ?r" if "fmlookup (rl_conns ?r) d = Some q" for d q
      using relay_okD(6) [OF ok, of d] that k by (auto split: if_splits)
    show "go_has (rl_owners ?r) j" if "Ended j \<in> set (rl_log ?r)" for j
      using relay_okD(7) [OF ok, of j] that by simp
  qed
qed (use ok in \<open>auto simp: pty_close_cancel_def split: option.splits\<close>)

lemma bump_ok:
  assumes ok: "relay_ok r" and "rl_next r \<le> n"
  shows "relay_ok (r\<lparr>rl_next := n\<rparr>)"
proof (rule relay_okI)
  show "attached_ok (r\<lparr>rl_next := n\<rparr>) x" if "x \<in> set (rl_log (r\<lparr>rl_next := n\<rparr>))" for x
    using relay_okD(2) [OF ok, of x] that assms(2) by (auto simp: attached_ok_def split: relay_log.splits option.splits)
  show "owner_ok (r\<lparr>rl_next := n\<rparr>) i a" if "fmlookup (rl_owners (r\<lparr>rl_next := n\<rparr>)) i = Some a" for i a
    using relay_okD(3) [OF ok, of i a] that assms(2) by (auto simp: owner_ok_def)
  show "c < rl_next (r\<lparr>rl_next := n\<rparr>)" if "fmlookup (rl_conns (r\<lparr>rl_next := n\<rparr>)) c = Some k" for c k
    using relay_okD(6) [OF ok, of c k] that assms(2) by simp
  show "\<exists>a. fmlookup (rl_owners (r\<lparr>rl_next := n\<rparr>)) j = Some a \<and> ow_StreamID a = s \<and> ow_stage a = Registered \<and> ow_PeerWS a = None"
    if "fmlookup (rl_pending (r\<lparr>rl_next := n\<rparr>)) s = Some j" for s j
    using relay_okD(4) [OF ok, of s j] that by simp
  show "ConnEnded d \<in> set (rl_log (r\<lparr>rl_next := n\<rparr>)) \<longleftrightarrow> (\<exists>k. fmlookup (rl_conns (r\<lparr>rl_next := n\<rparr>)) d = Some k \<and> qc_cancelled k)" for d
    using relay_okD(5) [OF ok, of d] by simp
qed (use relay_okD(1,7) [OF ok] in simp_all)

lemma register_ok:
  assumes ok: "relay_ok r"
  shows "relay_ok (register_check c target stream token r)"
proof (cases "\<exists>k. fmlookup (rl_conns r) c = Some k \<and> \<not> qc_closed k")
  case True
  then obtain k where k: "fmlookup (rl_conns r) c = Some k" "\<not> qc_closed k" by blast
  define ow where "ow = \<lparr>ow_StreamID = stream, ow_HostID = qc_HostID k, ow_Generation = qc_Generation k, ow_Target = target,
     ow_AttachToken = token, ow_conn = c, ow_ready = False, ow_PeerWS = None, ow_stage = Checked, ow_down = Up\<rparr>"
  define n where "n = rl_next r"
  have e: "register_check c target stream token r = r\<lparr>rl_owners := fmupd n ow (rl_owners r), rl_next := Suc n\<rparr>"
    using k by (simp add: register_check_def ow_def n_def)
  have fresh: "fmlookup (rl_owners r) n = None"
    using owner_fact(4) [OF ok, of n] by (cases "fmlookup (rl_owners r) n") (auto simp: n_def)
  then have no: "Ended n \<notin> set (rl_log r)" using relay_okD(7) [OF ok, of n] by (auto simp: go_has_def)
  have f: "ow_stage ow = Checked" "ow_PeerWS ow = None" "\<not> ow_ready ow" "ow_down ow = Up" "ow_conn ow = c"
    "ow_HostID ow = qc_HostID k" "ow_Generation ow = qc_Generation k" by (simp_all add: ow_def)
  show ?thesis
    unfolding e
  proof (rule relay_okI)
    let ?r = "r\<lparr>rl_owners := fmupd n ow (rl_owners r), rl_next := Suc n\<rparr>"
    show "timely (rl_log ?r)" using relay_okD(1) [OF ok] by simp
    show "attached_ok ?r x" if "x \<in> set (rl_log ?r)" for x
      using relay_okD(2) [OF ok, of x] that fresh by (auto simp: attached_ok_def n_def split: relay_log.splits option.splits)
    show "owner_ok ?r j a" if "fmlookup (rl_owners ?r) j = Some a" for j a
    proof (cases "j = n")
      case True
      with that have a: "a = ow" by simp
      show ?thesis unfolding a True owner_ok_def using f k no by simp
    next
      case False
      with that have "fmlookup (rl_owners r) j = Some a" by simp
      from relay_okD(3) [OF ok this] show ?thesis unfolding owner_ok_def n_def by (simp split: option.splits)
    qed
    show "\<exists>a. fmlookup (rl_owners ?r) j = Some a \<and> ow_StreamID a = s \<and> ow_stage a = Registered \<and> ow_PeerWS a = None"
      if "fmlookup (rl_pending ?r) s = Some j" for s j
      using relay_okD(4) [OF ok, of s j] that fresh by auto
    show "ConnEnded d \<in> set (rl_log ?r) \<longleftrightarrow> (\<exists>k. fmlookup (rl_conns ?r) d = Some k \<and> qc_cancelled k)" for d
      using relay_okD(5) [OF ok, of d] by simp
    show "d < rl_next ?r" if "fmlookup (rl_conns ?r) d = Some q" for d q
      using relay_okD(6) [OF ok, of d q] that by (simp add: n_def)
    show "go_has (rl_owners ?r) j" if "Ended j \<in> set (rl_log ?r)" for j
      using relay_okD(7) [OF ok, of j] that by (auto simp: go_has_def)
  qed
qed (use ok in \<open>auto simp: register_check_def split: option.splits\<close>)

lemma open_ok:
  assumes ok: "relay_ok r"
  shows "relay_ok (relay_step r (OpenConn host generation))"
proof -
  define n where "n = rl_next r"
  have fresh: "fmlookup (rl_conns r) n = None"
    using relay_okD(6) [OF ok, of n] by (cases "fmlookup (rl_conns r) n") (auto simp: n_def)
  define k where "k = \<lparr>qc_HostID = host, qc_Generation = generation, qc_closed = False, qc_cancelled = False,
    qc_ptys = fmempty, qc_closing = []\<rparr>"
  have k: "\<not> qc_cancelled k" by (simp add: k_def)
  have e: "relay_step r (OpenConn host generation) = r\<lparr>rl_conns := fmupd n k (rl_conns r), rl_next := Suc n\<rparr>"
    by (simp add: n_def k_def)
  show ?thesis
    unfolding e
  proof (rule relay_okI)
    let ?r = "r\<lparr>rl_conns := fmupd n k (rl_conns r), rl_next := Suc n\<rparr>"
    show "attached_ok ?r x" if "x \<in> set (rl_log ?r)" for x
      using relay_okD(2) [OF ok, of x] that by (auto simp: attached_ok_def n_def split: relay_log.splits option.splits)
    show "owner_ok ?r j a" if "fmlookup (rl_owners ?r) j = Some a" for j a
    proof -
      from that have "fmlookup (rl_owners r) j = Some a" by simp
      note f = relay_okD(3) [OF ok this]
      then obtain q where q: "fmlookup (rl_conns r) (ow_conn a) = Some q" "qc_HostID q = ow_HostID a"
        "qc_Generation q = ow_Generation a" by (auto simp: owner_ok_def)
      with fresh have "ow_conn a \<noteq> n" by auto
      with f q show ?thesis unfolding owner_ok_def n_def by (simp split: option.splits)
    qed
    show "\<exists>a. fmlookup (rl_owners ?r) j = Some a \<and> ow_StreamID a = s \<and> ow_stage a = Registered \<and> ow_PeerWS a = None"
      if "fmlookup (rl_pending ?r) s = Some j" for s j
      using relay_okD(4) [OF ok, of s j] that by simp
    show "ConnEnded d \<in> set (rl_log ?r) \<longleftrightarrow> (\<exists>k. fmlookup (rl_conns ?r) d = Some k \<and> qc_cancelled k)" for d
      using relay_okD(5) [OF ok, of d] fresh k by auto
    show "d < rl_next ?r" if "fmlookup (rl_conns ?r) d = Some q" for d q
      using relay_okD(6) [OF ok, of d q] that by (auto simp: n_def split: if_splits)
  qed (use relay_okD(1,7) [OF ok] in simp_all)
qed

text \<open>The socket of an attachment is new: no earlier attachment has its number.\<close>

lemma pending_complete_ok:
  assumes ok: "relay_ok r" and w: "w < rl_next r" and new: "\<And>i v c s h g t n. Attached i v c s h g t n \<in> set (rl_log r) \<Longrightarrow> v \<noteq> w"
  shows "relay_ok (snd (CompletePending stream host generation token session w r))"
proof (cases "fst (CompletePending stream host generation token session w r)")
  case False
  then have "snd (CompletePending stream host generation token session w r) = r"
    by (auto simp: CompletePending_def split: option.splits if_splits)
  with ok show ?thesis by simp
next
  case True
  then obtain i ow where p: "fmlookup (rl_pending r) stream = Some i" and ow: "fmlookup (rl_owners r) i = Some ow"
    and m: "ow_HostID ow = host" "ow_Generation ow = generation" "ow_AttachToken ow = token" "st_Session (ow_Target ow) = session"
    and live: "\<not> ctx_ended ow r"
    by (auto simp: CompletePending_def split: option.splits if_splits)
  define ow' where "ow' = ow\<lparr>ow_PeerWS := Some w, ow_ready := True\<rparr>"
  let ?x = "Attached i w (ow_conn ow) stream host generation token session"
  let ?r = "r\<lparr>rl_pending := fmdrop stream (rl_pending r), rl_active := fmupd stream i (rl_active r),
     rl_owners := fmupd i ow' (rl_owners r), rl_log := ?x # rl_log r\<rparr>"
  have e: "snd (CompletePending stream host generation token session w r) = ?r"
    using p ow m live by (simp add: CompletePending_def ow'_def)
  from relay_okD(4) [OF ok p] ow have st: "ow_StreamID ow = stream" "ow_stage ow = Registered" "ow_PeerWS ow = None" by simp_all
  note f = owner_fact [OF ok ow]
  from f(7) obtain k where k: "fmlookup (rl_conns r) (ow_conn ow) = Some k" by blast
  from live k have up: "ow_down ow = Up" "\<not> qc_cancelled k" by (simp_all add: ctx_ended_def)
  have ended: "Ended i \<notin> set (rl_log r)" "ConnEnded (ow_conn ow) \<notin> set (rl_log r)"
    using f(2) up k relay_okD(5) [OF ok, of "ow_conn ow"] by auto
  have once: "j \<noteq> i" if "Attached j v c s h g t n \<in> set (rl_log r)" for j v c s h g t n
    using relay_okD(2) [OF ok that] ow st(3) by (auto simp: attached_ok_def)
  show ?thesis
    unfolding e
  proof (rule relay_okI)
    show "timely (rl_log ?r)"
      using relay_okD(1) [OF ok] ended once new by (fastforce split: relay_log.splits)
    show "attached_ok ?r x" if "x \<in> set (rl_log ?r)" for x
    proof (cases "x = ?x")
      case True
      then show ?thesis using w m st by (simp add: attached_ok_def ow'_def)
    next
      case False
      with that have x: "x \<in> set (rl_log r)" by simp
      with relay_okD(2) [OF ok x] once show ?thesis
        by (fastforce simp: attached_ok_def split: relay_log.splits option.splits)
    qed
    show "owner_ok ?r j a" if "fmlookup (rl_owners ?r) j = Some a" for j a
    proof (cases "j = i")
      case True
      with that have a: "a = ow'" by simp
      from relay_okD(3) [OF ok ow] up st show ?thesis unfolding a True owner_ok_def ow'_def by simp
    next
      case False
      with that have "fmlookup (rl_owners r) j = Some a" by simp
      from relay_okD(3) [OF ok this] show ?thesis unfolding owner_ok_def by (simp split: option.splits)
    qed
    show "\<exists>a. fmlookup (rl_owners ?r) j = Some a \<and> ow_StreamID a = s \<and> ow_stage a = Registered \<and> ow_PeerWS a = None"
      if "fmlookup (rl_pending ?r) s = Some j" for s j
    proof -
      from that have s: "s \<noteq> stream" "fmlookup (rl_pending r) s = Some j" by (auto split: if_splits)
      from relay_okD(4) [OF ok s(2)] ow st s(1) show ?thesis by auto
    qed
    show "ConnEnded d \<in> set (rl_log ?r) \<longleftrightarrow> (\<exists>k. fmlookup (rl_conns ?r) d = Some k \<and> qc_cancelled k)" for d
      using relay_okD(5) [OF ok, of d] by simp
    show "d < rl_next ?r" if "fmlookup (rl_conns ?r) d = Some q" for d q
      using relay_okD(6) [OF ok, of d q] that by simp
    show "go_has (rl_owners ?r) j" if "Ended j \<in> set (rl_log ?r)" for j
      using relay_okD(7) [OF ok, of j] that by (auto simp: go_has_def)
  qed
qed

lemma attach_ok:
  assumes ok: "relay_ok r"
  shows "relay_ok (snd (HandlePeerPTY upgraded q r))"
proof -
  define w where "w = rl_next r"
  let ?r = "r\<lparr>rl_next := Suc w\<rparr>"
  have b: "relay_ok ?r" by (rule bump_ok [OF ok]) (simp add: w_def)
  have new: "v \<noteq> w" if "Attached i v c s h g t n \<in> set (rl_log ?r)" for i v c s h g t n
    using relay_okD(2) [OF ok, of "Attached i v c s h g t n"] that by (auto simp: attached_ok_def w_def)
  have c: "relay_ok (snd (CompletePending a h g t n w ?r))" for a h g t n
    by (rule pending_complete_ok [OF b]) (use new in simp_all)
  have d: "relay_ok (x\<lparr>rl_closed := finsert y (rl_closed x)\<rparr>)" if "relay_ok x" for x y
    by (rule relay_ok_quiet [OF that]) auto
  show ?thesis
    using ok c d unfolding HandlePeerPTY_def Let_def w_def [symmetric]
    by (auto split: option.splits prod.splits bool.splits) (metis snd_conv)+
qed

lemma relay_step_ok: "relay_ok r \<Longrightarrow> relay_ok (relay_step r e)"
proof (cases e)
  case (CloseNext c)
  assume ok: "relay_ok r"
  have "relay_ok (on_pty_conn c (\<lambda>k. k\<lparr>qc_closing := rest\<rparr>) r)" for rest
    by (rule relay_ok_quiet [OF ok]) (auto simp: on_pty_conn_def same_pty_conn_def split: option.splits if_splits)
  with ok CloseNext show ?thesis by (auto simp: pty_close_next_def begin_ok split: option.splits list.splits)
next
  case (OpenConn host generation)
  assume "relay_ok r"
  then show ?thesis unfolding OpenConn by (rule open_ok)
next
  case (TimerFires i)
  assume "relay_ok r"
  then show ?thesis using TimerFires by (auto simp: attach_timer_def with_owner_def begin_ok split: option.splits)
qed (simp_all add: quiet_steps register_ok attach_ok begin_ok cancel_ok)

interpretation relay: component NewPTYRelay relay_step relay_ok
proof unfold_locales
  show "relay_ok NewPTYRelay" by (simp add: relay_ok_def NewPTYRelay_def)
qed (rule relay_step_ok)

lemma timely_split:
  assumes "timely l" and "Attached i w c s h g t n \<in> set l"
  shows "\<exists>later earlier. l = later @ Attached i w c s h g t n # earlier \<and> Ended i \<notin> set earlier \<and> ConnEnded c \<notin> set earlier \<and>
    (\<forall>j v d s' h' g' t' n'. Attached j v d s' h' g' t' n' \<in> set (later @ earlier) \<longrightarrow> j \<noteq> i \<and> v \<noteq> w)"
  using assms
proof (induction l)
  case (Cons x l)
  show ?case
  proof (cases "x = Attached i w c s h g t n")
    case True
    with Cons.prems(1) show ?thesis by (intro exI [of _ "[]"] exI [of _ l]) fastforce
  next
    case False
    with Cons.prems have m: "Attached i w c s h g t n \<in> set l" by simp
    with Cons obtain a b where l: "l = a @ Attached i w c s h g t n # b" "Ended i \<notin> set b" "ConnEnded c \<notin> set b"
      "\<And>j v d s' h' g' t' n'. Attached j v d s' h' g' t' n' \<in> set (a @ b) \<Longrightarrow> j \<noteq> i \<and> v \<noteq> w" by fastforce
    have "j \<noteq> i \<and> v \<noteq> w" if "x = Attached j v d s' h' g' t' n'" for j v d s' h' g' t' n'
      using Cons.prems(1) m that by fastforce
    with l show ?thesis by (intro exI [of _ "x # a"] exI [of _ b]) auto
  qed
qed simp

text \<open>
  C28. Attachments are exact.  In every interleaving of registrations, attachments, timeouts,
  teardowns and closings of control connections, a data channel that was attached belongs
  to the stream with its identifier, host, generation, token and session; no other channel
  was ever attached to that stream, nor this one to another; when it was attached, neither
  the stream's teardown had begun nor its control connection been cancelled; and when the
  stream is torn down, both its sockets are closed.
\<close>

theorem pty_attachment_exact:
  assumes "r = foldl relay_step NewPTYRelay events"
    and "Attached i w c stream host generation token session \<in> set (rl_log r)"
  shows "\<exists>ow later earlier. fmlookup (rl_owners r) i = Some ow \<and> ow_PeerWS ow = Some w \<and> ow_conn ow = c \<and>
    (ow_StreamID ow, ow_HostID ow, ow_Generation ow, ow_AttachToken ow, st_Session (ow_Target ow)) =
      (stream, host, generation, token, session) \<and>
    rl_log r = later @ Attached i w c stream host generation token session # earlier \<and>
    Ended i \<notin> set earlier \<and> ConnEnded c \<notin> set earlier \<and>
    (\<forall>j v d s h g t n. Attached j v d s h g t n \<in> set (later @ earlier) \<longrightarrow> j \<noteq> i \<and> v \<noteq> w) \<and>
    (ow_down ow = TornDown \<longrightarrow> Browser i |\<in>| rl_closed r \<and> PeerSocket w |\<in>| rl_closed r)"
proof -
  have ok: "relay_ok r" unfolding assms(1) by (rule relay.run_inv)
  from relay_okD(2) [OF ok assms(2)] obtain ow where ow: "fmlookup (rl_owners r) i = Some ow" "ow_PeerWS ow = Some w"
    "ow_conn ow = c" "ow_StreamID ow = stream" "ow_HostID ow = host" "ow_Generation ow = generation"
    "ow_AttachToken ow = token" "st_Session (ow_Target ow) = session" by (auto simp: attached_ok_def split: option.splits)
  from timely_split [OF relay_okD(1) [OF ok] assms(2)] owner_fact(3,6) [OF ok ow(1)] ow show ?thesis by blast
qed

definition demo_attach :: attach_query where
  "demo_attach = \<lparr>aq_stream = ''q'', aq_host = ''h'', aq_token = ''t'', aq_session = ''s'', aq_generation = ''7''\<rparr>"

definition demo_registration :: "relay_event list" where
  "demo_registration = [OpenConn ''h'' 7, RegisterCheck 0 \<lparr>st_HostID = ''h'', st_Session = ''s''\<rparr> ''q'' ''t'', OwnPTY 1]"

lemma demo_generation: "parse_uint 64 ''7'' = Some 7"
  by (simp add: parse_uint_def byte_val_def)

lemma demo_attached:
  "rl_log (foldl relay_step NewPTYRelay (demo_registration @ [Publish 1, Attach True demo_attach])) =
     [Attached 1 2 0 ''q'' ''h'' 7 ''t'' ''s'']"
  by (simp add: demo_registration_def NewPTYRelay_def register_check_def ownPTY_def publish_pending_def relay_ops
      HandlePeerPTY_def demo_attach_def demo_generation Let_def CompletePending_def ctx_ended_def)

theorem pty_attachment_exact_witness:
  "\<exists>ow. fmlookup (rl_owners (foldl relay_step NewPTYRelay (demo_registration @ [Publish 1, Attach True demo_attach]))) 1 = Some ow \<and>
     ow_PeerWS ow = Some 2"
  using pty_attachment_exact [OF refl, of 1 2 0 "''q''" "''h''" 7 "''t''" "''s''"
      "demo_registration @ [Publish 1, Attach True demo_attach]"] unfolding demo_attached by auto

text \<open>
  A stream can stay listed for ever: when its control connection closes between \<open>ownPTY\<close> and
  the listing, the teardown has passed the list before the stream enters it, and no later
  teardown of the stream does anything.
\<close>

definition demo_owner :: "registration \<Rightarrow> teardown \<Rightarrow> pty_owner" where
  "demo_owner stage down = \<lparr>ow_StreamID = ''q'', ow_HostID = ''h'', ow_Generation = 7,
     ow_Target = \<lparr>st_HostID = ''h'', st_Session = ''s''\<rparr>, ow_AttachToken = ''t'', ow_conn = 0, ow_ready = False,
     ow_PeerWS = None, ow_stage = stage, ow_down = down\<rparr>"

lemma demo_owner_fields [simp]:
  "ow_stage (demo_owner x y) = x" "ow_down (demo_owner x y) = y" "ow_StreamID (demo_owner x y) = ''q''"
  "ow_PeerWS (demo_owner x y) = None" "ow_conn (demo_owner x y) = 0" "\<not> ow_ready (demo_owner x y)"
  "(demo_owner x y)\<lparr>ow_stage := x'\<rparr> = demo_owner x' y" "(demo_owner x y)\<lparr>ow_down := y'\<rparr> = demo_owner x y'"
  by (simp_all add: demo_owner_def)

lemma torn_down_stays_listed:
  "let r = foldl relay_step NewPTYRelay (demo_registration @ [CloseFlag 0, CloseCancel 0, CloseTake 0, CloseNext 0, TearUnlist 1,
      TearRelease 1, TearClose 1, Publish 1, TimerFires 1, TearDown 1, TearUnlist 1, TearRelease 1, TearClose 1])
   in fmlookup (rl_pending r) ''q'' = Some 1 \<and> map_option ow_down (fmlookup (rl_owners r) 1) = Some TornDown"
proof -
  define r0 where "r0 = foldl relay_step NewPTYRelay demo_registration"
  have r0: "fmlookup (rl_owners r0) 1 = Some (demo_owner Owned Up)"
    "\<exists>k. fmlookup (rl_conns r0) 0 = Some k \<and> \<not> qc_cancelled k \<and> qc_ptys k = fmupd ''q'' 1 fmempty \<and> qc_closing k = []"
    by (simp_all add: r0_def demo_registration_def NewPTYRelay_def register_check_def ownPTY_def relay_ops demo_owner_def)
  have keys: "go_keys (fmupd ''q'' (Suc 0) fmempty) = [''q'']"
    by (simp add: go_keys_def sorted_list_of_fset.rep_eq)
  define r1 where "r1 = foldl relay_step r0 [CloseFlag 0, CloseCancel 0, CloseTake 0]"
  have r1: "fmlookup (rl_owners r1) 1 = Some (demo_owner Owned Up)"
    "\<exists>k. fmlookup (rl_conns r1) 0 = Some k \<and> qc_closing k = [1]"
    using r0 by (auto simp: r1_def pty_close_flag_def pty_close_cancel_def pty_close_take_def on_pty_conn_def keys)
  define r2 where "r2 = foldl relay_step r1 [CloseNext 0, TearUnlist 1, TearRelease 1, TearClose 1]"
  have r2: "fmlookup (rl_owners r2) 1 = Some (demo_owner Owned TornDown)"
    using r1 by (auto simp: r2_def pty_close_next_def teardown_begin_def teardown_unlist_def teardown_release_def
        teardown_close_def relay_ops)
  define r3 where "r3 = relay_step r2 (Publish 1)"
  have r3: "fmlookup (rl_owners r3) 1 = Some (demo_owner Registered TornDown)" "fmlookup (rl_pending r3) ''q'' = Some 1"
    using r2 by (simp_all add: r3_def publish_pending_def relay_ops)
  have "foldl relay_step r3 [TimerFires 1, TearDown 1, TearUnlist 1, TearRelease 1, TearClose 1] = r3"
    using r3(1) by (simp add: attach_timer_def teardown_begin_def teardown_unlist_def teardown_release_def teardown_close_def
        with_owner_def)
  moreover have "foldl relay_step NewPTYRelay (demo_registration @ [CloseFlag 0, CloseCancel 0, CloseTake 0, CloseNext 0, TearUnlist 1,
      TearRelease 1, TearClose 1, Publish 1, TimerFires 1, TearDown 1, TearUnlist 1, TearRelease 1, TearClose 1]) =
      foldl relay_step r3 [TimerFires 1, TearDown 1, TearUnlist 1, TearRelease 1, TearClose 1]"
    by (simp add: r3_def r2_def r1_def r0_def del: relay_step.simps)
  ultimately show ?thesis using r3 by simp
qed

end
