(* ===== verification/Spec2Isabelle.thy ===== *)
theory Spec2Isabelle
  imports BrowserStream Projector Views SessionManager AgentProbe ActivityRing FleetHealth Ingress Identity
    PeerHub PtyFrame Passkeys WebPush ControlMode ServiceWait AgentSetup LocalApi ActionRouter PtyNode PtyRelay
begin

text \<open>
  A model of the Go backend of tmuxatlas and the theorems that make it correct.

  \<^bold>\<open>The program.\<close>  A node runs tmux; its backend lists the sessions, follows what the coding
  agents in the panes do, and serves this state to browsers.  A hub does the same for a fleet:
  nodes pair with it, keep one control connection each, report their sessions and events and
  execute the hub's requests.  State flows in one direction: tmux and the tool trackers feed
  producers, producers commit operations to a coordinator, the coordinator numbers the commits
  and sends deltas to its subscribers.  Around it stand the guards of the public entry points
  (passkeys, sessions, origin, admission), the stores on disk, and the updater.

  \<^bold>\<open>The canonical state\<close> (\<open>pkg/state\<close>).  \<open>Projection\<close> has the keys, entities and operations with
  their validation, \<open>Coordinator\<close> the run loop as a step function over commands in the order
  they are received, with its subscribers and their bounded queues, \<open>Replica\<close> what a subscriber
  reconstructs: the replica refines the coordinator, a commit is atomic, a subscriber is either
  delivered to or told to resynchronise.  \<open>BrowserStream\<close> (\<open>pkg/ws\<close>) has the web socket of a
  browser on top of it: its frames are a well-formed stream that shows the coordinator's state.
  \<open>Projector\<close> turns the hosts enumerated by the fleet
  into operations (the difference of two trees, complete and in an order that never dangles),
  \<open>Views\<close> has the adapters of the producers and the views of the browsers, \<open>SessionManager\<close> the
  cache of one host's sessions.

  \<^bold>\<open>Tools and activity\<close> (\<open>pkg/toolevents\<close>, \<open>pkg/activity\<close>, \<open>pkg/tmux\<close>, \<open>pkg/fleethealth\<close>).
  \<open>ToolTracker\<close> is the attention map with its fan-out and its promoter, \<open>ToolWatch\<close> the
  reconciler, the detector and the silence monitor over it, \<open>AgentProbe\<close> the process tree and
  prompt recognition, \<open>TmuxClient\<close> the commands of tmux and the parsing of its listings,
  \<open>ActivityRing\<close> the ring of output buckets, \<open>FleetHealth\<close> the health reasons of a host.
  \<open>Fanout\<close> is the subscriber list that several of them share.

  \<^bold>\<open>Identity and peers\<close> (\<open>pkg/identity\<close>, \<open>pkg/peer\<close>).  \<open>Identity\<close> has names, keys and signatures,
  \<open>Pairing\<close> the codes and the signed transcript, \<open>PeerStore\<close> the paired peers and their file,
  \<open>RuntimeProtocol\<close> the negotiation and the messages, \<open>Requests\<close> a connection and the tracker
  of its requests, \<open>Dispatch\<close> the node's dispatcher with its cache of outcomes, \<open>PeerManager\<close> the
  registry of hosts and connection generations.  \<open>PeerHub\<close> composes them into a transition
  system of a hub with any number of peers; its theorems quantify over all interleavings of
  handshakes, activations, messages, disconnections, revocations and pairings.  \<open>PeerClient\<close> is
  the node's end, \<open>PeerLink\<close> puts the two ends together: a paired node gets in, and a request
  is answered.  \<open>ActionRouter\<close> is the way of a user's action from its endpoint to tmux: a remote
  one does what a local one does.  \<open>PtyFrame\<close> has the frames and sequence numbers of terminal
  streams, \<open>PtyRelay\<close> their life between a browser and a node, \<open>PtyNode\<close> the node's
  terminals and their loops.

  \<^bold>\<open>Entry points\<close> (\<open>pkg/auth\<close>, \<open>pkg/ingress\<close>, \<open>pkg/httpguard\<close>).  \<open>AuthSessions\<close> has browser
  sessions and the origin and session guards, \<open>Passkeys\<close> the passkey store, the setup token and
  the ceremonies, \<open>Ingress\<close> the token buckets, leases and body limits.

  \<^bold>\<open>Stores and the updater\<close> (\<open>pkg/webpush\<close>, \<open>pkg/preferences\<close>, \<open>pkg/paths\<close>, \<open>pkg/commands/update\<close>).
  \<open>AtomicFile\<close> has the routines that replace a file, step by step with a fault at any step, and
  the states a crash can leave.  \<open>WebPush\<close> has the subscriptions, preferences and the sender,
  \<open>EnvFile\<close> the environment file, \<open>Update\<close> the journalled replacement of the executable with its
  recovery at start, \<open>UpdateCommand\<close> the release, its checksums and the command, and
  \<open>ServiceWait\<close> the loop that waits for the restarted service.  \<open>ServiceUnit\<close>
  (\<open>pkg/commands/install\<close>) has the user service: its unit file, the actions that install and remove
  it, and the discovery that finds it again.

  \<^bold>\<open>Following tmux\<close> (\<open>pkg/tmux/controlmode.go\<close>, \<open>discovery.go\<close>).  \<open>ControlMode\<close> has the notifications
  of the control client, the debounced refresh they cause, the reconnects and the polling, on the
  sessions, the activity and the silence monitor they drive.

  \<^bold>\<open>Hooks of the agents\<close> (\<open>pkg/commands/agent-setup\<close>, \<open>pkg/commands/notify\<close>, \<open>pkg/server/local.go\<close>).
  \<open>AgentSetup\<close> has the hook files of the supported agents and the edit of Codex's configuration,
  \<open>LocalApi\<close> the command the hooks run and the local socket it reports to, up to the tracker.

  \<^bold>\<open>Foundations.\<close>  \<open>Prelude\<close> has the types of time and words, the laws of finite maps and the
  locale \<open>component\<close> (an initial state, a step and an invariant) that the coordinator, tracker,
  request, cache, peer store, fan-out, hub, relay, terminal, session and passkey machines interpret.  \<open>GoText\<close>, \<open>GoStrings\<close>, \<open>Json\<close>
  and \<open>Bytes\<close> have the parts of Go's standard library the program uses: UTF-8, decimal and
  hexadecimal text, trimming and splitting, the JSON scanner, big-endian numbers.

  \<^bold>\<open>How Go is represented.\<close>
  \<^item> Structs are records and enumerations datatypes; a pointer that may be \<open>nil\<close> is an option;
    strings and byte slices are character lists; a map is a finite map, and where a loop ranges over
    one in an order that matters only for the order of its effects, the order is that of the
    sorted keys.
  \<^item> Revisions, generations and sequence numbers are 64-bit words and wrap.  Byte counters and
    lengths are unbounded.  Theorems about generations bound the number of events by \<open>2 ^ 64\<close>.
  \<^item> Instants are integers, in nanoseconds since Go's zero time; every operation that reads the clock
    takes the instant as an argument.  Token rates are rationals instead of floats.
  \<^item> Operations under a mutex are single steps.  Goroutines that interleave are event lists; a
    theorem over all event lists covers all interleavings of the critical sections.
  \<^item> Errors are sums or options, and a panic is a \<open>None\<close>; texts of error messages are kept where
    the program sends them and summarised where it only logs them.
  \<^item> Code that is not part of the program is an argument: Ed25519 and SHA-256, random bytes, the JSON
    codec, \<open>url.Parse\<close>, WebAuthn, the push service, tmux and the process table.  What a theorem
    needs of it is a hypothesis of the theorem.
  \<^item> A file is its content, or why it cannot be read.  The routines that write take the step that
    fails as an argument; the updater takes an oracle for every call of the operating system and
    the list of the states it visits, so that a crash is any of them.
  \<^item> Channels, connections, leases and requests are identified by numbers where Go compares
    pointers.

  \<^bold>\<open>Loops.\<close>  Loops over slices are structural recursions; loops over text that skip several bytes carry
  a measure.  The one loop that may run for ever, the wait for the restarted service, is a partial
  function into \<open>option\<close>, and its theorem says when it returns.  No definition uses fuel, so a theorem
  that names a result also says that the code returns.

  \<^bold>\<open>Not modelled.\<close>  The routes of the HTTP server and the terminal bridge of the browser
  (\<open>pkg/server\<close>, \<open>pkg/ws\<close>) are wiring of the components above to \<open>net/http\<close> and websockets, and
  the broadcasts of a hub without a coordinator are not used by the server; the
  processes of tmux's control mode and of terminals (\<open>pkg/tmux\<close>) and the pumps of websockets
  are I/O; the other commands (\<open>pkg/commands\<close> but those named above) read
  flags, prompt and print; the tickers that call the modelled passes only add their times.  The
  discovery of a service by \<open>launchd\<close> walks the tokens of an XML decoder, and the updater's
  command takes the discovered service and the answer of the wait as arguments.  The web client
  and the scripts are not Go.
\<close>

end
